(* ===== verification/Prelude.thy ===== *)
theory Prelude
  imports Main "HOL-Library.Word" "HOL-Library.AList" "HOL-Library.Product_Lexorder"
    "HOL-Library.List_Lexorder" "HOL-Library.Char_ord" "HOL-Library.Multiset"
begin

text \<open>
  The vocabulary the components share: Go's basic types and errors, the sum-valued results of
  fallible code, Go maps as association lists with distinct keys, the iteration order of a map,
  big-endian integers, decimal and hexadecimal text, and the generic lemmas about them.

  Conventions of the whole development.
  \<^item> A Go \<open>string\<close> is a \<open>string\<close>: a list of \<open>char\<close>, one \<open>char\<close> per byte.
  \<^item> A Go \<open>error\<close> result is an \<open>error option\<close> (\<open>None\<close> is \<open>nil\<close>); a result \<open>(T, error)\<close> is
    \<open>error + T\<close>, as no caller reads the value beside an error.
  \<^item> A \<open>context.Context\<close> is what its \<open>Err()\<close> returns, an \<open>error option\<close>, during the operation.
  \<^item> A \<open>time.Time\<close> is an \<open>int\<close>, nanoseconds since Go's zero time, so that \<open>IsZero\<close> is \<open>= 0\<close>; a
    \<open>time.Duration\<close> is an \<open>int\<close>, nanoseconds; \<open>UTC()\<close> does not change the instant.
  \<^item> Go's \<open>int\<close> counters (lengths, priorities, delivery counts) are \<open>int\<close> or \<open>nat\<close>; every
    \<open>uint8/16/32/64\<close> is a word of that width and wraps.
\<close>

section \<open>Types\<close>

type_synonym byte = "8 word"
type_synonym time = int
type_synonym duration = int

datatype error =
    New string                          \<comment> \<open>\<open>errors.New(s)\<close>\<close>
  | Wrap string error                   \<comment> \<open>\<open>fmt.Errorf("s: %w", err)\<close>\<close>
  | Errorf string "string list"         \<comment> \<open>\<open>fmt.Errorf(s, args...)\<close>, arguments rendered\<close>
  | ErrConflictText string              \<comment> \<open>storage \<open>errConflict(s)\<close>\<close>
  | ErrAddressNotFound | ErrAddressConflict
  | ErrMessageNotFound
  | ErrTransactionNotFound
  | EOF | ErrUnexpectedEOF
  | ContextErr string                   \<comment> \<open>a cancelled or expired context\<close>
  | Panic string                        \<comment> \<open>a Go run-time panic\<close>
  | OutOfFuel                           \<comment> \<open>a bounded recursion of the model ran out\<close>

type_synonym ctx = "error option"

text \<open>\<open>errors.Is(err, target)\<close> for a sentinel target: look through the wrappers.\<close>

fun errors_Is :: "error \<Rightarrow> error \<Rightarrow> bool" where
  "errors_Is (Wrap s e) t = (Wrap s e = t \<or> errors_Is e t)"
| "errors_Is e t = (e = t)"

definition is_panic :: "error \<Rightarrow> bool" where
  "is_panic e = (case e of Panic _ \<Rightarrow> True | _ \<Rightarrow> False)"

section \<open>Fallible steps\<close>

text \<open>
  \<open>tryE m k\<close> is \<open>x, err := m; if err != nil { return err }; k(x)\<close>; \<open>guardE e m\<close> is
  \<open>if err := e; err != nil { return err }; m\<close>.
\<close>

definition tryE :: "error + 'a \<Rightarrow> ('a \<Rightarrow> error + 'b) \<Rightarrow> error + 'b" where
  "tryE m k = (case m of Inl e \<Rightarrow> Inl e | Inr x \<Rightarrow> k x)"

definition guardE :: "error option \<Rightarrow> error + 'b \<Rightarrow> error + 'b" where
  "guardE e m = (case e of Some x \<Rightarrow> Inl x | None \<Rightarrow> m)"

section \<open>Go maps\<close>

text \<open>
  A Go map is an association list whose keys are distinct; \<open>range\<close> visits its entries in an
  unspecified order, so every operation that ranges over a map takes the order as an argument, a
  function from the entries to a permutation of them (\<open>valid_range\<close>).
\<close>

type_synonym ('k, 'v) gomap = "('k \<times> 'v) list"
type_synonym ('k, 'v) order = "('k, 'v) gomap \<Rightarrow> ('k, 'v) gomap"

abbreviation get :: "('k, 'v) gomap \<Rightarrow> 'k \<Rightarrow> 'v option" where
  "get \<equiv> map_of"

abbreviation put :: "'k \<Rightarrow> 'v \<Rightarrow> ('k, 'v) gomap \<Rightarrow> ('k, 'v) gomap" where
  "put \<equiv> AList.update"

abbreviation del :: "'k \<Rightarrow> ('k, 'v) gomap \<Rightarrow> ('k, 'v) gomap" where
  "del \<equiv> AList.delete"

definition wf_map :: "('k, 'v) gomap \<Rightarrow> bool" where
  "wf_map m = distinct (map fst m)"

definition valid_range :: "('k, 'v) order \<Rightarrow> bool" where
  "valid_range r = (\<forall>m. mset (r m) = mset m)"

text \<open>\<open>m[k]\<close> of a string-valued map: the zero value when the key is missing.\<close>

definition get_string :: "('k, string) gomap \<Rightarrow> 'k \<Rightarrow> string" where
  "get_string m k = (case get m k of Some v \<Rightarrow> v | None \<Rightarrow> '''')"

section \<open>Bytes and text\<close>

definition byte_of_char :: "char \<Rightarrow> byte" where
  "byte_of_char c = of_char c"

definition char_of_byte :: "byte \<Rightarrow> char" where
  "char_of_byte b = char_of (unat b)"

abbreviation bytes_of_string :: "string \<Rightarrow> byte list" where
  "bytes_of_string s \<equiv> map byte_of_char s"

abbreviation string_of_bytes :: "byte list \<Rightarrow> string" where
  "string_of_bytes b \<equiv> map char_of_byte b"

text \<open>\<open>encoding/binary.BigEndian\<close>: \<open>put_be k n\<close> is the \<open>k\<close> low bytes of \<open>n\<close>, most significant first.\<close>

fun put_be :: "nat \<Rightarrow> nat \<Rightarrow> byte list" where
  "put_be 0 n = []"
| "put_be (Suc k) n = put_be k (n div 256) @ [word_of_nat (n mod 256)]"

definition get_be :: "byte list \<Rightarrow> nat" where
  "get_be bs = foldl (\<lambda>a b. 256 * a + unat b) 0 bs"

definition PutUint16 :: "16 word \<Rightarrow> byte list" where "PutUint16 x = put_be 2 (unat x)"
definition PutUint32 :: "32 word \<Rightarrow> byte list" where "PutUint32 x = put_be 4 (unat x)"
definition PutUint64 :: "64 word \<Rightarrow> byte list" where "PutUint64 x = put_be 8 (unat x)"
definition Uint16 :: "byte list \<Rightarrow> 16 word" where "Uint16 bs = word_of_nat (get_be (take 2 bs))"
definition Uint32 :: "byte list \<Rightarrow> 32 word" where "Uint32 bs = word_of_nat (get_be (take 4 bs))"
definition Uint64 :: "byte list \<Rightarrow> 64 word" where "Uint64 bs = word_of_nat (get_be (take 8 bs))"

text \<open>\<open>copy(dst[k:], src)\<close>: overwrites as many bytes as fit.\<close>

definition copy_at :: "nat \<Rightarrow> 'a list \<Rightarrow> 'a list \<Rightarrow> 'a list" where
  "copy_at k src dst = take k dst @ take (length dst - k) src @ drop (k + length src) dst"

text \<open>\<open>%d\<close> of a non-negative integer and \<open>hex.EncodeToString\<close>.\<close>

fun dec :: "nat \<Rightarrow> string" where
  "dec n = (if n < 10 then [char_of (48 + n)] else dec (n div 10) @ [char_of (48 + n mod 10)])"

declare dec.simps [simp del]

definition hex_digit :: "nat \<Rightarrow> char" where
  "hex_digit n = (if n < 10 then char_of (48 + n) else char_of (87 + n))"

fun hex :: "byte list \<Rightarrow> string" where
  "hex [] = ''''"
| "hex (b # bs) = hex_digit (unat b div 16) # hex_digit (unat b mod 16) # hex bs"

text \<open>
  \<open>bytes.Split\<close> and \<open>strings.Split\<close> at a one-byte separator: \<open>n\<close> separators give \<open>n + 1\<close> parts.
\<close>

fun split_on :: "'a \<Rightarrow> 'a list \<Rightarrow> 'a list list" where
  "split_on c [] = [[]]"
| "split_on c (x # xs) =
     (if x = c then [] # split_on c xs
      else case split_on c xs of [] \<Rightarrow> [[x]] | p # ps \<Rightarrow> (x # p) # ps)"

text \<open>
  \<open>string(rune(x))\<close>: the UTF-8 encoding of a code point; a surrogate half or a value that is no
  code point becomes U+FFFD.
\<close>

definition valid_rune :: "int \<Rightarrow> bool" where
  "valid_rune r = (0 \<le> r \<and> r < 0xD800 \<or> 0xE000 \<le> r \<and> r \<le> 0x10FFFF)"

definition utf8 :: "nat \<Rightarrow> string" where
  "utf8 r =
    (if r < 0x80 then [char_of r]
     else if r < 0x800 then [char_of (0xC0 + r div 64), char_of (0x80 + r mod 64)]
     else if r < 0x10000 then
       [char_of (0xE0 + r div 4096), char_of (0x80 + r div 64 mod 64), char_of (0x80 + r mod 64)]
     else [char_of (0xF0 + r div 262144), char_of (0x80 + r div 4096 mod 64),
           char_of (0x80 + r div 64 mod 64), char_of (0x80 + r mod 64)])"

definition string_of_rune :: "int \<Rightarrow> string" where
  "string_of_rune r = (if valid_rune r then utf8 (nat r) else utf8 0xFFFD)"

text \<open>\<open>t.Sub(u)\<close>: the difference, saturated to the range of a duration.\<close>

definition time_Sub :: "time \<Rightarrow> time \<Rightarrow> duration" where
  "time_Sub t u = max (- (2 ^ 63)) (min (2 ^ 63 - 1) (t - u))"

text \<open>
  Identifiers drawn from \<open>crypto/rand\<close>: the argument is what the read of the random source
  returned, \<open>None\<close> when it failed.
\<close>

definition random_id :: "string \<Rightarrow> byte list option \<Rightarrow> error + string" where
  "random_id prefix r =
     (case r of None \<Rightarrow> Inl (New ''random source'') | Some b \<Rightarrow> Inr (prefix @ ''_'' @ hex b))"

section \<open>Collections of simplification rules\<close>

named_theorems result_simps \<open>unfolding of fallible steps\<close>
named_theorems map_simps \<open>Go maps\<close>

section \<open>Lemmas on results\<close>

lemma tryE_simps [simp, result_simps]:
  "tryE (Inl e) k = Inl e"
  "tryE (Inr x) k = k x"
  by (simp_all add: tryE_def)

lemma guardE_simps [simp, result_simps]:
  "guardE None m = m"
  "guardE (Some e) m = Inl e"
  by (simp_all add: guardE_def)

lemma tryE_Inr_iff: "tryE m k = Inr y \<longleftrightarrow> (\<exists>x. m = Inr x \<and> k x = Inr y)"
  by (cases m) auto

lemma tryE_Inl_iff: "tryE m k = Inl e \<longleftrightarrow> m = Inl e \<or> (\<exists>x. m = Inr x \<and> k x = Inl e)"
  by (cases m) auto

lemma guardE_Inr_iff: "guardE g m = Inr y \<longleftrightarrow> g = None \<and> m = Inr y"
  by (cases g) auto

lemma guardE_Inl_iff: "guardE g m = Inl e \<longleftrightarrow> g = Some e \<or> g = None \<and> m = Inl e"
  by (cases g) auto

lemma tryE_cong [fundef_cong]:
  "m = m' \<Longrightarrow> (\<And>x. m' = Inr x \<Longrightarrow> k x = k' x) \<Longrightarrow> tryE m k = tryE m' k'"
  by (cases m') auto

lemmas result_iffs = tryE_Inr_iff tryE_Inl_iff guardE_Inr_iff guardE_Inl_iff

section \<open>Lemmas on Go maps\<close>

lemma get_put [map_simps]: "get (put k v m) k' = (if k' = k then Some v else get m k')"
  by (simp add: update_conv')

lemma get_del [map_simps]: "get (del k m) k' = (if k' = k then None else get m k')"
  by (simp add: delete_conv')

lemma wf_map_Nil [simp]: "wf_map []"
  by (simp add: wf_map_def)

lemma wf_map_put [simp]: "wf_map m \<Longrightarrow> wf_map (put k v m)"
  by (simp add: wf_map_def distinct_update)

lemma wf_map_del [simp]: "wf_map m \<Longrightarrow> wf_map (del k m)"
  by (simp add: wf_map_def distinct_delete)

lemma get_None_keys: "get m k = None \<longleftrightarrow> k \<notin> fst ` set m"
  by (simp add: map_of_eq_None_iff)

lemma wf_map_get_iff: "wf_map m \<Longrightarrow> get m k = Some v \<longleftrightarrow> (k, v) \<in> set m"
  by (auto simp: wf_map_def)

lemma put_new: "k \<notin> fst ` set m \<Longrightarrow> put k v m = m @ [(k, v)]"
  by (induction m) auto

lemma mset_put_new: "get m k = None \<Longrightarrow> mset (put k v m) = add_mset (k, v) (mset m)"
  by (simp add: get_None_keys put_new)

lemma length_put: "length (put k v m) = (if get m k = None then Suc (length m) else length m)"
  by (induction m) auto

lemma length_del_le: "length (del k m) \<le> length m"
  by (rule length_delete_le)

lemma valid_range_set: "valid_range r \<Longrightarrow> set (r m) = set m"
  by (metis valid_range_def set_mset_mset)

lemma valid_range_length: "valid_range r \<Longrightarrow> length (r m) = length m"
  by (metis valid_range_def size_mset)

lemma valid_range_wf: "valid_range r \<Longrightarrow> wf_map m \<Longrightarrow> wf_map (r m)"
  unfolding wf_map_def valid_range_def by (metis mset_eq_imp_distinct_iff mset_map)

lemma valid_range_id [simp]: "valid_range id" "valid_range (\<lambda>m. m)"
  by (simp_all add: valid_range_def)

lemma valid_range_rev [simp]: "valid_range rev"
  by (simp add: valid_range_def)

section \<open>Lemmas on bytes\<close>

lemma length_put_be [simp]: "length (put_be k n) = k"
  by (induction k arbitrary: n) auto

lemma get_be_snoc: "get_be (bs @ [b]) = 256 * get_be bs + unat b"
  by (simp add: get_be_def)

lemma unat_byte_of_nat: "unat (word_of_nat (n mod 256) :: byte) = n mod 256"
  by (simp add: unat_of_nat)

lemma get_put_be: "get_be (put_be k n) = n mod 256 ^ k"
proof (induction k arbitrary: n)
  case 0
  then show ?case by (simp add: get_be_def)
next
  case (Suc k)
  then show ?case
    by (simp add: get_be_snoc unat_byte_of_nat mod_mult2_eq)
qed

lemma byte_bound: "unat (b :: byte) < 256"
  using unsigned_less [of b] by simp

lemma put_get_be: "length bs = k \<Longrightarrow> put_be k (get_be bs) = bs"
proof (induction bs arbitrary: k rule: rev_induct)
  case Nil
  then show ?case by simp
next
  case (snoc b bs)
  then show ?case
    using byte_bound [of b] by (auto simp: get_be_snoc)
qed

lemma get_be_bound: "get_be bs < 256 ^ length bs"
proof (induction bs rule: rev_induct)
  case Nil
  then show ?case by (simp add: get_be_def)
next
  case (snoc b bs)
  then show ?case
    using byte_bound [of b] by (auto simp: get_be_snoc)
qed

lemma word_bounds:
  "unat (a :: 16 word) < 65536"
  "unat (b :: 32 word) < 4294967296"
  "unat (c :: 64 word) < 18446744073709551616"
  using unsigned_less [of a] unsigned_less [of b] unsigned_less [of c] by simp_all

lemma Uint16_PutUint16 [simp]: "Uint16 (PutUint16 x @ r) = x"
  using word_bounds(1) [of x] by (simp add: Uint16_def PutUint16_def get_put_be)

lemma Uint32_PutUint32 [simp]: "Uint32 (PutUint32 x @ r) = x"
  using word_bounds(2) [of x] by (simp add: Uint32_def PutUint32_def get_put_be)

lemma Uint64_PutUint64 [simp]: "Uint64 (PutUint64 x @ r) = x"
  using word_bounds(3) [of x] by (simp add: Uint64_def PutUint64_def get_put_be)

lemma length_PutUint [simp]:
  "length (PutUint16 a) = 2" "length (PutUint32 b) = 4" "length (PutUint64 c) = 8"
  by (simp_all add: PutUint16_def PutUint32_def PutUint64_def)

lemma PutUint16_Uint16: "length bs = 2 \<Longrightarrow> PutUint16 (Uint16 bs) = bs"
  using get_be_bound [of bs]
  by (simp add: PutUint16_def Uint16_def unat_of_nat put_get_be)

lemma PutUint32_Uint32: "length bs = 4 \<Longrightarrow> PutUint32 (Uint32 bs) = bs"
  using get_be_bound [of bs]
  by (simp add: PutUint32_def Uint32_def unat_of_nat put_get_be)

lemma unat_of_char: "unat (of_char c :: byte) = of_char c"
proof -
  have "(of_char c :: byte) = word_of_nat (of_char c)"
    by (simp add: of_char_def of_bool_def split: char.split)
  then show ?thesis by (simp add: unat_of_nat)
qed

lemma char_of_byte_of_char [simp]: "char_of_byte (byte_of_char c) = c"
  by (simp add: char_of_byte_def byte_of_char_def unat_of_char)

lemma char_byte_comp [simp]: "char_of_byte \<circ> byte_of_char = id"
  by (simp add: fun_eq_iff)

section \<open>Splitting and joining\<close>

lemma split_on_nonempty [simp]: "split_on c xs \<noteq> []"
  by (induction xs) (auto split: list.splits)

text \<open>The parts contain no separator, and joining them with separators gives the text back.\<close>

fun join_with :: "'a \<Rightarrow> 'a list list \<Rightarrow> 'a list" where
  "join_with c [] = []"
| "join_with c [p] = p"
| "join_with c (p # ps) = p @ c # join_with c ps"

lemma join_with_Cons: "ps \<noteq> [] \<Longrightarrow> join_with c (p # ps) = p @ c # join_with c ps"
  by (cases ps) auto

lemma split_on_join: "join_with c (split_on c xs) = xs"
proof (induction xs)
  case Nil
  then show ?case by simp
next
  case (Cons x xs)
  then show ?case
    by (cases "split_on c xs"; cases "tl (split_on c xs)") (auto simp: join_with_Cons)
qed

lemma split_on_parts: "p \<in> set (split_on c xs) \<Longrightarrow> c \<notin> set p"
  by (induction xs arbitrary: p) (auto split: list.splits if_splits)

lemma split_on_plain: "c \<notin> set p \<Longrightarrow> split_on c p = [p]"
  by (induction p) auto

lemma split_on_append: "c \<notin> set p \<Longrightarrow> split_on c (p @ c # xs) = p # split_on c xs"
  by (induction p) auto

text \<open>A separator that is absent from both prefixes determines them.\<close>

lemma separator_inject:
  assumes "p @ c # x = q @ c # y" "c \<notin> set p" "c \<notin> set q"
  shows "p = q \<and> x = y"
proof -
  have "takeWhile (\<lambda>z. z \<noteq> c) (p @ c # x) = p" "takeWhile (\<lambda>z. z \<noteq> c) (q @ c # y) = q"
    using assms(2,3) by (auto simp: takeWhile_append2 takeWhile_tail)
  with assms(1) show ?thesis by auto
qed

section \<open>UTF-8 is injective\<close>

lemma char_of_inj: "a < 256 \<Longrightarrow> b < 256 \<Longrightarrow> (char_of a = char_of b) = (a = (b :: nat))"
  by (metis of_char_of mod_less)

lemma div_mod_64: "r div 64 = s div 64 \<Longrightarrow> r mod 64 = s mod 64 \<Longrightarrow> r = (s :: nat)"
  by (metis div_mult_mod_eq)

lemma length_utf8: "length (utf8 r) =
    (if r < 0x80 then 1 else if r < 0x800 then 2 else if r < 0x10000 then 3 else 4)"
  by (simp add: utf8_def)

lemma utf8_inj_bmp:
  assumes "r < 0x10000" "s < 0x10000" "utf8 r = utf8 s"
  shows "r = s"
proof -
  have len: "(r < 0x80) = (s < 0x80)" "(r < 0x800) = (s < 0x800)"
    using arg_cong [OF assms(3), of length] assms(1,2)
    by (simp_all add: length_utf8 split: if_splits)
  consider (1) "s < 0x80" | (2) "\<not> s < 0x80" "s < 0x800" | (3) "\<not> s < 0x800" by linarith
  then show ?thesis
  proof cases
    case 1
    with assms len show ?thesis by (simp add: utf8_def char_of_inj)
  next
    case 2
    then have small: "r div 64 < 32" "s div 64 < 32" using len by auto
    have "\<not> r < 0x80" "r < 0x800" using 2 len by auto
    with 2 assms(3) have "char_of (0xC0 + r div 64) = char_of (0xC0 + s div 64)"
      "char_of (0x80 + r mod 64) = char_of (0x80 + s mod 64)"
      by (simp_all only: utf8_def if_False if_True list.inject)
    then show ?thesis
      using small div_mod_64 [of r s] by (simp add: char_of_inj del: char_of_eq_iff)
  next
    case 3
    have small: "r div 4096 < 16" "s div 4096 < 16" using assms by auto
    have "\<not> r < 0x80" "\<not> s < 0x80" "\<not> r < 0x800" using 3 len by auto
    with 3 assms have "char_of (0xE0 + r div 4096) = char_of (0xE0 + s div 4096)"
      "char_of (0x80 + r div 64 mod 64) = char_of (0x80 + s div 64 mod 64)"
      "char_of (0x80 + r mod 64) = char_of (0x80 + s mod 64)"
      by (simp_all only: utf8_def if_False if_True list.inject)
    then have "r div 4096 = s div 4096" "r div 64 mod 64 = s div 64 mod 64" "r mod 64 = s mod 64"
      using small by (simp_all add: char_of_inj)
    moreover have "n div 4096 = n div 64 div 64" for n :: nat
      by (simp add: div_mult2_eq [symmetric])
    ultimately show ?thesis using div_mod_64 by metis
  qed
qed

section \<open>Decimal text is injective\<close>

lemma dec_nonempty [simp]: "dec n \<noteq> []" "[] \<noteq> dec n"
  by (simp_all add: dec.simps [of n])

lemma dec_digits: "c \<in> set (dec n) \<Longrightarrow> \<exists>k < 10. c = char_of (48 + k :: nat)"
proof (induction n rule: dec.induct)
  case (1 n)
  show ?case
  proof (cases "n < 10")
    case True
    with "1.prems" show ?thesis by (auto simp: dec.simps [of n])
  next
    case False
    with "1.prems" have "c \<in> set (dec (n div 10)) \<or> c = char_of (48 + n mod 10)"
      by (auto simp: dec.simps [of n])
    then show ?thesis
      using "1.IH" [OF False] by (auto intro: exI [of _ "n mod 10"])
  qed
qed

lemma dec_no_colon: "CHR '':'' \<notin> set (dec n)"
proof
  assume "CHR '':'' \<in> set (dec n)"
  then obtain k where k: "k < 10" "CHR '':'' = char_of (48 + k :: nat)"
    using dec_digits by blast
  then have "of_char (CHR '':'') = (48 + k :: nat)"
    by (simp add: of_char_of)
  with k(1) show False by simp
qed

lemma dec_inj: "dec m = dec n \<Longrightarrow> m = n"
proof (induction m arbitrary: n rule: dec.induct)
  case (1 m)
  note eq = "1.prems" [unfolded dec.simps [of m] dec.simps [of n]]
  show ?case
  proof (cases "m < 10 \<or> n < 10")
    case True
    with eq show ?thesis
      by (auto simp: char_of_inj split: if_splits)
  next
    case False
    with eq have "dec (m div 10) = dec (n div 10)" and "m mod 10 = n mod 10"
      by (auto simp: char_of_inj)
    moreover from this False have "m div 10 = n div 10" using "1.IH" by simp
    ultimately show ?thesis by (metis div_mult_mod_eq)
  qed
qed

end
