(* ===== verification/Frame.thy ===== *)
theory Frame
  imports Prelude
begin

text \<open>
  The AMQP domain package (\<open>internal/amqp/domain\<close>): frame layout, the protocol header and
  performatives. A frame is parsed from and marshalled to bytes; a performative is a descriptor
  with a list of dynamically typed fields, read through total accessors and checked by
  \<open>Validate\<close>.
\<close>

section \<open>Constants\<close>

definition FrameHeaderSize :: nat where "FrameHeaderSize = 8"
definition FrameTypeAMQP :: byte where "FrameTypeAMQP = 0"
definition FrameTypeSASL :: byte where "FrameTypeSASL = 1"
definition DescriptorOpen :: byte where "DescriptorOpen = 0x10"
definition DescriptorBegin :: byte where "DescriptorBegin = 0x11"
definition DescriptorAttach :: byte where "DescriptorAttach = 0x12"
definition DescriptorFlow :: byte where "DescriptorFlow = 0x13"
definition DescriptorTransfer :: byte where "DescriptorTransfer = 0x14"
definition DescriptorDisposition :: byte where "DescriptorDisposition = 0x15"
definition DescriptorDetach :: byte where "DescriptorDetach = 0x16"
definition DescriptorEnd :: byte where "DescriptorEnd = 0x17"
definition DescriptorClose :: byte where "DescriptorClose = 0x18"
definition DescriptorSASLMechanisms :: byte where "DescriptorSASLMechanisms = 0x40"
definition DescriptorSASLInit :: byte where "DescriptorSASLInit = 0x41"
definition DescriptorSASLChallenge :: byte where "DescriptorSASLChallenge = 0x42"
definition DescriptorSASLResponse :: byte where "DescriptorSASLResponse = 0x43"
definition DescriptorSASLOutcome :: byte where "DescriptorSASLOutcome = 0x44"

lemmas descriptor_defs =
  FrameHeaderSize_def FrameTypeAMQP_def FrameTypeSASL_def DescriptorOpen_def DescriptorBegin_def
  DescriptorAttach_def DescriptorFlow_def DescriptorTransfer_def DescriptorDisposition_def
  DescriptorDetach_def DescriptorEnd_def DescriptorClose_def DescriptorSASLMechanisms_def
  DescriptorSASLInit_def DescriptorSASLChallenge_def DescriptorSASLResponse_def
  DescriptorSASLOutcome_def

definition Names :: "(byte, string) gomap" where
  "Names =
    [(DescriptorOpen, ''open''), (DescriptorBegin, ''begin''), (DescriptorAttach, ''attach''),
     (DescriptorFlow, ''flow''), (DescriptorTransfer, ''transfer''),
     (DescriptorDisposition, ''disposition''), (DescriptorDetach, ''detach''),
     (DescriptorEnd, ''end''), (DescriptorClose, ''close''),
     (DescriptorSASLMechanisms, ''sasl-mechanisms''), (DescriptorSASLInit, ''sasl-init''),
     (DescriptorSASLChallenge, ''sasl-challenge''), (DescriptorSASLResponse, ''sasl-response''),
     (DescriptorSASLOutcome, ''sasl-outcome'')]"

section \<open>Frames\<close>

record Frame =
  f_Size :: "32 word"
  f_DataOffset :: byte
  f_Type :: byte
  f_Channel :: "16 word"
  f_Body :: "byte list"

definition ParseFrame :: "byte list \<Rightarrow> 32 word \<Rightarrow> error + Frame" where
  "ParseFrame raw mx =
    (if length raw < FrameHeaderSize then Inl (New ''frame shorter than header'')
     else let size = Uint32 (take 4 raw) in
     if size < word_of_nat FrameHeaderSize then Inl (New ''frame size below minimum'')
     else if mx > 0 \<and> size > mx
       then Inl (Errorf ''frame size %d exceeds maximum %d'' [dec (unat size), dec (unat mx)])
     else if unat size \<noteq> length raw
       then Inl (Errorf ''declared frame size %d differs from bytes %d''
                   [dec (unat size), dec (length raw)])
     else let offset = raw ! 4 in
     if offset < 2 then Inl (New ''data offset below two words'')
     else let headerBytes = unat offset * 4 in
     if headerBytes > length raw then Inl (New ''data offset exceeds frame'')
     else let typ = raw ! 5 in
     if typ \<noteq> FrameTypeAMQP \<and> typ \<noteq> FrameTypeSASL
       then Inl (Errorf ''unsupported frame type %d'' [dec (unat typ)])
     else Inr \<lparr>f_Size = size, f_DataOffset = offset, f_Type = typ,
               f_Channel = Uint16 (take 2 (drop 6 raw)), f_Body = drop headerBytes raw\<rparr>)"

text \<open>The \<open>offset\<close> local of \<open>Marshal\<close>: zero stands for two words.\<close>

definition marshal_offset :: "Frame \<Rightarrow> byte" where
  "marshal_offset f = (if f_DataOffset f = 0 then 2 else f_DataOffset f)"

definition marshal_size :: "Frame \<Rightarrow> 32 word" where
  "marshal_size f = ucast (marshal_offset f) * 4 + word_of_nat (length (f_Body f))"

definition Marshal :: "Frame \<Rightarrow> 32 word \<Rightarrow> error + byte list" where
  "Marshal f mx =
    (let offset = marshal_offset f; size = marshal_size f in
     if size < 8 then Inl (New ''invalid frame size'')
     else if mx > 0 \<and> size > mx then Inl (New ''frame exceeds negotiated maximum'')
     else let out = replicate (unat size) 0;
              out = copy_at 0 (PutUint32 size) out;
              out = out[4 := offset];
              out = out[5 := f_Type f];
              out = copy_at 6 (PutUint16 (f_Channel f)) out in
     if unat offset * 4 > length out then Inl (Panic ''slice bounds out of range'')
     else Inr (copy_at (unat offset * 4) (f_Body f) out))"

section \<open>Protocol header\<close>

definition AMQPHeader :: "byte list" where "AMQPHeader = [65, 77, 81, 80, 0, 1, 0, 0]"
definition SASLHeader :: "byte list" where "SASLHeader = [65, 77, 81, 80, 3, 1, 0, 0]"

definition ValidateProtocolHeader :: "byte list \<Rightarrow> error + byte" where
  "ValidateProtocolHeader h =
    (if length h \<noteq> 8 then Inl (New ''protocol header must be eight bytes'')
     else if take 4 h \<noteq> bytes_of_string ''AMQP'' then Inl (New ''invalid AMQP magic'')
     else if h ! 5 \<noteq> 1 \<or> h ! 6 \<noteq> 0 \<or> h ! 7 \<noteq> 0
       then Inl (Errorf ''unsupported AMQP version %d.%d.%d''
                   [dec (unat (h ! 5)), dec (unat (h ! 6)), dec (unat (h ! 7))])
     else if h ! 4 \<noteq> 0 \<and> h ! 4 \<noteq> 3
       then Inl (Errorf ''unsupported protocol id %d'' [dec (unat (h ! 4))])
     else Inr (h ! 4))"

section \<open>Performatives\<close>

text \<open>
  The dynamic type \<open>any\<close> as the codec uses it; \<open>VOther t\<close> is a value of any other Go type \<open>t\<close>.
\<close>

datatype any =
    VNil
  | VBool bool
  | VUint8 byte
  | VUint16 "16 word"
  | VUint32 "32 word"
  | VUint64 "64 word"
  | VString string
  | VSymbol string
  | VBinary "byte list"
  | VList "any list"
  | VMap "(string \<times> any) list"
  | VOther string

record Performative =
  p_Descriptor :: byte
  p_Fields :: "any list"

definition hex_byte :: "byte \<Rightarrow> string" where
  "hex_byte b = (if unat b < 16 then [hex_digit (unat b)] else hex [b])"

definition Perf_Name :: "Performative \<Rightarrow> string" where
  "Perf_Name p =
    (case get Names (p_Descriptor p) of
       Some n \<Rightarrow> n
     | None \<Rightarrow> ''unknown-0x'' @ hex_byte (p_Descriptor p))"

definition Field :: "Performative \<Rightarrow> int \<Rightarrow> any" where
  "Field p i = (if i < 0 \<or> i \<ge> int (length (p_Fields p)) then VNil else p_Fields p ! nat i)"

definition Perf_String :: "Performative \<Rightarrow> int \<Rightarrow> string" where
  "Perf_String p i = (case Field p i of VString x \<Rightarrow> x | VSymbol x \<Rightarrow> x | _ \<Rightarrow> '''')"

definition Perf_Uint :: "Performative \<Rightarrow> int \<Rightarrow> 32 word" where
  "Perf_Uint p i =
    (case Field p i of
       VUint32 x \<Rightarrow> x
     | VUint16 x \<Rightarrow> ucast x
     | VUint8 x \<Rightarrow> ucast x
     | VUint64 x \<Rightarrow> ucast x
     | _ \<Rightarrow> 0)"

definition Perf_Bool :: "Performative \<Rightarrow> int \<Rightarrow> bool" where
  "Perf_Bool p i = (case Field p i of VBool b \<Rightarrow> b | _ \<Rightarrow> False)"

definition Perf_Binary :: "Performative \<Rightarrow> int \<Rightarrow> byte list" where
  "Perf_Binary p i = (case Field p i of VBinary b \<Rightarrow> b | _ \<Rightarrow> [])"

definition min_fields :: "(byte, nat) gomap" where
  "min_fields =
    [(DescriptorOpen, 1), (DescriptorBegin, 0), (DescriptorAttach, 3), (DescriptorFlow, 0),
     (DescriptorTransfer, 1), (DescriptorDisposition, 2), (DescriptorDetach, 1),
     (DescriptorEnd, 0), (DescriptorClose, 0), (DescriptorSASLMechanisms, 1),
     (DescriptorSASLInit, 1), (DescriptorSASLChallenge, 1), (DescriptorSASLResponse, 1),
     (DescriptorSASLOutcome, 1)]"

definition Validate :: "Performative \<Rightarrow> error option" where
  "Validate p =
    (case get min_fields (p_Descriptor p) of
       None \<Rightarrow> Some (Errorf ''unknown performative descriptor 0x%x'' [hex_byte (p_Descriptor p)])
     | Some n \<Rightarrow>
       if length (p_Fields p) < n
         then Some (Errorf ''%s requires at least %d fields'' [Perf_Name p, dec n])
       else if p_Descriptor p = DescriptorOpen \<and> Perf_String p 0 = ''''
         then Some (New ''open container-id required'')
       else if p_Descriptor p = DescriptorAttach \<and> Perf_String p 0 = ''''
         then Some (New ''attach name required'')
       else if p_Descriptor p = DescriptorTransfer \<and> Field p 0 = VNil
         then Some (New ''transfer handle required'')
       else None)"

section \<open>Frame lemmas\<close>

lemma copy_at_length [simp]: "k \<le> length dst \<Longrightarrow> length (copy_at k src dst) = length dst"
  by (auto simp: copy_at_def)

lemma copy_at_fits:
  "k + length src \<le> length dst \<Longrightarrow> copy_at k src dst = take k dst @ src @ drop (k + length src) dst"
  by (simp add: copy_at_def)

lemma copy_at_decomp: "copy_at (length a) src (a @ b @ c) = a @ src @ c" if "length b = length src"
  using that by (simp add: copy_at_def)

lemma eight_bytes: "length xs \<ge> 8 \<Longrightarrow>
  xs = take 4 xs @ xs ! 4 # xs ! 5 # take 2 (drop 6 xs) @ drop 8 xs"
  by (auto simp: numeral_eq_Suc Suc_le_length_iff)

lemma list_of_length:
  "length xs = 2 \<Longrightarrow> \<exists>a b. xs = [a, b]"
  "length xs = 4 \<Longrightarrow> \<exists>a b c d. xs = [a, b, c, d]"
  by (auto simp: numeral_eq_Suc length_Suc_conv)

text \<open>The bytes \<open>Marshal\<close> produces: header, zeroes for an extended header, body.\<close>

definition frame_bytes :: "Frame \<Rightarrow> byte list" where
  "frame_bytes f = PutUint32 (marshal_size f) @ marshal_offset f # f_Type f # PutUint16 (f_Channel f)
     @ replicate (unat (marshal_offset f) * 4 - 8) 0 @ f_Body f"

text \<open>The frames that fit a 32-bit size field.\<close>

definition sized_frame :: "Frame \<Rightarrow> bool" where
  "sized_frame f = (2 \<le> marshal_offset f \<and>
     unat (marshal_offset f) * 4 + length (f_Body f) < 2 ^ 32)"

lemma marshal_size_unat:
  "sized_frame f \<Longrightarrow> unat (marshal_size f) = unat (marshal_offset f) * 4 + length (f_Body f)"
  using byte_bound [of "marshal_offset f"]
  by (simp add: marshal_size_def sized_frame_def unat_word_ariths unat_of_nat unsigned_ucast_eq
      take_bit_eq_mod)

lemma byte_two_le: "2 \<le> (b :: byte) \<Longrightarrow> 2 \<le> unat b"
  by (simp add: word_le_nat_alt)

lemma sized_frame_min: "sized_frame f \<Longrightarrow> 8 \<le> unat (marshal_size f)"
  using byte_two_le [of "marshal_offset f"] by (simp add: marshal_size_unat) (simp add: sized_frame_def)

lemma length_frame_bytes: "sized_frame f \<Longrightarrow> length (frame_bytes f) = unat (marshal_size f)"
  using byte_two_le [of "marshal_offset f"]
  by (simp add: marshal_size_unat frame_bytes_def) (simp add: sized_frame_def)

lemma Marshal_frame_bytes:
  assumes "sized_frame f" and "mx = 0 \<or> marshal_size f \<le> mx"
  shows "Marshal f mx = Inr (frame_bytes f)"
proof -
  let ?o = "unat (marshal_offset f)" and ?L = "length (f_Body f)"
  have o: "2 \<le> ?o" using assms(1) byte_two_le by (simp add: sized_frame_def)
  have n: "unat (marshal_size f) = 8 + (?o * 4 - 8) + ?L"
    using o by (simp add: marshal_size_unat [OF assms(1)])
  have zeroes: "replicate (unat (marshal_size f)) (0 :: byte) =
      [0, 0, 0, 0] @ 0 # 0 # [0, 0] @ replicate (?o * 4 - 8) 0 @ replicate ?L 0"
    unfolding n replicate_add by (simp add: numeral_eq_Suc)
  have small: "\<not> marshal_size f < 8"
    using sized_frame_min [OF assms(1)] by (simp add: word_less_nat_alt)
  obtain a b c d where p32: "PutUint32 (marshal_size f) = [a, b, c, d]"
    using list_of_length(2) [OF length_PutUint(2)] by blast
  obtain x y where p16: "PutUint16 (f_Channel f) = [x, y]"
    using list_of_length(1) [OF length_PutUint(1)] by blast
  have hdr: "?o * 4 = length ([a, b, c, d, marshal_offset f, f_Type f, x, y]
      @ replicate (?o * 4 - 8) (0 :: byte))"
    using o by simp
  have body: "copy_at (?o * 4) (f_Body f) (([a, b, c, d, marshal_offset f, f_Type f, x, y]
      @ replicate (?o * 4 - 8) 0) @ replicate ?L 0) = frame_bytes f"
    by (subst hdr) (simp add: copy_at_def frame_bytes_def p32 p16)
  have ok: "\<not> (0 < mx \<and> mx < marshal_size f)" using assms(2) by auto
  show ?thesis
    using o body by (simp add: Marshal_def Let_def small ok zeroes p32 p16 copy_at_def)
qed

lemma frame_bytes_parts:
  assumes "sized_frame f"
  shows "take 4 (frame_bytes f) = PutUint32 (marshal_size f)"
    and "frame_bytes f ! 4 = marshal_offset f" and "frame_bytes f ! 5 = f_Type f"
    and "take 2 (drop 6 (frame_bytes f)) = PutUint16 (f_Channel f)"
  using byte_two_le [of "marshal_offset f"] assms
  by (simp_all add: frame_bytes_def nth_append sized_frame_def)

lemma frame_bytes_body:
  assumes "sized_frame f"
  shows "drop (unat (marshal_offset f) * 4) (frame_bytes f) = f_Body f"
proof -
  let ?h = "PutUint32 (marshal_size f) @ marshal_offset f # f_Type f # PutUint16 (f_Channel f)
     @ replicate (unat (marshal_offset f) * 4 - 8) 0"
  have "length ?h = unat (marshal_offset f) * 4"
    using byte_two_le [of "marshal_offset f"] assms by (simp add: sized_frame_def)
  moreover have "frame_bytes f = ?h @ f_Body f" by (simp add: frame_bytes_def)
  ultimately show ?thesis by (metis append_eq_conv_conj)
qed

lemma ParseFrame_frame_bytes:
  assumes "sized_frame f" and "mx = 0 \<or> marshal_size f \<le> mx"
    and "f_Type f = FrameTypeAMQP \<or> f_Type f = FrameTypeSASL"
  shows "ParseFrame (frame_bytes f) mx =
    Inr (f\<lparr>f_Size := marshal_size f, f_DataOffset := marshal_offset f\<rparr>)"
proof -
  note parts = frame_bytes_parts [OF assms(1)] frame_bytes_body [OF assms(1)]
  have len: "length (frame_bytes f) = unat (marshal_size f)"
    by (rule length_frame_bytes [OF assms(1)])
  have "Uint32 (take 4 (frame_bytes f)) = marshal_size f"
    using Uint32_PutUint32 [of "marshal_size f" "[]"] by (simp add: parts)
  moreover have "Uint16 (take 2 (drop 6 (frame_bytes f))) = f_Channel f"
    using Uint16_PutUint16 [of "f_Channel f" "[]"] by (simp add: parts)
  moreover have "8 \<le> unat (marshal_size f)" by (rule sized_frame_min [OF assms(1)])
  moreover have "\<not> (0 < mx \<and> mx < marshal_size f)" using assms(2) by auto
  moreover have "2 \<le> marshal_offset f" "unat (marshal_offset f) * 4 \<le> unat (marshal_size f)"
    using assms(1) marshal_size_unat [OF assms(1)] by (simp_all add: sized_frame_def)
  ultimately show ?thesis
    using assms(3)
    by (auto simp: ParseFrame_def Let_def parts(2,3,5) len FrameHeaderSize_def word_less_nat_alt
        not_less [symmetric])
qed

lemma ParseFrame_Inr:
  assumes "ParseFrame raw mx = Inr f"
  shows "length raw \<ge> 8" "f_Size f = Uint32 (take 4 raw)" "unat (f_Size f) = length raw"
    "mx = 0 \<or> f_Size f \<le> mx" "f_DataOffset f = raw ! 4" "2 \<le> f_DataOffset f"
    "unat (f_DataOffset f) * 4 \<le> length raw" "f_Type f = raw ! 5"
    "f_Type f = FrameTypeAMQP \<or> f_Type f = FrameTypeSASL"
    "f_Channel f = Uint16 (take 2 (drop 6 raw))" "f_Body f = drop (unat (f_DataOffset f) * 4) raw"
  using assms by (auto simp: ParseFrame_def Let_def FrameHeaderSize_def not_less split: if_splits)

lemma parsed_frame_sized:
  assumes "ParseFrame raw mx = Inr f"
  shows "marshal_offset f = f_DataOffset f" "marshal_size f = f_Size f" "sized_frame f"
proof -
  note p = ParseFrame_Inr [OF assms]
  show off: "marshal_offset f = f_DataOffset f"
    using p(6) by (auto simp: marshal_offset_def)
  have len: "unat (f_DataOffset f) * 4 + length (f_Body f) = length raw"
    using p(7,11) by simp
  show sized: "sized_frame f"
    using p(3,6) word_bounds(2) [of "f_Size f"] by (simp add: sized_frame_def off len)
  show "marshal_size f = f_Size f"
    using marshal_size_unat [OF sized] p(3) by (simp add: off len word_unat_eq_iff)
qed

section \<open>Properties\<close>

text \<open>
  C39: A frame that fits its 32-bit size field and the negotiated maximum (zero: none) and has a known
  type is marshalled to as many bytes as its size says, and parsing the bytes gives the frame back,
  with the size field filled in and the default data offset made explicit.
\<close>

theorem Marshal_ParseFrame:
  assumes "sized_frame f" and "mx = 0 \<or> marshal_size f \<le> mx"
    and "f_Type f = FrameTypeAMQP \<or> f_Type f = FrameTypeSASL"
  shows "\<exists>raw. Marshal f mx = Inr raw \<and> length raw = unat (marshal_size f) \<and>
    ParseFrame raw mx = Inr (f\<lparr>f_Size := marshal_size f, f_DataOffset := marshal_offset f\<rparr>)"
  using Marshal_frame_bytes [OF assms(1,2)] ParseFrame_frame_bytes [OF assms]
    length_frame_bytes [OF assms(1)] by blast

theorem Marshal_ParseFrame_witness:
  "\<exists>raw. Marshal \<lparr>f_Size = 0, f_DataOffset = 0, f_Type = FrameTypeAMQP, f_Channel = 3, f_Body = [0, 0x53, 0x18, 0x45]\<rparr> 1024 = Inr raw \<and>
     length raw = 12 \<and> ParseFrame raw 1024 =
       Inr \<lparr>f_Size = 12, f_DataOffset = 2, f_Type = FrameTypeAMQP, f_Channel = 3, f_Body = [0, 0x53, 0x18, 0x45]\<rparr>"
proof -
  let ?f = "\<lparr>f_Size = 0, f_DataOffset = 0, f_Type = FrameTypeAMQP, f_Channel = 3, f_Body = [0, 0x53, 0x18, 0x45]\<rparr>"
  have f: "sized_frame ?f" "marshal_size ?f = 12" "marshal_offset ?f = 2"
    by (simp_all add: sized_frame_def marshal_size_def marshal_offset_def)
  have "\<exists>raw. Marshal ?f 1024 = Inr raw \<and> length raw = unat (marshal_size ?f) \<and>
      ParseFrame raw 1024 = Inr (?f\<lparr>f_Size := marshal_size ?f, f_DataOffset := marshal_offset ?f\<rparr>)"
    by (rule Marshal_ParseFrame) (simp_all add: f)
  then show ?thesis unfolding f by simp
qed

text \<open>
  What \<open>ParseFrame\<close> accepts respects every bound of the header. The declared size is the
  number of bytes given and does not exceed the maximum, the data offset is at least two words
  and inside the frame, the type is AMQP or SASL, and the body is what follows the header. When
  there is no extended header, marshalling the parsed frame restores the very bytes.
\<close>

theorem ParseFrame_sound:
  assumes "ParseFrame raw mx = Inr f"
  shows "unat (f_Size f) = length raw \<and> (mx = 0 \<or> f_Size f \<le> mx) \<and> 8 \<le> length raw \<and>
    2 \<le> unat (f_DataOffset f) \<and> unat (f_DataOffset f) * 4 + length (f_Body f) = length raw \<and>
    (f_Type f = FrameTypeAMQP \<or> f_Type f = FrameTypeSASL) \<and>
    (f_DataOffset f = 2 \<longrightarrow> Marshal f mx = Inr raw)"
proof -
  note p = ParseFrame_Inr [OF assms] and q = parsed_frame_sized [OF assms]
  have "Marshal f mx = Inr raw" if two: "f_DataOffset f = 2"
  proof -
    have "raw = take 4 raw @ raw ! 4 # raw ! 5 # take 2 (drop 6 raw) @ drop 8 raw"
      using p(1) by (rule eight_bytes)
    also have "\<dots> = frame_bytes f"
      using p(1) two by (simp add: frame_bytes_def q p(2,10,11) p(5,8) [symmetric]
          PutUint32_Uint32 PutUint16_Uint16)
    finally show ?thesis using Marshal_frame_bytes [OF q(3)] p(4) q(2) by simp
  qed
  then show ?thesis using p byte_two_le [OF p(6)] by simp
qed

theorem ParseFrame_sound_witness:
  "Marshal \<lparr>f_Size = 8, f_DataOffset = 2, f_Type = 1, f_Channel = 258, f_Body = []\<rparr> 512
     = Inr [0, 0, 0, 8, 2, 1, 1, 2]"
proof -
  have "ParseFrame [0, 0, 0, 8, 2, 1, 1, 2] 512 =
      Inr \<lparr>f_Size = 8, f_DataOffset = 2, f_Type = 1, f_Channel = 258, f_Body = []\<rparr>"
    by (simp add: ParseFrame_def Uint32_def Uint16_def get_be_def descriptor_defs)
  from ParseFrame_sound [OF this] show ?thesis by simp
qed

end
