(* ===== verification/Codec.thy ===== *)
theory Codec
  imports Frame
begin

text \<open>
  The AMQP application package (\<open>internal/amqp/application\<close>): the value decoder and encoder, the
  performative codec, frame reading and writing, and the data section of a transfer.

  The decoder is a record of the input and a position. Its mutual recursion
  (\<open>value\<close>, \<open>list8\<close>, \<open>list32\<close>, the element loop) is written once as a step function over its own
  recursive calls (\<open>value_step\<close>, \<open>items_step\<close>) and tied with fuel: \<open>dec_value d\<close> starts it with
  twice the number of unread bytes plus one, and \<open>dec_value_unfold\<close> shows that this is enough:
  the decoder satisfies the recursive equation of the source without any fuel.

  Memory is not modelled: \<open>list32\<close> reserves room for as many elements as the list declares
  (\<open>make([]any, 0, count)\<close>) before it reads any of them, so that a short frame can ask for a large
  allocation.
\<close>

section \<open>Decoder\<close>

record decoder =
  d_data :: "byte list"
  d_pos :: nat

definition remaining :: "decoder \<Rightarrow> nat" where
  "remaining d = length (d_data d) - d_pos d"

definition need :: "decoder \<Rightarrow> nat \<Rightarrow> error option" where
  "need d n = (if remaining d < n then Some (New ''truncated AMQP value'') else None)"

text \<open>
  \<open>d.data[d.pos:d.pos+n]\<close> together with \<open>d.pos += n\<close>; a read past the end panics in Go.
\<close>

definition read_bytes :: "nat \<Rightarrow> decoder \<Rightarrow> error + (byte list \<times> decoder)" where
  "read_bytes n d =
    (if remaining d < n then Inl (Panic ''index out of range'')
     else Inr (take n (drop (d_pos d) (d_data d)), d\<lparr>d_pos := d_pos d + n\<rparr>))"

definition dec_byte :: "decoder \<Rightarrow> error + (byte \<times> decoder)" where
  "dec_byte d = tryE (read_bytes 1 d) (\<lambda>(bs, d'). Inr (hd bs, d'))"

definition dec_uint16 :: "decoder \<Rightarrow> error + (16 word \<times> decoder)" where
  "dec_uint16 d = tryE (read_bytes 2 d) (\<lambda>(bs, d'). Inr (Uint16 bs, d'))"

definition dec_uint32 :: "decoder \<Rightarrow> error + (32 word \<times> decoder)" where
  "dec_uint32 d = tryE (read_bytes 4 d) (\<lambda>(bs, d'). Inr (Uint32 bs, d'))"

definition dec_uint64 :: "decoder \<Rightarrow> error + (64 word \<times> decoder)" where
  "dec_uint64 d = tryE (read_bytes 8 d) (\<lambda>(bs, d'). Inr (Uint64 bs, d'))"

definition binary8 :: "decoder \<Rightarrow> error + (byte list \<times> decoder)" where
  "binary8 d =
    guardE (need d 1) (tryE (dec_byte d) (\<lambda>(b, d).
      let n = unat b in guardE (need d n) (read_bytes n d)))"

definition binary32 :: "decoder \<Rightarrow> error + (byte list \<times> decoder)" where
  "binary32 d =
    guardE (need d 4) (tryE (dec_uint32 d) (\<lambda>(w, d).
      let n = unat w in
      if n > remaining d then Inl (New ''invalid binary32 length'') else read_bytes n d))"

definition dec_descriptor :: "decoder \<Rightarrow> error + (byte \<times> decoder)" where
  "dec_descriptor d =
    guardE (need d 1) (tryE (dec_byte d) (\<lambda>(code, d).
      if code = 0x53 then guardE (need d 1) (dec_byte d)
      else if code = 0x70 then
        guardE (need d 4) (tryE (dec_uint32 d) (\<lambda>(v, d).
          if v > 255 then Inl (New ''descriptor exceeds supported range'')
          else Inr (ucast v, d)))
      else Inl (Errorf ''unsupported descriptor constructor 0x%x'' [hex_byte code])))"

definition list8 :: "(nat \<Rightarrow> decoder \<Rightarrow> error + (any list \<times> decoder)) \<Rightarrow> decoder
    \<Rightarrow> error + (any list \<times> decoder)" where
  "list8 items d =
    guardE (need d 2) (tryE (dec_byte d) (\<lambda>(b, d). let size = unat b in
      tryE (dec_byte d) (\<lambda>(b, d). let cnt = unat b in
      if size < 1 \<or> size - 1 > remaining d then Inl (New ''invalid list8 size'')
      else let endp = d_pos d + size - 1 in
      tryE (items cnt d) (\<lambda>(out, d).
      if d_pos d > endp then Inl (New ''list8 fields exceed declared size'')
      else Inr (out, d\<lparr>d_pos := endp\<rparr>)))))"

definition list32 :: "(nat \<Rightarrow> decoder \<Rightarrow> error + (any list \<times> decoder)) \<Rightarrow> decoder
    \<Rightarrow> error + (any list \<times> decoder)" where
  "list32 items d =
    guardE (need d 8) (tryE (dec_uint32 d) (\<lambda>(w, d). let size = unat w in
      tryE (dec_uint32 d) (\<lambda>(w, d). let cnt = unat w in
      if size < 4 \<or> size - 4 > remaining d then Inl (New ''invalid list32 size'')
      else let endp = d_pos d + size - 4 in
      tryE (items cnt d) (\<lambda>(out, d).
      if d_pos d > endp then Inl (New ''list32 fields exceed declared size'')
      else Inr (out, d\<lparr>d_pos := endp\<rparr>)))))"

text \<open>The element loop of \<open>list8\<close> and \<open>list32\<close>: as many values as the list declares, in order.\<close>

definition items_step :: "(decoder \<Rightarrow> error + (any \<times> decoder))
    \<Rightarrow> (nat \<Rightarrow> decoder \<Rightarrow> error + (any list \<times> decoder)) \<Rightarrow> nat \<Rightarrow> decoder
    \<Rightarrow> error + (any list \<times> decoder)" where
  "items_step vrec irec cnt d =
    (if cnt = 0 then Inr ([], d)
     else tryE (vrec d) (\<lambda>(v, d). tryE (irec (cnt - 1) d) (\<lambda>(vs, d). Inr (v # vs, d))))"

definition value_switch :: "(decoder \<Rightarrow> error + (any \<times> decoder))
    \<Rightarrow> (nat \<Rightarrow> decoder \<Rightarrow> error + (any list \<times> decoder)) \<Rightarrow> byte \<Rightarrow> decoder
    \<Rightarrow> error + (any \<times> decoder)" where
  "value_switch vrec irec code d =
    (if code = 0x40 then Inr (VNil, d)
    else if code = 0x41 then Inr (VBool True, d)
    else if code = 0x42 then Inr (VBool False, d)
    else if code = 0x56 then
      guardE (need d 1) (tryE (dec_byte d) (\<lambda>(b, d). Inr (VBool (b \<noteq> 0), d)))
    else if code = 0x43 then Inr (VUint32 0, d)
    else if code = 0x44 then Inr (VUint64 0, d)
    else if code = 0x50 then
      guardE (need d 1) (tryE (dec_byte d) (\<lambda>(b, d). Inr (VUint8 b, d)))
    else if code = 0x52 then
      guardE (need d 1) (tryE (dec_byte d) (\<lambda>(b, d). Inr (VUint32 (ucast b), d)))
    else if code = 0x53 then
      guardE (need d 1) (tryE (dec_byte d) (\<lambda>(b, d). Inr (VUint64 (ucast b), d)))
    else if code = 0x60 then
      guardE (need d 2) (tryE (dec_uint16 d) (\<lambda>(x, d). Inr (VUint16 x, d)))
    else if code = 0x70 then
      guardE (need d 4) (tryE (dec_uint32 d) (\<lambda>(x, d). Inr (VUint32 x, d)))
    else if code = 0x80 then
      guardE (need d 8) (tryE (dec_uint64 d) (\<lambda>(x, d). Inr (VUint64 x, d)))
    else if code = 0xa0 then tryE (binary8 d) (\<lambda>(b, d). Inr (VBinary b, d))
    else if code = 0xb0 then tryE (binary32 d) (\<lambda>(b, d). Inr (VBinary b, d))
    else if code = 0xa1 then tryE (binary8 d) (\<lambda>(b, d). Inr (VString (string_of_bytes b), d))
    else if code = 0xb1 then tryE (binary32 d) (\<lambda>(b, d). Inr (VString (string_of_bytes b), d))
    else if code = 0xa3 then tryE (binary8 d) (\<lambda>(b, d). Inr (VSymbol (string_of_bytes b), d))
    else if code = 0xb3 then tryE (binary32 d) (\<lambda>(b, d). Inr (VSymbol (string_of_bytes b), d))
    else if code = 0x45 then Inr (VList [], d)
    else if code = 0xc0 then tryE (list8 irec d) (\<lambda>(vs, d). Inr (VList vs, d))
    else if code = 0xd0 then tryE (list32 irec d) (\<lambda>(vs, d). Inr (VList vs, d))
    else if code = 0x00 then
      tryE (dec_descriptor d) (\<lambda>(desc, d). tryE (vrec d) (\<lambda>(val, d).
        Inr (VMap [(''descriptor'', VUint8 desc), (''value'', val)], d)))
    else Inl (Errorf ''unsupported AMQP type 0x%x'' [hex_byte code]))"

definition value_step :: "(decoder \<Rightarrow> error + (any \<times> decoder))
    \<Rightarrow> (nat \<Rightarrow> decoder \<Rightarrow> error + (any list \<times> decoder)) \<Rightarrow> decoder
    \<Rightarrow> error + (any \<times> decoder)" where
  "value_step vrec irec d =
    guardE (need d 1) (tryE (dec_byte d) (\<lambda>(code, d). value_switch vrec irec code d))"

fun value_fuel :: "nat \<Rightarrow> decoder \<Rightarrow> error + (any \<times> decoder)"
  and items_fuel :: "nat \<Rightarrow> nat \<Rightarrow> decoder \<Rightarrow> error + (any list \<times> decoder)" where
  "value_fuel 0 d = Inl OutOfFuel"
| "value_fuel (Suc n) d = value_step (value_fuel n) (items_fuel n) d"
| "items_fuel 0 cnt d = Inl OutOfFuel"
| "items_fuel (Suc n) cnt d = items_step (value_fuel n) (items_fuel n) cnt d"

definition dec_value :: "decoder \<Rightarrow> error + (any \<times> decoder)" where
  "dec_value d = value_fuel (2 * remaining d + 1) d"

definition dec_items :: "nat \<Rightarrow> decoder \<Rightarrow> error + (any list \<times> decoder)" where
  "dec_items cnt d = items_fuel (2 * remaining d + 2) cnt d"

definition DecodePerformative :: "byte list \<Rightarrow> error + (Performative \<times> nat)" where
  "DecodePerformative data =
    (let d = \<lparr>d_data = data, d_pos = 0\<rparr> in
     guardE (need d 3) (tryE (dec_byte d) (\<lambda>(b, d).
     if b \<noteq> 0 then Inl (New ''performative must be described type'')
     else tryE (dec_descriptor d) (\<lambda>(descriptor, d).
     case dec_value d of
       Inl e \<Rightarrow> Inl (Wrap (''decode '' @ get_string Names descriptor @ '' fields'') e)
     | Inr (VList flds, d) \<Rightarrow>
         let p = \<lparr>p_Descriptor = descriptor, p_Fields = flds\<rparr> in
         guardE (Validate p) (Inr (p, d_pos d))
     | Inr (_, d) \<Rightarrow> Inl (New ''performative value must be list'')))))"

section \<open>Encoder\<close>

text \<open>\<open>trimNulls\<close> drops trailing nulls; the loop runs from the end.\<close>

definition trimNulls :: "any list \<Rightarrow> any list" where
  "trimNulls v = rev (dropWhile (\<lambda>x. x = VNil) (rev v))"

definition encodeBytes :: "byte \<Rightarrow> byte \<Rightarrow> byte list \<Rightarrow> byte list" where
  "encodeBytes short long v =
    (if length v \<le> 255 then [short, word_of_nat (length v)] @ v
     else long # PutUint32 (word_of_nat (length v)) @ v)"

text \<open>The framing of a list, once its fields are encoded into \<open>payload\<close>.\<close>

definition list_header :: "nat \<Rightarrow> byte list \<Rightarrow> byte list" where
  "list_header cnt payload =
    (if length payload + 1 \<le> 255 \<and> cnt \<le> 255
     then [0xc0, word_of_nat (length payload + 1), word_of_nat cnt] @ payload
     else 0xd0 # PutUint32 (word_of_nat (length payload + 4)) @ PutUint32 (word_of_nat cnt) @ payload)"

lemma size_map_of: "map_of xs k = Some v \<Longrightarrow> size v < Suc (size_list (size_prod (\<lambda>x. 0) size) xs)"
  by (induction xs) (auto split: if_splits)

function (sequential) encodeValue :: "any \<Rightarrow> error + byte list"
  and encodeList :: "any list \<Rightarrow> error + byte list"
  and encodeFields :: "any list \<Rightarrow> error + byte list" where
  "encodeValue VNil = Inr [0x40]"
| "encodeValue (VBool x) = (if x then Inr [0x41] else Inr [0x42])"
| "encodeValue (VUint8 x) = Inr [0x50, x]"
| "encodeValue (VUint16 x) = Inr (0x60 # PutUint16 x)"
| "encodeValue (VUint32 x) =
     (if x = 0 then Inr [0x43] else if x < 256 then Inr [0x52, ucast x]
      else Inr (0x70 # PutUint32 x))"
| "encodeValue (VUint64 x) =
     (if x = 0 then Inr [0x44] else if x < 256 then Inr [0x53, ucast x]
      else Inr (0x80 # PutUint64 x))"
| "encodeValue (VString x) = Inr (encodeBytes 0xa1 0xb1 (bytes_of_string x))"
| "encodeValue (VSymbol x) = Inr (encodeBytes 0xa3 0xb3 (bytes_of_string x))"
| "encodeValue (VBinary x) = Inr (encodeBytes 0xa0 0xb0 x)"
| "encodeValue (VList x) = encodeList x"
| "encodeValue (VMap x) =
     (case map_of x ''descriptor'' of
        Some (VUint8 desc) \<Rightarrow>
          tryE (case map_of x ''value'' of Some v \<Rightarrow> encodeValue v | None \<Rightarrow> Inr [0x40])
            (\<lambda>value. Inr ([0x00, 0x53, desc] @ value))
      | _ \<Rightarrow> Inl (New ''described value lacks descriptor''))"
| "encodeValue (VOther t) = Inl (Errorf ''cannot encode AMQP value %T'' [t])"
| "encodeList flds =
     (if flds = [] then Inr [0x45]
      else tryE (encodeFields flds) (\<lambda>payload. Inr (list_header (length flds) payload)))"
| "encodeFields [] = Inr []"
| "encodeFields (f # fs) =
     tryE (encodeValue f) (\<lambda>b. tryE (encodeFields fs) (\<lambda>bs. Inr (b @ bs)))"
  by pat_completeness auto
termination
  by (relation "measure (\<lambda>x. case x of Inl v \<Rightarrow> 2 * size v
        | Inr (Inl fs) \<Rightarrow> 2 * size_list size fs + 1
        | Inr (Inr fs) \<Rightarrow> 2 * size_list size fs)")
    (auto dest: size_map_of)

definition EncodePerformative :: "Performative \<Rightarrow> error + byte list" where
  "EncodePerformative p =
    guardE (Validate p) (let flds = trimNulls (p_Fields p) in
      tryE (encodeList flds) (\<lambda>list. Inr ([0x00, 0x53, p_Descriptor p] @ list)))"

section \<open>Frame input and output\<close>

text \<open>\<open>io.ReadFull\<close> of \<open>n\<close> bytes from a reader that still holds \<open>r\<close>.\<close>

definition ReadFull :: "nat \<Rightarrow> byte list \<Rightarrow> error + (byte list \<times> byte list)" where
  "ReadFull n r =
    (if n \<le> length r then Inr (take n r, drop n r)
     else if r = [] then Inl EOF else Inl ErrUnexpectedEOF)"

definition ReadFrame :: "byte list \<Rightarrow> 32 word \<Rightarrow> error + (Frame \<times> byte list)" where
  "ReadFrame r mx =
    tryE (ReadFull 8 r) (\<lambda>(header, r).
    let size = Uint32 (take 4 header) in
    if size < 8 then Inl (Errorf ''invalid frame size %d'' [dec (unat size)])
    else if mx > 0 \<and> size > mx
      then Inl (Errorf ''frame size %d exceeds maximum %d'' [dec (unat size), dec (unat mx)])
    else case ReadFull (unat size - 8) r of
      Inl e \<Rightarrow> Inl (Wrap ''read frame body'' e)
    | Inr (rest, r) \<Rightarrow> tryE (ParseFrame (header @ rest) mx) (\<lambda>f. Inr (f, r)))"

text \<open>
  A writer is what it has accepted so far; \<open>werr\<close> is the error its \<open>Write\<close> returns, if any. By
  the contract of \<open>io.Writer\<close> a write that returns no error took every byte, so the loop of
  \<open>WriteFrame\<close> runs once.
\<close>

definition WriteFrame :: "error option \<Rightarrow> byte list \<Rightarrow> Frame \<Rightarrow> 32 word \<Rightarrow> error + byte list" where
  "WriteFrame werr w f mx = tryE (Marshal f mx) (\<lambda>raw. guardE werr (Inr (w @ raw)))"

definition FrameFor :: "16 word \<Rightarrow> Performative \<Rightarrow> byte list \<Rightarrow> error + Frame" where
  "FrameFor channel p payload =
    tryE (EncodePerformative p) (\<lambda>body.
      Inr \<lparr>f_Size = 0, f_DataOffset = 2, f_Type = FrameTypeAMQP, f_Channel = channel,
           f_Body = body @ payload\<rparr>)"

section \<open>Data section\<close>

definition DecodeDataSection :: "byte list \<Rightarrow> error + byte list" where
  "DecodeDataSection raw =
    (if length raw = 0 then Inl (New ''empty transfer payload'')
     else if length raw \<ge> 3 \<and> raw ! 0 = 0x00 \<and> raw ! 1 = 0x53 \<and> raw ! 2 = 0x75 then
       (case dec_value \<lparr>d_data = drop 3 raw, d_pos = 0\<rparr> of
          Inl e \<Rightarrow> Inl (Wrap ''decode data section'' e)
        | Inr (VBinary b, _) \<Rightarrow> Inr b
        | Inr _ \<Rightarrow> Inl (New ''data section is not binary''))
     else Inr raw)"

definition EncodeDataSection :: "byte list \<Rightarrow> byte list" where
  "EncodeDataSection body = [0x00, 0x53, 0x75] @ encodeBytes 0xa0 0xb0 body"

section \<open>The decoder advances\<close>

text \<open>
  What a successful read does to the position: \<open>moved k d r\<close> says that the input is kept and the
  position grew by at least \<open>k\<close> without passing the end.
\<close>

definition moved :: "nat \<Rightarrow> decoder \<Rightarrow> decoder \<Rightarrow> bool" where
  "moved k d d' = (d_data d' = d_data d \<and> d_pos d + k \<le> d_pos d' \<and> d_pos d' \<le> length (d_data d))"

lemma moved_refl: "d_pos d \<le> length (d_data d) \<Longrightarrow> moved 0 d d"
  by (simp add: moved_def)

lemma moved_trans: "moved k d d' \<Longrightarrow> moved k' d' d'' \<Longrightarrow> j \<le> k + k' \<Longrightarrow> moved j d d''"
  by (auto simp: moved_def)

lemma moved_weaken: "moved k d d' \<Longrightarrow> j \<le> k \<Longrightarrow> moved j d d'"
  by (auto simp: moved_def)

lemma moved_remaining: "moved k d d' \<Longrightarrow> remaining d' + k \<le> remaining d"
  by (auto simp: moved_def remaining_def)

lemma moved_less: "moved 1 d d' \<Longrightarrow> remaining d' < remaining d"
  by (drule moved_remaining) simp

lemma read_bytes_moved: "read_bytes n d = Inr (bs, d') \<Longrightarrow> 0 < n \<Longrightarrow> moved n d d' \<and> length bs = n"
  by (auto simp: read_bytes_def moved_def remaining_def split: if_splits)

lemma read_prims_moved:
  "dec_byte d = Inr (b, d') \<Longrightarrow> moved 1 d d'"
  "dec_uint16 d = Inr (w2, d') \<Longrightarrow> moved 2 d d'"
  "dec_uint32 d = Inr (w4, d') \<Longrightarrow> moved 4 d d'"
  "dec_uint64 d = Inr (w8, d') \<Longrightarrow> moved 8 d d'"
  by (auto simp: dec_byte_def dec_uint16_def dec_uint32_def dec_uint64_def tryE_Inr_iff
      dest: read_bytes_moved)

lemma read_bytes_moved0: "read_bytes n d = Inr (bs, d') \<Longrightarrow> d_pos d \<le> length (d_data d) \<Longrightarrow> moved n d d'"
  by (auto simp: read_bytes_def moved_def remaining_def split: if_splits)

lemma moved_le: "moved k d d' \<Longrightarrow> d_pos d' \<le> length (d_data d')"
  by (simp add: moved_def)

lemma binary_moved:
  "binary8 d = Inr (b, d') \<Longrightarrow> moved 1 d d'"
  "binary32 d = Inr (b, d') \<Longrightarrow> moved 1 d d'"
  by (auto simp: binary8_def binary32_def result_iffs Let_def split: if_splits
      dest!: read_prims_moved intro: moved_trans [OF _ read_bytes_moved0] dest: moved_le)

lemma dec_descriptor_moved: "dec_descriptor d = Inr (b, d') \<Longrightarrow> moved 1 d d'"
  by (auto simp: dec_descriptor_def result_iffs split: if_splits
      dest!: read_prims_moved intro: moved_trans)

text \<open>
  The interface of the recursive calls: what \<open>value_step\<close> and \<open>items_step\<close> rely on is that a
  decoded value consumes input and that the element loop returns as many values as it was asked
  for, never moving backwards.
\<close>

locale decoder_calls =
  fixes vrec :: "decoder \<Rightarrow> error + (any \<times> decoder)"
    and irec :: "nat \<Rightarrow> decoder \<Rightarrow> error + (any list \<times> decoder)"
  assumes vrec_moved: "vrec d = Inr (v, d') \<Longrightarrow> moved 1 d d'"
    and irec_moved: "irec c d = Inr (vs, d') \<Longrightarrow> d_pos d \<le> length (d_data d) \<Longrightarrow>
      moved 0 d d' \<and> length vs = c"
begin

lemma list8_moved:
  assumes "list8 irec d = Inr (vs, d')" shows "moved 1 d d'"
proof -
  from assms obtain b1 d1 b2 d2 d3 where
    r: "dec_byte d = Inr (b1, d1)" "dec_byte d1 = Inr (b2, d2)" "irec (unat b2) d2 = Inr (vs, d3)"
    and b: "1 \<le> unat b1" "unat b1 - 1 \<le> remaining d2" "d_pos d3 \<le> d_pos d2 + unat b1 - 1"
    and d': "d' = d3\<lparr>d_pos := d_pos d2 + unat b1 - 1\<rparr>"
    by (auto simp: list8_def result_iffs Let_def split: if_splits)
  have m2: "moved 2 d d2"
    using moved_trans [OF read_prims_moved(1) [OF r(1)] read_prims_moved(1) [OF r(2)]] by simp
  then have "moved 0 d2 d3" using irec_moved [OF r(3)] by (simp add: moved_def)
  with m2 b show ?thesis by (auto simp: d' moved_def remaining_def)
qed

lemma list32_moved:
  assumes "list32 irec d = Inr (vs, d')" shows "moved 1 d d'"
proof -
  from assms obtain w1 d1 w2 d2 d3 where
    r: "dec_uint32 d = Inr (w1, d1)" "dec_uint32 d1 = Inr (w2, d2)" "irec (unat w2) d2 = Inr (vs, d3)"
    and b: "4 \<le> unat w1" "unat w1 - 4 \<le> remaining d2" "d_pos d3 \<le> d_pos d2 + unat w1 - 4"
    and d': "d' = d3\<lparr>d_pos := d_pos d2 + unat w1 - 4\<rparr>"
    by (auto simp: list32_def result_iffs Let_def split: if_splits)
  have m2: "moved 8 d d2"
    using moved_trans [OF read_prims_moved(3) [OF r(1)] read_prims_moved(3) [OF r(2)]] by simp
  then have "moved 0 d2 d3" using irec_moved [OF r(3)] by (simp add: moved_def)
  with m2 b show ?thesis by (auto simp: d' moved_def remaining_def)
qed

lemma value_switch_moved:
  assumes "value_switch vrec irec code d = Inr (v, d')" "d_pos d \<le> length (d_data d)"
  shows "moved 0 d d'"
proof -
  note steps = read_prims_moved binary_moved list8_moved list32_moved
  show ?thesis
    using assms moved_refl unfolding value_switch_def
    by (auto simp: result_iffs split: if_splits
        dest!: steps dec_descriptor_moved vrec_moved intro: moved_weaken moved_trans)
qed

lemma value_step_moved: "value_step vrec irec d = Inr (v, d') \<Longrightarrow> moved 1 d d'"
  by (auto simp: value_step_def result_iffs dest!: read_prims_moved(1)
      intro: moved_trans [OF _ value_switch_moved] dest: moved_le)

lemma items_step_moved:
  assumes "items_step vrec irec c d = Inr (vs, d')" "d_pos d \<le> length (d_data d)"
  shows "moved 0 d d' \<and> length vs = c"
proof (cases "c = 0")
  case True
  with assms show ?thesis by (auto simp: items_step_def moved_def)
next
  case False
  with assms(1) obtain v d1 ws where "vrec d = Inr (v, d1)" "irec (c - 1) d1 = Inr (ws, d')" "vs = v # ws"
    by (auto simp: items_step_def result_iffs)
  with irec_moved [of "c - 1" d1 ws d'] vrec_moved [of d v d1] False show ?thesis
    by (auto simp: moved_def)
qed

end

section \<open>Fuel is enough\<close>

text \<open>A step depends on its recursive calls only at decoders with less input left.\<close>

lemma list8_cong:
  assumes "\<And>c d'. remaining d' < remaining d \<Longrightarrow> irec c d' = irec' c d'"
  shows "list8 irec d = list8 irec' d"
  unfolding list8_def Let_def
  by (intro arg_cong [of _ _ "guardE _"] tryE_cong refl)
    (auto simp: assms dest!: read_prims_moved(1) moved_less intro!: tryE_cong)

lemma list32_cong:
  assumes "\<And>c d'. remaining d' < remaining d \<Longrightarrow> irec c d' = irec' c d'"
  shows "list32 irec d = list32 irec' d"
  unfolding list32_def Let_def
  by (intro arg_cong [of _ _ "guardE _"] tryE_cong refl)
    (auto simp: assms dest!: read_prims_moved(3) moved_less [OF moved_weaken] intro!: tryE_cong)

lemma value_switch_cong:
  assumes "\<And>d'. remaining d' \<le> remaining d \<Longrightarrow> vrec d' = vrec' d'"
    and "\<And>c d'. remaining d' \<le> remaining d \<Longrightarrow> irec c d' = irec' c d'"
  shows "value_switch vrec irec code d = value_switch vrec' irec' code d"
proof -
  have l8: "list8 irec d = list8 irec' d" and l32: "list32 irec d = list32 irec' d"
    using assms(2) by (auto intro!: list8_cong list32_cong)
  have desc: "tryE (dec_descriptor d) (\<lambda>(desc, d). tryE (vrec d) (F desc)) =
      tryE (dec_descriptor d) (\<lambda>(desc, d). tryE (vrec' d) (F desc))" for F :: "byte \<Rightarrow> _ \<Rightarrow> error + (any \<times> decoder)"
    using assms(1) by (intro tryE_cong refl) (auto dest!: dec_descriptor_moved moved_less)
  show ?thesis unfolding value_switch_def by (simp only: l8 l32 desc)
qed

lemma value_step_cong:
  assumes "\<And>d'. remaining d' < remaining d \<Longrightarrow> vrec d' = vrec' d'"
    and "\<And>c d'. remaining d' < remaining d \<Longrightarrow> irec c d' = irec' c d'"
  shows "value_step vrec irec d = value_step vrec' irec' d"
  unfolding value_step_def
  by (intro arg_cong [of _ _ "guardE _"] tryE_cong refl)
    (auto dest!: read_prims_moved(1) moved_less intro!: value_switch_cong assms)

lemma items_step_cong:
  assumes "vrec d = vrec' d" and "\<And>v d'. vrec' d = Inr (v, d') \<Longrightarrow> moved 1 d d'"
    and "\<And>c d'. remaining d' < remaining d \<Longrightarrow> irec c d' = irec' c d'"
  shows "items_step vrec irec c d = items_step vrec' irec' c d"
  unfolding items_step_def assms(1)
  using assms(2,3) by (auto dest!: moved_less [unfolded One_nat_def] intro!: tryE_cong)

lemma fuel_calls: "decoder_calls (value_fuel n) (items_fuel n)"
proof (induction n)
  case 0
  show ?case by unfold_locales simp_all
next
  case (Suc n)
  then show ?case
    by unfold_locales
      (simp_all only: value_fuel.simps items_fuel.simps
        decoder_calls.value_step_moved decoder_calls.items_step_moved)
qed

lemma fuel_irrelevant:
  "(2 * remaining d + 1 \<le> n \<longrightarrow> 2 * remaining d + 1 \<le> m \<longrightarrow> value_fuel n d = value_fuel m d) \<and>
   (2 * remaining d + 2 \<le> n \<longrightarrow> 2 * remaining d + 2 \<le> m \<longrightarrow> items_fuel n c d = items_fuel m c d)"
proof (induction n arbitrary: m d c)
  case 0
  then show ?case by simp
next
  case (Suc n)
  show ?case
  proof (cases m)
    case 0
    then show ?thesis by simp
  next
    case (Suc k)
    have v: "value_fuel n d' = value_fuel k d'"
      if "2 * remaining d' + 1 \<le> n" "2 * remaining d' + 1 \<le> k" for d'
      using Suc.IH that by blast
    have i: "items_fuel n c' d' = items_fuel k c' d'"
      if "2 * remaining d' + 2 \<le> n" "2 * remaining d' + 2 \<le> k" for c' d'
      using Suc.IH that by blast
    show ?thesis
      unfolding Suc
      by (auto intro!: value_step_cong items_step_cong v i
          dest: decoder_calls.vrec_moved [OF fuel_calls])
  qed
qed

lemma value_fuel_enough: "2 * remaining d + 1 \<le> n \<Longrightarrow> value_fuel n d = dec_value d"
  unfolding dec_value_def using fuel_irrelevant [of d n] by blast

lemma items_fuel_enough: "2 * remaining d + 2 \<le> n \<Longrightarrow> items_fuel n c d = dec_items c d"
  unfolding dec_items_def using fuel_irrelevant [of d n _ c] by blast

text \<open>The recursive equations of the source, without fuel.\<close>

lemma dec_value_unfold: "dec_value d = value_step dec_value dec_items d"
proof -
  have "dec_value d = value_step (value_fuel (2 * remaining d)) (items_fuel (2 * remaining d)) d"
    by (simp add: dec_value_def)
  also have "\<dots> = value_step dec_value dec_items d"
    by (intro value_step_cong value_fuel_enough items_fuel_enough) simp_all
  finally show ?thesis .
qed

lemma dec_value_moved: "dec_value d = Inr (v, d') \<Longrightarrow> moved 1 d d'"
  unfolding dec_value_def by (rule decoder_calls.vrec_moved [OF fuel_calls])

lemma dec_items_unfold: "dec_items c d = items_step dec_value dec_items c d"
proof -
  let ?n = "2 * remaining d + 1"
  have "dec_items c d = items_step (value_fuel ?n) (items_fuel ?n) c d"
    by (simp add: dec_items_def)
  also have "\<dots> = items_step dec_value dec_items c d"
    by (intro items_step_cong items_fuel_enough dec_value_moved) (simp_all add: dec_value_def)
  finally show ?thesis .
qed

lemma dec_items_moved:
  "dec_items c d = Inr (vs, d') \<Longrightarrow> d_pos d \<le> length (d_data d) \<Longrightarrow> moved 0 d d' \<and> length vs = c"
  unfolding dec_items_def by (rule decoder_calls.irec_moved [OF fuel_calls])

interpretation codec: decoder_calls dec_value dec_items
  by unfold_locales (fact dec_value_moved, fact dec_items_moved)

section \<open>Decoding fails only with decoding errors\<close>

definition decode_error :: "error \<Rightarrow> bool" where
  "decode_error e = (\<not> is_panic e \<and> e \<noteq> OutOfFuel)"

lemma decode_error_simps [simp]:
  "decode_error (New s)" "decode_error (Errorf s as)" "decode_error (Wrap s e)"
  by (simp_all add: decode_error_def is_panic_def)

lemma need_simps: "need d n = None \<longleftrightarrow> n \<le> remaining d"
  "need d n = Some e \<longleftrightarrow> remaining d < n \<and> e = New ''truncated AMQP value''"
  by (auto simp: need_def)

lemma guardE_need [simp]: "n \<le> remaining d \<Longrightarrow> guardE (need d n) m = m"
  by (simp add: need_def)

text \<open>Reads that were asked for with \<open>need\<close> do not panic.\<close>

lemma byte_read:
  assumes "n + 1 \<le> remaining d"
  obtains b d' where "dec_byte d = Inr (b, d')" "n \<le> remaining d'" "remaining d' < remaining d"
proof
  show "dec_byte d = Inr (hd (take 1 (drop (d_pos d) (d_data d))), d\<lparr>d_pos := d_pos d + 1\<rparr>)"
    using assms by (simp add: read_bytes_def dec_byte_def)
qed (use assms in \<open>auto simp: remaining_def\<close>)

lemma uint32_read:
  assumes "n + 4 \<le> remaining d"
  obtains b d' where "dec_uint32 d = Inr (b, d')" "n \<le> remaining d'" "remaining d' < remaining d"
proof
  show "dec_uint32 d = Inr (Uint32 (take 4 (drop (d_pos d) (d_data d))), d\<lparr>d_pos := d_pos d + 4\<rparr>)"
    using assms by (simp add: read_bytes_def dec_uint32_def)
qed (use assms in \<open>auto simp: remaining_def\<close>)

lemma reads_error:
  "read_bytes n d = Inl e \<longleftrightarrow> remaining d < n \<and> e = Panic ''index out of range''"
  "dec_byte d = Inl e \<longleftrightarrow> remaining d < 1 \<and> e = Panic ''index out of range''"
  "dec_uint16 d = Inl e \<longleftrightarrow> remaining d < 2 \<and> e = Panic ''index out of range''"
  "dec_uint32 d = Inl e \<longleftrightarrow> remaining d < 4 \<and> e = Panic ''index out of range''"
  "dec_uint64 d = Inl e \<longleftrightarrow> remaining d < 8 \<and> e = Panic ''index out of range''"
  by (auto simp: read_bytes_def dec_byte_def dec_uint16_def dec_uint32_def dec_uint64_def)

lemma leaf_errors:
  "binary8 d = Inl e \<Longrightarrow> decode_error e"
  "binary32 d = Inl e \<Longrightarrow> decode_error e"
  "dec_descriptor d = Inl e \<Longrightarrow> decode_error e"
  by (auto simp: binary8_def binary32_def dec_descriptor_def result_iffs reads_error need_simps Let_def
      split: if_splits)

lemma list8_error:
  assumes "\<And>c d'. remaining d' < remaining d \<Longrightarrow> irec c d' = Inl e \<Longrightarrow> decode_error e"
    and "list8 irec d = Inl e"
  shows "decode_error e"
proof (cases "2 \<le> remaining d")
  case True
  then obtain b1 d1 where r1: "dec_byte d = Inr (b1, d1)" "1 \<le> remaining d1" "remaining d1 < remaining d"
    by (auto intro: byte_read [of 1 d])
  then obtain b2 d2 where r2: "dec_byte d1 = Inr (b2, d2)" "remaining d2 < remaining d"
    by (auto intro: byte_read [of 0 d1])
  from assms(1) [OF r2(2)] assms(2) True r1(1) r2(1) show ?thesis
    by (auto simp: list8_def need_simps result_iffs Let_def split: if_splits)
next
  case False
  with assms(2) show ?thesis by (auto simp: list8_def need_def)
qed

lemma list32_error:
  assumes "\<And>c d'. remaining d' < remaining d \<Longrightarrow> irec c d' = Inl e \<Longrightarrow> decode_error e"
    and "list32 irec d = Inl e"
  shows "decode_error e"
proof (cases "8 \<le> remaining d")
  case True
  then obtain b1 d1 where r1: "dec_uint32 d = Inr (b1, d1)" "4 \<le> remaining d1" "remaining d1 < remaining d"
    by (auto intro: uint32_read [of 4 d])
  then obtain b2 d2 where r2: "dec_uint32 d1 = Inr (b2, d2)" "remaining d2 < remaining d"
    by (auto intro: uint32_read [of 0 d1])
  from assms(1) [OF r2(2)] assms(2) True r1(1) r2(1) show ?thesis
    by (auto simp: list32_def need_simps result_iffs Let_def split: if_splits)
next
  case False
  with assms(2) show ?thesis by (auto simp: list32_def need_def)
qed

lemma value_switch_error:
  assumes "\<And>d'. remaining d' \<le> remaining d \<Longrightarrow> vrec d' = Inl e \<Longrightarrow> decode_error e"
    and "\<And>c d'. remaining d' \<le> remaining d \<Longrightarrow> irec c d' = Inl e \<Longrightarrow> decode_error e"
    and "value_switch vrec irec code d = Inl e"
  shows "decode_error e"
proof -
  have lists: "list8 irec d = Inl e \<Longrightarrow> decode_error e" "list32 irec d = Inl e \<Longrightarrow> decode_error e"
    by (erule list8_error [rotated] list32_error [rotated], rule assms(2), simp_all)+
  have rec: "decode_error e" if "dec_descriptor d = Inr (b, d')" "vrec d' = Inl e" for b d'
    using assms(1) [of d'] moved_less [OF dec_descriptor_moved [OF that(1)]] that(2) by simp
  show ?thesis
    using assms(3) unfolding value_switch_def
    by (auto simp: result_iffs need_simps reads_error split: if_splits dest: leaf_errors lists rec)
qed

lemma dec_errors:
  "(dec_value d = Inl e \<longrightarrow> decode_error e) \<and> (dec_items c d = Inl e \<longrightarrow> decode_error e)"
proof (induction "remaining d" arbitrary: d c rule: less_induct)
  case less
  have val: "decode_error e" if "dec_value d = Inl e"
  proof (cases "1 \<le> remaining d")
    case True
    then obtain b d1 where r: "dec_byte d = Inr (b, d1)" "remaining d1 < remaining d"
      by (auto intro: byte_read [of 0 d])
    have "value_switch dec_value dec_items b d1 = Inl e"
      using that True r(1) by (simp add: dec_value_unfold [of d] value_step_def need_def)
    then show ?thesis
      by (rule value_switch_error [rotated 2]) (meson less.hyps r(2) le_less_trans)+
  next
    case False
    with that show ?thesis by (auto simp: dec_value_unfold [of d] value_step_def need_def)
  qed
  moreover have step: "decode_error e" if "dec_value d = Inr (v, d')" "dec_items k d' = Inl e" for v d' k
    using less.hyps [OF moved_less [OF dec_value_moved [OF that(1)]]] that(2) by blast
  moreover have "decode_error e" if "dec_items c d = Inl e"
    using that val step
    by (subst (asm) dec_items_unfold) (auto simp: items_step_def result_iffs split: if_splits)
  ultimately show ?case by blast
qed

section \<open>Decoding what was encoded\<close>

text \<open>
  The decoder in the middle of its input: \<open>pre\<close> is read, \<open>rest\<close> is not. Over this view the
  primitive reads are rewrite rules.
\<close>

definition cur :: "byte list \<Rightarrow> byte list \<Rightarrow> decoder" where
  "cur pre rest = \<lparr>d_data = pre @ rest, d_pos = length pre\<rparr>"

lemma cur_simps [simp]:
  "remaining (cur pre rest) = length rest"
  "d_pos (cur pre rest) = length pre"
  "(cur pre rest)\<lparr>d_pos := length pre\<rparr> = cur pre rest"
  by (simp_all add: cur_def remaining_def)

lemma read_bytes_cur: "length bs = n \<Longrightarrow> read_bytes n (cur pre (bs @ rest)) = Inr (bs, cur (pre @ bs) rest)"
  by (simp add: read_bytes_def) (simp add: cur_def)

lemma reads_cur [simp]:
  "dec_byte (cur pre (b # rest)) = Inr (b, cur (pre @ [b]) rest)"
  "dec_uint16 (cur pre (PutUint16 x @ rest)) = Inr (x, cur (pre @ PutUint16 x) rest)"
  "dec_uint32 (cur pre (PutUint32 y @ rest)) = Inr (y, cur (pre @ PutUint32 y) rest)"
  "dec_uint64 (cur pre (PutUint64 z @ rest)) = Inr (z, cur (pre @ PutUint64 z) rest)"
  using read_bytes_cur [of "[b]" 1] Uint16_PutUint16 [of x "[]"] Uint32_PutUint32 [of y "[]"]
    Uint64_PutUint64 [of z "[]"]
  by (simp_all add: dec_byte_def dec_uint16_def dec_uint32_def dec_uint64_def read_bytes_cur)

lemma unat_byte_length: "n \<le> 255 \<Longrightarrow> unat (word_of_nat n :: byte) = n"
  by (simp add: unat_of_nat)

lemma unat_word32_length: "n < 2 ^ 32 \<Longrightarrow> unat (word_of_nat n :: 32 word) = n"
  by (simp add: unat_of_nat)

lemma binary8_cur: "length b \<le> 255 \<Longrightarrow>
  binary8 (cur pre (word_of_nat (length b) # b @ rest)) = Inr (b, cur (pre @ word_of_nat (length b) # b) rest)"
  by (simp add: binary8_def need_simps unat_byte_length Let_def read_bytes_cur)

lemma binary32_cur: "length b < 2 ^ 32 \<Longrightarrow>
  binary32 (cur pre (PutUint32 (word_of_nat (length b)) @ b @ rest)) =
    Inr (b, cur (pre @ PutUint32 (word_of_nat (length b)) @ b) rest)"
  by (simp add: binary32_def need_simps unat_word32_length Let_def read_bytes_cur)

text \<open>A step on an explicit format code.\<close>

lemma value_step_cur:
  "value_step vrec irec (cur pre (code # rest)) = value_switch vrec irec code (cur (pre @ [code]) rest)"
  by (simp add: value_step_def need_simps)

lemma dec_cur:
  "dec_value (cur pre (code # rest)) = value_switch dec_value dec_items code (cur (pre @ [code]) rest)"
  "dec_items 0 d = Inr ([], d)"
  "dec_items (Suc n) d = tryE (dec_value d) (\<lambda>(v, d). tryE (dec_items n d) (\<lambda>(vs, d). Inr (v # vs, d)))"
  by (simp_all add: dec_value_unfold [of "cur pre (code # rest)"] value_step_cur
      dec_items_unfold [of 0] dec_items_unfold [of "Suc n"] items_step_def)

lemma encodeBytes_cur:
  assumes "length b < 2 ^ 32"
  shows "dec_value (cur pre (encodeBytes 0xa0 0xb0 b @ rest)) =
      Inr (VBinary b, cur (pre @ encodeBytes 0xa0 0xb0 b) rest)"
    and "dec_value (cur pre (encodeBytes 0xa1 0xb1 b @ rest)) =
      Inr (VString (string_of_bytes b), cur (pre @ encodeBytes 0xa1 0xb1 b) rest)"
    and "dec_value (cur pre (encodeBytes 0xa3 0xb3 b @ rest)) =
      Inr (VSymbol (string_of_bytes b), cur (pre @ encodeBytes 0xa3 0xb3 b) rest)"
  using assms
  by (simp_all add: encodeBytes_def dec_cur(1) value_switch_def binary8_cur
      binary32_cur)

text \<open>
  What a round trip returns: the value itself, except that a described value keeps only its
  descriptor and value entries.
\<close>

function (sequential) norm_any :: "any \<Rightarrow> any" where
  "norm_any (VList xs) = VList (map norm_any xs)"
| "norm_any (VMap x) =
     VMap [(''descriptor'', (case map_of x ''descriptor'' of Some v \<Rightarrow> v | None \<Rightarrow> VNil)),
           (''value'', (case map_of x ''value'' of Some v \<Rightarrow> norm_any v | None \<Rightarrow> VNil))]"
| "norm_any v = v"
  by pat_completeness auto
termination
  by (relation "measure size") (auto simp: less_Suc_eq_le dest: size_map_of intro: size_list_estimation')

lemma encoded_nonempty:
  "encodeValue v = Inr bs \<Longrightarrow> 1 \<le> length bs"
  "encodeList fs = Inr bs \<Longrightarrow> 1 \<le> length bs"
  "encodeFields fs = Inr bs \<Longrightarrow> length fs \<le> length bs"
  by (induction v and fs and fs arbitrary: bs and bs and bs
      rule: encodeValue_encodeList_encodeFields.induct)
    (auto simp: encodeBytes_def list_header_def result_iffs Suc_le_eq split: if_splits option.splits any.splits,
      metis add_0 add_less_le_mono length_greater_0_conv)

lemma ucast_small:
  "(x :: 32 word) < 256 \<Longrightarrow> ucast (ucast x :: byte) = x"
  "(y :: 64 word) < 256 \<Longrightarrow> ucast (ucast y :: byte) = y"
  by (simp_all add: word_unat_eq_iff unsigned_ucast_eq take_bit_eq_mod word_less_nat_alt unat_mod)

lemma encodeBytes_bound: "length (encodeBytes s l b) < n \<Longrightarrow> length b < n"
  by (auto simp: encodeBytes_def split: if_splits)

lemma list_cur:
  assumes "fs \<noteq> []" "length fs \<le> length payload" "length (list_header (length fs) payload) < 2 ^ 32"
    and items: "\<And>pre. dec_items (length fs) (cur pre (payload @ rest)) = Inr (vs, cur (pre @ payload) rest)"
  shows "dec_value (cur pre (list_header (length fs) payload @ rest)) =
    Inr (VList vs, cur (pre @ list_header (length fs) payload) rest)"
proof (cases "length payload + 1 \<le> 255 \<and> length fs \<le> 255")
  case True
  then have u: "unat (word_of_nat (length payload + 1) :: byte) = length payload + 1"
    "unat (word_of_nat (length fs) :: byte) = length fs"
    by (simp_all only: unat_byte_length)
  from True show ?thesis
    by (simp add: list_header_def dec_cur(1) value_switch_def list8_def Let_def
        u [simplified] items)
next
  case False
  then have n: "length payload + 9 < 2 ^ 32"
    using assms(3) by (auto simp: list_header_def)
  then have u: "unat (word_of_nat (length payload + 4) :: 32 word) = length payload + 4"
    "unat (word_of_nat (length fs) :: 32 word) = length fs"
    using assms(2) by (simp_all only: unat_word32_length)
  have "dec_value (cur pre (0xd0 # PutUint32 (word_of_nat (length payload + 4)) @
      PutUint32 (word_of_nat (length fs)) @ payload @ rest)) = Inr (VList vs,
      cur (pre @ 0xd0 # PutUint32 (word_of_nat (length payload + 4)) @
        PutUint32 (word_of_nat (length fs)) @ payload) rest)"
    by (simp add: dec_cur(1) value_switch_def list32_def Let_def u items
        del: of_nat_add)
  with False show ?thesis by (auto simp: list_header_def)
qed

text \<open>The encoder and the decoder agree, wherever the encoding stands in the input.\<close>

lemma decode_encoded:
  "encodeValue v = Inr bs \<Longrightarrow> length bs < 2 ^ 32 \<Longrightarrow>
    dec_value (cur pre (bs @ rest)) = Inr (norm_any v, cur (pre @ bs) rest)"
  "encodeList fs = Inr bs \<Longrightarrow> length bs < 2 ^ 32 \<Longrightarrow>
    dec_value (cur pre (bs @ rest)) = Inr (VList (map norm_any fs), cur (pre @ bs) rest)"
  "encodeFields fs = Inr bs \<Longrightarrow> length bs < 2 ^ 32 \<Longrightarrow>
    dec_items (length fs) (cur pre (bs @ rest)) = Inr (map norm_any fs, cur (pre @ bs) rest)"
proof (induction v and fs and fs arbitrary: bs pre rest and bs pre rest and bs pre rest
    rule: encodeValue_encodeList_encodeFields.induct)
  case (11 x)
  from "11.prems" obtain desc val where x: "map_of x ''descriptor'' = Some (VUint8 desc)"
    and enc: "(case map_of x ''value'' of Some v \<Rightarrow> encodeValue v | None \<Rightarrow> Inr [0x40]) = Inr val"
    and bs: "bs = [0x00, 0x53, desc] @ val"
    by (auto simp: result_iffs split: option.splits any.splits)
  have "dec_value (cur (pre @ [0x00, 0x53, desc]) (val @ rest)) =
      Inr (case map_of x ''value'' of Some v \<Rightarrow> norm_any v | None \<Rightarrow> VNil,
           cur (pre @ [0x00, 0x53, desc] @ val) rest)"
    using enc "11.IH" [OF x refl] "11.prems"(2) bs
    by (auto simp: dec_cur value_switch_def
        split: option.splits)
  then show ?case
    by (simp add: bs x dec_cur value_switch_def
        dec_descriptor_def)
next
  case (13 fs)
  show ?case
  proof (cases "fs = []")
    case True
    with 13 show ?thesis by (auto simp: dec_cur value_switch_def)
  next
    case False
    with "13.prems"(1) obtain payload where p: "encodeFields fs = Inr payload"
      and bs: "bs = list_header (length fs) payload"
      by (auto simp: result_iffs)
    have len: "length payload < 2 ^ 32"
      using "13.prems"(2) by (simp add: bs list_header_def split: if_splits)
    show ?thesis
      unfolding bs
      by (rule list_cur [OF False encoded_nonempty(3) [OF p]])
        (use "13.prems"(2) "13.IH" [OF False p len] in \<open>simp_all add: bs\<close>)
  qed
next
  case (15 f fs)
  then obtain b cs where b: "encodeValue f = Inr b" "encodeFields fs = Inr cs" and bs: "bs = b @ cs"
    by (auto simp: result_iffs)
  have "length b < 2 ^ 32" "length cs < 2 ^ 32" using "15.prems"(2) bs by simp_all
  with "15.IH"(1) [OF b(1)] "15.IH"(2) [OF b] show ?case
    by (subst dec_items_unfold) (simp add: items_step_def bs)
qed (auto simp: dec_cur value_switch_def encodeBytes_cur
      ucast_small dest!: encodeBytes_bound split: if_splits)

section \<open>Performatives\<close>

lemma norm_any_VNil [simp]: "norm_any v = VNil \<longleftrightarrow> v = VNil"
  by (cases v) auto

lemma Field_norm: "Field (p\<lparr>p_Fields := map norm_any fs\<rparr>) i = norm_any (Field (p\<lparr>p_Fields := fs\<rparr>) i)"
  by (auto simp: Field_def)

lemma Perf_String_norm:
  "Perf_String (p\<lparr>p_Fields := map norm_any fs\<rparr>) i = Perf_String (p\<lparr>p_Fields := fs\<rparr>) i"
  by (cases "Field (p\<lparr>p_Fields := fs\<rparr>) i") (auto simp: Perf_String_def Field_norm)

lemma perf_fields_update:
  "p_Descriptor (p\<lparr>p_Fields := fs\<rparr>) = p_Descriptor p" "p_Fields (p\<lparr>p_Fields := fs\<rparr>) = fs"
  by simp_all

lemma Validate_norm:
  "Validate (p\<lparr>p_Fields := map norm_any fs\<rparr>) = Validate (p\<lparr>p_Fields := fs\<rparr>)"
  by (simp only: Validate_def Perf_String_norm Field_norm norm_any_VNil Perf_Name_def length_map
      perf_fields_update)

lemma Validate_error: "Validate p = Some e \<Longrightarrow> decode_error e"
  by (auto simp: Validate_def split: option.splits if_splits)

lemma DecodePerformative_cur:
  assumes "encodeList fs = Inr bs" "length bs < 2 ^ 32"
    and "Validate \<lparr>p_Descriptor = descr, p_Fields = fs\<rparr> = None"
  shows "DecodePerformative ([0x00, 0x53, descr] @ bs @ payload) =
    Inr (\<lparr>p_Descriptor = descr, p_Fields = map norm_any fs\<rparr>, 3 + length bs)"
proof -
  have start: "\<lparr>d_data = x, d_pos = 0\<rparr> = cur [] x" for x by (simp add: cur_def)
  have v: "Validate \<lparr>p_Descriptor = descr, p_Fields = map norm_any fs\<rparr> = None"
    using assms(3) Validate_norm [of fs "\<lparr>p_Descriptor = descr, p_Fields = fs\<rparr>"] by simp
  show ?thesis
    using decode_encoded(2) [OF assms(1,2), of "[0, 0x53, descr]" payload]
    by (simp add: DecodePerformative_def start dec_descriptor_def v)
qed

lemma encoded_decodes:
  assumes "EncodePerformative p = Inr bs" and "length bs < 2 ^ 32"
    and "Validate (p\<lparr>p_Fields := trimNulls (p_Fields p)\<rparr>) = None"
  shows "DecodePerformative (bs @ payload) =
    Inr (p\<lparr>p_Fields := map norm_any (trimNulls (p_Fields p))\<rparr>, length bs)"
proof -
  from assms(1) obtain ls where ls: "encodeList (trimNulls (p_Fields p)) = Inr ls"
    and bs: "bs = [0x00, 0x53, p_Descriptor p] @ ls"
    by (auto simp: EncodePerformative_def result_iffs Let_def)
  have p: "p\<lparr>p_Fields := fs\<rparr> = \<lparr>p_Descriptor = p_Descriptor p, p_Fields = fs\<rparr>" for fs
    by simp
  show ?thesis
    using DecodePerformative_cur [OF ls] assms(2,3) unfolding bs p by simp
qed

lemma written_frame_read:
  assumes "sized_frame f" and "mx = 0 \<or> marshal_size f \<le> mx"
    and "f_Type f = FrameTypeAMQP \<or> f_Type f = FrameTypeSASL"
  shows "WriteFrame None w f mx = Inr (w @ frame_bytes f)"
    "ReadFrame (frame_bytes f @ rest) mx = Inr (f\<lparr>f_Size := marshal_size f, f_DataOffset := marshal_offset f\<rparr>, rest)"
proof -
  let ?raw = "frame_bytes f"
  have len: "length ?raw = unat (marshal_size f)" "8 \<le> length ?raw"
    using length_frame_bytes [OF assms(1)] sized_frame_min [OF assms(1)] by simp_all
  have "ReadFull 8 (?raw @ rest) = Inr (take 8 ?raw, drop 8 ?raw @ rest)"
    "ReadFull (unat (marshal_size f) - 8) (drop 8 ?raw @ rest) = Inr (drop 8 ?raw, rest)"
    using len by (auto simp: ReadFull_def)
  moreover have "Uint32 (take 4 (take 8 ?raw)) = marshal_size f"
    using frame_bytes_parts(1) [OF assms(1)] Uint32_PutUint32 [of "marshal_size f" "[]"] by simp
  moreover have "\<not> marshal_size f < 8" using len by (simp add: word_less_nat_alt)
  moreover have "\<not> (0 < mx \<and> mx < marshal_size f)" using assms(2) by auto
  ultimately have "ReadFrame (?raw @ rest) mx = tryE (ParseFrame ?raw mx) (\<lambda>f. Inr (f, rest))"
    by (auto simp: ReadFrame_def Let_def)
  then show "ReadFrame (?raw @ rest) mx = Inr (f\<lparr>f_Size := marshal_size f, f_DataOffset := marshal_offset f\<rparr>, rest)"
    using ParseFrame_frame_bytes [OF assms] by simp
  show "WriteFrame None w f mx = Inr (w @ ?raw)"
    using Marshal_frame_bytes [OF assms(1,2)] by (simp add: WriteFrame_def)
qed

section \<open>Properties\<close>

text \<open>
  C31: a performative that can be encoded, whose encoding has less than \<open>2^32\<close> bytes, and that is still
  valid without its trailing nulls: decoding the encoding gives back its fields without trailing
  nulls, and the number of bytes consumed is the length of the encoding, so that the payload of a
  transfer starts right behind it. A described value comes back with exactly its descriptor and
  value entries (\<open>norm_any\<close>). (Some performatives are valid only with their trailing nulls: these
  are encoded and then refused, \<open>EncodePerformative_trim_rejected\<close>.)
\<close>

theorem EncodePerformative_roundtrip:
  assumes "EncodePerformative p = Inr bs" and "length bs < 2 ^ 32"
    and "Validate (p\<lparr>p_Fields := trimNulls (p_Fields p)\<rparr>) = None"
  shows "DecodePerformative (bs @ payload) =
    Inr (p\<lparr>p_Fields := map norm_any (trimNulls (p_Fields p))\<rparr>, length bs)"
  by (rule encoded_decodes [OF assms])

theorem EncodePerformative_roundtrip_witness:
  "\<exists>bs. EncodePerformative \<lparr>p_Descriptor = DescriptorOpen,
          p_Fields = [VString ''client'', VNil, VUint32 65536, VUint16 12, VNil]\<rparr> = Inr bs \<and>
     DecodePerformative (bs @ [1, 2, 3]) = Inr (\<lparr>p_Descriptor = DescriptorOpen,
          p_Fields = [VString ''client'', VNil, VUint32 65536, VUint16 12]\<rparr>, length bs)"
proof -
  let ?p = "\<lparr>p_Descriptor = DescriptorOpen,
          p_Fields = [VString ''client'', VNil, VUint32 65536, VUint16 12, VNil]\<rparr>"
  have v: "Validate \<lparr>p_Descriptor = DescriptorOpen, p_Fields = VString ''client'' # fs\<rparr> = None" for fs
    by (simp add: Validate_def min_fields_def Perf_String_def Field_def descriptor_defs)
  obtain bs where e: "EncodePerformative ?p = Inr bs" "length bs < 2 ^ 32"
    by (simp add: EncodePerformative_def v trimNulls_def encodeBytes_def list_header_def)
  from EncodePerformative_roundtrip [OF e, of "[1, 2, 3]"] e(1) show ?thesis
    by (simp add: trimNulls_def v)
qed

text \<open>
  C32: decoding arbitrary bytes is total and never panics. \<open>DecodePerformative\<close> either fails with an
  error of its own (no out-of-range access, and the bounded recursion never runs out), or returns
  a performative that passes \<open>Validate\<close> together with a byte count that lies inside the input.
\<close>

theorem DecodePerformative_safe:
  "case DecodePerformative data of
     Inl e \<Rightarrow> decode_error e
   | Inr (p, n) \<Rightarrow> Validate p = None \<and> 3 \<le> n \<and> n \<le> length data"
proof -
  let ?d = "\<lparr>d_data = data, d_pos = 0\<rparr>"
  show ?thesis
  proof (cases "3 \<le> remaining ?d")
    case False
    then show ?thesis by (simp add: DecodePerformative_def need_def)
  next
    case True
    then obtain b d1 where r: "dec_byte ?d = Inr (b, d1)"
      by (auto intro: byte_read [of 2 ?d])
    have m: "moved 1 ?d d1" by (rule read_prims_moved(1) [OF r])
    show ?thesis
    proof (cases "dec_descriptor d1")
      case (Inl e)
      with True r show ?thesis
        by (auto simp: DecodePerformative_def intro: leaf_errors(3))
    next
      case (Inr x)
      then obtain descr d2 where r2: "dec_descriptor d1 = Inr (descr, d2)" by (cases x) auto
      have m2: "moved 2 ?d d2" using moved_trans [OF m dec_descriptor_moved [OF r2]] by simp
      have m3: "3 \<le> d_pos d3 \<and> d_pos d3 \<le> length data" if "dec_value d2 = Inr (v, d3)" for v d3
        using moved_trans [OF m2 dec_value_moved [OF that], of 3] by (simp add: moved_def)
      show ?thesis
        using True r r2 m3
        by (auto simp: DecodePerformative_def Let_def guardE_def need_simps(2)
            split: sum.split any.split option.split intro: Validate_error)
    qed
  qed
qed

text \<open>
  C38: the decoder is the recursion of the source: with the fuel it is started with it satisfies
  the recursive equations of \<open>value\<close> and of the element loop, and a decoded value always consumes
  at least one byte and stays inside the input, which is why the recursion ends.
\<close>

theorem dec_value_recursion:
  "dec_value d = value_step dec_value dec_items d \<and>
   dec_items c d = items_step dec_value dec_items c d \<and>
   dec_value d \<noteq> Inl OutOfFuel \<and> dec_items c d \<noteq> Inl OutOfFuel \<and>
   (\<forall>v d'. dec_value d = Inr (v, d') \<longrightarrow>
      d_data d' = d_data d \<and> d_pos d < d_pos d' \<and> d_pos d' \<le> length (d_data d))"
proof (intro conjI allI impI)
  show "dec_value d \<noteq> Inl OutOfFuel" "dec_items c d \<noteq> Inl OutOfFuel"
    using dec_errors [of d OutOfFuel c] by (auto simp: decode_error_def)
qed (rule dec_value_unfold dec_items_unfold | drule dec_value_moved, simp add: moved_def)+

theorem dec_value_recursion_witness:
  "dec_value (cur [] [0xc0, 3, 2, 0x41, 0x43]) =
     Inr (VList [VBool True, VUint32 0], cur [0xc0, 3, 2, 0x41, 0x43] []) \<and>
   d_pos (cur [] [0xc0, 3, 2, 0x41, 0x43]) < d_pos (cur [0xc0, 3, 2, 0x41, 0x43] [])"
proof -
  let ?d = "cur [] [0xc0, 3, 2, 0x41, 0x43]"
  have dec: "dec_value ?d = Inr (VList [VBool True, VUint32 0], cur [0xc0, 3, 2, 0x41, 0x43] [])"
    using decode_encoded(1) [of "VList [VBool True, VUint32 0]" _ "[]" "[]"]
    by (simp add: list_header_def)
  from dec_value_recursion [of ?d 0] dec
  have "d_pos ?d < d_pos (cur [0xc0, 3, 2, 0x41, 0x43] [])" by blast
  with dec show ?thesis by blast
qed

text \<open>
  A frame written to a connection is read back from it. Whatever follows in the stream is
  left unread, so a sequence of frames is read in the order it was written.
\<close>

theorem WriteFrame_ReadFrame:
  assumes "sized_frame f" and "mx = 0 \<or> marshal_size f \<le> mx"
    and "f_Type f = FrameTypeAMQP \<or> f_Type f = FrameTypeSASL"
  shows "\<exists>raw. WriteFrame None w f mx = Inr (w @ raw) \<and> ReadFrame (raw @ rest) mx =
    Inr (f\<lparr>f_Size := marshal_size f, f_DataOffset := marshal_offset f\<rparr>, rest)"
  using written_frame_read [OF assms] by blast

theorem WriteFrame_ReadFrame_witness:
  "\<exists>raw. WriteFrame None [] \<lparr>f_Size = 0, f_DataOffset = 2, f_Type = FrameTypeAMQP, f_Channel = 7,
       f_Body = [0, 0x53, 0x17, 0x45]\<rparr> 512 = Inr raw \<and>
     ReadFrame (raw @ [9, 9]) 512 = Inr (\<lparr>f_Size = 12, f_DataOffset = 2, f_Type = FrameTypeAMQP,
       f_Channel = 7, f_Body = [0, 0x53, 0x17, 0x45]\<rparr>, [9, 9])"
  using WriteFrame_ReadFrame [of "\<lparr>f_Size = 0, f_DataOffset = 2, f_Type = FrameTypeAMQP,
      f_Channel = 7, f_Body = [0, 0x53, 0x17, 0x45]\<rparr>" 512 "[]" "[9, 9]"]
  by (simp add: sized_frame_def marshal_size_def marshal_offset_def)

text \<open>
  A message body survives the data section of a transfer: decoding the encoded section gives
  the body back, in the short form up to 255 bytes and in the long form beyond.
\<close>

theorem DataSection_roundtrip:
  assumes "length body < 2 ^ 32"
  shows "DecodeDataSection (EncodeDataSection body) = Inr body"
proof -
  have "\<lparr>d_data = encodeBytes 0xa0 0xb0 body, d_pos = 0\<rparr> = cur [] (encodeBytes 0xa0 0xb0 body @ [])"
    by (simp add: cur_def)
  then show ?thesis
    using encodeBytes_cur(1) [OF assms, of "[]" "[]"]
    by (simp add: DecodeDataSection_def EncodeDataSection_def)
qed

theorem DataSection_roundtrip_witness:
  "DecodeDataSection (EncodeDataSection [1, 2, 3]) = Inr [1, 2, 3]"
  by (rule DataSection_roundtrip) simp

text \<open>
  \<open>EncodePerformative\<close> validates before it drops trailing nulls, so it can emit a performative
  that its own decoder refuses: a disposition whose second field is null is encoded with one field.
\<close>

theorem EncodePerformative_trim_rejected:
  "\<exists>bs. EncodePerformative \<lparr>p_Descriptor = DescriptorDisposition, p_Fields = [VBool True, VNil]\<rparr> = Inr bs \<and>
     DecodePerformative bs = Inl (Errorf ''%s requires at least %d fields'' [''disposition'', ''2''])"
proof -
  have enc: "EncodePerformative \<lparr>p_Descriptor = DescriptorDisposition, p_Fields = [VBool True, VNil]\<rparr> =
      Inr [0x00, 0x53, 0x15, 0xc0, 2, 1, 0x41]"
    by (simp add: EncodePerformative_def Validate_def min_fields_def descriptor_defs trimNulls_def
        list_header_def)
  moreover have "\<lparr>d_data = [0x00, 0x53, 0x15, 0xc0, 2, 1, 0x41], d_pos = 0\<rparr> =
      cur [] [0x00, 0x53, 0x15, 0xc0, 2, 1, 0x41]"
    by (simp add: cur_def)
  moreover have "dec_value (cur [0x00, 0x53, 0x15] [0xc0, 2, 1, 0x41]) =
      Inr (VList [VBool True], cur [0x00, 0x53, 0x15, 0xc0, 2, 1, 0x41] [])"
    using decode_encoded(2) [of "[VBool True]" _ "[0x00, 0x53, 0x15]" "[]"]
    by (simp add: list_header_def)
  moreover have "dec 2 = ''2''" by code_simp
  ultimately have "DecodePerformative [0x00, 0x53, 0x15, 0xc0, 2, 1, 0x41] =
      Inl (Errorf ''%s requires at least %d fields'' [''disposition'', ''2''])"
    by (simp add: DecodePerformative_def dec_descriptor_def Validate_def min_fields_def
        descriptor_defs Perf_Name_def Names_def)
  with enc show ?thesis by blast
qed

end
