(* ===== verification/Connection.thy ===== *)
theory Connection
  imports Prelude
begin

text \<open>
  Connections (\<open>internal/connection\<close>): the connection record with its state machine, the registry
  that bounds the number of connections, and the static SASL authenticator.
\<close>

section \<open>Connection\<close>

datatype conn_State = StateStart | StateHeader | StateOpen | StateClosing | StateClosed

record Connection =
  c_ID :: string
  c_ContainerID :: string
  c_Remote :: string
  c_State :: conn_State
  c_MaxFrame :: "32 word"
  c_IdleTimeout :: duration
  c_OpenedAt :: time
  c_LastActivity :: time
  c_Sessions :: "(16 word, string) gomap"

text \<open>The snapshot a listing returns; the idle timeout is rendered by the caller's \<open>Duration.String\<close>.\<close>

record conn_Snapshot =
  cs_ID :: string
  cs_ContainerID :: string
  cs_Remote :: string
  cs_State :: conn_State
  cs_MaxFrame :: "32 word"
  cs_IdleTimeout :: duration
  cs_OpenedAt :: time
  cs_LastActivity :: time
  cs_SessionCount :: nat

definition New_Connection :: "string \<Rightarrow> string \<Rightarrow> 32 word \<Rightarrow> duration \<Rightarrow> time \<Rightarrow> Connection" where
  "New_Connection cid remote maxFrame idle now =
    \<lparr>c_ID = cid, c_ContainerID = '''', c_Remote = remote, c_State = StateStart,
     c_MaxFrame = maxFrame, c_IdleTimeout = idle, c_OpenedAt = now, c_LastActivity = now,
     c_Sessions = []\<rparr>"

definition valid_transition :: "conn_State \<Rightarrow> conn_State \<Rightarrow> bool" where
  "valid_transition cur_st nxt =
    (case cur_st of
       StateStart \<Rightarrow> nxt = StateHeader \<or> nxt = StateClosed
     | StateHeader \<Rightarrow> nxt = StateOpen \<or> nxt = StateClosed
     | StateOpen \<Rightarrow> nxt = StateClosing \<or> nxt = StateClosed
     | StateClosing \<Rightarrow> nxt = StateClosed
     | StateClosed \<Rightarrow> False)"

definition Transition :: "Connection \<Rightarrow> conn_State \<Rightarrow> error + Connection" where
  "Transition c nxt =
    (if \<not> valid_transition (c_State c) nxt then Inl (New ''invalid connection state transition'')
     else Inr (c\<lparr>c_State := nxt\<rparr>))"

definition Touch :: "Connection \<Rightarrow> time \<Rightarrow> Connection" where
  "Touch c now = c\<lparr>c_LastActivity := now\<rparr>"

definition AddSession :: "Connection \<Rightarrow> 16 word \<Rightarrow> string \<Rightarrow> error + Connection" where
  "AddSession c channel sid =
    (if c_State c \<noteq> StateOpen then Inl (New ''connection is not open'')
     else if get (c_Sessions c) channel \<noteq> None then Inl (New ''channel already in use'')
     else Inr (c\<lparr>c_Sessions := put channel sid (c_Sessions c)\<rparr>))"

definition RemoveSession :: "Connection \<Rightarrow> 16 word \<Rightarrow> Connection" where
  "RemoveSession c channel = c\<lparr>c_Sessions := del channel (c_Sessions c)\<rparr>"

definition Conn_Snapshot :: "Connection \<Rightarrow> conn_Snapshot" where
  "Conn_Snapshot c =
    \<lparr>cs_ID = c_ID c, cs_ContainerID = c_ContainerID c, cs_Remote = c_Remote c,
     cs_State = c_State c, cs_MaxFrame = c_MaxFrame c, cs_IdleTimeout = c_IdleTimeout c,
     cs_OpenedAt = c_OpenedAt c, cs_LastActivity = c_LastActivity c,
     cs_SessionCount = length (c_Sessions c)\<rparr>"

definition Conn_Expired :: "Connection \<Rightarrow> time \<Rightarrow> bool" where
  "Conn_Expired c now = (c_IdleTimeout c > 0 \<and> time_Sub now (c_LastActivity c) > c_IdleTimeout c)"

section \<open>Registry\<close>

record conn_Registry =
  cr_max :: int
  cr_items :: "(string, Connection) gomap"

definition New_conn_Registry :: "int \<Rightarrow> conn_Registry" where
  "New_conn_Registry mx = \<lparr>cr_max = mx, cr_items = []\<rparr>"

definition conn_Add :: "Connection \<Rightarrow> conn_Registry \<Rightarrow> error + conn_Registry" where
  "conn_Add c r =
    (if int (length (cr_items r)) \<ge> cr_max r then Inl (New ''connection limit reached'')
     else if get (cr_items r) (c_ID c) \<noteq> None then Inl (New ''connection already registered'')
     else Inr (r\<lparr>cr_items := put (c_ID c) c (cr_items r)\<rparr>))"

definition conn_Get :: "conn_Registry \<Rightarrow> string \<Rightarrow> Connection option" where
  "conn_Get r cid = get (cr_items r) cid"

definition conn_Remove :: "string \<Rightarrow> conn_Registry \<Rightarrow> conn_Registry" where
  "conn_Remove cid r = r\<lparr>cr_items := del cid (cr_items r)\<rparr>"

definition conn_List :: "(string, Connection) order \<Rightarrow> conn_Registry \<Rightarrow> conn_Snapshot list" where
  "conn_List rng r = sort_key cs_OpenedAt (map (\<lambda>(k, c). Conn_Snapshot c) (rng (cr_items r)))"

definition conn_Expired_list :: "(string, Connection) order \<Rightarrow> time \<Rightarrow> conn_Registry \<Rightarrow> Connection list" where
  "conn_Expired_list rng now r = filter (\<lambda>c. Conn_Expired c now) (map snd (rng (cr_items r)))"

definition conn_Count :: "conn_Registry \<Rightarrow> nat" where
  "conn_Count r = length (cr_items r)"

text \<open>The registry holds pointers: a handler's change to a connection is seen through it.\<close>

definition conn_Set :: "Connection \<Rightarrow> conn_Registry \<Rightarrow> conn_Registry" where
  "conn_Set c r =
    (if get (cr_items r) (c_ID c) = None then r
     else r\<lparr>cr_items := put (c_ID c) c (cr_items r)\<rparr>)"

section \<open>Authentication\<close>

record Identity =
  i_Subject :: string
  i_Mechanism :: string
  i_Attributes :: "(string, string) gomap"

record StaticAuthenticator =
  a_Username :: string
  a_Password :: string
  a_AllowAnonymous :: bool

definition Mechanisms :: "StaticAuthenticator \<Rightarrow> string list" where
  "Mechanisms a = (if a_AllowAnonymous a then [''ANONYMOUS'', ''PLAIN''] else [''PLAIN''])"

definition Authenticate :: "StaticAuthenticator \<Rightarrow> ctx \<Rightarrow> string \<Rightarrow> byte list \<Rightarrow> error + Identity" where
  "Authenticate a ctx mechanism response =
    guardE ctx (
    if mechanism = ''ANONYMOUS'' then
      if \<not> a_AllowAnonymous a then Inl (New ''anonymous authentication disabled'')
      else Inr \<lparr>i_Subject = ''anonymous'', i_Mechanism = mechanism, i_Attributes = []\<rparr>
    else if mechanism = ''PLAIN'' then
      let parts = split_on 0 response in
      if length parts \<noteq> 3 then Inl (New ''invalid PLAIN response'')
      else if string_of_bytes (parts ! 1) \<noteq> a_Username a \<or> string_of_bytes (parts ! 2) \<noteq> a_Password a
        then Inl (New ''invalid credentials'')
      else Inr \<lparr>i_Subject = string_of_bytes (parts ! 1), i_Mechanism = mechanism, i_Attributes = []\<rparr>
    else Inl (New ''unsupported SASL mechanism''))"

section \<open>The state machine\<close>

text \<open>What happens to one connection: the operations of \<open>connection.go\<close>, when they succeed.\<close>

inductive conn_step :: "Connection \<Rightarrow> Connection \<Rightarrow> bool" where
  transition: "Transition c nxt = Inr c' \<Longrightarrow> conn_step c c'"
| touch: "conn_step c (Touch c now)"
| add_session: "AddSession c channel sid = Inr c' \<Longrightarrow> conn_step c c'"
| remove_session: "conn_step c (RemoveSession c channel)"

inductive conn_reachable :: "Connection \<Rightarrow> bool" where
  fresh: "conn_reachable (New_Connection cid remote maxFrame idle now)"
| more: "conn_reachable c \<Longrightarrow> conn_step c c' \<Longrightarrow> conn_reachable c'"

fun conn_rank :: "conn_State \<Rightarrow> nat" where
  "conn_rank StateStart = 0"
| "conn_rank StateHeader = 1"
| "conn_rank StateOpen = 2"
| "conn_rank StateClosing = 3"
| "conn_rank StateClosed = 4"

text \<open>Sessions exist only once the connection has been opened, one per channel.\<close>

definition conn_inv :: "Connection \<Rightarrow> bool" where
  "conn_inv c = (wf_map (c_Sessions c) \<and> (c_Sessions c \<noteq> [] \<longrightarrow> conn_rank StateOpen \<le> conn_rank (c_State c)))"

text \<open>A run of transitions that all succeed.\<close>

fun transitions :: "Connection \<Rightarrow> conn_State list \<Rightarrow> error + Connection" where
  "transitions c [] = Inr c"
| "transitions c (s # ss) = tryE (Transition c s) (\<lambda>c. transitions c ss)"

lemma valid_transition_rank: "valid_transition a b \<Longrightarrow> conn_rank a < conn_rank b"
  by (cases a) (auto simp: valid_transition_def)

lemma Transition_Inr:
  "Transition c nxt = Inr c' \<longleftrightarrow> valid_transition (c_State c) nxt \<and> c' = c\<lparr>c_State := nxt\<rparr>"
  by (auto simp: Transition_def)

lemma del_Nil_iff: "del k m \<noteq> [] \<Longrightarrow> m \<noteq> []"
  by auto

lemma conn_step_inv: "conn_step c c' \<Longrightarrow> conn_inv c \<Longrightarrow> conn_inv c'"
proof (induction rule: conn_step.induct)
  case (transition c nxt c')
  then show ?case
    using valid_transition_rank [of "c_State c" nxt] by (auto simp: Transition_Inr conn_inv_def)
next
  case (add_session c channel sid c')
  then show ?case by (auto simp: AddSession_def conn_inv_def split: if_splits)
next
  case (remove_session c channel)
  then show ?case by (auto simp: RemoveSession_def conn_inv_def)
qed (auto simp: Touch_def conn_inv_def)

lemma conn_reachable_inv: "conn_reachable c \<Longrightarrow> conn_inv c"
proof (induction rule: conn_reachable.induct)
  case (fresh cid remote maxFrame idle now)
  show ?case by (simp add: conn_inv_def New_Connection_def)
qed (blast intro: conn_step_inv)

lemma transitions_rank:
  "transitions c ss = Inr c' \<Longrightarrow> conn_rank (c_State c) + length ss \<le> conn_rank (c_State c')"
proof (induction ss arbitrary: c)
  case (Cons s ss)
  then obtain c1 where "Transition c s = Inr c1" "transitions c1 ss = Inr c'"
    by (auto simp: result_iffs)
  with Cons.IH [of c1] valid_transition_rank [of "c_State c" s] show ?case
    by (auto simp: Transition_Inr)
qed simp

lemma transitions_result:
  "transitions c ss = Inr c' \<Longrightarrow> c' = c\<lparr>c_State := last (c_State c # ss)\<rparr>"
proof (induction ss arbitrary: c)
  case (Cons s ss)
  then have "transitions (c\<lparr>c_State := s\<rparr>) ss = Inr c'"
    by (auto simp: result_iffs Transition_Inr)
  from Cons.IH [OF this] show ?case by simp
qed simp

lemma conn_rank_le: "conn_rank s \<le> 4"
  by (cases s) auto

section \<open>Registry lemmas\<close>

definition conn_reg_inv :: "conn_Registry \<Rightarrow> bool" where
  "conn_reg_inv r = (wf_map (cr_items r) \<and> int (length (cr_items r)) \<le> max 0 (cr_max r) \<and>
     (\<forall>k c. get (cr_items r) k = Some c \<longrightarrow> c_ID c = k))"

lemma conn_Add_inv: "conn_reg_inv r \<Longrightarrow> conn_Add c r = Inr r' \<Longrightarrow> conn_reg_inv r'"
  by (auto simp: conn_reg_inv_def conn_Add_def length_put map_simps split: if_splits)

lemma conn_Remove_inv: "conn_reg_inv r \<Longrightarrow> conn_reg_inv (conn_Remove cid r)"
  using length_del_le [of cid "cr_items r"]
  by (auto simp: conn_reg_inv_def conn_Remove_def map_simps)

lemma conn_Set_inv: "conn_reg_inv r \<Longrightarrow> conn_reg_inv (conn_Set c r)"
  by (auto simp: conn_reg_inv_def conn_Set_def length_put map_simps)

lemma conn_new_inv: "conn_reg_inv (New_conn_Registry mx)"
  by (simp add: conn_reg_inv_def New_conn_Registry_def)

text \<open>What handlers do to the registry.\<close>

datatype conn_op = AddConn Connection | RemoveConn string | SetConn Connection

fun conn_apply :: "conn_op \<Rightarrow> conn_Registry \<Rightarrow> conn_Registry" where
  "conn_apply (AddConn c) r = (case conn_Add c r of Inl e \<Rightarrow> r | Inr r' \<Rightarrow> r')"
| "conn_apply (RemoveConn cid) r = conn_Remove cid r"
| "conn_apply (SetConn c) r = conn_Set c r"

lemma conn_apply_inv: "conn_reg_inv r \<Longrightarrow> conn_reg_inv (conn_apply ev r)"
  by (cases ev) (auto simp: conn_Remove_inv conn_Set_inv split: sum.split intro: conn_Add_inv)

lemma conn_apply_max [simp]: "cr_max (conn_apply ev r) = cr_max r"
  by (cases ev) (auto simp: conn_Add_def conn_Remove_def conn_Set_def)

lemma conn_fold_inv: "conn_reg_inv r \<Longrightarrow> conn_reg_inv (fold conn_apply evs r)"
  by (induction evs arbitrary: r) (auto simp: conn_apply_inv)

lemma conn_fold_max [simp]: "cr_max (fold conn_apply evs r) = cr_max r"
  by (induction evs arbitrary: r) auto

section \<open>Authentication lemmas\<close>

lemma split_on_three:
  "split_on c xs = [z, u, p] \<longleftrightarrow> xs = z @ c # u @ c # p \<and> c \<notin> set z \<and> c \<notin> set u \<and> c \<notin> set p"
proof
  assume s: "split_on c xs = [z, u, p]"
  then show "xs = z @ c # u @ c # p \<and> c \<notin> set z \<and> c \<notin> set u \<and> c \<notin> set p"
    using split_on_join [of c xs] split_on_parts [of _ c xs] by auto
qed (simp add: split_on_append split_on_plain)

lemma length_three: "length xs = 3 \<longleftrightarrow> (\<exists>z u p. xs = [z, u, p])"
  by (auto simp: numeral_3_eq_3 length_Suc_conv)

lemma Authenticate_parts:
  "(\<exists>idn. Authenticate a None mech resp = Inr idn) \<longleftrightarrow>
     mech = ''ANONYMOUS'' \<and> a_AllowAnonymous a \<or>
     mech = ''PLAIN'' \<and> (\<exists>z u p. split_on 0 resp = [z, u, p] \<and>
        string_of_bytes u = a_Username a \<and> string_of_bytes p = a_Password a)"
proof (cases "\<exists>z u p. split_on 0 resp = [z, u, p]")
  case True
  then obtain z u p where "split_on 0 resp = [z, u, p]" by blast
  then show ?thesis by (simp add: Authenticate_def)
next
  case False
  then have "length (split_on 0 resp) \<noteq> 3" by (simp add: length_three)
  with False show ?thesis by (simp add: Authenticate_def)
qed

section \<open>Properties\<close>

text \<open>
  The connection state machine only moves forward, start to header to open to closing to
  closed, and never out of closed. A run of accepted transitions is at most four long, and a closed
  connection accepts none.
\<close>

theorem connection_forward:
  "(transitions c ss = Inr c' \<longrightarrow>
      conn_rank (c_State c) + length ss \<le> conn_rank (c_State c') \<and> length ss \<le> 4 \<and>
      c' = c\<lparr>c_State := last (c_State c # ss)\<rparr>) \<and>
   (c_State c = StateClosed \<longrightarrow> Transition c nxt = Inl (New ''invalid connection state transition''))"
proof -
  have "c' = c\<lparr>c_State := last (c_State c # ss)\<rparr>" if "transitions c ss = Inr c'"
    using that by (rule transitions_result)
  moreover have "length ss \<le> 4" if "transitions c ss = Inr c'"
    using transitions_rank [OF that] conn_rank_le [of "c_State c'"] by simp
  ultimately show ?thesis
    using transitions_rank [of c ss c'] by (auto simp: Transition_def valid_transition_def)
qed

theorem connection_forward_witness:
  "transitions (New_Connection ''c'' ''r'' 512 0 1) [StateHeader, StateOpen, StateClosing, StateClosed]
     = Inr ((New_Connection ''c'' ''r'' 512 0 1)\<lparr>c_State := StateClosed\<rparr>) \<and>
   length [StateHeader, StateOpen, StateClosing, StateClosed] \<le> (4 :: nat)"
proof -
  let ?c = "New_Connection ''c'' ''r'' 512 0 1"
  let ?ss = "[StateHeader, StateOpen, StateClosing, StateClosed]"
  have run: "transitions ?c ?ss = Inr (?c\<lparr>c_State := StateClosed\<rparr>)"
    by (simp add: Transition_def valid_transition_def New_Connection_def)
  with connection_forward [of ?c ?ss "?c\<lparr>c_State := StateClosed\<rparr>" StateOpen]
  show ?thesis by blast
qed

text \<open>
  Whatever a connection goes through, it has sessions only after it was opened, and at most
  one session per channel.
\<close>

theorem sessions_only_when_open:
  assumes "conn_reachable c" and "get (c_Sessions c) channel = Some sid"
  shows "c_State c \<in> {StateOpen, StateClosing, StateClosed} \<and> distinct (map fst (c_Sessions c))"
proof -
  have inv: "conn_inv c" by (rule conn_reachable_inv [OF assms(1)])
  moreover have "c_Sessions c \<noteq> []" using assms(2) by auto
  ultimately have "2 \<le> conn_rank (c_State c)" by (auto simp: conn_inv_def)
  with inv show ?thesis by (cases "c_State c") (auto simp: conn_inv_def wf_map_def)
qed

theorem sessions_only_when_open_witness:
  "\<exists>c. conn_reachable c \<and> get (c_Sessions c) 3 = Some ''ssn'' \<and>
     c_State c \<in> {StateOpen, StateClosing, StateClosed}"
proof -
  let ?c0 = "New_Connection ''c'' ''r'' 512 0 1"
  let ?c2 = "?c0\<lparr>c_State := StateOpen\<rparr>"
  let ?c3 = "?c2\<lparr>c_Sessions := [(3, ''ssn'')]\<rparr>"
  have "conn_step ?c0 (?c0\<lparr>c_State := StateHeader\<rparr>)"
    by (rule conn_step.transition [of _ StateHeader])
      (simp add: Transition_Inr valid_transition_def New_Connection_def)
  moreover have "conn_step (?c0\<lparr>c_State := StateHeader\<rparr>) ?c2"
    by (rule conn_step.transition [of _ StateOpen])
      (simp add: Transition_Inr valid_transition_def New_Connection_def)
  moreover have "conn_step ?c2 ?c3"
    by (rule conn_step.add_session [of _ 3 "''ssn''"]) (simp add: AddSession_def New_Connection_def)
  ultimately have "conn_reachable ?c3"
    by (blast intro: conn_reachable.intros)
  moreover have "get (c_Sessions ?c3) 3 = Some ''ssn''" by simp
  ultimately show ?thesis using sessions_only_when_open by blast
qed

text \<open>
  The registry never holds more connections than its limit, and every entry is filed under
  its own identifier, whatever sequence of registrations, removals and updates it goes through.
  At the limit a further registration is refused.
\<close>

theorem connection_limit:
  defines "r \<equiv> \<lambda>mx evs. fold conn_apply evs (New_conn_Registry mx)"
  shows "int (conn_Count (r mx evs)) \<le> max 0 mx \<and>
    (\<forall>k c. conn_Get (r mx evs) k = Some c \<longrightarrow> c_ID c = k) \<and>
    (int (conn_Count (r mx evs)) = max 0 mx \<longrightarrow>
       conn_Add c (r mx evs) = Inl (New ''connection limit reached''))"
proof -
  have "conn_reg_inv (r mx evs)" "cr_max (r mx evs) = mx"
    by (simp_all add: r_def conn_fold_inv conn_new_inv) (simp add: New_conn_Registry_def)
  then show ?thesis
    by (auto simp: conn_reg_inv_def conn_Count_def conn_Get_def conn_Add_def)
qed

theorem connection_limit_witness:
  "conn_Add (New_Connection ''b'' ''r'' 512 0 1)
     (fold conn_apply [AddConn (New_Connection ''a'' ''r'' 512 0 1)] (New_conn_Registry 1)) =
   Inl (New ''connection limit reached'')"
proof -
  let ?evs = "[AddConn (New_Connection ''a'' ''r'' 512 0 1)]"
  have "int (conn_Count (fold conn_apply ?evs (New_conn_Registry 1))) = max 0 1"
    by (simp add: conn_Count_def New_conn_Registry_def conn_Add_def)
  then show ?thesis
    using connection_limit [of ?evs 1 "New_Connection ''b'' ''r'' 512 0 1"] by blast
qed

text \<open>
  Authentication is exact. With a live context it succeeds just when anonymous access is
  asked for and allowed, or when a PLAIN response has the three NUL-separated parts
  (authorization identity, user, password) with the configured user and password.
\<close>

theorem Authenticate_exact:
  "(\<exists>idn. Authenticate a None mech resp = Inr idn) \<longleftrightarrow>
     mech = ''ANONYMOUS'' \<and> a_AllowAnonymous a \<or>
     mech = ''PLAIN'' \<and> (\<exists>z u p. resp = z @ 0 # u @ 0 # p \<and> 0 \<notin> set z \<and> 0 \<notin> set u \<and> 0 \<notin> set p \<and>
        string_of_bytes u = a_Username a \<and> string_of_bytes p = a_Password a)"
  (is "?l \<longleftrightarrow> ?anon \<or> mech = ''PLAIN'' \<and> ?plain")
proof -
  have "?l \<longleftrightarrow> ?anon \<or> mech = ''PLAIN'' \<and>
      (\<exists>z u p. split_on 0 resp = [z, u, p] \<and> string_of_bytes u = a_Username a \<and> string_of_bytes p = a_Password a)"
    by (rule Authenticate_parts)
  also have "\<dots> \<longleftrightarrow> ?anon \<or> mech = ''PLAIN'' \<and> ?plain"
    by (simp only: split_on_three conj_assoc)
  finally show ?thesis .
qed

end
