(* ===== verification/Registry.thy ===== *)
theory Registry
  imports Prelude
begin

text \<open>
  The contract the session registry and the link registry share: objects filed under their
  identifier (\<open>items\<close>) and, through a second map (\<open>index\<close>), under a textual key built from the
  owning object and a number. \<open>owner_key\<close> is that key, with its exact collisions. The locale states
  what the operations of a registry promise of the two maps; the lemmas in it are proved once for
  both registries.
\<close>

section \<open>Keys\<close>

text \<open>
  \<open>owner + ":" + string(rune(n))\<close>; the caller converts its number to a \<open>rune\<close>, a 32-bit signed
  integer.
\<close>

definition owner_key :: "string \<Rightarrow> int \<Rightarrow> string" where
  "owner_key owner r = owner @ '':'' @ string_of_rune r"

text \<open>The code point that a rune is encoded as.\<close>

definition rune_norm :: "int \<Rightarrow> nat" where
  "rune_norm r = (if valid_rune r then nat r else 0xFFFD)"

lemma string_of_rune_norm: "string_of_rune r = utf8 (rune_norm r)"
  by (simp add: string_of_rune_def rune_norm_def)

lemma owner_key_eq_iff:
  assumes "CHR '':'' \<notin> set a" "CHR '':'' \<notin> set b" "r < 0x10000" "s < 0x10000"
  shows "owner_key a r = owner_key b s \<longleftrightarrow> a = b \<and> rune_norm r = rune_norm s"
proof
  assume eq: "owner_key a r = owner_key b s"
  then have "a = b" "utf8 (rune_norm r) = utf8 (rune_norm s)"
    using separator_inject [of a "CHR '':''" "utf8 (rune_norm r)" b "utf8 (rune_norm s)"] assms(1,2)
    by (simp_all add: owner_key_def string_of_rune_norm)
  moreover have "rune_norm r < 0x10000" "rune_norm s < 0x10000"
    using assms(3,4) by (auto simp: rune_norm_def)
  ultimately show "a = b \<and> rune_norm r = rune_norm s"
    using utf8_inj_bmp by blast
qed (simp add: owner_key_def string_of_rune_norm)

lemma rune_norm_eq_iff:
  "rune_norm r = rune_norm s \<longleftrightarrow>
     r = s \<or> \<not> (valid_rune r \<and> r \<noteq> 0xFFFD) \<and> \<not> (valid_rune s \<and> s \<noteq> 0xFFFD)"
  by (auto simp: rune_norm_def valid_rune_def)

section \<open>Invariant\<close>

text \<open>
  The two maps describe the same objects: every object is filed under its identifier and its key
  leads to it, and every key leads to an object with that key.
\<close>

definition reg_agree ::
  "('i \<Rightarrow> string) \<Rightarrow> ('i \<Rightarrow> string) \<Rightarrow> (string, 'i) gomap \<Rightarrow> (string, string) gomap \<Rightarrow> bool" where
  "reg_agree ident ikey its idx =
    (wf_map its \<and> wf_map idx \<and>
     (\<forall>k x. get its k = Some x \<longrightarrow> ident x = k \<and> get idx (ikey x) = Some k) \<and>
     (\<forall>k i. get idx k = Some i \<longrightarrow> (\<exists>x. get its i = Some x \<and> ikey x = k)))"

lemma reg_agreeD:
  assumes "reg_agree ident ikey its idx"
  shows "get its k = Some x \<Longrightarrow> ident x = k" "get its k = Some x \<Longrightarrow> get idx (ikey x) = Some k"
    "get idx key = Some i \<Longrightarrow> \<exists>x. get its i = Some x \<and> ikey x = key"
  using assms by (auto simp: reg_agree_def)

lemma reg_agree_Nil [simp]: "reg_agree ident ikey [] []"
  by (simp add: reg_agree_def)

lemma reg_agreeI:
  assumes "wf_map its" "wf_map idx"
    and "\<And>k x. get its k = Some x \<Longrightarrow> ident x = k"
    and "\<And>k x. get its k = Some x \<Longrightarrow> get idx (ikey x) = Some k"
    and "\<And>k i. get idx k = Some i \<Longrightarrow> \<exists>x. get its i = Some x \<and> ikey x = k"
  shows "reg_agree ident ikey its idx"
  using assms by (simp add: reg_agree_def)

lemma reg_agree_wf: "reg_agree ident ikey its idx \<Longrightarrow> wf_map its" "reg_agree ident ikey its idx \<Longrightarrow> wf_map idx"
  by (simp_all add: reg_agree_def)

lemma reg_agree_add:
  assumes "reg_agree ident ikey its idx" "get its (ident x) = None" "get idx (ikey x) = None"
  shows "reg_agree ident ikey (put (ident x) x its) (put (ikey x) (ident x) idx)"
proof (rule reg_agreeI)
  note D = reg_agreeD [OF assms(1)]
  fix k y
  assume y: "get (put (ident x) x its) k = Some y"
  then show "ident y = k" using D(1) [of k y] by (auto simp: map_simps split: if_splits)
  show "get (put (ikey x) (ident x) idx) (ikey y) = Some k"
    using y D(2) [of k y] assms(3) by (auto simp: map_simps split: if_splits)
next
  note D = reg_agreeD [OF assms(1)]
  fix k i
  assume "get (put (ikey x) (ident x) idx) k = Some i"
  then show "\<exists>y. get (put (ident x) x its) i = Some y \<and> ikey y = k"
    using D(3) [of k i] assms(2) by (auto simp: map_simps split: if_splits)
qed (simp_all add: reg_agree_wf [OF assms(1)])

lemma reg_agree_remove:
  assumes "reg_agree ident ikey its idx" "get its i = Some x"
  shows "reg_agree ident ikey (del i its) (del (ikey x) idx)"
  unfolding reg_agree_def
proof (intro conjI allI impI)
  fix k y
  assume y: "get (del i its) k = Some y"
  then have "get its k = Some y" "k \<noteq> i" by (auto simp: map_simps split: if_splits)
  with reg_agreeD(1,2) [OF assms(1), of k y] reg_agreeD(2) [OF assms(1,2)]
  show "ident y = k" "get (del (ikey x) idx) (ikey y) = Some k" by (auto simp: map_simps)
next
  fix k j
  assume j: "get (del (ikey x) idx) k = Some j"
  then have "get idx k = Some j" "k \<noteq> ikey x" by (auto simp: map_simps split: if_splits)
  with reg_agreeD(3) [OF assms(1), of k j] assms(2)
  show "\<exists>y. get (del i its) j = Some y \<and> ikey y = k" by (auto simp: map_simps)
qed (use assms in \<open>auto simp: reg_agree_def\<close>)

lemma reg_agree_set:
  assumes "reg_agree ident ikey its idx" "get its (ident x) = Some y" "ikey x = ikey y"
  shows "reg_agree ident ikey (put (ident x) x its) idx"
proof (rule reg_agreeI)
  note D = reg_agreeD [OF assms(1)]
  fix k z
  assume z: "get (put (ident x) x its) k = Some z"
  then show "ident z = k" using D(1) [of k z] by (auto simp: map_simps split: if_splits)
  show "get idx (ikey z) = Some k"
    using z D(2) [of k z] D(2) [OF assms(2)] assms(3) by (auto simp: map_simps split: if_splits)
next
  note D = reg_agreeD [OF assms(1)]
  fix k i
  assume "get idx k = Some i"
  then obtain z where "get its i = Some z" "ikey z = k" using D(3) by blast
  then show "\<exists>z. get (put (ident x) x its) i = Some z \<and> ikey z = k"
    using assms(2,3) by (auto simp: map_simps)
qed (simp_all add: reg_agree_wf [OF assms(1)])

text \<open>
  Two loop bodies over the entries of a map do the same when they agree on an entry that is still
  there and touch no other entry.
\<close>

lemma fold_visited_cong:
  assumes "distinct (map fst xs)" "\<And>k x. (k, x) \<in> set xs \<Longrightarrow> get (its r) k = Some x"
    and "\<And>k x r. get (its r) k = Some x \<Longrightarrow> f (k, x) r = g (k, x) r"
    and "\<And>k x r j. j \<noteq> k \<Longrightarrow> get (its (g (k, x) r)) j = get (its r) j"
  shows "fold f xs r = fold g xs r"
  using assms(1,2)
proof (induction xs arbitrary: r)
  case (Cons a xs)
  obtain k x where a: "a = (k, x)" by (cases a)
  have here: "get (its r) k = Some x" using Cons.prems(2) a by auto
  have "get (its (g (k, x) r)) j = Some y" if "(j, y) \<in> set xs" for j y
  proof -
    have "j \<noteq> k" using Cons.prems(1) a that by (force simp: image_iff)
    with that show ?thesis using Cons.prems(2) [of j y] assms(4) by simp
  qed
  with Cons.IH [of "g (k, x) r"] Cons.prems(1) show ?case
    by (simp add: a assms(3) [OF here])
qed simp

lemma fold_range_cong:
  assumes "wf_map (its r)" "valid_range rng"
    and "\<And>k x r. get (its r) k = Some x \<Longrightarrow> f (k, x) r = g (k, x) r"
    and "\<And>k x r j. j \<noteq> k \<Longrightarrow> get (its (g (k, x) r)) j = get (its r) j"
  shows "fold f (rng (its r)) r = fold g (rng (its r)) r"
proof (rule fold_visited_cong [where its = its])
  show "distinct (map fst (rng (its r)))"
    using valid_range_wf [OF assms(2,1)] by (simp add: wf_map_def)
  show "get (its r) k = Some x" if "(k, x) \<in> set (rng (its r))" for k x
    using that by (simp add: valid_range_set [OF assms(2)] wf_map_get_iff [OF assms(1)])
qed (use assms(3,4) in blast)+

section \<open>The contract\<close>

locale registry =
  fixes empty :: 'r
    and add :: "'i \<Rightarrow> 'r \<Rightarrow> error + 'r"
    and remove :: "string \<Rightarrow> 'r \<Rightarrow> 'r"
    and update :: "'i \<Rightarrow> 'r \<Rightarrow> 'r"
    and remove_owner :: "(string, 'i) order \<Rightarrow> string \<Rightarrow> 'r \<Rightarrow> 'r"
    and items :: "'r \<Rightarrow> (string, 'i) gomap"
    and index :: "'r \<Rightarrow> (string, string) gomap"
    and ident :: "'i \<Rightarrow> string"
    and owner :: "'i \<Rightarrow> string"
    and ikey :: "'i \<Rightarrow> string"
  assumes empty_items: "items empty = []" and empty_index: "index empty = []"
    and add_ok: "add x r = Inr r' \<Longrightarrow> get (index r) (ikey x) = None \<and>
          items r' = put (ident x) x (items r) \<and> index r' = put (ikey x) (ident x) (index r)"
    and add_total: "get (index r) (ikey x) = None \<Longrightarrow> \<exists>r'. add x r = Inr r'"
    and remove_hit: "get (items r) i = Some x \<Longrightarrow>
          items (remove i r) = del i (items r) \<and> index (remove i r) = del (ikey x) (index r)"
    and remove_miss: "get (items r) i = None \<Longrightarrow> remove i r = r"
    and update_hit: "get (items r) (ident x) = Some y \<Longrightarrow> ikey x = ikey y \<Longrightarrow>
          items (update x r) = put (ident x) x (items r) \<and> index (update x r) = index r"
    and remove_owner_fold: "wf_map (items r) \<Longrightarrow> valid_range rng \<Longrightarrow> remove_owner rng o' r =
          fold (\<lambda>(i, x) r. if owner x = o' then remove i r else r) (rng (items r)) r"
begin

definition inv :: "'r \<Rightarrow> bool" where
  "inv r = reg_agree ident ikey (items r) (index r)"

definition by_key :: "'r \<Rightarrow> string \<Rightarrow> 'i option" where
  "by_key r k = (case get (index r) k of None \<Rightarrow> None | Some i \<Rightarrow> get (items r) i)"

lemma inv_empty: "inv empty"
  by (simp add: inv_def empty_items empty_index)

lemma inv_add: "inv r \<Longrightarrow> get (items r) (ident x) = None \<Longrightarrow> add x r = Inr r' \<Longrightarrow> inv r'"
  using add_ok [of x r r'] by (simp add: inv_def reg_agree_add)

lemma inv_remove: "inv r \<Longrightarrow> inv (remove i r)"
  using remove_hit [of r i] remove_miss [of r i]
  by (cases "get (items r) i") (auto simp: inv_def reg_agree_remove)

lemma inv_update:
  "inv r \<Longrightarrow> get (items r) (ident x) = Some y \<Longrightarrow> ikey x = ikey y \<Longrightarrow> inv (update x r)"
  using update_hit [of r x y] by (simp add: inv_def reg_agree_set)

lemma by_key_iff:
  assumes "inv r"
  shows "by_key r k = Some x \<longleftrightarrow> get (items r) (ident x) = Some x \<and> ikey x = k"
proof
  note D = reg_agreeD [OF assms [unfolded inv_def]]
  assume "by_key r k = Some x"
  then obtain i where i: "get (index r) k = Some i" "get (items r) i = Some x"
    by (auto simp: by_key_def split: option.splits)
  then show "get (items r) (ident x) = Some x \<and> ikey x = k"
    using D(3) [OF i(1)] D(1) [OF i(2)] by auto
next
  assume "get (items r) (ident x) = Some x \<and> ikey x = k"
  then show "by_key r k = Some x"
    using reg_agreeD(2) [OF assms [unfolded inv_def]] by (auto simp: by_key_def)
qed

lemma by_key_add:
  assumes "inv r" "get (items r) (ident x) = None" "add x r = Inr r'"
  shows "by_key r' k = (if k = ikey x then Some x else by_key r k)"
proof -
  have "get (index r) k \<noteq> Some (ident x)"
    using assms(1,2) reg_agreeD(3) [of ident ikey "items r" "index r" k "ident x"]
    by (auto simp: inv_def)
  with add_ok [OF assms(3)] show ?thesis
    by (auto simp: by_key_def map_simps split: option.split)
qed

lemma get_remove: "get (items (remove i r)) j = (if j = i then None else get (items r) j)"
  using remove_hit [of r i] remove_miss [of r i]
  by (cases "get (items r) i") (auto simp: map_simps)

lemma fold_remove:
  "get (items (fold (\<lambda>(i, x) r. if owner x = o' then remove i r else r) xs r)) j =
     (if \<exists>x. (j, x) \<in> set xs \<and> owner x = o' then None else get (items r) j) \<and>
   (inv r \<longrightarrow> inv (fold (\<lambda>(i, x) r. if owner x = o' then remove i r else r) xs r))"
  by (induction xs arbitrary: r) (auto simp: get_remove inv_remove)

lemma inv_wf: "inv r \<Longrightarrow> wf_map (items r)"
  by (simp add: inv_def reg_agree_def)

lemma inv_remove_owner: "inv r \<Longrightarrow> valid_range rng \<Longrightarrow> inv (remove_owner rng o' r)"
  using fold_remove by (simp add: remove_owner_fold inv_wf)

lemma get_remove_owner_wf:
  assumes wf: "wf_map (items r)" and rng: "valid_range rng"
  shows "get (items (remove_owner rng o' r)) i = Some x \<longleftrightarrow> get (items r) i = Some x \<and> owner x \<noteq> o'"
proof -
  have "(i, y) \<in> set (rng (items r)) \<longleftrightarrow> get (items r) i = Some y" for y
    by (simp add: valid_range_set [OF rng] wf_map_get_iff [OF wf])
  then show ?thesis
    by (auto simp: remove_owner_fold [OF wf rng] fold_remove split: if_splits)
qed

lemmas get_remove_owner = get_remove_owner_wf [OF inv_wf]

end

end
