(* ===== verification/Session.thy ===== *)
theory Session
  imports Registry
begin

text \<open>
  Sessions (\<open>internal/session\<close>): the session with its state machine, link table and flow windows,
  and the registry that finds a session by connection and channel.
\<close>

section \<open>Session\<close>

datatype session_State = StateUnmapped | StateBeginSent | StateMapped | StateEndSent | StateEnded

record Session =
  s_ID :: string
  s_ConnectionID :: string
  s_LocalChannel :: "16 word"
  s_RemoteChannel :: "16 word"
  s_State :: session_State
  s_NextOutgoingID :: "32 word"
  s_IncomingWindow :: "32 word"
  s_OutgoingWindow :: "32 word"
  s_Links :: "(32 word, string) gomap"
  s_CreatedAt :: time

definition New_Session :: "string \<Rightarrow> string \<Rightarrow> 16 word \<Rightarrow> 16 word \<Rightarrow> time \<Rightarrow> Session" where
  "New_Session sid connection local remote now =
    \<lparr>s_ID = sid, s_ConnectionID = connection, s_LocalChannel = local, s_RemoteChannel = remote,
     s_State = StateUnmapped, s_NextOutgoingID = 0, s_IncomingWindow = 2048,
     s_OutgoingWindow = 2048, s_Links = [], s_CreatedAt = now\<rparr>"

definition Session_Begin :: "Session \<Rightarrow> error + Session" where
  "Session_Begin s =
    (if s_State s \<noteq> StateUnmapped \<and> s_State s \<noteq> StateBeginSent then Inl (New ''session cannot begin'')
     else Inr (s\<lparr>s_State := StateMapped\<rparr>))"

definition Session_End :: "Session \<Rightarrow> error + Session" where
  "Session_End s =
    (if s_State s \<noteq> StateMapped \<and> s_State s \<noteq> StateEndSent then Inl (New ''session cannot end'')
     else Inr (s\<lparr>s_State := StateEnded, s_Links := []\<rparr>))"

definition Session_Attach :: "Session \<Rightarrow> 32 word \<Rightarrow> string \<Rightarrow> error + Session" where
  "Session_Attach s handle linkID =
    (if s_State s \<noteq> StateMapped then Inl (New ''session not mapped'')
     else if get (s_Links s) handle \<noteq> None then Inl (New ''handle already attached'')
     else if handle > 65535 then Inl (New ''handle exceeds negotiated maximum'')
     else Inr (s\<lparr>s_Links := put handle linkID (s_Links s)\<rparr>))"

definition Session_Detach :: "Session \<Rightarrow> 32 word \<Rightarrow> Session" where
  "Session_Detach s handle = s\<lparr>s_Links := del handle (s_Links s)\<rparr>"

definition ConsumeIncoming :: "Session \<Rightarrow> error + Session" where
  "ConsumeIncoming s =
    (if s_IncomingWindow s = 0 then Inl (New ''incoming session window exhausted'')
     else Inr (s\<lparr>s_IncomingWindow := s_IncomingWindow s - 1\<rparr>))"

definition AdvanceOutgoing :: "Session \<Rightarrow> error + (32 word \<times> Session)" where
  "AdvanceOutgoing s =
    (if s_OutgoingWindow s = 0 then Inl (New ''outgoing session window exhausted'')
     else Inr (s_NextOutgoingID s,
       s\<lparr>s_NextOutgoingID := s_NextOutgoingID s + 1, s_OutgoingWindow := s_OutgoingWindow s - 1\<rparr>))"

definition Session_Flow :: "Session \<Rightarrow> 32 word \<Rightarrow> 32 word \<Rightarrow> Session" where
  "Session_Flow s incoming outgoing = s\<lparr>s_IncomingWindow := incoming, s_OutgoingWindow := outgoing\<rparr>"

section \<open>Registry\<close>

record session_Registry =
  sr_items :: "(string, Session) gomap"
  sr_channels :: "(string, string) gomap"

definition NewSessionRegistry :: session_Registry where
  "NewSessionRegistry = \<lparr>sr_items = [], sr_channels = []\<rparr>"

definition session_key :: "string \<Rightarrow> 16 word \<Rightarrow> string" where
  "session_key connection channel = owner_key connection (uint channel)"

definition session_Add :: "Session \<Rightarrow> session_Registry \<Rightarrow> error + session_Registry" where
  "session_Add s r =
    (let k = session_key (s_ConnectionID s) (s_LocalChannel s) in
     if get (sr_channels r) k \<noteq> None then Inl (New ''session channel already exists'')
     else Inr \<lparr>sr_items = put (s_ID s) s (sr_items r), sr_channels = put k (s_ID s) (sr_channels r)\<rparr>)"

definition session_Get :: "session_Registry \<Rightarrow> string \<Rightarrow> Session option" where
  "session_Get r sid = get (sr_items r) sid"

definition ByChannel :: "session_Registry \<Rightarrow> string \<Rightarrow> 16 word \<Rightarrow> Session option" where
  "ByChannel r connection channel =
    (case get (sr_channels r) (session_key connection channel) of
       None \<Rightarrow> None
     | Some sid \<Rightarrow> get (sr_items r) sid)"

definition session_Remove :: "string \<Rightarrow> session_Registry \<Rightarrow> session_Registry" where
  "session_Remove sid r =
    (case get (sr_items r) sid of
       None \<Rightarrow> r
     | Some s \<Rightarrow> \<lparr>sr_items = del sid (sr_items r),
         sr_channels = del (session_key (s_ConnectionID s) (s_LocalChannel s)) (sr_channels r)\<rparr>)"

definition RemoveConnection ::
  "(string, Session) order \<Rightarrow> string \<Rightarrow> session_Registry \<Rightarrow> session_Registry" where
  "RemoveConnection rng connection r =
    fold (\<lambda>(sid, s) r.
        if s_ConnectionID s = connection then
          \<lparr>sr_items = del sid (sr_items r),
           sr_channels = del (session_key connection (s_LocalChannel s)) (sr_channels r)\<rparr>
        else r)
      (rng (sr_items r)) r"

text \<open>The registry holds pointers: a handler's change to a session is seen through it.\<close>

definition session_Set :: "Session \<Rightarrow> session_Registry \<Rightarrow> session_Registry" where
  "session_Set s r =
    (if get (sr_items r) (s_ID s) = None then r
     else r\<lparr>sr_items := put (s_ID s) s (sr_items r)\<rparr>)"

abbreviation s_key :: "Session \<Rightarrow> string" where
  "s_key s \<equiv> session_key (s_ConnectionID s) (s_LocalChannel s)"

section \<open>The registry contract\<close>

lemma RemoveConnection_Remove:
  assumes "wf_map (sr_items r)" "valid_range rng"
  shows "RemoveConnection rng connection r =
    fold (\<lambda>(sid, s) r. if s_ConnectionID s = connection then session_Remove sid r else r) (rng (sr_items r)) r"
  unfolding RemoveConnection_def
  by (rule fold_range_cong [where its = sr_items, OF assms])
    (auto simp: session_Remove_def map_simps split: option.split)

interpretation sessions: registry NewSessionRegistry session_Add session_Remove session_Set
  RemoveConnection sr_items sr_channels s_ID s_ConnectionID s_key
  by unfold_locales
    (auto simp: NewSessionRegistry_def session_Add_def session_Remove_def session_Set_def
      RemoveConnection_Remove Let_def split: if_splits)

lemma ByChannel_by_key: "ByChannel r c ch = sessions.by_key r (session_key c ch)"
  by (simp add: ByChannel_def sessions.by_key_def)

text \<open>
  The states the registry goes through. Identifiers are drawn at random, so a registered session
  has a new one; handlers change a session only through its operations, none of which changes the
  identifier, the connection or the channel.
\<close>

inductive sessions_reachable :: "session_Registry \<Rightarrow> bool" where
  new: "sessions_reachable NewSessionRegistry"
| add: "sessions_reachable r \<Longrightarrow> get (sr_items r) (s_ID s) = None \<Longrightarrow> session_Add s r = Inr r' \<Longrightarrow>
    sessions_reachable r'"
| remove: "sessions_reachable r \<Longrightarrow> sessions_reachable (session_Remove sid r)"
| remove_connection: "sessions_reachable r \<Longrightarrow> valid_range rng \<Longrightarrow>
    sessions_reachable (RemoveConnection rng c r)"
| set: "sessions_reachable r \<Longrightarrow> get (sr_items r) (s_ID s) = Some s0 \<Longrightarrow>
    s_ConnectionID s = s_ConnectionID s0 \<Longrightarrow> s_LocalChannel s = s_LocalChannel s0 \<Longrightarrow>
    sessions_reachable (session_Set s r)"

lemma sessions_reachable_inv: "sessions_reachable r \<Longrightarrow> sessions.inv r"
proof (induction rule: sessions_reachable.induct)
  case (remove_connection r rng c)
  then show ?case by (simp add: sessions.inv_remove_owner)
qed (auto intro: sessions.inv_empty sessions.inv_add sessions.inv_remove sessions.inv_update)

text \<open>Channels whose number is a code point other than the replacement character.\<close>

definition plain_channel :: "16 word \<Rightarrow> bool" where
  "plain_channel ch = (valid_rune (uint ch) \<and> ch \<noteq> 0xFFFD)"

lemma channel_bound: "uint (ch :: 16 word) < 0x10000"
  using unsigned_less [of ch, where ?'a = int] by simp

lemma uint_FFFD: "uint (ch :: 16 word) = 0xFFFD \<longleftrightarrow> ch = 0xFFFD"
proof -
  have "uint (0xFFFD :: 16 word) = 0xFFFD" by simp
  then show ?thesis by (metis word_uint_eq_iff)
qed

lemma session_key_iff:
  assumes "CHR '':'' \<notin> set a" "CHR '':'' \<notin> set b"
  shows "session_key a m = session_key b n \<longleftrightarrow>
    a = b \<and> (m = n \<or> \<not> plain_channel m \<and> \<not> plain_channel n)"
  using owner_key_eq_iff [OF assms channel_bound channel_bound, of m n]
  by (auto simp: session_key_def rune_norm_eq_iff plain_channel_def uint_FFFD word_uint_eq_iff [of m n])

section \<open>Windows\<close>

text \<open>\<open>n\<close> outgoing transfers in a row.\<close>

fun advance_n :: "nat \<Rightarrow> Session \<Rightarrow> error + (32 word list \<times> Session)" where
  "advance_n 0 s = Inr ([], s)"
| "advance_n (Suc n) s =
     tryE (AdvanceOutgoing s) (\<lambda>(i, s). tryE (advance_n n s) (\<lambda>(is, s). Inr (i # is, s)))"

lemma unat_pred: "w \<noteq> 0 \<Longrightarrow> unat (w - 1) = unat w - 1" for w :: "'a::len word"
  by (simp add: unat_minus_one)

lemma advance_n_eq:
  "advance_n n s =
    (if n \<le> unat (s_OutgoingWindow s) then
       Inr (map (\<lambda>k. s_NextOutgoingID s + of_nat k) [0..<n],
         s\<lparr>s_NextOutgoingID := s_NextOutgoingID s + of_nat n,
           s_OutgoingWindow := s_OutgoingWindow s - of_nat n\<rparr>)
     else Inl (New ''outgoing session window exhausted''))"
proof (induction n arbitrary: s)
  case (Suc n)
  show ?case
  proof (cases "s_OutgoingWindow s = 0")
    case True
    then show ?thesis by (simp add: AdvanceOutgoing_def)
  next
    case False
    then have "unat (s_OutgoingWindow s) > 0" by (simp add: unat_gt_0)
    moreover have "map (\<lambda>k. s_NextOutgoingID s + of_nat k) [0..<Suc n] =
        s_NextOutgoingID s # map (\<lambda>k. s_NextOutgoingID s + 1 + of_nat k) [0..<n]"
      by (simp add: upt_conv_Cons map_Suc_upt [symmetric] ac_simps del: upt_Suc)
    ultimately show ?thesis
      using False by (auto simp: AdvanceOutgoing_def Suc.IH unat_pred ac_simps simp del: upt_Suc)
  qed
qed simp

section \<open>Properties\<close>

text \<open>
  Two channels share a registry key exactly when they belong to the same connection and are
  the same channel, or neither is a plain code point: \<open>string(rune(channel))\<close> turns every surrogate
  value (0xD800 to 0xDFFF) and 0xFFFD into the same text. (A connection identifier has no colon.)
\<close>

theorem session_key_collisions:
  assumes "CHR '':'' \<notin> set a" "CHR '':'' \<notin> set b"
  shows "session_key a m = session_key b n \<longleftrightarrow>
    a = b \<and> (m = n \<or> \<not> (plain_channel m \<or> plain_channel n))"
  using session_key_iff [OF assms, of m n] by blast

theorem session_key_collisions_witness:
  "session_key ''conn_01'' 0xD800 = session_key ''conn_01'' 0xDFFF \<and>
   session_key ''conn_01'' 1 \<noteq> session_key ''conn_01'' 2"
  using session_key_collisions [of "''conn_01''" "''conn_01''" "0xD800" "0xDFFF"]
    session_key_collisions [of "''conn_01''" "''conn_01''" 1 2]
  by (simp add: plain_channel_def valid_rune_def)

text \<open>
  In every state the registry can reach, looking a plain channel up finds exactly the
  registered session with that connection and channel; after the removal of a connection it finds
  none of that connection's sessions and all the others.
\<close>

theorem ByChannel_exact:
  assumes "sessions_reachable r" "valid_range rng" "plain_channel ch" "CHR '':'' \<notin> set c"
    and "\<And>i x. session_Get r i = Some x \<Longrightarrow> CHR '':'' \<notin> set (s_ConnectionID x)"
  shows "(ByChannel r c ch = Some s \<longleftrightarrow>
      session_Get r (s_ID s) = Some s \<and> s_ConnectionID s = c \<and> s_LocalChannel s = ch) \<and>
    (ByChannel (RemoveConnection rng c' r) c ch = Some s \<longleftrightarrow>
      ByChannel r c ch = Some s \<and> c \<noteq> c')"
proof -
  have found: "ByChannel q c ch = Some s \<longleftrightarrow>
      session_Get q (s_ID s) = Some s \<and> s_ConnectionID s = c \<and> s_LocalChannel s = ch"
    if "sessions.inv q" "\<And>i x. session_Get q i = Some x \<Longrightarrow> CHR '':'' \<notin> set (s_ConnectionID x)" for q
    using that assms(3,4) session_key_iff [OF _ assms(4), of "s_ConnectionID s" "s_LocalChannel s" ch]
    by (auto simp: ByChannel_by_key sessions.by_key_iff session_Get_def)
  have inv: "sessions.inv r" by (rule sessions_reachable_inv [OF assms(1)])
  have sub: "session_Get (RemoveConnection rng c' r) i = Some x \<longleftrightarrow>
      session_Get r i = Some x \<and> s_ConnectionID x \<noteq> c'" for i x
    unfolding session_Get_def by (rule sessions.get_remove_owner [OF inv assms(2)])
  have inv': "sessions.inv (RemoveConnection rng c' r)"
    by (rule sessions.inv_remove_owner [OF inv assms(2)])
  have after: "ByChannel (RemoveConnection rng c' r) c ch = Some s \<longleftrightarrow>
      session_Get (RemoveConnection rng c' r) (s_ID s) = Some s \<and> s_ConnectionID s = c \<and> s_LocalChannel s = ch"
    by (rule found [OF inv']) (use sub assms(5) in blast)
  have before: "ByChannel r c ch = Some s \<longleftrightarrow>
      session_Get r (s_ID s) = Some s \<and> s_ConnectionID s = c \<and> s_LocalChannel s = ch"
    by (rule found [OF inv assms(5)])
  show ?thesis unfolding after before sub by blast
qed

theorem ByChannel_exact_witness:
  "\<exists>r. sessions_reachable r \<and> ByChannel r ''conn_01'' 7 = Some (New_Session ''ssn_1'' ''conn_01'' 7 7 1)"
proof -
  let ?s = "New_Session ''ssn_1'' ''conn_01'' 7 7 1"
  let ?r = "\<lparr>sr_items = [(''ssn_1'', ?s)], sr_channels = [(s_key ?s, ''ssn_1'')]\<rparr>"
  have "session_Add ?s NewSessionRegistry = Inr ?r"
    by (simp add: session_Add_def NewSessionRegistry_def New_Session_def)
  then have "sessions_reachable ?r"
    by (intro sessions_reachable.add [OF sessions_reachable.new, of ?s])
      (simp_all add: NewSessionRegistry_def)
  moreover have "ByChannel ?r ''conn_01'' 7 = Some ?s"
  proof -
    have "session_Get ?r i = Some x \<Longrightarrow> CHR '':'' \<notin> set (s_ConnectionID x)" for i x
      by (auto simp: session_Get_def New_Session_def split: if_splits)
    then show ?thesis
      using ByChannel_exact [OF \<open>sessions_reachable ?r\<close> valid_range_id(1), of 7 "''conn_01''" ?s]
      by (simp add: plain_channel_def valid_rune_def session_Get_def New_Session_def)
  qed
  ultimately show ?thesis by blast
qed

text \<open>
  The outgoing window is exact. As many transfers as the window says succeed, with
  consecutive delivery identifiers (wrapping at 32 bits), and the next one is refused; the window
  never wraps below zero.
\<close>

theorem outgoing_window_exact:
  "advance_n n s =
    (if n \<le> unat (s_OutgoingWindow s) then
       Inr (map (\<lambda>k. s_NextOutgoingID s + of_nat k) [0..<n],
         s\<lparr>s_NextOutgoingID := s_NextOutgoingID s + of_nat n,
           s_OutgoingWindow := s_OutgoingWindow s - of_nat n\<rparr>)
     else Inl (New ''outgoing session window exhausted''))"
  by (rule advance_n_eq)

end
