(* ===== verification/Link.thy ===== *)
theory Link
  imports Registry
begin

text \<open>
  Links (\<open>internal/link\<close>): the link with its state and credit, and the registry that finds a link by
  session and handle.
\<close>

section \<open>Link\<close>

datatype Role = RoleSender | RoleReceiver

datatype link_State = StateDetached | StateAttachSent | StateAttached | StateDetachSent

record Link =
  l_ID :: string
  l_SessionID :: string
  l_Name :: string
  l_Handle :: "32 word"
  l_Role :: Role
  l_Address :: string
  l_State :: link_State
  l_Credit :: "32 word"
  l_DeliveryCount :: "32 word"
  l_MaxMessageSize :: "64 word"
  l_CreatedAt :: time

definition New_Link ::
  "string \<Rightarrow> string \<Rightarrow> string \<Rightarrow> string \<Rightarrow> 32 word \<Rightarrow> Role \<Rightarrow> time \<Rightarrow> error + Link" where
  "New_Link lid session name address handle role now =
    (if lid = '''' \<or> session = '''' \<or> name = '''' \<or> address = ''''
     then Inl (New ''link identity and address required'')
     else Inr \<lparr>l_ID = lid, l_SessionID = session, l_Name = name, l_Handle = handle, l_Role = role,
       l_Address = address, l_State = StateDetached, l_Credit = 0, l_DeliveryCount = 0,
       l_MaxMessageSize = 16777216, l_CreatedAt = now\<rparr>)"

definition Link_Attach :: "Link \<Rightarrow> error + Link" where
  "Link_Attach l =
    (if l_State l \<noteq> StateDetached \<and> l_State l \<noteq> StateAttachSent then Inl (New ''link cannot attach'')
     else Inr (l\<lparr>l_State := StateAttached\<rparr>))"

definition Link_Detach :: "Link \<Rightarrow> Link" where
  "Link_Detach l = l\<lparr>l_State := StateDetached, l_Credit := 0\<rparr>"

definition Link_Grant :: "Link \<Rightarrow> 32 word \<Rightarrow> Link" where
  "Link_Grant l credit = l\<lparr>l_Credit := credit\<rparr>"

definition Link_Consume :: "Link \<Rightarrow> 64 word \<Rightarrow> error + Link" where
  "Link_Consume l sz =
    (if l_State l \<noteq> StateAttached then Inl (New ''link is not attached'')
     else if l_Role l = RoleSender \<and> l_Credit l = 0 then Inl (New ''link credit exhausted'')
     else if sz > l_MaxMessageSize l then Inl (New ''message exceeds link maximum'')
     else
       let l = (if l_Role l = RoleSender then l\<lparr>l_Credit := l_Credit l - 1\<rparr> else l) in
       Inr (l\<lparr>l_DeliveryCount := l_DeliveryCount l + 1\<rparr>))"

definition Link_Snapshot :: "Link \<Rightarrow> link_State \<times> 32 word" where
  "Link_Snapshot l = (l_State l, l_Credit l)"

section \<open>Registry\<close>

record link_Registry =
  lr_items :: "(string, Link) gomap"
  lr_handles :: "(string, string) gomap"

definition NewLinkRegistry :: link_Registry where
  "NewLinkRegistry = \<lparr>lr_items = [], lr_handles = []\<rparr>"

text \<open>\<open>rune(handle)\<close> converts a 32-bit unsigned number to a signed one.\<close>

definition handleKey :: "string \<Rightarrow> 32 word \<Rightarrow> string" where
  "handleKey session handle = owner_key session (sint handle)"

definition link_Add :: "Link \<Rightarrow> link_Registry \<Rightarrow> error + link_Registry" where
  "link_Add l r =
    (let k = handleKey (l_SessionID l) (l_Handle l) in
     if get (lr_handles r) k \<noteq> None then Inl (New ''link handle already exists'')
     else Inr \<lparr>lr_items = put (l_ID l) l (lr_items r), lr_handles = put k (l_ID l) (lr_handles r)\<rparr>)"

definition link_Get :: "link_Registry \<Rightarrow> string \<Rightarrow> Link option" where
  "link_Get r lid = get (lr_items r) lid"

definition ByHandle :: "link_Registry \<Rightarrow> string \<Rightarrow> 32 word \<Rightarrow> Link option" where
  "ByHandle r session handle =
    (case get (lr_handles r) (handleKey session handle) of
       None \<Rightarrow> None
     | Some lid \<Rightarrow> get (lr_items r) lid)"

definition link_Remove :: "string \<Rightarrow> link_Registry \<Rightarrow> link_Registry" where
  "link_Remove lid r =
    (case get (lr_items r) lid of
       None \<Rightarrow> r
     | Some l \<Rightarrow> \<lparr>lr_items = del lid (lr_items r),
         lr_handles = del (handleKey (l_SessionID l) (l_Handle l)) (lr_handles r)\<rparr>)"

definition link_RemoveSession :: "(string, Link) order \<Rightarrow> string \<Rightarrow> link_Registry \<Rightarrow> link_Registry" where
  "link_RemoveSession rng session r =
    fold (\<lambda>(lid, l) r.
        if l_SessionID l = session then
          \<lparr>lr_items = del lid (lr_items r),
           lr_handles = del (handleKey session (l_Handle l)) (lr_handles r)\<rparr>
        else r)
      (rng (lr_items r)) r"

text \<open>The registry holds pointers: a handler's change to a link is seen through it.\<close>

definition link_Set :: "Link \<Rightarrow> link_Registry \<Rightarrow> link_Registry" where
  "link_Set l r =
    (if get (lr_items r) (l_ID l) = None then r
     else r\<lparr>lr_items := put (l_ID l) l (lr_items r)\<rparr>)"

abbreviation l_key :: "Link \<Rightarrow> string" where
  "l_key l \<equiv> handleKey (l_SessionID l) (l_Handle l)"

section \<open>The registry contract\<close>

lemma RemoveSession_Remove:
  assumes "wf_map (lr_items r)" "valid_range rng"
  shows "link_RemoveSession rng session r =
    fold (\<lambda>(lid, l) r. if l_SessionID l = session then link_Remove lid r else r) (rng (lr_items r)) r"
  unfolding link_RemoveSession_def
  by (rule fold_range_cong [where its = lr_items, OF assms])
    (auto simp: link_Remove_def map_simps split: option.split)

interpretation links: registry NewLinkRegistry link_Add link_Remove link_Set
  link_RemoveSession lr_items lr_handles l_ID l_SessionID l_key
  by unfold_locales
    (auto simp: NewLinkRegistry_def link_Add_def link_Remove_def link_Set_def
      RemoveSession_Remove Let_def split: if_splits)

text \<open>Both maps of the registry describe the same links.\<close>

definition link_reg_inv :: "link_Registry \<Rightarrow> bool" where
  "link_reg_inv r = reg_agree l_ID l_key (lr_items r) (lr_handles r)"

lemma link_reg_inv_iff: "link_reg_inv r = links.inv r"
  by (simp add: link_reg_inv_def links.inv_def)

lemma ByHandle_by_key: "ByHandle r s h = links.by_key r (handleKey s h)"
  by (simp add: ByHandle_def links.by_key_def)

lemma handle_rune: "h \<le> 65535 \<Longrightarrow> sint (h :: 32 word) = uint h"
proof -
  assume "h \<le> 65535"
  then have "uint h \<le> uint (65535 :: 32 word)" by (simp only: word_le_def)
  then have "uint h \<le> 65535" by simp
  moreover have "- (2 ^ 31) \<le> uint h"
    using uint_ge_0 [of h] order_trans [of "- (2 ^ 31)" 0 "uint h"] by simp
  ultimately show ?thesis
    using signed_take_bit_int_eq_self [of 31 "uint h"] by (simp add: sint_uint)
qed

lemma handle_bound: "h \<le> 65535 \<Longrightarrow> uint (h :: 32 word) < 0x10000"
proof -
  assume "h \<le> 65535"
  then have "uint h \<le> uint (65535 :: 32 word)" by (simp only: word_le_def)
  then show ?thesis by simp
qed

text \<open>Handles a session accepts whose number is a code point other than the replacement character.\<close>

definition plain_handle :: "32 word \<Rightarrow> bool" where
  "plain_handle h = (valid_rune (uint h) \<and> h \<noteq> 0xFFFD)"

lemma handleKey_iff:
  assumes "CHR '':'' \<notin> set a" "CHR '':'' \<notin> set b" "m \<le> 65535" "n \<le> 65535"
  shows "handleKey a m = handleKey b n \<longleftrightarrow> a = b \<and> (m = n \<or> \<not> plain_handle m \<and> \<not> plain_handle n)"
proof -
  have FFFD: "uint (h :: 32 word) = 0xFFFD \<longleftrightarrow> h = 0xFFFD" for h
  proof -
    have "uint (0xFFFD :: 32 word) = 0xFFFD" by simp
    then show ?thesis by (metis word_uint_eq_iff)
  qed
  show ?thesis
    using owner_key_eq_iff [OF assms(1,2) handle_bound [OF assms(3)] handle_bound [OF assms(4)]] assms(3,4)
    by (auto simp: handleKey_def handle_rune rune_norm_eq_iff plain_handle_def FFFD word_uint_eq_iff [of m n])
qed

section \<open>Credit\<close>

text \<open>Transfers of the given sizes in a row.\<close>

fun consume_all :: "64 word list \<Rightarrow> Link \<Rightarrow> error + Link" where
  "consume_all [] l = Inr l"
| "consume_all (z # zs) l = tryE (Link_Consume l z) (consume_all zs)"

lemma Link_Consume_sender:
  assumes "l_State l = StateAttached" "l_Role l = RoleSender"
  shows "Link_Consume l z =
    (if l_Credit l = 0 then Inl (New ''link credit exhausted'')
     else if z > l_MaxMessageSize l then Inl (New ''message exceeds link maximum'')
     else Inr (l\<lparr>l_Credit := l_Credit l - 1, l_DeliveryCount := l_DeliveryCount l + 1\<rparr>))"
  using assms by (simp add: Link_Consume_def)

lemma unat_pred_le: "w \<noteq> 0 \<Longrightarrow> Suc n \<le> unat w \<longleftrightarrow> n \<le> unat (w - 1)" for w :: "'a::len word"
  using unat_gt_0 [of w] by (auto simp: unat_minus_one)

lemma consume_all_sender:
  assumes "l_State l = StateAttached" "l_Role l = RoleSender"
  shows "consume_all zs l = Inr l' \<longleftrightarrow>
    length zs \<le> unat (l_Credit l) \<and> (\<forall>z\<in>set zs. z \<le> l_MaxMessageSize l) \<and>
    l' = l\<lparr>l_Credit := l_Credit l - of_nat (length zs), l_DeliveryCount := l_DeliveryCount l + of_nat (length zs)\<rparr>"
  using assms
proof (induction zs arbitrary: l)
  case (Cons z zs)
  let ?l = "l\<lparr>l_Credit := l_Credit l - 1, l_DeliveryCount := l_DeliveryCount l + 1\<rparr>"
  show ?case
  proof (cases "l_Credit l = 0")
    case False
    have "consume_all zs ?l = Inr l' \<longleftrightarrow>
      length zs \<le> unat (l_Credit ?l) \<and> (\<forall>z\<in>set zs. z \<le> l_MaxMessageSize ?l) \<and>
      l' = ?l\<lparr>l_Credit := l_Credit ?l - of_nat (length zs), l_DeliveryCount := l_DeliveryCount ?l + of_nat (length zs)\<rparr>"
      by (rule Cons.IH) (use Cons.prems in simp_all)
    with False show ?thesis
      using unat_pred_le [OF False, of "length zs"]
      by (auto simp: Link_Consume_sender [OF Cons.prems] algebra_simps not_less)
  qed (simp add: Link_Consume_sender [OF Cons.prems])
qed auto

section \<open>Properties\<close>

text \<open>
  A sending link accepts a sequence of transfers exactly when there are no more of them than
  its credit and none exceeds the maximum message size; its credit then drops by their number,
  never below zero, and its delivery count grows by it (wrapping at 32 bits).
\<close>

theorem link_credit_exact:
  assumes "l_State l = StateAttached" "l_Role l = RoleSender"
  shows "consume_all zs l = Inr l' \<longleftrightarrow>
    length zs \<le> unat (l_Credit l) \<and> (\<forall>z\<in>set zs. z \<le> l_MaxMessageSize l) \<and>
    l' = l\<lparr>l_Credit := l_Credit l - of_nat (length zs), l_DeliveryCount := l_DeliveryCount l + of_nat (length zs)\<rparr>"
  by (rule consume_all_sender [OF assms])

theorem link_credit_exact_witness:
  "\<exists>l l'. l_State l = StateAttached \<and> l_Role l = RoleSender \<and> l_Credit l = 2 \<and>
     consume_all [10, 20] l = Inr l' \<and> (\<nexists>l''. consume_all [10, 20, 30] l = Inr l'')"
proof -
  let ?l = "\<lparr>l_ID = ''l'', l_SessionID = ''s'', l_Name = ''n'', l_Handle = 0, l_Role = RoleSender,
    l_Address = ''q'', l_State = StateAttached, l_Credit = 2, l_DeliveryCount = 0,
    l_MaxMessageSize = 16777216, l_CreatedAt = 1\<rparr>"
  have "consume_all [10, 20] ?l = Inr (?l\<lparr>l_Credit := l_Credit ?l - of_nat (length [10 :: 64 word, 20]),
      l_DeliveryCount := l_DeliveryCount ?l + of_nat (length [10 :: 64 word, 20])\<rparr>)"
    using link_credit_exact [of ?l "[10, 20]"] by simp
  moreover have "consume_all [10, 20, 30] ?l \<noteq> Inr l''" for l''
    using link_credit_exact [of ?l "[10, 20, 30]" l''] by simp
  ultimately show ?thesis by force
qed

text \<open>
  Once a link is registered under a new identifier, looking its session and handle up finds
  it, and looking up another plain handle (or another session) finds what it found before. After
  its removal the lookup finds nothing.
\<close>

theorem link_registry_lookup:
  assumes "link_reg_inv r" "get (lr_items r) (l_ID l) = None" "link_Add l r = Inr r'"
    and "CHR '':'' \<notin> set (l_SessionID l)" "CHR '':'' \<notin> set s" "l_Handle l \<le> 65535" "h \<le> 65535" "plain_handle h"
  shows "ByHandle r' s h =
      (if s = l_SessionID l \<and> h = l_Handle l then Some l else ByHandle r s h) \<and>
    ByHandle (link_Remove (l_ID l) r') (l_SessionID l) (l_Handle l) = None \<and> link_reg_inv r'"
proof -
  note inv = assms(1) [unfolded link_reg_inv_iff]
  have inv': "link_reg_inv r'"
    unfolding link_reg_inv_iff by (rule links.inv_add [OF inv assms(2,3)])
  have here: "get (lr_items r') (l_ID l) = Some l"
    using links.add_ok [OF assms(3)] by (simp add: map_simps)
  have "get (lr_handles (link_Remove (l_ID l) r')) (l_key l) = None"
    using links.remove_hit [OF here] by (simp add: map_simps)
  then have "ByHandle (link_Remove (l_ID l) r') (l_SessionID l) (l_Handle l) = None"
    by (simp add: ByHandle_def)
  moreover have "handleKey s h = l_key l \<longleftrightarrow> s = l_SessionID l \<and> h = l_Handle l"
    using handleKey_iff [OF assms(5,4,7,6)] assms(8) by blast
  ultimately show ?thesis
    using inv' by (simp add: ByHandle_by_key links.by_key_add [OF inv assms(2,3)])
qed

theorem link_registry_lookup_witness:
  "\<exists>l r'. link_Add l NewLinkRegistry = Inr r' \<and> ByHandle r' ''ssn_1'' 3 = Some l"
proof -
  let ?l = "\<lparr>l_ID = ''l'', l_SessionID = ''ssn_1'', l_Name = ''n'', l_Handle = 3, l_Role = RoleSender,
    l_Address = ''q'', l_State = StateAttached, l_Credit = 2, l_DeliveryCount = 0,
    l_MaxMessageSize = 16777216, l_CreatedAt = 1\<rparr>"
  let ?r = "\<lparr>lr_items = [(''l'', ?l)], lr_handles = [(l_key ?l, ''l'')]\<rparr>"
  have add: "link_Add ?l NewLinkRegistry = Inr ?r"
    by (simp add: link_Add_def NewLinkRegistry_def)
  have "get (lr_items NewLinkRegistry) (l_ID ?l) = None"
    by (simp add: NewLinkRegistry_def)
  from link_registry_lookup [OF links.inv_empty [folded link_reg_inv_iff] this add, of "''ssn_1''" 3]
  have "ByHandle ?r ''ssn_1'' 3 = Some ?l"
    by (simp add: plain_handle_def valid_rune_def)
  with add show ?thesis by blast
qed

end
