(* ===== verification/PathMatch.thy ===== *)
theory PathMatch
  imports Prelude
begin

text \<open>
  Go's \<open>path.Match\<close>, which the topic matcher applies to one segment of a routing key: \<open>*\<close> and \<open>?\<close>
  (neither of them a slash), character classes and escapes. \<open>None\<close> stands for \<open>ErrBadPattern\<close>.
\<close>

section \<open>Runes\<close>

definition cont_byte :: "nat \<Rightarrow> bool" where
  "cont_byte b = (0x80 \<le> b \<and> b \<le> 0xBF)"

text \<open>\<open>utf8.DecodeRuneInString\<close>: the first code point and its width, U+FFFD and 1 for invalid bytes.\<close>

definition decode_rune :: "string \<Rightarrow> nat \<times> nat" where
  "decode_rune s =
    (case map of_char s of
       [] \<Rightarrow> (0xFFFD, 0)
     | a # r \<Rightarrow>
         if a < 0x80 then (a, 1)
         else case r of
             [] \<Rightarrow> (0xFFFD, 1)
           | b # r' \<Rightarrow>
               if 0xC2 \<le> a \<and> a \<le> 0xDF \<and> cont_byte b then ((a - 0xC0) * 64 + (b - 0x80), 2)
               else case r' of
                   [] \<Rightarrow> (0xFFFD, 1)
                 | c # r'' \<Rightarrow>
                     if 0xE0 \<le> a \<and> a \<le> 0xEF \<and> cont_byte b \<and> cont_byte c \<and>
                       (a = 0xE0 \<longrightarrow> b \<ge> 0xA0) \<and> (a = 0xED \<longrightarrow> b \<le> 0x9F)
                     then ((a - 0xE0) * 4096 + (b - 0x80) * 64 + (c - 0x80), 3)
                     else case r'' of
                         [] \<Rightarrow> (0xFFFD, 1)
                       | d # _ \<Rightarrow>
                           if 0xF0 \<le> a \<and> a \<le> 0xF4 \<and> cont_byte b \<and> cont_byte c \<and> cont_byte d \<and>
                             (a = 0xF0 \<longrightarrow> b \<ge> 0x90) \<and> (a = 0xF4 \<longrightarrow> b \<le> 0x8F)
                           then ((a - 0xF0) * 262144 + (b - 0x80) * 4096 + (c - 0x80) * 64 + (d - 0x80), 4)
                           else (0xFFFD, 1))"

lemma decode_rune_width: "s \<noteq> [] \<Longrightarrow> 0 < snd (decode_rune s)"
  by (cases s) (auto simp: decode_rune_def split: list.split)

section \<open>Chunks\<close>

fun scan_len :: "bool \<Rightarrow> string \<Rightarrow> nat" where
  "scan_len inrange [] = 0"
| "scan_len inrange (c # cs) =
     (if c = CHR 0x5C then (case cs of [] \<Rightarrow> 1 | d # ds \<Rightarrow> 2 + scan_len inrange ds)
      else if c = CHR ''['' then 1 + scan_len True cs
      else if c = CHR '']'' then 1 + scan_len False cs
      else if c = CHR ''*'' \<and> \<not> inrange then 0
      else 1 + scan_len inrange cs)"

definition scanChunk :: "string \<Rightarrow> bool \<times> string \<times> string" where
  "scanChunk pattern =
    (let p = dropWhile (\<lambda>c. c = CHR ''*'') pattern; i = scan_len False p in
     (p \<noteq> pattern, take i p, drop i p))"

definition getEsc :: "string \<Rightarrow> (nat \<times> string) option" where
  "getEsc chunk =
    (if chunk = [] \<or> hd chunk = CHR ''-'' \<or> hd chunk = CHR '']'' then None
     else
       let chunk = (if hd chunk = CHR 0x5C then tl chunk else chunk) in
       if chunk = [] then None
       else
         let (r, n) = decode_rune chunk in
         if r = 0xFFFD \<and> n = 1 then None
         else if drop n chunk = [] then None
         else Some (r, drop n chunk))"

lemma getEsc_shorter: "getEsc chunk = Some (r, rest) \<Longrightarrow> length rest < length chunk \<and> rest \<noteq> []"
proof -
  assume a: "getEsc chunk = Some (r, rest)"
  let ?c = "if hd chunk = CHR 0x5C then tl chunk else chunk"
  have c: "chunk \<noteq> []" "?c \<noteq> []" and rest: "rest = drop (snd (decode_rune ?c)) ?c" "rest \<noteq> []"
    using a by (auto simp: getEsc_def Let_def case_prod_unfold split: if_splits)
  have "length rest < length ?c"
    using decode_rune_width [OF c(2)] c(2) by (simp only: rest(1) length_drop) auto
  also have "\<dots> \<le> length chunk" by simp
  finally show ?thesis using rest(2) by simp
qed

text \<open>
  The ranges of a character class: \<open>r\<close> is the rune to match. The result says whether a range holds
  it and what follows the class.
\<close>

function class_ranges :: "nat \<Rightarrow> string \<Rightarrow> bool \<Rightarrow> nat \<Rightarrow> (bool \<times> string) option" where
  "class_ranges r chunk matched nrange =
    (if chunk \<noteq> [] \<and> hd chunk = CHR '']'' \<and> nrange > 0 then Some (matched, tl chunk)
     else case getEsc chunk of
         None \<Rightarrow> None
       | Some (lo, rest) \<Rightarrow>
           if hd rest = CHR ''-'' then
             (case getEsc (tl rest) of
                None \<Rightarrow> None
              | Some (hi, rest') \<Rightarrow> class_ranges r rest' (matched \<or> lo \<le> r \<and> r \<le> hi) (nrange + 1))
           else class_ranges r rest (matched \<or> lo = r) (nrange + 1))"
  by pat_completeness auto
termination
proof (relation "measure (\<lambda>(r, chunk, matched, nrange). length chunk)", goal_cases)
  case (2 r chunk matched nrange x lo rest y hi rest')
  then have "length rest < length chunk" "length rest' < length (tl rest)"
    using getEsc_shorter by blast+
  then show ?case by simp
next
  case (3 r chunk matched nrange x lo rest)
  then have "length rest < length chunk" using getEsc_shorter by blast
  then show ?case by simp
qed simp

declare class_ranges.simps [simp del]

lemma class_ranges_shorter: "class_ranges r chunk m n = Some (b, rest) \<Longrightarrow> length rest < length chunk"
proof (induction r chunk m n rule: class_ranges.induct)
  case (1 r chunk m n)
  show ?case
  proof (cases "chunk \<noteq> [] \<and> hd chunk = CHR '']'' \<and> n > 0")
    case True
    with "1.prems" show ?thesis by (auto simp: class_ranges.simps [of r chunk])
  next
    case False
    then obtain lo q where lo: "getEsc chunk = Some (lo, q)"
      using "1.prems" by (auto simp: class_ranges.simps [of r chunk] split: option.splits if_splits)
    have q: "length q < length chunk" using getEsc_shorter [OF lo] by simp
    show ?thesis
    proof (cases "hd q = CHR ''-''")
      case True
      then obtain hi q' where hi: "getEsc (tl q) = Some (hi, q')"
        using "1.prems" False lo by (auto simp: class_ranges.simps [of r chunk] split: option.splits if_splits)
      have "length rest < length q'"
        using "1.IH"(1) [OF False lo refl True hi refl] "1.prems" False lo True hi
        by (auto simp: class_ranges.simps [of r chunk] split: if_splits)
      moreover have "length q' < length (tl q)" using getEsc_shorter [OF hi] by simp
      ultimately show ?thesis using q by simp
    next
      case no: False
      have "length rest < length q"
        using "1.IH"(2) [OF False lo refl no] "1.prems" False lo no
        by (auto simp: class_ranges.simps [of r chunk] split: if_splits)
      with q show ?thesis by simp
    qed
  qed
qed

text \<open>
  One chunk against the beginning of \<open>s\<close>. Once the match has failed the chunk is still checked to
  its end, without reading \<open>s\<close>. \<open>None\<close> is a bad pattern, \<open>Some None\<close> no match, \<open>Some (Some t)\<close> a match
  that leaves \<open>t\<close>.
\<close>

function match_chunk :: "string \<Rightarrow> bool \<Rightarrow> string \<Rightarrow> string option option" where
  "match_chunk chunk failed0 s =
    (if chunk = [] then Some (if failed0 then None else Some s)
     else
       let failed = (failed0 \<or> s = []) in
       if hd chunk = CHR ''['' then
         let (r, n) = (if failed then (0, 0) else decode_rune s);
             chunk1 = tl chunk;
             negated = (chunk1 \<noteq> [] \<and> hd chunk1 = CHR 0x5E);
             chunk2 = (if negated then tl chunk1 else chunk1) in
         (case class_ranges r chunk2 False 0 of
            None \<Rightarrow> None
          | Some (matched, rest) \<Rightarrow> match_chunk rest (failed \<or> matched = negated) (drop n s))
       else if hd chunk = CHR ''?'' then
         match_chunk (tl chunk) (failed \<or> hd s = CHR ''/'') (if failed then s else drop (snd (decode_rune s)) s)
       else
         let chunk1 = (if hd chunk = CHR 0x5C then tl chunk else chunk) in
         if chunk1 = [] then None
         else match_chunk (tl chunk1) (failed \<or> hd chunk1 \<noteq> hd s) (if failed then s else tl s))"
  by pat_completeness auto
termination
proof (relation "measure (\<lambda>(chunk, failed, s). length chunk)", goal_cases)
  case (2 chunk failed0 s failed x r n chunk1 negated chunk2 y matched rest)
  then have "length rest < length chunk2" using class_ranges_shorter by blast
  moreover have "length chunk2 \<le> length chunk1" "length chunk1 < length chunk"
    using 2 by auto
  ultimately show ?case by simp
qed (auto simp: less_Suc_eq_le)

declare match_chunk.simps [simp del]

definition matchChunk :: "string \<Rightarrow> string \<Rightarrow> string option option" where
  "matchChunk chunk s = match_chunk chunk False s"

section \<open>Match\<close>

text \<open>
  The search after a star: skip one byte after another, never a slash. \<open>lastp\<close> says that nothing of the pattern
  is left, so that the rest of the name has to be empty.
\<close>

fun star_search :: "string \<Rightarrow> bool \<Rightarrow> string \<Rightarrow> string option option" where
  "star_search chunk lastp [] = Some None"
| "star_search chunk lastp (c # cs) =
     (if c = CHR ''/'' then Some None
      else case matchChunk chunk cs of
          None \<Rightarrow> None
        | Some (Some t) \<Rightarrow> if lastp \<and> t \<noteq> [] then star_search chunk lastp cs else Some (Some t)
        | Some None \<Rightarrow> star_search chunk lastp cs)"

lemma scan_len_pos: "p \<noteq> [] \<Longrightarrow> hd p \<noteq> CHR ''*'' \<Longrightarrow> 0 < scan_len inr p"
  by (cases p) (auto split: list.split)

lemma scanChunk_shorter: "pattern \<noteq> [] \<Longrightarrow> scanChunk pattern = (star, chunk, rest) \<Longrightarrow> length rest < length pattern"
proof -
  assume a: "pattern \<noteq> []" "scanChunk pattern = (star, chunk, rest)"
  let ?p = "dropWhile (\<lambda>c. c = CHR ''*'') pattern"
  have rest: "rest = drop (scan_len False ?p) ?p" using a(2) by (simp add: scanChunk_def Let_def)
  have le: "length ?p \<le> length pattern" by (rule length_dropWhile_le)
  show ?thesis
  proof (cases "?p = []")
    case True
    with a(1) show ?thesis unfolding rest True by simp
  next
    case False
    then have "0 < scan_len False ?p" using hd_dropWhile scan_len_pos by blast
    moreover have "0 < length ?p" using False by blast
    ultimately show ?thesis using le unfolding rest length_drop by linarith
  qed
qed

text \<open>Whether the name matches; a bad pattern (an error that the caller drops) does not match.\<close>

function path_Match :: "string \<Rightarrow> string \<Rightarrow> bool" where
  "path_Match pattern name =
    (if pattern = [] then name = []
     else case scanChunk pattern of (star, chunk, rest) \<Rightarrow>
       if star \<and> chunk = [] then CHR ''/'' \<notin> set name
       else case matchChunk chunk name of
           None \<Rightarrow> False
         | Some res \<Rightarrow>
             (case res of
                Some t \<Rightarrow>
                  if t = [] \<or> rest \<noteq> [] then path_Match rest t
                  else star \<and> (case star_search chunk True name of
                      Some (Some t') \<Rightarrow> path_Match rest t' | _ \<Rightarrow> False)
              | None \<Rightarrow>
                  star \<and> (case star_search chunk (rest = []) name of
                      Some (Some t') \<Rightarrow> path_Match rest t' | _ \<Rightarrow> False)))"
  by pat_completeness auto
termination
  by (relation "measure (\<lambda>(pattern, name). length pattern)") (auto dest: scanChunk_shorter [OF _ sym])

declare path_Match.simps [simp del]

section \<open>Plain segments\<close>

text \<open>A segment without special characters matches itself only.\<close>

definition plain_segment :: "string \<Rightarrow> bool" where
  "plain_segment p = (\<forall>c\<in>set p. c \<notin> {CHR ''*'', CHR ''?'', CHR ''['', CHR 0x5C})"

lemma scan_len_plain: "plain_segment p \<Longrightarrow> scan_len inr p = length p"
  by (induction inr p rule: scan_len.induct) (auto simp: plain_segment_def)

lemma match_chunk_plain:
  "plain_segment p \<Longrightarrow> match_chunk p failed s =
     Some (if failed \<or> take (length p) s \<noteq> p then None else Some (drop (length p) s))"
proof (induction p arbitrary: failed s)
  case Nil
  then show ?case by (simp add: match_chunk.simps [of "[]"])
next
  case (Cons c p)
  have c: "c \<noteq> CHR ''['' \<and> c \<noteq> CHR ''?'' \<and> c \<noteq> CHR 0x5C"
    using Cons.prems by (auto simp: plain_segment_def)
  have p: "plain_segment p" using Cons.prems by (simp add: plain_segment_def)
  show ?case
  proof (cases s)
    case Nil
    with c show ?thesis by (simp add: match_chunk.simps [of "c # p"] Cons.IH [OF p])
  next
    case (Cons d s')
    with c show ?thesis by (simp add: match_chunk.simps [of "c # p"] Cons.IH [OF p])
  qed
qed

lemma path_Match_plain:
  assumes "plain_segment p"
  shows "path_Match p name \<longleftrightarrow> p = name"
proof (cases "p = []")
  case True
  then show ?thesis by (auto simp: path_Match.simps [of "[]"])
next
  case False
  have "hd p \<noteq> CHR ''*''" using assms False by (cases p) (auto simp: plain_segment_def)
  then have "dropWhile (\<lambda>c. c = CHR ''*'') p = p" using False by (cases p) auto
  then have scan: "scanChunk p = (False, p, [])"
    by (simp add: scanChunk_def scan_len_plain [OF assms])
  have "path_Match p name \<longleftrightarrow> take (length p) name = p \<and> drop (length p) name = []"
    using False by (subst path_Match.simps)
      (auto simp: scan matchChunk_def match_chunk_plain [OF assms] path_Match.simps [of "[]"])
  then show ?thesis by auto
qed

end
