(* ===== verification/Repository.thy ===== *)
theory Repository
  imports Prelude
begin

text \<open>
  The contracts of the repositories (\<open>address/domain/repository.go\<close>, \<open>delivery/domain/repository.go\<close>,
  \<open>transaction/domain/repository.go\<close>): what a stored entity's key leads to, stated over an abstract
  view \<open>view s k\<close> of the store. Every law is for a live context; with a cancelled one each operation
  returns the context's error and changes nothing. The in-memory store interprets them.
\<close>

locale repo_read =
  fixes view :: "'s \<Rightarrow> string \<Rightarrow> 'v option"
    and fetch :: "ctx \<Rightarrow> string \<Rightarrow> 's \<Rightarrow> error + 'v"
    and missing :: error
  assumes fetch_live: "fetch None k s = (case view s k of None \<Rightarrow> Inl missing | Some v \<Rightarrow> Inr v)"
    and fetch_dead: "fetch (Some e) k s = Inl e"
begin

lemma fetch_Inr: "fetch c k s = Inr v \<longleftrightarrow> c = None \<and> view s k = Some v"
  by (cases c) (auto simp: fetch_live fetch_dead split: option.splits)

lemma fetch_Inl: "fetch c k s = Inl e \<longleftrightarrow> c = Some e \<or> c = None \<and> view s k = None \<and> e = missing"
  by (cases c) (auto simp: fetch_live fetch_dead split: option.splits)

end

locale repo_create = repo_read +
  fixes key :: "'b \<Rightarrow> string"
    and create :: "ctx \<Rightarrow> 'b \<Rightarrow> 'a \<Rightarrow> error + 'a"
    and conflict :: error
  assumes create_live: "view s (key v) = None \<Longrightarrow>
      \<exists>s'. create None v s = Inr s' \<and> view s' = (view s)(key v \<mapsto> v)"
    and create_taken: "view s (key v) \<noteq> None \<Longrightarrow> create None v s = Inl conflict"
    and create_dead: "create (Some e) v s = Inl e"
begin

lemma create_Inr: "create c v s = Inr s' \<Longrightarrow> c = None \<and> view s (key v) = None \<and> view s' = (view s)(key v \<mapsto> v)"
  using create_live [of s v] create_taken [of s v] create_dead
  by (cases c; cases "view s (key v)") auto

text \<open>What was created is found; creating it again is a conflict; other keys are as before.\<close>

lemma create_fetch:
  assumes "create c v s = Inr s'"
  shows "fetch None (key v) s' = Inr v" "create None w s' = Inl conflict \<or> key w \<noteq> key v"
    "k \<noteq> key v \<Longrightarrow> fetch None k s' = fetch None k s"
  using create_Inr [OF assms] create_taken [of s' w] by (auto simp: fetch_live)

end

locale repo_delete = repo_read +
  fixes delete :: "ctx \<Rightarrow> string \<Rightarrow> 'a \<Rightarrow> error + 'a"
  assumes delete_live: "view s k \<noteq> None \<Longrightarrow> \<exists>s'. delete None k s = Inr s' \<and> view s' = (view s)(k := None)"
    and delete_missing: "view s k = None \<Longrightarrow> delete None k s = Inl missing"
    and delete_dead: "delete (Some e) k s = Inl e"
begin

lemma delete_Inr: "delete c k s = Inr s' \<Longrightarrow> c = None \<and> view s k \<noteq> None \<and> view s' = (view s)(k := None)"
  using delete_live [of s k] delete_missing [of s k] delete_dead
  by (cases c; cases "view s k") auto

lemma delete_fetch:
  assumes "delete c k s = Inr s'"
  shows "fetch None k s' = Inl missing" "j \<noteq> k \<Longrightarrow> fetch None j s' = fetch None j s"
  using delete_Inr [OF assms] by (auto simp: fetch_live)

end

locale repo_update = repo_read +
  fixes key :: "'b \<Rightarrow> string"
    and update :: "ctx \<Rightarrow> 'b \<Rightarrow> 'a \<Rightarrow> error + 'a"
    and stale :: "'b \<Rightarrow> 'b \<Rightarrow> bool"
    and stale_error :: error
  assumes update_live: "view s (key v) = Some old \<Longrightarrow> \<not> stale old v \<Longrightarrow>
      \<exists>s'. update None v s = Inr s' \<and> view s' = (view s)(key v \<mapsto> v)"
    and update_stale: "view s (key v) = Some old \<Longrightarrow> stale old v \<Longrightarrow> update None v s = Inl stale_error"
    and update_missing: "view s (key v) = None \<Longrightarrow> update None v s = Inl missing"
    and update_dead: "update (Some e) v s = Inl e"
begin

lemma update_Inr:
  assumes "update c v s = Inr s'"
  shows "c = None \<and> (\<exists>old. view s (key v) = Some old \<and> \<not> stale old v) \<and> view s' = (view s)(key v \<mapsto> v)"
proof -
  have c: "c = None" using assms update_dead by (cases c) auto
  then obtain old where old: "view s (key v) = Some old"
    using assms update_missing [of s v] by (cases "view s (key v)") auto
  then have "\<not> stale old v" using assms c update_stale [of s v old] by auto
  with old c assms update_live [OF old] show ?thesis by auto
qed

lemma update_fetch:
  assumes "update c v s = Inr s'"
  shows "fetch None (key v) s' = Inr v" "k \<noteq> key v \<Longrightarrow> fetch None k s' = fetch None k s"
  using update_Inr [OF assms] by (auto simp: fetch_live)

end

text \<open>A repository with all four: what is created can be deleted, and that restores the view.\<close>

locale repo_full = repo_create + repo_delete
begin

lemma create_delete:
  assumes "create None v s = Inr s1"
  shows "\<exists>s2. delete None (key v) s1 = Inr s2 \<and> view s2 = view s"
proof -
  have s1: "view s (key v) = None" "view s1 = (view s)(key v \<mapsto> v)"
    using create_Inr [OF assms] by auto
  with delete_live [of s1 "key v"] obtain s2 where
    "delete None (key v) s1 = Inr s2" "view s2 = (view s1)(key v := None)" by auto
  with s1 show ?thesis by (auto simp: fun_eq_iff)
qed

end

end
