(* ===== verification/Text.thy ===== *)
theory Text
  imports Prelude "HOL-Library.Sublist"
begin

text \<open>
  What the program uses of Go's \<open>strings\<close> package: \<open>TrimSpace\<close>, \<open>TrimPrefix\<close> and \<open>HasSuffix\<close>.
\<close>

text \<open>The UTF-8 encodings of the characters \<open>unicode.IsSpace\<close> accepts.\<close>

definition spaces :: "string list" where
  "spaces = map utf8 ([9, 10, 11, 12, 13, 32, 0x85, 0xA0, 0x1680] @ [0x2000..<0x200B] @
     [0x2028, 0x2029, 0x202F, 0x205F, 0x3000])"

definition leading :: "string list \<Rightarrow> string \<Rightarrow> string option" where
  "leading ps s = find (\<lambda>p. p \<noteq> [] \<and> prefix p s) ps"

lemma leading_SomeD: "leading ps s = Some p \<Longrightarrow> p \<noteq> [] \<and> prefix p s \<and> p \<in> set ps"
  by (auto simp: leading_def find_Some_iff in_set_conv_nth)

text \<open>Cut leading occurrences of the given strings, as long as there is one.\<close>

function trim_left :: "string list \<Rightarrow> string \<Rightarrow> string" where
  "trim_left ps s = (case leading ps s of None \<Rightarrow> s | Some p \<Rightarrow> trim_left ps (drop (length p) s))"
  by pat_completeness auto
termination
  by (relation "measure (\<lambda>(ps, s). length s)") (auto dest!: leading_SomeD simp: prefix_def)

declare trim_left.simps [simp del]

definition TrimSpace :: "string \<Rightarrow> string" where
  "TrimSpace s = rev (trim_left (map rev spaces) (rev (trim_left spaces s)))"

definition TrimPrefix :: "string \<Rightarrow> string \<Rightarrow> string" where
  "TrimPrefix s p = (if prefix p s then drop (length p) s else s)"

definition HasSuffix :: "string \<Rightarrow> string \<Rightarrow> bool" where
  "HasSuffix s p = suffix p s"

section \<open>Lemmas\<close>

lemma trim_left_None: "leading ps s = None \<Longrightarrow> trim_left ps s = s"
  by (simp add: trim_left.simps [of ps s])

lemma leading_trim_left: "leading ps (trim_left ps s) = None"
proof (induction ps s rule: trim_left.induct)
  case (1 ps s)
  then show ?case
    by (cases "leading ps s") (simp_all add: trim_left.simps [of ps s])
qed

text \<open>Characters that occur in no space: a text of such characters is not trimmed.\<close>

definition inner :: "char \<Rightarrow> bool" where
  "inner c = (\<forall>p\<in>set spaces. c \<notin> set p)"

lemma leading_inner: "s = [] \<or> (\<forall>p\<in>set ps. hd s \<notin> set p) \<Longrightarrow> leading ps s = None"
proof -
  assume a: "s = [] \<or> (\<forall>p\<in>set ps. hd s \<notin> set p)"
  show ?thesis
  proof (cases "leading ps s")
    case (Some p)
    from leading_SomeD [OF this] a show ?thesis
      by (cases p; cases s) auto
  qed
qed

lemma TrimSpace_inner:
  assumes "s \<noteq> []" "inner (hd s)" "inner (last s)"
  shows "TrimSpace s = s"
proof -
  have "trim_left spaces s = s"
    by (rule trim_left_None [OF leading_inner]) (use assms in \<open>auto simp: inner_def\<close>)
  moreover have "trim_left (map rev spaces) (rev s) = rev s"
    by (rule trim_left_None [OF leading_inner]) (use assms in \<open>auto simp: inner_def hd_rev\<close>)
  ultimately show ?thesis by (simp add: TrimSpace_def)
qed

end
