(* ===== verification/Address.thy ===== *)
theory Address
  imports Text
begin

text \<open>
  Addresses and bindings (\<open>internal/address/domain\<close>): the entities and their constructors, with every
  check of the source in its order. The parser of durations (\<open>time.ParseDuration\<close>, whose fractions
  are floating-point arithmetic) is an argument: \<open>None\<close> is an error.
\<close>

section \<open>Address\<close>

text \<open>
  \<open>Kind\<close> is a string in the source; a text that is none of the constants is \<open>KindOther\<close>, so that
  \<open>KindOther ''''\<close> is the empty kind.
\<close>

datatype Kind = KindQueue | KindTopic | KindFanout | KindDirect | KindTemporary | KindOther string

fun kind_text :: "Kind \<Rightarrow> string" where
  "kind_text KindQueue = ''queue''"
| "kind_text KindTopic = ''topic''"
| "kind_text KindFanout = ''fanout''"
| "kind_text KindDirect = ''direct''"
| "kind_text KindTemporary = ''temporary''"
| "kind_text (KindOther s) = s"

record Address =
  ad_Name :: string
  ad_Kind :: Kind
  ad_Durable :: bool
  ad_MaxLength :: int
  ad_DefaultTTL :: duration
  ad_DeadLetter :: string
  ad_Paused :: bool
  ad_CreatedAt :: time
  ad_Version :: "64 word"

record Create =
  cr_Name :: string
  cr_Kind :: Kind
  cr_Durable :: bool
  cr_MaxLength :: int
  cr_DefaultTTL :: string
  cr_DeadLetter :: string

definition name_start :: "char \<Rightarrow> bool" where
  "name_start c = (c \<in> set ''abcdefghijklmnopqrstuvwxyzABCDEFGHIJKLMNOPQRSTUVWXYZ0123456789'')"

definition name_char :: "char \<Rightarrow> bool" where
  "name_char c = (name_start c \<or> c \<in> set ''._/-'')"

text \<open>\<open>^[a-zA-Z0-9][a-zA-Z0-9._/-]{0,127}$\<close>\<close>

fun namePattern :: "string \<Rightarrow> bool" where
  "namePattern [] = False"
| "namePattern (c # cs) = (name_start c \<and> length cs \<le> 127 \<and> list_all name_char cs)"

fun Kind_Valid :: "Kind \<Rightarrow> bool" where
  "Kind_Valid (KindOther s) = False"
| "Kind_Valid k = True"

definition New_Address :: "(string \<Rightarrow> duration option) \<Rightarrow> Create \<Rightarrow> time \<Rightarrow> error + Address" where
  "New_Address ParseDuration c now =
    (let name = TrimSpace (cr_Name c) in
     if \<not> namePattern name then Inl (New ''invalid address name'')
     else
       let kind = (if cr_Kind c = KindOther '''' then KindQueue else cr_Kind c) in
       if \<not> Kind_Valid kind then Inl (Errorf ''unsupported address kind %q'' [kind_text kind])
       else if cr_MaxLength c < 0 then Inl (New ''max_length cannot be negative'')
       else tryE
         (if cr_DefaultTTL c = '''' then Inr 0
          else case ParseDuration (cr_DefaultTTL c) of
              None \<Rightarrow> Inl (New ''default_ttl must be a non-negative duration'')
            | Some ttl \<Rightarrow> if ttl < 0 then Inl (New ''default_ttl must be a non-negative duration'') else Inr ttl)
         (\<lambda>ttl.
           if cr_DeadLetter c = name then Inl (New ''address cannot dead-letter to itself'')
           else Inr \<lparr>ad_Name = name, ad_Kind = kind, ad_Durable = cr_Durable c,
             ad_MaxLength = cr_MaxLength c, ad_DefaultTTL = ttl, ad_DeadLetter = cr_DeadLetter c,
             ad_Paused = False, ad_CreatedAt = now, ad_Version = 1\<rparr>))"

definition Accepting :: "Address \<Rightarrow> error option" where
  "Accepting a = (if ad_Paused a then Some (New ''address ingress is paused'') else None)"

section \<open>Binding\<close>

record Binding =
  b_ID :: string
  b_Source :: string
  b_Destination :: string
  b_RoutingKey :: string
  b_Filter :: "(string, string) gomap"
  b_Priority :: int
  b_CreatedAt :: time

record Bind =
  bi_Source :: string
  bi_Destination :: string
  bi_RoutingKey :: string
  bi_Filter :: "(string, string) gomap"
  bi_Priority :: int

text \<open>A nil filter and an empty one are the same map here.\<close>

definition NewBinding :: "string \<Rightarrow> Bind \<Rightarrow> time \<Rightarrow> error + Binding" where
  "NewBinding bid b now =
    (let source = TrimSpace (bi_Source b); dest = TrimSpace (bi_Destination b) in
     if bid = '''' \<or> source = '''' \<or> dest = '''' then Inl (New ''id, source and destination are required'')
     else if source = dest then Inl (New ''self binding is not allowed'')
     else if bi_Priority b < 0 \<or> bi_Priority b > 9 then Inl (New ''priority must be between 0 and 9'')
     else Inr \<lparr>b_ID = bid, b_Source = source, b_Destination = dest, b_RoutingKey = bi_RoutingKey b,
       b_Filter = bi_Filter b, b_Priority = bi_Priority b, b_CreatedAt = now\<rparr>)"

section \<open>Well-formed entities\<close>

definition address_wf :: "Address \<Rightarrow> bool" where
  "address_wf a = (namePattern (ad_Name a) \<and> Kind_Valid (ad_Kind a) \<and> 0 \<le> ad_MaxLength a \<and>
     0 \<le> ad_DefaultTTL a \<and> ad_DeadLetter a \<noteq> ad_Name a)"

definition binding_wf :: "Binding \<Rightarrow> bool" where
  "binding_wf b = (b_ID b \<noteq> '''' \<and> b_Source b \<noteq> '''' \<and> b_Destination b \<noteq> '''' \<and>
     b_Source b \<noteq> b_Destination b \<and> 0 \<le> b_Priority b \<and> b_Priority b \<le> 9)"

lemma New_Address_wf: "New_Address pd c now = Inr a \<Longrightarrow> address_wf a \<and> \<not> ad_Paused a"
  by (auto simp: New_Address_def Let_def address_wf_def result_iffs split: if_splits option.splits)

lemma NewBinding_wf: "NewBinding bid b now = Inr x \<Longrightarrow> binding_wf x"
  by (auto simp: NewBinding_def Let_def binding_wf_def split: if_splits)

text \<open>Every character of a name is an ASCII character that is no space.\<close>

lemma utf8_chars:
  assumes "r \<le> 32 \<or> 128 \<le> r" "r < 0x10000" "c \<in> set (utf8 r)"
  shows "of_char c \<le> (32 :: nat) \<or> of_char c \<ge> (128 :: nat)"
proof (cases "r < 0x80")
  case True
  with assms show ?thesis by (auto simp: utf8_def)
next
  case False
  then have "c = char_of (0xC0 + r div 64) \<and> r < 0x800 \<or> c = char_of (0x80 + r mod 64) \<or>
      c = char_of (0xE0 + r div 4096) \<or> c = char_of (0x80 + r div 64 mod 64)"
    using assms(2,3) by (auto simp: utf8_def split: if_splits)
  moreover have "0xC0 + r div 64 < 256" if "r < 0x800" using that by auto
  moreover have "0xE0 + r div 4096 < 256" using assms(2) by auto
  moreover have "0x80 + r mod 64 < 256" "0x80 + r div 64 mod 64 < 256"
    using mod_less_divisor [of 64 r] mod_less_divisor [of 64 "r div 64"] by linarith+
  ultimately show ?thesis
    by (elim disjE conjE) simp_all
qed

lemma spaces_chars:
  assumes "p \<in> set spaces" "c \<in> set p"
  shows "of_char c \<le> (32 :: nat) \<or> of_char c \<ge> (128 :: nat)"
proof -
  from assms(1) obtain r where "p = utf8 r" "r \<le> 32 \<or> 128 \<le> r" "r < 0x10000"
    by (auto simp: spaces_def)
  with utf8_chars assms(2) show ?thesis by blast
qed

lemma name_char_inner: "name_char c \<Longrightarrow> inner c"
proof -
  assume "name_char c"
  then have "\<not> (of_char c \<le> (32 :: nat) \<or> of_char c \<ge> (128 :: nat))"
    by (auto simp: name_char_def name_start_def)
  then show ?thesis using spaces_chars by (auto simp: inner_def)
qed

lemma TrimSpace_name: "namePattern s \<Longrightarrow> TrimSpace s = s"
proof (cases s)
  case (Cons c cs)
  assume "namePattern s"
  then have "\<forall>x\<in>set s. name_char x"
    by (auto simp: Cons name_char_def list_all_iff)
  then show ?thesis
    using Cons by (auto intro!: TrimSpace_inner name_char_inner)
qed simp

end
