(* ===== verification/Message.thy ===== *)
theory Message
  imports Prelude
begin

text \<open>
  Messages and consumers (\<open>internal/delivery/domain\<close>): the entities, their constructors and the
  operations of a consumer.
\<close>

section \<open>Message\<close>

text \<open>A state is a string in the source; a text that is none of the constants is \<open>StateOther\<close>.\<close>

datatype State =
    StateAvailable | StateAcquired | StateAccepted | StateReleased | StateRejected
  | StateDeadLettered | StateExpired | StateOther string

record Message =
  m_ID :: string
  m_Address :: string
  m_RoutingKey :: string
  m_Headers :: "(string, string) gomap"
  m_Body :: "byte list"
  m_Priority :: int
  m_CreatedAt :: time
  m_ExpiresAt :: time
  m_State :: State
  m_DeliveryCount :: int
  m_Redelivered :: bool
  m_TransactionID :: string
  m_LogOffset :: int

record Publish =
  p_Address :: string
  p_RoutingKey :: string
  p_Headers :: "(string, string) gomap"
  p_Body :: "byte list"
  p_Priority :: int
  p_TTL :: duration
  p_Settled :: bool
  p_TransactionID :: string

definition NewMessage :: "string \<Rightarrow> Publish \<Rightarrow> time \<Rightarrow> error + Message" where
  "NewMessage mid p now =
    (if mid = '''' \<or> p_Address p = '''' then Inl (New ''message id and address are required'')
     else if length (p_Body p) = 0 then Inl (New ''message body is required'')
     else if p_Priority p < 0 \<or> p_Priority p > 9 then Inl (New ''priority must be between 0 and 9'')
     else
       let m = \<lparr>m_ID = mid, m_Address = p_Address p, m_RoutingKey = p_RoutingKey p,
         m_Headers = p_Headers p, m_Body = p_Body p, m_Priority = p_Priority p, m_CreatedAt = now,
         m_ExpiresAt = 0, m_State = StateAvailable, m_DeliveryCount = 0, m_Redelivered = False,
         m_TransactionID = p_TransactionID p, m_LogOffset = -1\<rparr> in
       Inr (if p_TTL p > 0 then m\<lparr>m_ExpiresAt := now + p_TTL p\<rparr> else m))"

definition Message_Expired :: "Message \<Rightarrow> time \<Rightarrow> bool" where
  "Message_Expired m now = (m_ExpiresAt m = 0 \<or> now > m_ExpiresAt m)"

section \<open>Consumer\<close>

datatype Semantics = AtMostOnce | AtLeastOnce | SemanticsOther string

record Consumer =
  co_ID :: string
  co_Address :: string
  co_Prefetch :: "32 word"
  co_Credit :: "32 word"
  co_Unsettled :: "(32 word, string) gomap"
  co_Semantics :: Semantics
  co_Connected :: bool
  co_CreatedAt :: time
  co_LastSeen :: time

definition NewConsumer :: "string \<Rightarrow> string \<Rightarrow> 32 word \<Rightarrow> Semantics \<Rightarrow> time \<Rightarrow> error + Consumer" where
  "NewConsumer cid address prefetch sem now =
    (if cid = '''' \<or> address = '''' then Inl (New ''consumer id and address required'')
     else
       let prefetch = (if prefetch = 0 then 1 else prefetch) in
       if prefetch > 65535 then Inl (New ''prefetch exceeds limit'')
       else
         let sem = (if sem = SemanticsOther '''' then AtLeastOnce else sem) in
         if sem \<noteq> AtMostOnce \<and> sem \<noteq> AtLeastOnce then Inl (New ''invalid delivery semantics'')
         else Inr \<lparr>co_ID = cid, co_Address = address, co_Prefetch = prefetch, co_Credit = prefetch,
           co_Unsettled = [], co_Semantics = sem, co_Connected = True, co_CreatedAt = now,
           co_LastSeen = now\<rparr>)"

definition Consumer_Acquire :: "Consumer \<Rightarrow> 32 word \<Rightarrow> string \<Rightarrow> error + Consumer" where
  "Consumer_Acquire c deliveryID messageID =
    (if \<not> co_Connected c then Inl (New ''consumer disconnected'')
     else if co_Credit c = 0 then Inl (New ''consumer has no credit'')
     else if get (co_Unsettled c) deliveryID \<noteq> None then Inl (New ''delivery id already unsettled'')
     else Inr c)"

definition Consumer_Settle :: "Consumer \<Rightarrow> 32 word \<Rightarrow> error + Consumer" where
  "Consumer_Settle c did =
    (if get (co_Unsettled c) did = None then Inl (New ''unknown unsettled delivery'') else Inr c)"

definition Consumer_Grant :: "Consumer \<Rightarrow> 32 word \<Rightarrow> Consumer" where
  "Consumer_Grant c n =
    (let room = co_Prefetch c - co_Credit c in
     c\<lparr>co_Credit := co_Credit c + (if n > room then room else n)\<rparr>)"

section \<open>Well-formed entities\<close>

definition message_wf :: "Message \<Rightarrow> bool" where
  "message_wf m = (m_ID m \<noteq> '''' \<and> m_Address m \<noteq> '''' \<and> 0 \<le> m_Priority m \<and> m_Priority m \<le> 9)"

lemma NewMessage_eq:
  "NewMessage mid p now = Inr m \<longleftrightarrow>
     mid \<noteq> '''' \<and> p_Address p \<noteq> '''' \<and> p_Body p \<noteq> [] \<and> 0 \<le> p_Priority p \<and> p_Priority p \<le> 9 \<and>
     m = \<lparr>m_ID = mid, m_Address = p_Address p, m_RoutingKey = p_RoutingKey p,
       m_Headers = p_Headers p, m_Body = p_Body p, m_Priority = p_Priority p, m_CreatedAt = now,
       m_ExpiresAt = (if p_TTL p > 0 then now + p_TTL p else 0), m_State = StateAvailable,
       m_DeliveryCount = 0, m_Redelivered = False, m_TransactionID = p_TransactionID p, m_LogOffset = -1\<rparr>"
  by (auto simp: NewMessage_def Let_def)

lemma NewMessage_wf: "NewMessage mid p now = Inr m \<Longrightarrow> message_wf m"
  by (auto simp: NewMessage_eq message_wf_def)

definition consumer_wf :: "Consumer \<Rightarrow> bool" where
  "consumer_wf c = (co_ID c \<noteq> '''' \<and> co_Address c \<noteq> '''' \<and> co_Credit c \<le> co_Prefetch c \<and>
     0 < co_Prefetch c \<and> co_Prefetch c \<le> 65535 \<and>
     (co_Semantics c = AtMostOnce \<or> co_Semantics c = AtLeastOnce))"

lemma NewConsumer_wf: "NewConsumer cid a p sem now = Inr c \<Longrightarrow> consumer_wf c \<and> co_Unsettled c = []"
  by (auto simp: NewConsumer_def Let_def consumer_wf_def word_neq_0_conv split: if_splits)

lemma Consumer_Acquire_Inr: "Consumer_Acquire c d m = Inr c' \<Longrightarrow> c' = c"
  by (auto simp: Consumer_Acquire_def split: if_splits)

lemma Consumer_Settle_Inr: "Consumer_Settle c d = Inr c' \<Longrightarrow> c' = c"
  by (auto simp: Consumer_Settle_def split: if_splits)

lemma unat_le_sub: "(a :: 32 word) \<le> b \<Longrightarrow> unat (b - a) = unat b - unat a"
  by (simp add: unat_sub)

lemma Grant_credit:
  assumes "co_Credit c \<le> co_Prefetch c"
  shows "unat (co_Credit (Consumer_Grant c n)) = min (unat (co_Prefetch c)) (unat (co_Credit c) + unat n)"
proof -
  let ?room = "co_Prefetch c - co_Credit c"
  have room: "unat ?room = unat (co_Prefetch c) - unat (co_Credit c)" by (rule unat_le_sub [OF assms])
  have le: "unat (co_Credit c) \<le> unat (co_Prefetch c)" using assms by (simp add: word_le_nat_alt)
  show ?thesis
  proof (cases "n > ?room")
    case True
    then have "unat n > unat ?room" by (simp add: word_less_nat_alt)
    with True le show ?thesis by (simp add: Consumer_Grant_def Let_def room)
  next
    case False
    then have small: "unat n \<le> unat ?room" by (simp add: not_less word_le_nat_alt)
    then have "unat (co_Credit c) + unat n < 2 ^ 32"
      using le room word_bounds(2) [of "co_Prefetch c"] by simp
    then have "unat (co_Credit c + n) = unat (co_Credit c) + unat n"
      by (simp add: unat_word_ariths)
    with False small le show ?thesis by (simp add: Consumer_Grant_def Let_def room)
  qed
qed

section \<open>Properties\<close>

text \<open>
  Granting credit never exceeds the prefetch and never wraps: the new credit is the smaller of
  the prefetch and the sum, for every amount granted, and a well-formed consumer stays well-formed.
\<close>

theorem Grant_bounded:
  assumes "consumer_wf c"
  shows "unat (co_Credit (Consumer_Grant c n)) = min (unat (co_Prefetch c)) (unat (co_Credit c) + unat n) \<and>
    consumer_wf (Consumer_Grant c n)"
proof -
  have le: "co_Credit c \<le> co_Prefetch c" using assms by (simp add: consumer_wf_def)
  have "co_Credit (Consumer_Grant c n) \<le> co_Prefetch c"
    by (simp add: word_le_nat_alt Grant_credit [OF le])
  with assms Grant_credit [OF le] show ?thesis
    by (simp add: consumer_wf_def) (simp add: Consumer_Grant_def Let_def)
qed

theorem Grant_bounded_witness:
  "\<exists>c. NewConsumer ''c1'' ''jobs'' 10 AtLeastOnce 1 = Inr c \<and>
     unat (co_Credit (Consumer_Grant (c\<lparr>co_Credit := 4\<rparr>) 0xFFFFFFFF)) = 10"
proof -
  obtain c where c: "NewConsumer ''c1'' ''jobs'' 10 AtLeastOnce 1 = Inr c"
    by (simp add: NewConsumer_def)
  then have fields: "co_Prefetch c = 10" by (auto simp: NewConsumer_def)
  have "consumer_wf (c\<lparr>co_Credit := 4\<rparr>)"
    using NewConsumer_wf [OF c] by (simp add: consumer_wf_def fields)
  from Grant_bounded [OF this, of "0xFFFFFFFF"] fields
  have "unat (co_Credit (Consumer_Grant (c\<lparr>co_Credit := 4\<rparr>) 0xFFFFFFFF)) = 10" by simp
  with c show ?thesis by blast
qed

text \<open>
  A message published without a time to live counts as expired at every moment, while one
  with a positive time to live expires strictly after it has run out. (A zero expiry time means
  "no expiry" in the published message.)
\<close>

theorem Expired_without_ttl:
  assumes "NewMessage mid p t0 = Inr m" "0 \<le> t0"
  shows "Message_Expired m now \<longleftrightarrow> p_TTL p \<le> 0 \<or> now > t0 + p_TTL p"
  using assms by (auto simp: NewMessage_eq Message_Expired_def)

theorem Expired_without_ttl_witness:
  "\<exists>m. NewMessage ''m1'' \<lparr>p_Address = ''jobs'', p_RoutingKey = '''', p_Headers = [], p_Body = [1],
      p_Priority = 0, p_TTL = 0, p_Settled = True, p_TransactionID = ''''\<rparr> 5 = Inr m \<and> Message_Expired m 5"
proof -
  let ?p = "\<lparr>p_Address = ''jobs'', p_RoutingKey = '''', p_Headers = [], p_Body = [1],
      p_Priority = 0, p_TTL = 0, p_Settled = True, p_TransactionID = ''''\<rparr>"
  obtain m where m: "NewMessage ''m1'' ?p 5 = Inr m"
    by (simp add: NewMessage_def)
  with Expired_without_ttl [OF m, of 5] show ?thesis by auto
qed

end
