(* ===== verification/Transaction.thy ===== *)
theory Transaction
  imports Prelude
begin

text \<open>Transactions (\<open>internal/transaction/domain\<close>): the entity and its life cycle.\<close>

datatype tx_State = StateActive | StateCommitted | StateRolledBack | StateTimedOut | TxStateOther string

datatype OperationKind = OpPublish | OpAccept | OpRelease | OpOther string

record Operation =
  op_Kind :: OperationKind
  op_MessageID :: string
  op_Address :: string
  op_DeliveryID :: "32 word"

record Transaction =
  t_ID :: string
  t_ConnectionID :: string
  t_State :: tx_State
  t_CreatedAt :: time
  t_ExpiresAt :: time
  t_CompletedAt :: time
  t_Operations :: "Operation list"
  t_Version :: "64 word"

definition New_Transaction :: "string \<Rightarrow> string \<Rightarrow> time \<Rightarrow> duration \<Rightarrow> error + Transaction" where
  "New_Transaction tid connection now ttl =
    (if tid = '''' \<or> connection = '''' then Inl (New ''id and connection required'')
     else
       let ttl = (if ttl \<le> 0 then 30000000000 else ttl) in
       Inr \<lparr>t_ID = tid, t_ConnectionID = connection, t_State = StateActive, t_CreatedAt = now,
         t_ExpiresAt = now + ttl, t_CompletedAt = 0, t_Operations = [], t_Version = 1\<rparr>)"

definition tx_Add :: "Operation \<Rightarrow> Transaction \<Rightarrow> error + Transaction" where
  "tx_Add op t =
    (if t_State t \<noteq> StateActive then Inl (New ''transaction is not active'')
     else if op_MessageID op = '''' then Inl (New ''operation message id required'')
     else Inr (t\<lparr>t_Operations := t_Operations t @ [op], t_Version := t_Version t + 1\<rparr>))"

definition Complete :: "tx_State \<Rightarrow> time \<Rightarrow> Transaction \<Rightarrow> error + Transaction" where
  "Complete st now t =
    (if t_State t \<noteq> StateActive then Inl (New ''transaction already completed'')
     else if st \<noteq> StateCommitted \<and> st \<noteq> StateRolledBack \<and> st \<noteq> StateTimedOut
     then Inl (New ''invalid terminal transaction state'')
     else Inr (t\<lparr>t_State := st, t_CompletedAt := now, t_Version := t_Version t + 1\<rparr>))"

definition tx_Expired :: "Transaction \<Rightarrow> time \<Rightarrow> bool" where
  "tx_Expired t now = (t_State t = StateActive \<and> \<not> now < t_ExpiresAt t)"

section \<open>Lemmas\<close>

lemma tx_Add_Inr:
  "tx_Add op t = Inr t' \<longleftrightarrow> t_State t = StateActive \<and> op_MessageID op \<noteq> '''' \<and>
     t' = t\<lparr>t_Operations := t_Operations t @ [op], t_Version := t_Version t + 1\<rparr>"
  by (auto simp: tx_Add_def)

lemma Complete_Inr:
  "Complete st now t = Inr t' \<longleftrightarrow> t_State t = StateActive \<and>
     st \<in> {StateCommitted, StateRolledBack, StateTimedOut} \<and>
     t' = t\<lparr>t_State := st, t_CompletedAt := now, t_Version := t_Version t + 1\<rparr>"
  by (auto simp: Complete_def)

text \<open>A completed transaction accepts neither operations nor another completion.\<close>

lemma completed_final:
  "Complete st now t = Inr t' \<Longrightarrow>
     tx_Add op t' = Inl (New ''transaction is not active'') \<and>
     Complete st' now' t' = Inl (New ''transaction already completed'') \<and> \<not> tx_Expired t' later"
  unfolding Complete_Inr by (auto simp: tx_Add_def Complete_def tx_Expired_def)

end
