(* ===== verification/Store.thy ===== *)
theory Store
  imports Repository Address Message Transaction
begin

text \<open>
  The in-memory store (\<open>internal/storage/infrastructure\<close>: \<open>memory.go\<close>, \<open>memory_delivery.go\<close>,
  \<open>memory_consumer.go\<close>, \<open>memory_transaction.go\<close>, \<open>delivery_adapter.go\<close>, \<open>snapshot.go\<close>): one record with
  the five maps, one function per method. A method that takes the write lock is one atomic step. The
  clones the source makes of maps and slices are the identity on values.

  Listings that sort with \<open>sort.Slice\<close> (not stable) are modelled by a stable sort of the entries in
  the order the map is visited: as that order is arbitrary, every order of equal entries is covered.
\<close>

section \<open>State\<close>

record Memory =
  mm_addresses :: "(string, Address) gomap"
  mm_bindings :: "(string, Binding) gomap"
  mm_messages :: "(string, Message) gomap"
  mm_consumers :: "(string, Consumer) gomap"
  mm_transactions :: "(string, Transaction) gomap"

definition NewMemory :: Memory where
  "NewMemory = \<lparr>mm_addresses = [], mm_bindings = [], mm_messages = [], mm_consumers = [], mm_transactions = []\<rparr>"

text \<open>The orders in which the maps are visited.\<close>

record ranges =
  r_addresses :: "(string, Address) order"
  r_bindings :: "(string, Binding) order"
  r_messages :: "(string, Message) order"
  r_consumers :: "(string, Consumer) order"
  r_transactions :: "(string, Transaction) order"
  r_unsettled :: "(32 word, string) order"

definition valid_ranges :: "ranges \<Rightarrow> bool" where
  "valid_ranges rs = (valid_range (r_addresses rs) \<and> valid_range (r_bindings rs) \<and>
     valid_range (r_messages rs) \<and> valid_range (r_consumers rs) \<and>
     valid_range (r_transactions rs) \<and> valid_range (r_unsettled rs))"

section \<open>Addresses and bindings\<close>

definition mem_Create :: "ctx \<Rightarrow> Address \<Rightarrow> Memory \<Rightarrow> error + Memory" where
  "mem_Create ctx a m = guardE ctx
    (if get (mm_addresses m) (ad_Name a) \<noteq> None then Inl ErrAddressConflict
     else Inr (m\<lparr>mm_addresses := put (ad_Name a) a (mm_addresses m)\<rparr>))"

definition mem_Get :: "ctx \<Rightarrow> string \<Rightarrow> Memory \<Rightarrow> error + Address" where
  "mem_Get ctx name m = guardE ctx
    (case get (mm_addresses m) name of None \<Rightarrow> Inl ErrAddressNotFound | Some a \<Rightarrow> Inr a)"

definition mem_List :: "ranges \<Rightarrow> ctx \<Rightarrow> Memory \<Rightarrow> error + Address list" where
  "mem_List rs ctx m = guardE ctx (Inr (sort_key ad_Name (map snd (r_addresses rs (mm_addresses m)))))"

definition SetPaused :: "ctx \<Rightarrow> string \<Rightarrow> bool \<Rightarrow> Memory \<Rightarrow> error + (Address \<times> Memory)" where
  "SetPaused ctx name paused m = guardE ctx
    (case get (mm_addresses m) name of
       None \<Rightarrow> Inl ErrAddressNotFound
     | Some a \<Rightarrow>
         let a = a\<lparr>ad_Paused := paused, ad_Version := ad_Version a + 1\<rparr> in
         Inr (a, m\<lparr>mm_addresses := put name a (mm_addresses m)\<rparr>))"

definition mem_Delete :: "ctx \<Rightarrow> string \<Rightarrow> Memory \<Rightarrow> error + Memory" where
  "mem_Delete ctx name m = guardE ctx
    (if get (mm_addresses m) name = None then Inl ErrAddressNotFound
     else Inr (m\<lparr>mm_addresses := del name (mm_addresses m)\<rparr>))"

definition CreateBinding :: "ctx \<Rightarrow> Binding \<Rightarrow> Memory \<Rightarrow> error + Memory" where
  "CreateBinding ctx b m = guardE ctx
    (if get (mm_bindings m) (b_ID b) \<noteq> None then Inl (New ''binding already exists'')
     else Inr (m\<lparr>mm_bindings := put (b_ID b) b (mm_bindings m)\<rparr>))"

definition ListBindings :: "ranges \<Rightarrow> ctx \<Rightarrow> string \<Rightarrow> Memory \<Rightarrow> error + Binding list" where
  "ListBindings rs ctx source m = guardE ctx
    (Inr (sort_key (\<lambda>b. (- b_Priority b, b_ID b))
       (filter (\<lambda>b. source = '''' \<or> b_Source b = source) (map snd (r_bindings rs (mm_bindings m))))))"

definition DeleteBinding :: "ctx \<Rightarrow> string \<Rightarrow> Memory \<Rightarrow> error + Memory" where
  "DeleteBinding ctx bid m = guardE ctx
    (if get (mm_bindings m) bid = None then Inl (New ''binding not found'')
     else Inr (m\<lparr>mm_bindings := del bid (mm_bindings m)\<rparr>))"

section \<open>Messages\<close>

definition mem_Put :: "ctx \<Rightarrow> Message \<Rightarrow> Memory \<Rightarrow> error + Memory" where
  "mem_Put ctx msg m = guardE ctx
    (if get (mm_messages m) (m_ID msg) \<noteq> None then Inl (ErrConflictText ''message already exists'')
     else Inr (m\<lparr>mm_messages := put (m_ID msg) msg (mm_messages m)\<rparr>))"

definition mem_message :: "ctx \<Rightarrow> string \<Rightarrow> Memory \<Rightarrow> error + Message" where
  "mem_message ctx mid m = guardE ctx
    (case get (mm_messages m) mid of None \<Rightarrow> Inl ErrMessageNotFound | Some msg \<Rightarrow> Inr msg)"

definition mem_Update :: "ctx \<Rightarrow> Message \<Rightarrow> Memory \<Rightarrow> error + Memory" where
  "mem_Update ctx msg m = guardE ctx
    (if get (mm_messages m) (m_ID msg) = None then Inl ErrMessageNotFound
     else Inr (m\<lparr>mm_messages := put (m_ID msg) msg (mm_messages m)\<rparr>))"

definition deleteMessage :: "ctx \<Rightarrow> string \<Rightarrow> Memory \<Rightarrow> error + Memory" where
  "deleteMessage ctx mid m = guardE ctx
    (if get (mm_messages m) mid = None then Inl ErrMessageNotFound
     else Inr (m\<lparr>mm_messages := del mid (mm_messages m)\<rparr>))"

text \<open>\<open>if limit > 0 && len(out) > limit { out = out[:limit] }\<close>\<close>

definition limit_to :: "int \<Rightarrow> 'a list \<Rightarrow> 'a list" where
  "limit_to limit out = (if limit > 0 \<and> int (length out) > limit then take (nat limit) out else out)"

definition is_ready :: "string \<Rightarrow> Message \<Rightarrow> bool" where
  "is_ready address msg = (m_Address msg = address \<and> m_State msg = StateAvailable)"

definition ready_key :: "Message \<Rightarrow> int \<times> time" where
  "ready_key msg = (- m_Priority msg, m_CreatedAt msg)"

definition ListReady :: "ranges \<Rightarrow> ctx \<Rightarrow> string \<Rightarrow> int \<Rightarrow> Memory \<Rightarrow> error + Message list" where
  "ListReady rs ctx address limit m = guardE ctx
    (Inr (limit_to limit (sort_key ready_key
       (filter (is_ready address) (map snd (r_messages rs (mm_messages m)))))))"

definition ListDead :: "ranges \<Rightarrow> ctx \<Rightarrow> int \<Rightarrow> Memory \<Rightarrow> error + Message list" where
  "ListDead rs ctx limit m = guardE ctx
    (Inr (limit_to limit (sort_key m_CreatedAt
       (filter (\<lambda>msg. m_State msg = StateDeadLettered \<or> m_State msg = StateExpired)
         (map snd (r_messages rs (mm_messages m)))))))"

definition mem_Depth :: "ctx \<Rightarrow> string \<Rightarrow> Memory \<Rightarrow> error + nat" where
  "mem_Depth ctx address m = guardE ctx
    (Inr (length (filter (is_ready address) (map snd (mm_messages m)))))"

definition mem_All :: "ranges \<Rightarrow> ctx \<Rightarrow> Memory \<Rightarrow> error + Message list" where
  "mem_All rs ctx m = guardE ctx (Inr (map snd (r_messages rs (mm_messages m))))"

section \<open>Consumers\<close>

definition SaveConsumer :: "ctx \<Rightarrow> Consumer \<Rightarrow> Memory \<Rightarrow> error + Memory" where
  "SaveConsumer ctx c m = guardE ctx (Inr (m\<lparr>mm_consumers := put (co_ID c) c (mm_consumers m)\<rparr>))"

definition GetConsumer :: "ctx \<Rightarrow> string \<Rightarrow> Memory \<Rightarrow> error + Consumer" where
  "GetConsumer ctx cid m = guardE ctx
    (case get (mm_consumers m) cid of None \<Rightarrow> Inl (New ''consumer not found'') | Some c \<Rightarrow> Inr c)"

definition ListConsumers :: "ranges \<Rightarrow> ctx \<Rightarrow> string \<Rightarrow> Memory \<Rightarrow> error + Consumer list" where
  "ListConsumers rs ctx address m = guardE ctx
    (Inr (sort_key co_ID
       (filter (\<lambda>c. address = '''' \<or> co_Address c = address) (map snd (r_consumers rs (mm_consumers m))))))"

definition DeleteConsumer :: "ctx \<Rightarrow> string \<Rightarrow> Memory \<Rightarrow> error + Memory" where
  "DeleteConsumer ctx cid m = guardE ctx
    (if get (mm_consumers m) cid = None then Inl (New ''consumer not found'')
     else Inr (m\<lparr>mm_consumers := del cid (mm_consumers m)\<rparr>))"

section \<open>Transactions\<close>

definition txm_Create :: "ctx \<Rightarrow> Transaction \<Rightarrow> Memory \<Rightarrow> error + Memory" where
  "txm_Create ctx t m = guardE ctx
    (if get (mm_transactions m) (t_ID t) \<noteq> None then Inl (ErrConflictText ''transaction already exists'')
     else Inr (m\<lparr>mm_transactions := put (t_ID t) t (mm_transactions m)\<rparr>))"

definition txm_Get :: "ctx \<Rightarrow> string \<Rightarrow> Memory \<Rightarrow> error + Transaction" where
  "txm_Get ctx tid m = guardE ctx
    (case get (mm_transactions m) tid of None \<Rightarrow> Inl ErrTransactionNotFound | Some t \<Rightarrow> Inr t)"

definition txm_Update :: "ctx \<Rightarrow> Transaction \<Rightarrow> Memory \<Rightarrow> error + Memory" where
  "txm_Update ctx t m = guardE ctx
    (case get (mm_transactions m) (t_ID t) of
       None \<Rightarrow> Inl ErrTransactionNotFound
     | Some old \<Rightarrow>
         if t_Version t \<le> t_Version old then Inl (ErrConflictText ''stale transaction version'')
         else Inr (m\<lparr>mm_transactions := put (t_ID t) t (mm_transactions m)\<rparr>))"

definition ListActive :: "ranges \<Rightarrow> ctx \<Rightarrow> Memory \<Rightarrow> error + Transaction list" where
  "ListActive rs ctx m = guardE ctx
    (Inr (sort_key t_CreatedAt
       (filter (\<lambda>t. t_State t = StateActive) (map snd (r_transactions rs (mm_transactions m))))))"

section \<open>Snapshots\<close>

record Snapshot =
  sn_Version :: int
  sn_Addresses :: "Address list"
  sn_Bindings :: "Binding list"
  sn_Messages :: "Message list"
  sn_Consumers :: "Consumer list"
  sn_Transactions :: "Transaction list"

definition mem_Snapshot :: "ranges \<Rightarrow> ctx \<Rightarrow> Memory \<Rightarrow> error + Snapshot" where
  "mem_Snapshot rs ctx m = guardE ctx
    (Inr \<lparr>sn_Version = 1,
       sn_Addresses = map snd (r_addresses rs (mm_addresses m)),
       sn_Bindings = map snd (r_bindings rs (mm_bindings m)),
       sn_Messages = map (\<lambda>(k, msg). msg\<lparr>m_Body := []\<rparr>) (r_messages rs (mm_messages m)),
       sn_Consumers = map snd (r_consumers rs (mm_consumers m)),
       sn_Transactions = map snd (r_transactions rs (mm_transactions m))\<rparr>)"

text \<open>\<open>%d\<close> of an integer.\<close>

definition fmt_d :: "int \<Rightarrow> string" where
  "fmt_d n = (if n < 0 then ''-'' @ dec (nat (- n)) else dec (nat n))"

definition restore_message :: "Message \<Rightarrow> Message" where
  "restore_message msg =
    (if m_State msg = StateAcquired \<and> m_TransactionID msg = ''''
     then msg\<lparr>m_State := StateReleased, m_Redelivered := True\<rparr> else msg)"

definition release_message :: "string \<Rightarrow> (string, Message) gomap \<Rightarrow> (string, Message) gomap" where
  "release_message mid ms =
    (case get ms mid of
       None \<Rightarrow> ms
     | Some msg \<Rightarrow> put mid (msg\<lparr>m_State := StateReleased, m_Redelivered := True\<rparr>) ms)"

definition restore_consumer ::
  "ranges \<Rightarrow> Consumer \<Rightarrow> (string, Message) gomap \<times> (string, Consumer) gomap \<Rightarrow>
    (string, Message) gomap \<times> (string, Consumer) gomap" where
  "restore_consumer rs c = (\<lambda>(ms, cs).
    (fold (\<lambda>(d, mid) ms. release_message mid ms) (r_unsettled rs (co_Unsettled c)) ms,
     put (co_ID c) (c\<lparr>co_Connected := False, co_Credit := 0, co_Unsettled := []\<rparr>) cs))"

definition Restore :: "ranges \<Rightarrow> ctx \<Rightarrow> Snapshot \<Rightarrow> Memory \<Rightarrow> error + Memory" where
  "Restore rs ctx s m = guardE ctx
    (if sn_Version s \<noteq> 1 then Inl (Errorf ''unsupported snapshot version %d'' [fmt_d (sn_Version s)])
     else
       let ms = fold (\<lambda>msg ms. put (m_ID msg) (restore_message msg) ms) (sn_Messages s) [];
           (ms, cs) = fold (restore_consumer rs) (sn_Consumers s) (ms, []) in
       Inr \<lparr>mm_addresses = fold (\<lambda>a as. put (ad_Name a) a as) (sn_Addresses s) [],
         mm_bindings = fold (\<lambda>b bs. put (b_ID b) b bs) (sn_Bindings s) [],
         mm_messages = ms,
         mm_consumers = cs,
         mm_transactions = fold (\<lambda>t ts. put (t_ID t) t ts) (sn_Transactions s) []\<rparr>)"

section \<open>Repository contracts\<close>

lemmas mem_defs = mem_Create_def mem_Get_def mem_Delete_def CreateBinding_def DeleteBinding_def
  mem_Put_def mem_message_def mem_Update_def deleteMessage_def SaveConsumer_def GetConsumer_def
  DeleteConsumer_def txm_Create_def txm_Get_def txm_Update_def

abbreviation message_view :: "Memory \<Rightarrow> string \<Rightarrow> Message option" where
  "message_view m \<equiv> get (mm_messages m)"

abbreviation address_view :: "Memory \<Rightarrow> string \<Rightarrow> Address option" where
  "address_view m \<equiv> get (mm_addresses m)"

abbreviation consumer_view :: "Memory \<Rightarrow> string \<Rightarrow> Consumer option" where
  "consumer_view m \<equiv> get (mm_consumers m)"

abbreviation tx_view :: "Memory \<Rightarrow> string \<Rightarrow> Transaction option" where
  "tx_view m \<equiv> get (mm_transactions m)"

interpretation addresses: repo_full address_view mem_Get ErrAddressNotFound
  ad_Name mem_Create ErrAddressConflict mem_Delete
  by unfold_locales (auto simp: mem_defs update_conv' delete_conv')

interpretation messages: repo_full message_view mem_message ErrMessageNotFound
  m_ID mem_Put "ErrConflictText ''message already exists''" deleteMessage
  by unfold_locales (auto simp: mem_defs update_conv' delete_conv')

interpretation messages: repo_update message_view mem_message ErrMessageNotFound
  m_ID mem_Update "\<lambda>old new. False" ErrMessageNotFound
  by unfold_locales (auto simp: mem_defs update_conv')

interpretation consumers: repo_delete consumer_view GetConsumer "New ''consumer not found''" DeleteConsumer
  by unfold_locales (auto simp: mem_defs delete_conv')

interpretation transactions: repo_create tx_view txm_Get ErrTransactionNotFound
  t_ID txm_Create "ErrConflictText ''transaction already exists''"
  by unfold_locales (auto simp: mem_defs update_conv')

interpretation transactions: repo_update tx_view txm_Get ErrTransactionNotFound
  t_ID txm_Update "\<lambda>old new. t_Version new \<le> t_Version old" "ErrConflictText ''stale transaction version''"
  by unfold_locales (auto simp: mem_defs update_conv')

section \<open>Well-formed stores\<close>

definition keyed :: "('v \<Rightarrow> string) \<Rightarrow> (string, 'v) gomap \<Rightarrow> bool" where
  "keyed f m = (wf_map m \<and> (\<forall>k v. get m k = Some v \<longrightarrow> f v = k))"

definition mem_wf :: "Memory \<Rightarrow> bool" where
  "mem_wf m = (keyed ad_Name (mm_addresses m) \<and> keyed b_ID (mm_bindings m) \<and>
     keyed m_ID (mm_messages m) \<and> keyed co_ID (mm_consumers m) \<and> keyed t_ID (mm_transactions m))"

lemma keyed_Nil [simp]: "keyed f []"
  by (simp add: keyed_def)

lemma keyed_put [simp]: "keyed f m \<Longrightarrow> f v = k \<Longrightarrow> keyed f (put k v m)"
  by (simp add: keyed_def map_simps)

lemma keyed_del [simp]: "keyed f m \<Longrightarrow> keyed f (del k m)"
  by (simp add: keyed_def map_simps)

lemma keyed_wf: "keyed f m \<Longrightarrow> wf_map m"
  by (simp add: keyed_def)

lemma keyed_get: "keyed f m \<Longrightarrow> get m k = Some v \<Longrightarrow> f v = k"
  by (simp add: keyed_def)

lemma mem_wf_New: "mem_wf NewMemory"
  by (simp add: mem_wf_def NewMemory_def)

lemma mem_wfD:
  assumes "mem_wf m"
  shows "keyed ad_Name (mm_addresses m)" "keyed b_ID (mm_bindings m)" "keyed m_ID (mm_messages m)"
    "keyed co_ID (mm_consumers m)" "keyed t_ID (mm_transactions m)"
  using assms by (auto simp: mem_wf_def)

lemma mem_wf_steps:
  assumes "mem_wf m"
  shows "mem_Create c a m = Inr m' \<Longrightarrow> mem_wf m'"
    and "SetPaused c n p m = Inr (a, m') \<Longrightarrow> mem_wf m'"
    and "mem_Delete c n m = Inr m' \<Longrightarrow> mem_wf m'"
    and "CreateBinding c b m = Inr m' \<Longrightarrow> mem_wf m'"
    and "DeleteBinding c n m = Inr m' \<Longrightarrow> mem_wf m'"
    and "mem_Put c msg m = Inr m' \<Longrightarrow> mem_wf m'"
    and "mem_Update c msg m = Inr m' \<Longrightarrow> mem_wf m'"
    and "deleteMessage c n m = Inr m' \<Longrightarrow> mem_wf m'"
    and "SaveConsumer c co m = Inr m' \<Longrightarrow> mem_wf m'"
    and "DeleteConsumer c n m = Inr m' \<Longrightarrow> mem_wf m'"
    and "txm_Create c t m = Inr m' \<Longrightarrow> mem_wf m'"
    and "txm_Update c t m = Inr m' \<Longrightarrow> mem_wf m'"
  using assms keyed_get [of ad_Name "mm_addresses m" n]
  by (auto simp: mem_wf_def mem_defs SetPaused_def Let_def guardE_Inr_iff split: if_splits option.splits)

section \<open>Listings\<close>

lemma valid_rangesD:
  assumes "valid_ranges rs"
  shows "valid_range (r_addresses rs)" "valid_range (r_bindings rs)" "valid_range (r_messages rs)"
    "valid_range (r_consumers rs)" "valid_range (r_transactions rs)" "valid_range (r_unsettled rs)"
  using assms by (auto simp: valid_ranges_def)

lemma keyed_distinct: "keyed f m \<Longrightarrow> valid_range r \<Longrightarrow> distinct (map f (map snd (r m)))"
proof -
  assume a: "keyed f m" "valid_range r"
  have "map f (map snd (r m)) = map fst (r m)"
    using a by (auto simp: valid_range_set keyed_def wf_map_get_iff)
  then show ?thesis
    using valid_range_wf [OF a(2) keyed_wf [OF a(1)]] unfolding wf_map_def by (rule ssubst)
qed

lemma keyed_values: "keyed f m \<Longrightarrow> valid_range r \<Longrightarrow> v \<in> set (map snd (r m)) \<longleftrightarrow> get m (f v) = Some v"
proof -
  assume a: "keyed f m" "valid_range r"
  have "v \<in> set (map snd (r m)) \<longleftrightarrow> (\<exists>k. (k, v) \<in> set m)"
    by (force simp: valid_range_set [OF a(2)])
  also have "\<dots> \<longleftrightarrow> (\<exists>k. get m k = Some v)" by (simp add: wf_map_get_iff [OF keyed_wf [OF a(1)]])
  also have "\<dots> \<longleftrightarrow> get m (f v) = Some v" using keyed_get [OF a(1)] by blast
  finally show ?thesis .
qed

lemma limit_to_take: "limit_to n xs = (if n > 0 then take (nat n) xs else xs)"
  by (auto simp: limit_to_def)

lemma ready_mset:
  assumes "valid_range r"
  shows "mset (filter P (map snd (r m))) = mset (filter P (map snd m))"
  using assms by (simp add: valid_range_def mset_filter mset_map)

lemma ListReady_eq:
  "ListReady rs c a n m = Inr ms \<longleftrightarrow> c = None \<and>
     ms = limit_to n (sort_key ready_key (filter (is_ready a) (map snd (r_messages rs (mm_messages m)))))"
  by (auto simp: ListReady_def guardE_Inr_iff)

lemma mem_Depth_eq:
  assumes "valid_ranges rs" "ListReady rs None a 0 m = Inr ms"
  shows "mem_Depth None a m = Inr (length ms)"
proof -
  have "length ms = size (mset (filter (is_ready a) (map snd (r_messages rs (mm_messages m)))))"
    using assms(2) by (simp add: ListReady_eq limit_to_take flip: size_mset)
  also have "\<dots> = length (filter (is_ready a) (map snd (mm_messages m)))"
    by (simp only: ready_mset [OF valid_rangesD(3) [OF assms(1)]] size_mset)
  finally show ?thesis by (simp add: mem_Depth_def)
qed

lemma take_sorted_bound:
  "sorted (map f xs) \<Longrightarrow> x \<in> set (take n xs) \<Longrightarrow> y \<in> set (drop n xs) \<Longrightarrow> f x \<le> f y"
proof -
  assume a: "sorted (map f xs)" "x \<in> set (take n xs)" "y \<in> set (drop n xs)"
  have "sorted (map f (take n xs) @ map f (drop n xs))"
    using a(1) by (simp only: map_append [symmetric] append_take_drop_id)
  with a(2,3) show ?thesis by (auto simp: sorted_append)
qed

section \<open>Restoring a snapshot\<close>

lemma get_fold_put:
  assumes "distinct (map f vs)"
  shows "get (fold (\<lambda>v acc. put (f v) (g v) acc) vs acc) k =
    (case find (\<lambda>v. f v = k) vs of Some v \<Rightarrow> Some (g v) | None \<Rightarrow> get acc k)"
  using assms
proof (induction vs arbitrary: acc)
  case (Cons v vs)
  then have "find (\<lambda>w. f w = f v) vs = None"
    by (simp add: find_None_iff) (metis image_eqI)
  with Cons show ?case by (auto simp: map_simps split: option.split)
qed simp

lemma find_keyed:
  assumes "keyed f m" "valid_range r"
  shows "find (\<lambda>v. f v = k) (map snd (r m)) = get m k"
proof (cases "get m k")
  case None
  then have "f v \<noteq> k" if "v \<in> set (map snd (r m))" for v
    using keyed_values [OF assms, of v] that by auto
  with None show ?thesis by (auto simp: find_None_iff)
next
  case (Some v)
  have v: "v \<in> set (map snd (r m))"
    using Some keyed_get [OF assms(1) Some] by (simp only: keyed_values [OF assms])
  then obtain w where w: "find (\<lambda>v. f v = k) (map snd (r m)) = Some w"
    using keyed_get [OF assms(1) Some] by (cases "find (\<lambda>v. f v = k) (map snd (r m))") (auto simp: find_None_iff)
  then have "w \<in> set (map snd (r m))" "f w = k" by (auto simp only: find_Some_iff nth_mem)
  then have "get m k = Some w" by (simp only: keyed_values [OF assms])
  with Some w show ?thesis by simp
qed

lemma get_rebuild:
  assumes "keyed f m" "valid_range r"
  shows "get (fold (\<lambda>v acc. put (f v) (g v) acc) (map snd (r m)) []) k = map_option g (get m k)"
  using get_fold_put [OF keyed_distinct [OF assms], of g "[]" k]
  by (simp only: find_keyed [OF assms]) (simp split: option.split)

definition released :: "Message \<Rightarrow> Message" where
  "released msg = msg\<lparr>m_State := StateReleased, m_Redelivered := True\<rparr>"

definition disconnected :: "Consumer \<Rightarrow> Consumer" where
  "disconnected c = c\<lparr>co_Connected := False, co_Credit := 0, co_Unsettled := []\<rparr>"

definition unsettled_ids :: "Memory \<Rightarrow> string set" where
  "unsettled_ids m = {mid. \<exists>cid c d. consumer_view m cid = Some c \<and> (d, mid) \<in> set (co_Unsettled c)}"

lemma get_release_message:
  "get (release_message mid ms) k = (if k = mid then map_option released (get ms k) else get ms k)"
  by (auto simp: release_message_def released_def map_simps split: option.split)

lemma released_idem [simp]: "released (released msg) = released msg"
  by (simp add: released_def)

lemma get_fold_release:
  "get (fold (\<lambda>(d, mid) ms. release_message mid ms) us ms) k =
     (if k \<in> snd ` set us then map_option released (get ms k) else get ms k)"
proof (induction us arbitrary: ms)
  case (Cons u us)
  obtain d mid where u: "u = (d, mid)" by (cases u)
  show ?case by (cases "get ms k") (auto simp: u Cons.IH get_release_message)
qed simp

lemma fold_restore_consumer:
  "fold (restore_consumer rs) cl (ms, cs) =
    (fst (fold (restore_consumer rs) cl (ms, cs)), fold (\<lambda>c cs. put (co_ID c) (disconnected c) cs) cl cs) \<and>
   (valid_ranges rs \<longrightarrow>
     get (fst (fold (restore_consumer rs) cl (ms, cs))) k =
       (if \<exists>c\<in>set cl. k \<in> snd ` set (co_Unsettled c) then map_option released (get ms k) else get ms k))"
proof (induction cl arbitrary: ms cs)
  case (Cons c cl)
  let ?ms = "fold (\<lambda>(d, mid) ms. release_message mid ms) (r_unsettled rs (co_Unsettled c)) ms"
  have step: "restore_consumer rs c (ms, cs) = (?ms, put (co_ID c) (disconnected c) cs)"
    by (simp add: restore_consumer_def disconnected_def)
  have here: "get ?ms k = (if k \<in> snd ` set (co_Unsettled c) then map_option released (get ms k) else get ms k)"
    if "valid_ranges rs"
    by (simp add: get_fold_release valid_range_set [OF valid_rangesD(6) [OF that]])
  have twice: "map_option released (map_option released x) = map_option released x" for x
    by (cases x) auto
  note IH = Cons.IH [of ?ms "put (co_ID c) (disconnected c) cs"]
  show ?case
  proof (intro conjI impI)
    show "fold (restore_consumer rs) (c # cl) (ms, cs) =
      (fst (fold (restore_consumer rs) (c # cl) (ms, cs)),
       fold (\<lambda>c cs. put (co_ID c) (disconnected c) cs) (c # cl) cs)"
      using IH by (simp add: step)
    show "get (fst (fold (restore_consumer rs) (c # cl) (ms, cs))) k =
        (if \<exists>c\<in>set (c # cl). k \<in> snd ` set (co_Unsettled c) then map_option released (get ms k) else get ms k)"
      if "valid_ranges rs"
      using IH here [OF that] that by (simp add: step twice)
  qed
qed simp

text \<open>What a message becomes when the store is restored from a snapshot.\<close>

definition recovered :: "Memory \<Rightarrow> Message \<Rightarrow> Message" where
  "recovered m msg =
    (let msg' = msg\<lparr>m_Body := []\<rparr> in
     if m_State msg = StateAcquired \<and> m_TransactionID msg = '''' \<or> m_ID msg \<in> unsettled_ids m
     then msg'\<lparr>m_State := StateReleased, m_Redelivered := True\<rparr> else msg')"

lemma restore_messages:
  assumes "mem_wf m" "valid_ranges rs"
  shows "get (fold (\<lambda>msg ms. put (m_ID msg) (restore_message msg) ms)
      (map (\<lambda>(k, msg). msg\<lparr>m_Body := []\<rparr>) (r_messages rs (mm_messages m))) []) k =
    map_option (\<lambda>msg. restore_message (msg\<lparr>m_Body := []\<rparr>)) (message_view m k)"
proof -
  have "fold (\<lambda>msg ms. put (m_ID msg) (restore_message msg) ms)
      (map (\<lambda>(k, msg). msg\<lparr>m_Body := []\<rparr>) (r_messages rs (mm_messages m))) [] =
    fold (\<lambda>msg ms. put (m_ID msg) (restore_message (msg\<lparr>m_Body := []\<rparr>)) ms)
      (map snd (r_messages rs (mm_messages m))) []"
    by (simp add: fold_map comp_def case_prod_unfold)
  then show ?thesis
    using get_rebuild [OF mem_wfD(3) [OF assms(1)] valid_rangesD(3) [OF assms(2)]] by simp
qed

lemma unsettled_ids_list:
  assumes "mem_wf m" "valid_ranges rs"
  shows "(\<exists>c\<in>set (map snd (r_consumers rs (mm_consumers m))). k \<in> snd ` set (co_Unsettled c)) \<longleftrightarrow>
    k \<in> unsettled_ids m"
proof -
  note K = keyed_values [OF mem_wfD(4) [OF assms(1)] valid_rangesD(4) [OF assms(2)]]
  have "c \<in> set (map snd (r_consumers rs (mm_consumers m))) \<longleftrightarrow> (\<exists>cid. consumer_view m cid = Some c)" for c
    using keyed_get [OF mem_wfD(4) [OF assms(1)]] unfolding K by blast
  then have "(\<exists>c\<in>set (map snd (r_consumers rs (mm_consumers m))). k \<in> snd ` set (co_Unsettled c)) \<longleftrightarrow>
      (\<exists>cid c. consumer_view m cid = Some c \<and> k \<in> snd ` set (co_Unsettled c))" by blast
  also have "\<dots> \<longleftrightarrow> k \<in> unsettled_ids m"
    by (auto simp: unsettled_ids_def image_iff Bex_def)
  finally show ?thesis .
qed

lemma restored_consumers:
  assumes "mem_wf m" "valid_ranges rs" "valid_ranges rs'"
  shows "\<exists>ms. fold (restore_consumer rs') (map snd (r_consumers rs (mm_consumers m))) (base, []) =
      (ms, fold (\<lambda>c cs. put (co_ID c) (disconnected c) cs) (map snd (r_consumers rs (mm_consumers m))) []) \<and>
    (\<forall>k. get ms k = (if k \<in> unsettled_ids m then map_option released (get base k) else get base k))"
  using fold_restore_consumer [of rs' "map snd (r_consumers rs (mm_consumers m))" base "[]"] assms(3)
  unfolding unsettled_ids_list [OF assms(1,2)] by blast

section \<open>Properties\<close>

text \<open>
  The message store keeps its contract: a message that was put is read back unchanged, putting
  another one under its identifier is refused, every other message is as before, and deleting it
  restores the store as it was seen before.
\<close>

theorem message_store_laws:
  assumes "mem_Put None msg m = Inr m1"
  shows "mem_message None (m_ID msg) m1 = Inr msg \<and>
    (m_ID msg' = m_ID msg \<longrightarrow> mem_Put None msg' m1 = Inl (ErrConflictText ''message already exists'')) \<and>
    (k \<noteq> m_ID msg \<longrightarrow> mem_message None k m1 = mem_message None k m) \<and>
    (\<exists>m2. deleteMessage None (m_ID msg) m1 = Inr m2 \<and> (\<forall>k. mem_message None k m2 = mem_message None k m))"
proof -
  obtain m2 where "deleteMessage None (m_ID msg) m1 = Inr m2" "message_view m2 = message_view m"
    using messages.create_delete [OF assms] by blast
  then have "\<exists>m2. deleteMessage None (m_ID msg) m1 = Inr m2 \<and> (\<forall>k. mem_message None k m2 = mem_message None k m)"
    by (auto simp: messages.fetch_live)
  with messages.create_fetch(1) [OF assms] messages.create_fetch(2) [OF assms, of msg']
    messages.create_fetch(3) [OF assms, of k] show ?thesis by blast
qed

text \<open>
  C33: the ready queue of an address lists exactly the available messages of that address, each
  once, highest priority first and oldest first within a priority; with a positive limit it is cut
  after that many, and no message left out comes before one that is listed. This holds for every
  order in which the map is visited.
\<close>

theorem ListReady_exact:
  assumes "mem_wf m" "valid_ranges rs" "ListReady rs None a n m = Inr ms"
  shows "sorted (map ready_key ms) \<and> distinct (map m_ID ms) \<and>
    (\<forall>msg. msg \<in> set ms \<longrightarrow> mem_message None (m_ID msg) m = Inr msg \<and> is_ready a msg) \<and>
    (\<forall>msg. mem_message None (m_ID msg) m = Inr msg \<and> is_ready a msg \<and> msg \<notin> set ms \<longrightarrow>
       0 < n \<and> int (length ms) = n \<and> (\<forall>x\<in>set ms. ready_key x \<le> ready_key msg))"
proof -
  let ?vs = "map snd (r_messages rs (mm_messages m))"
  let ?all = "sort_key ready_key (filter (is_ready a) ?vs)"
  note W = mem_wfD(3) [OF assms(1)] valid_rangesD(3) [OF assms(2)]
  have ms: "ms = limit_to n ?all" using assms(3) by (simp add: ListReady_eq)
  have d: "distinct (map m_ID ?all)"
  proof -
    have "mset (map m_ID ?all) = mset (map m_ID (filter (is_ready a) ?vs))" by simp
    moreover have "distinct (map m_ID (filter (is_ready a) ?vs))"
      by (rule distinct_map_filter [OF keyed_distinct [OF W]])
    ultimately show ?thesis by (metis mset_eq_imp_distinct_iff)
  qed
  have mem: "msg \<in> set ?all \<longleftrightarrow> mem_message None (m_ID msg) m = Inr msg \<and> is_ready a msg" for msg
    using keyed_values [OF W, of msg] by (simp add: messages.fetch_Inr)
  have sub: "set ms \<subseteq> set ?all" unfolding ms limit_to_take by (auto dest: in_set_takeD)
  have cut: "0 < n \<and> int (length ms) = n \<and> (\<forall>x\<in>set ms. ready_key x \<le> ready_key msg)"
    if "msg \<in> set ?all" "msg \<notin> set ms" for msg
  proof -
    have n: "0 < n" "int (length ?all) > n"
      using that unfolding ms limit_to_def by (auto split: if_splits)
    then have t: "ms = take (nat n) ?all" by (simp add: ms limit_to_def)
    then have "msg \<in> set (drop (nat n) ?all)"
      using that by (metis Un_iff append_take_drop_id set_append)
    then show ?thesis
      using n t take_sorted_bound [OF sorted_sort_key [of ready_key "filter (is_ready a) ?vs"]] by auto
  qed
  have "sorted (map ready_key ms)" "distinct (map m_ID ms)"
    using d sorted_sort_key [of ready_key "filter (is_ready a) ?vs"]
    by (auto simp: ms limit_to_take take_map sorted_wrt_take distinct_take simp flip: take_map)
  with mem sub cut show ?thesis by blast
qed

lemma word_next_greater: "w \<noteq> 0xFFFFFFFFFFFFFFFF \<Longrightarrow> w < w + 1" for w :: "64 word"
proof -
  assume "w \<noteq> 0xFFFFFFFFFFFFFFFF"
  moreover have "unat (0xFFFFFFFFFFFFFFFF :: 64 word) = 0xFFFFFFFFFFFFFFFF" by simp
  ultimately have "unat w \<noteq> 0xFFFFFFFFFFFFFFFF" by (metis word_unat_eq_iff)
  then have "unat w + 1 < 2 ^ 64" using word_bounds(3) [of w] by simp
  then have "unat (w + 1) = unat w + 1" by (simp add: unat_word_ariths)
  then show ?thesis by (simp add: word_less_nat_alt)
qed

text \<open>Concrete data for the witnesses.\<close>

definition id_ranges :: ranges where
  "id_ranges = \<lparr>r_addresses = id, r_bindings = id, r_messages = id, r_consumers = id,
     r_transactions = id, r_unsettled = id\<rparr>"

lemma valid_id_ranges [simp]: "valid_ranges id_ranges"
  by (simp add: valid_ranges_def id_ranges_def)

definition sample_message :: "string \<Rightarrow> int \<Rightarrow> time \<Rightarrow> Message" where
  "sample_message mid prio t = \<lparr>m_ID = mid, m_Address = ''jobs'', m_RoutingKey = '''', m_Headers = [],
     m_Body = [1], m_Priority = prio, m_CreatedAt = t, m_ExpiresAt = 0, m_State = StateAvailable,
     m_DeliveryCount = 0, m_Redelivered = False, m_TransactionID = '''', m_LogOffset = 0\<rparr>"

definition sample_store :: Memory where
  "sample_store = NewMemory\<lparr>mm_messages :=
     [(''m1'', sample_message ''m1'' 1 5), (''m2'', sample_message ''m2'' 7 9),
      (''m3'', (sample_message ''m3'' 7 8)\<lparr>m_State := StateAcquired\<rparr>)]\<rparr>"

lemma mem_wf_sample: "mem_wf sample_store"
  by (simp add: mem_wf_def sample_store_def NewMemory_def keyed_def wf_map_def sample_message_def)

theorem message_store_laws_witness:
  "\<exists>m1. mem_Put None (sample_message ''m1'' 1 5) NewMemory = Inr m1 \<and>
     mem_message None ''m1'' m1 = Inr (sample_message ''m1'' 1 5)"
proof -
  obtain m1 where m1: "mem_Put None (sample_message ''m1'' 1 5) NewMemory = Inr m1"
    by (simp add: mem_Put_def NewMemory_def)
  with message_store_laws [OF m1] show ?thesis by (auto simp: sample_message_def)
qed

theorem ListReady_exact_witness:
  "ListReady id_ranges None ''jobs'' 1 sample_store = Inr [sample_message ''m2'' 7 9] \<and>
   ready_key (sample_message ''m2'' 7 9) \<le> ready_key (sample_message ''m1'' 1 5)"
proof -
  have run: "ListReady id_ranges None ''jobs'' 1 sample_store = Inr [sample_message ''m2'' 7 9]"
    by (simp add: ListReady_def sample_store_def NewMemory_def id_ranges_def limit_to_def is_ready_def
        sample_message_def ready_key_def)
  have "mem_message None (m_ID (sample_message ''m1'' 1 5)) sample_store = Inr (sample_message ''m1'' 1 5)"
    by (simp add: mem_message_def sample_store_def sample_message_def)
  moreover have "is_ready ''jobs'' (sample_message ''m1'' 1 5)"
    by (simp add: is_ready_def sample_message_def)
  moreover have "sample_message ''m1'' 1 5 \<notin> set [sample_message ''m2'' 7 9]"
    by (simp add: sample_message_def)
  ultimately show ?thesis
    using ListReady_exact [OF mem_wf_sample valid_id_ranges run] run by fastforce
qed

lemma snapshot_restored:
  assumes "mem_wf m" "valid_ranges rs" "valid_ranges rs'"
  shows "\<exists>s m'. mem_Snapshot rs None m = Inr s \<and> Restore rs' None s m0 = Inr m' \<and>
    get (mm_addresses m') = get (mm_addresses m) \<and> get (mm_bindings m') = get (mm_bindings m) \<and>
    get (mm_transactions m') = get (mm_transactions m) \<and>
    (\<forall>k. get (mm_messages m') k = map_option (recovered m) (get (mm_messages m) k)) \<and>
    (\<forall>k. get (mm_consumers m') k =
       map_option (\<lambda>c. c\<lparr>co_Connected := False, co_Credit := 0, co_Unsettled := []\<rparr>) (get (mm_consumers m) k))"
proof -
  note W = mem_wfD [OF assms(1)] and R = valid_rangesD [OF assms(2)]
  let ?base = "fold (\<lambda>msg ms. put (m_ID msg) (restore_message msg) ms)
      (map (\<lambda>(k, msg). msg\<lparr>m_Body := []\<rparr>) (r_messages rs (mm_messages m))) []"
  let ?cl = "map snd (r_consumers rs (mm_consumers m))"
  obtain s where s: "mem_Snapshot rs None m = Inr s" by (simp add: mem_Snapshot_def)
  let ?cs = "fold (\<lambda>c cs. put (co_ID c) (disconnected c) cs) ?cl []"
  obtain ms where split: "fold (restore_consumer rs') ?cl (?base, []) = (ms, ?cs)"
    and ms: "get ms k = (if k \<in> unsettled_ids m then map_option released (get ?base k) else get ?base k)" for k
    using restored_consumers [OF assms] by blast
  define m' where "m' = \<lparr>mm_addresses = fold (\<lambda>a as. put (ad_Name a) a as) (map snd (r_addresses rs (mm_addresses m))) [],
      mm_bindings = fold (\<lambda>b bs. put (b_ID b) b bs) (map snd (r_bindings rs (mm_bindings m))) [],
      mm_messages = ms, mm_consumers = ?cs,
      mm_transactions = fold (\<lambda>t ts. put (t_ID t) t ts) (map snd (r_transactions rs (mm_transactions m))) []\<rparr>"
  have "Restore rs' None s m0 = Inr m'"
    using s [symmetric] unfolding Restore_def m'_def mem_Snapshot_def by (simp add: split Let_def del: map_map)
  moreover have "get (mm_addresses m') = get (mm_addresses m)" "get (mm_bindings m') = get (mm_bindings m)"
      "get (mm_transactions m') = get (mm_transactions m)"
    using get_rebuild [OF W(1) R(1), of "\<lambda>x. x"] get_rebuild [OF W(2) R(2), of "\<lambda>x. x"]
      get_rebuild [OF W(5) R(5), of "\<lambda>x. x"] by (auto simp: m'_def option.map_ident)
  moreover have "get (mm_messages m') k = map_option (recovered m) (get (mm_messages m) k)" for k
    using keyed_get [OF W(3), of k] ms [of k, unfolded restore_messages [OF assms(1,2)]]
    by (cases "get (mm_messages m) k")
      (auto simp: m'_def recovered_def restore_message_def released_def Let_def)
  moreover have "get (mm_consumers m') k =
       map_option (\<lambda>c. c\<lparr>co_Connected := False, co_Credit := 0, co_Unsettled := []\<rparr>) (get (mm_consumers m) k)" for k
    using get_rebuild [OF W(4) R(4), of disconnected k] by (simp add: m'_def disconnected_def [abs_def])
  ultimately show ?thesis using s by blast
qed

text \<open>
  A snapshot restored into any store, whatever order the maps are visited in, brings back
  every address, binding and transaction unchanged and every message under its identifier; a
  message that was acquired outside a transaction, or that a consumer had not settled, comes back
  released and marked redelivered, every other one in its state (bodies stay in the log). Every
  consumer comes back disconnected, without credit and with nothing unsettled.
\<close>

theorem Snapshot_Restore:
  assumes "mem_wf m" "valid_ranges rs" "valid_ranges rs'"
  shows "\<exists>s m'. mem_Snapshot rs None m = Inr s \<and> Restore rs' None s m0 = Inr m' \<and>
    get (mm_addresses m') = get (mm_addresses m) \<and> get (mm_bindings m') = get (mm_bindings m) \<and>
    get (mm_transactions m') = get (mm_transactions m) \<and>
    (\<forall>k. get (mm_messages m') k = map_option (recovered m) (get (mm_messages m) k)) \<and>
    (\<forall>k. get (mm_consumers m') k =
       map_option (\<lambda>c. c\<lparr>co_Connected := False, co_Credit := 0, co_Unsettled := []\<rparr>) (get (mm_consumers m) k))"
  by (rule snapshot_restored [OF assms])

theorem Snapshot_Restore_witness:
  "\<exists>s m'. mem_Snapshot id_ranges None sample_store = Inr s \<and> Restore id_ranges None s NewMemory = Inr m' \<and>
     get (mm_messages m') ''m3'' = Some ((sample_message ''m3'' 7 8)\<lparr>m_Body := [],
       m_State := StateReleased, m_Redelivered := True\<rparr>)"
proof -
  have "get (mm_messages sample_store) ''m3'' = Some ((sample_message ''m3'' 7 8)\<lparr>m_State := StateAcquired\<rparr>)"
    by (simp add: sample_store_def)
  then have "map_option (recovered sample_store) (get (mm_messages sample_store) ''m3'') =
    Some ((sample_message ''m3'' 7 8)\<lparr>m_Body := [], m_State := StateReleased, m_Redelivered := True\<rparr>)"
    by (simp add: recovered_def sample_message_def)
  with Snapshot_Restore [OF mem_wf_sample valid_id_ranges valid_id_ranges, of NewMemory]
  show ?thesis by metis
qed

text \<open>
  Transaction updates are optimistic. Of two updates prepared from the same stored
  transaction, each with the next version number, the first is stored and the second is refused as
  stale, so no update is lost (as long as the 64-bit version does not wrap).
\<close>

theorem transaction_no_lost_update:
  assumes "txm_Get None tid m = Inr t" "t_Version t \<noteq> 0xFFFFFFFFFFFFFFFF"
    and "t_ID t1 = tid" "t_Version t1 = t_Version t + 1" "t_ID t2 = tid" "t_Version t2 = t_Version t + 1"
  shows "\<exists>m1. txm_Update None t1 m = Inr m1 \<and> txm_Get None tid m1 = Inr t1 \<and>
    txm_Update None t2 m1 = Inl (ErrConflictText ''stale transaction version'')"
proof -
  have t: "tx_view m (t_ID t1) = Some t" using assms(1,3) by (simp add: transactions.fetch_Inr)
  have "\<not> t_Version t + 1 \<le> t_Version t" using word_next_greater [OF assms(2)] by (simp add: not_le)
  then show ?thesis using t assms by (auto simp: mem_defs map_simps)
qed

theorem transaction_no_lost_update_witness:
  "\<exists>t m1. txm_Get None ''t'' (NewMemory\<lparr>mm_transactions := [(''t'', t)]\<rparr>) = Inr t \<and>
     txm_Update None (t\<lparr>t_State := StateCommitted, t_Version := 2\<rparr>) (NewMemory\<lparr>mm_transactions := [(''t'', t)]\<rparr>) = Inr m1 \<and>
     txm_Update None (t\<lparr>t_State := StateRolledBack, t_Version := 2\<rparr>) m1 =
       Inl (ErrConflictText ''stale transaction version'')"
proof -
  obtain t where t: "New_Transaction ''t'' ''c'' 1 1 = Inr t" by (simp add: New_Transaction_def)
  let ?m = "NewMemory\<lparr>mm_transactions := [(''t'', t)]\<rparr>"
  have g: "txm_Get None ''t'' ?m = Inr t" by (simp add: txm_Get_def)
  have v: "t_Version t = 1" "t_ID t = ''t''" using t by (auto simp: New_Transaction_def)
  from transaction_no_lost_update [OF g, of "t\<lparr>t_State := StateCommitted, t_Version := 2\<rparr>"
      "t\<lparr>t_State := StateRolledBack, t_Version := 2\<rparr>"] v g
  show ?thesis by auto
qed

end
