(* ===== verification/Routing.thy ===== *)
theory Routing
  imports PathMatch Store
begin

text \<open>
  Routing (\<open>internal/routing\<close>): the topic matcher (\<open>domain/matcher.go\<close>) and the router that turns a
  source address, a routing key and headers into the routes of a message (\<open>application/router.go\<close>).
\<close>

section \<open>Matcher\<close>

primrec matchParts :: "string list \<Rightarrow> string list \<Rightarrow> bool" where
  "matchParts [] = (\<lambda>key. key = [])"
| "matchParts (p # ps) = (\<lambda>key.
     if p = ''#'' then ps = [] \<or> list_ex (\<lambda>i. matchParts ps (drop i key)) [0..<Suc (length key)]
     else if p = ''*'' then key \<noteq> [] \<and> matchParts ps (tl key)
     else key \<noteq> [] \<and> path_Match p (hd key) \<and> matchParts ps (tl key))"

definition topicMatch :: "string \<Rightarrow> string \<Rightarrow> bool" where
  "topicMatch pattern key =
    (if pattern = ''#'' \<or> pattern = '''' then True
     else matchParts (split_on (CHR ''.'') pattern) (split_on (CHR ''.'') key))"

definition Match :: "string \<Rightarrow> (string, string) gomap \<Rightarrow> string \<Rightarrow> (string, string) gomap \<Rightarrow> bool" where
  "Match key headers pattern flt =
    (if pattern \<noteq> '''' \<and> \<not> topicMatch pattern key then False
     else list_all (\<lambda>(k, want). get headers k = Some want) flt)"

section \<open>Router\<close>

record Route =
  rt_Destination :: string
  rt_Priority :: int

text \<open>One round of the loop over the bindings: \<open>seen\<close> are the destinations found so far.\<close>

definition binding_matches :: "Kind \<Rightarrow> string \<Rightarrow> (string, string) gomap \<Rightarrow> Binding \<Rightarrow> bool" where
  "binding_matches kind key headers b =
    (let pattern = (if kind = KindFanout then ''#'' else b_RoutingKey b) in
     \<not> (kind = KindDirect \<and> pattern \<noteq> key) \<and> Match key headers pattern (b_Filter b))"

fun resolve_loop ::
  "ctx \<Rightarrow> Memory \<Rightarrow> Kind \<Rightarrow> string \<Rightarrow> (string, string) gomap \<Rightarrow> Binding list \<Rightarrow> string list \<Rightarrow> Route list \<Rightarrow> Route list" where
  "resolve_loop ctx m kind key headers [] seen out = out"
| "resolve_loop ctx m kind key headers (b # bs) seen out =
     (if \<not> binding_matches kind key headers b then resolve_loop ctx m kind key headers bs seen out
      else if b_Destination b \<in> set seen then resolve_loop ctx m kind key headers bs seen out
      else case mem_Get ctx (b_Destination b) m of
          Inl e \<Rightarrow> resolve_loop ctx m kind key headers bs seen out
        | Inr a \<Rightarrow> resolve_loop ctx m kind key headers bs (b_Destination b # seen)
            (out @ [\<lparr>rt_Destination = b_Destination b, rt_Priority = b_Priority b\<rparr>]))"

definition Resolve ::
  "ranges \<Rightarrow> ctx \<Rightarrow> string \<Rightarrow> string \<Rightarrow> (string, string) gomap \<Rightarrow> Memory \<Rightarrow> error + Route list" where
  "Resolve rs ctx source key headers m =
    (case mem_Get ctx source m of
       Inl e \<Rightarrow> Inl (Wrap ''load source address'' e)
     | Inr src \<Rightarrow>
         if ad_Kind src \<in> {KindQueue, KindTemporary} then Inr [\<lparr>rt_Destination = source, rt_Priority = 0\<rparr>]
         else if ad_Kind src \<notin> {KindFanout, KindTopic, KindDirect} then
           Inl (Errorf ''unsupported source kind %s'' [kind_text (ad_Kind src)])
         else case ListBindings rs ctx source m of
             Inl e \<Rightarrow> Inl (Wrap ''list bindings'' e)
           | Inr bindings \<Rightarrow>
               Inr (sort_key (\<lambda>r. - rt_Priority r) (resolve_loop ctx m (ad_Kind src) key headers bindings [] [])))"

section \<open>What a topic pattern means\<close>

text \<open>
  Segment by segment: \<open>#\<close> stands for any number of words, \<open>*\<close> for one, another segment for one word
  that it matches as a glob.
\<close>

inductive topic :: "string list \<Rightarrow> string list \<Rightarrow> bool" where
  empty: "topic [] []"
| hash_none: "topic ps ks \<Longrightarrow> topic (''#'' # ps) ks"
| hash_word: "topic (''#'' # ps) ks \<Longrightarrow> topic (''#'' # ps) (k # ks)"
| star: "topic ps ks \<Longrightarrow> topic (''*'' # ps) (k # ks)"
| glob: "p \<noteq> ''#'' \<Longrightarrow> p \<noteq> ''*'' \<Longrightarrow> path_Match p k \<Longrightarrow> topic ps ks \<Longrightarrow> topic (p # ps) (k # ks)"

inductive_cases topic_NilE: "topic [] ks"
inductive_cases topic_ConsE: "topic (p # ps) ks"

lemma topic_hash: "topic (''#'' # ps) ks \<longleftrightarrow> (\<exists>i \<le> length ks. topic ps (drop i ks))"
proof
  show "topic (''#'' # ps) ks \<Longrightarrow> \<exists>i \<le> length ks. topic ps (drop i ks)"
  proof (induction ks)
    case Nil
    then show ?case by (auto elim: topic_ConsE)
  next
    case (Cons k ks)
    from Cons.prems show ?case
    proof (rule topic_ConsE)
      assume "topic ps (k # ks)"
      then show ?thesis by (intro exI [of _ 0]) simp
    next
      fix k' ks'
      assume "k # ks = k' # ks'" "topic (''#'' # ps) ks'"
      then obtain i where "i \<le> length ks" "topic ps (drop i ks)" using Cons.IH by auto
      then show ?thesis by (intro exI [of _ "Suc i"]) simp
    qed auto
  qed
  have "topic ps (drop i ks) \<Longrightarrow> topic (''#'' # ps) ks" for i
  proof (induction i arbitrary: ks)
    case 0
    then show ?case by (simp add: topic.hash_none)
  next
    case (Suc i)
    then show ?case by (cases ks) (auto intro: topic.hash_none topic.hash_word)
  qed
  then show "\<exists>i \<le> length ks. topic ps (drop i ks) \<Longrightarrow> topic (''#'' # ps) ks" by blast
qed

lemma topic_all: "topic [''#''] ks"
  by (induction ks) (auto intro: topic.intros)

lemma topic_Cons:
  assumes "p \<noteq> ''#''"
  shows "topic (p # ps) ks \<longleftrightarrow> (\<exists>k ks'. ks = k # ks' \<and> (p = ''*'' \<or> path_Match p k) \<and> topic ps ks')"
  using assms by (auto elim!: topic_ConsE intro: topic.intros)

lemma matchParts_topic: "matchParts ps ks \<longleftrightarrow> topic ps ks"
proof (induction ps arbitrary: ks)
  case Nil
  then show ?case by (auto intro: topic.intros elim: topic_NilE)
next
  case (Cons p ps)
  show ?case
  proof (cases "p = ''#''")
    case True
    have "list_ex (\<lambda>i. topic ps (drop i ks)) [0..<Suc (length ks)] \<longleftrightarrow> topic (''#'' # ps) ks"
      unfolding topic_hash list_ex_iff set_upt atLeastLessThan_iff Bex_def by (auto simp: less_Suc_eq_le)
    then show ?thesis using True topic_all [of ks] by (auto simp: Cons.IH simp del: upt_Suc)
  next
    case False
    then show ?thesis
      by (cases ks) (auto simp: topic_Cons Cons.IH)
  qed
qed

section \<open>What the router finds\<close>

abbreviation route_of :: "Binding \<Rightarrow> Route" where
  "route_of b \<equiv> \<lparr>rt_Destination = b_Destination b, rt_Priority = b_Priority b\<rparr>"

text \<open>A binding that gives a route: it matches and its destination exists.\<close>

definition eligible :: "Memory \<Rightarrow> Kind \<Rightarrow> string \<Rightarrow> (string, string) gomap \<Rightarrow> Binding \<Rightarrow> bool" where
  "eligible m kind key headers b =
    (binding_matches kind key headers b \<and> address_view m (b_Destination b) \<noteq> None)"

text \<open>A stored binding of the source that gives a route.\<close>

definition feeds :: "Memory \<Rightarrow> string \<Rightarrow> Kind \<Rightarrow> string \<Rightarrow> (string, string) gomap \<Rightarrow> Binding \<Rightarrow> bool" where
  "feeds m source kind key headers b =
    (get (mm_bindings m) (b_ID b) = Some b \<and> b_Source b = source \<and> eligible m kind key headers b)"

text \<open>The first binding of each destination.\<close>

fun firsts :: "string set \<Rightarrow> Binding list \<Rightarrow> Route list" where
  "firsts seen [] = []"
| "firsts seen (b # bs) =
     (if b_Destination b \<in> seen then firsts seen bs
      else route_of b # firsts (insert (b_Destination b) seen) bs)"

lemma resolve_loop_firsts:
  "resolve_loop None m kind key headers bs seen out =
     out @ firsts (set seen) (filter (eligible m kind key headers) bs)"
  by (induction bs arbitrary: seen out)
    (auto simp: eligible_def addresses.fetch_live split: option.split)

lemma firsts_distinct: "distinct (map rt_Destination (firsts seen bs)) \<and> rt_Destination ` set (firsts seen bs) \<inter> seen = {}"
  by (induction bs arbitrary: seen) force+

lemma firsts_sound: "r \<in> set (firsts seen bs) \<Longrightarrow> \<exists>b\<in>set bs. r = route_of b \<and> b_Destination b \<notin> seen"
  by (induction bs arbitrary: seen) (auto split: if_splits)

lemma firsts_complete:
  "sorted (map (\<lambda>b. - b_Priority b) bs) \<Longrightarrow> b \<in> set bs \<Longrightarrow> b_Destination b \<notin> seen \<Longrightarrow>
     \<exists>r\<in>set (firsts seen bs). rt_Destination r = b_Destination b \<and> b_Priority b \<le> rt_Priority r"
proof (induction bs arbitrary: seen)
  case (Cons c bs)
  show ?case
  proof (cases "b_Destination c \<in> seen")
    case True
    then have "b \<in> set bs" using Cons.prems by auto
    then show ?thesis using Cons True by simp
  next
    case False
    show ?thesis
    proof (cases "b_Destination b = b_Destination c")
      case True
      then show ?thesis using Cons.prems False by auto
    next
      case ne: False
      then have "b \<in> set bs" using Cons.prems by auto
      then show ?thesis using Cons.IH [of "insert (b_Destination c) seen"] Cons.prems False ne by auto
    qed
  qed
qed simp

lemma ListBindings_spec:
  assumes "mem_wf m" "valid_ranges rs" "ListBindings rs None source m = Inr bs"
  shows "sorted (map (\<lambda>b. - b_Priority b) bs)"
    and "b \<in> set bs \<longleftrightarrow> get (mm_bindings m) (b_ID b) = Some b \<and> (source = '''' \<or> b_Source b = source)"
proof -
  let ?vs = "map snd (r_bindings rs (mm_bindings m))"
  let ?key = "\<lambda>b. (- b_Priority b, b_ID b)"
  have bs: "bs = sort_key ?key (filter (\<lambda>b. source = '''' \<or> b_Source b = source) ?vs)"
    using assms(3) by (simp add: ListBindings_def)
  have "sorted (map ?key bs)" by (simp add: bs)
  then show "sorted (map (\<lambda>b. - b_Priority b) bs)"
    by (auto simp: sorted_wrt_map less_eq_prod_def elim!: sorted_wrt_mono_rel [rotated])
  show "b \<in> set bs \<longleftrightarrow> get (mm_bindings m) (b_ID b) = Some b \<and> (source = '''' \<or> b_Source b = source)"
    using keyed_values [OF mem_wfD(2) [OF assms(1)] valid_rangesD(2) [OF assms(2)], of b]
    by (auto simp: bs)
qed

section \<open>Direct addresses\<close>

definition literal_segment :: "string \<Rightarrow> bool" where
  "literal_segment p = (p = ''#'' \<or> p = ''*'' \<or> plain_segment p)"

lemma topic_refl: "list_all literal_segment ps \<Longrightarrow> topic ps ps"
proof (induction ps)
  case (Cons p ps)
  then have IH: "topic ps ps" and p: "literal_segment p" by simp_all
  show ?case
  proof (cases "p = ''#'' \<or> p = ''*''")
    case True
    then show ?thesis using IH by (auto intro: topic.intros)
  next
    case False
    then have "path_Match p p" using p by (simp add: literal_segment_def path_Match_plain)
    then show ?thesis using False IH by (auto intro: topic.glob)
  qed
qed (rule topic.empty)

lemma topicMatch_refl: "list_all literal_segment (split_on (CHR ''.'') key) \<Longrightarrow> topicMatch key key"
  by (simp add: topicMatch_def matchParts_topic topic_refl)

section \<open>Properties\<close>

text \<open>
  C37: the matcher decides the meaning of topic patterns: a key matches exactly when its words can
  be matched in order, \<open>#\<close> taking any number of them, \<open>*\<close> one, and every other segment one word; a
  segment without glob characters matches only itself.
\<close>

theorem topicMatch_exact:
  "(topicMatch pattern key \<longleftrightarrow>
      pattern = '''' \<or> topic (split_on (CHR ''.'') pattern) (split_on (CHR ''.'') key)) \<and>
   (plain_segment p \<longrightarrow> (path_Match p word \<longleftrightarrow> p = word))"
proof -
  have "topic (split_on (CHR ''.'') ''#'') ks" for ks by (simp add: topic_all)
  then show ?thesis
    by (auto simp: topicMatch_def matchParts_topic path_Match_plain)
qed

theorem topicMatch_exact_witness:
  "topicMatch ''a.*.#'' ''a.b.c.d'' \<and> \<not> topicMatch ''a.*.#'' ''a'' \<and>
   path_Match ''orders'' ''orders'' \<and> \<not> path_Match ''orders'' ''order''"
proof -
  have plain: "plain_segment ''orders''" "plain_segment ''a''" by (simp_all add: plain_segment_def)
  have "path_Match ''a'' ''a''" using plain(2) topicMatch_exact [of "[]" "[]" "''a''" "''a''"] by blast
  then have "topic [''a'', ''*'', ''#''] [''a'', ''b'', ''c'', ''d'']"
    by (intro topic.glob topic.star topic_all) simp_all
  moreover have "\<not> topic [''a'', ''*'', ''#''] [''a'']"
    by (auto simp: topic_Cons)
  ultimately show ?thesis
    using topicMatch_exact [of "''a.*.#''" "''a.b.c.d''" "''orders''" "''orders''"]
      topicMatch_exact [of "''a.*.#''" "''a''" "''orders''" "''order''"] plain(1)
    by simp
qed

text \<open>
  C5: for a fanout, topic or direct source the router succeeds and returns each destination at
  most once, highest priority first; a destination is among the routes exactly when some binding
  of the source matches the key and headers and leads to it and it exists, and its priority is the
  highest of those bindings. This holds whatever order the bindings are visited in.
\<close>

theorem Resolve_exact:
  assumes "mem_wf m" "valid_ranges rs" "source \<noteq> ''''"
    and "mem_Get None source m = Inr src" "ad_Kind src \<in> {KindFanout, KindTopic, KindDirect}"
  shows "\<exists>routes. Resolve rs None source key headers m = Inr routes \<and>
    distinct (map rt_Destination routes) \<and> sorted (map (\<lambda>r. - rt_Priority r) routes) \<and>
    (\<forall>r. r \<in> set routes \<longleftrightarrow>
      (\<exists>b. feeds m source (ad_Kind src) key headers b \<and> r = route_of b \<and> (\<forall>b'. feeds m source (ad_Kind src) key headers b' \<and> b_Destination b' = b_Destination b \<longrightarrow> b_Priority b' \<le> b_Priority b)))"
proof -
  let ?feeds = "feeds m source (ad_Kind src) key headers"
  obtain bs where bs: "ListBindings rs None source m = Inr bs" by (simp add: ListBindings_def)
  note B = ListBindings_spec [OF assms(1,2) bs]
  let ?es = "filter (eligible m (ad_Kind src) key headers) bs"
  let ?R = "firsts {} ?es"
  have es: "b \<in> set ?es \<longleftrightarrow> ?feeds b" for b using B(2) assms(3) by (auto simp: feeds_def)
  have sorted: "sorted (map (\<lambda>b. - b_Priority b) ?es)" by (rule sorted_filter [OF B(1)])
  have d: "distinct (map rt_Destination ?R)" using firsts_distinct by blast
  have best: "\<exists>r\<in>set ?R. rt_Destination r = b_Destination b \<and> b_Priority b \<le> rt_Priority r" if "?feeds b" for b
    by (rule firsts_complete [OF sorted]) (use that es in simp_all)
  have R: "r \<in> set ?R \<longleftrightarrow> (\<exists>b. ?feeds b \<and> r = route_of b \<and>
      (\<forall>b'. ?feeds b' \<and> b_Destination b' = b_Destination b \<longrightarrow> b_Priority b' \<le> b_Priority b))" for r
  proof
    assume r: "r \<in> set ?R"
    then obtain b where b: "?feeds b" "r = route_of b" using firsts_sound es by blast
    have "b_Priority b' \<le> b_Priority b" if b': "?feeds b'" "b_Destination b' = b_Destination b" for b'
    proof -
      obtain r' where r': "r' \<in> set ?R" "rt_Destination r' = b_Destination b'" "b_Priority b' \<le> rt_Priority r'"
        using best [OF b'(1)] by blast
      have "inj_on rt_Destination (set ?R)" using d by (simp add: distinct_map)
      then have "r' = r" by (rule inj_onD) (use r b b' r' in simp_all)
      with r' b show ?thesis by simp
    qed
    with b show "\<exists>b. ?feeds b \<and> r = route_of b \<and>
      (\<forall>b'. ?feeds b' \<and> b_Destination b' = b_Destination b \<longrightarrow> b_Priority b' \<le> b_Priority b)" by blast
  next
    assume "\<exists>b. ?feeds b \<and> r = route_of b \<and>
      (\<forall>b'. ?feeds b' \<and> b_Destination b' = b_Destination b \<longrightarrow> b_Priority b' \<le> b_Priority b)"
    then obtain b where b: "?feeds b" "r = route_of b"
      "\<And>b'. ?feeds b' \<Longrightarrow> b_Destination b' = b_Destination b \<Longrightarrow> b_Priority b' \<le> b_Priority b" by blast
    obtain r' where r': "r' \<in> set ?R" "rt_Destination r' = b_Destination b" "b_Priority b \<le> rt_Priority r'"
      using best [OF b(1)] by blast
    obtain b' where "?feeds b'" "r' = route_of b'" using firsts_sound [OF r'(1)] es by blast
    with r' b(3) [of b'] have "r' = route_of b" by auto
    with r' b show "r \<in> set ?R" by simp
  qed
  have "Resolve rs None source key headers m = Inr (sort_key (\<lambda>r. - rt_Priority r) ?R)"
    using assms(4,5) by (auto simp: Resolve_def bs resolve_loop_firsts)
  moreover have "distinct (map rt_Destination (sort_key (\<lambda>r. - rt_Priority r) ?R))"
    using d by (metis mset_eq_imp_distinct_iff mset_map mset_sort)
  ultimately show ?thesis using R by auto
qed

text \<open>
  A direct address routes by equality: when the words of the key have no glob characters, a
  binding matches exactly when its routing key is the message's and its header filter holds. (The
  equal key is still matched as a pattern: with a glob character such as a bracket an exactly bound
  message is not routed.)
\<close>

theorem direct_by_equality:
  assumes "list_all literal_segment (split_on (CHR ''.'') key)"
  shows "binding_matches KindDirect key headers b \<longleftrightarrow>
      b_RoutingKey b = key \<and> list_all (\<lambda>(k, want). get headers k = Some want) (b_Filter b)"
  using topicMatch_refl [OF assms] by (auto simp: binding_matches_def Match_def Let_def)

theorem direct_by_equality_witness:
  "binding_matches KindDirect ''a.b'' [(''h'', ''1'')]
     \<lparr>b_ID = ''x'', b_Source = ''s'', b_Destination = ''d'', b_RoutingKey = ''a.b'',
      b_Filter = [(''h'', ''1'')], b_Priority = 0, b_CreatedAt = 1\<rparr>"
  using direct_by_equality [of "''a.b''" "[(''h'', ''1'')]" "\<lparr>b_ID = ''x'', b_Source = ''s'',
      b_Destination = ''d'', b_RoutingKey = ''a.b'', b_Filter = [(''h'', ''1'')], b_Priority = 0, b_CreatedAt = 1\<rparr>"]
  by (simp add: literal_segment_def plain_segment_def)

text \<open>A fanout address with two bindings to one queue, for the witness.\<close>

definition sample_address :: "string \<Rightarrow> Kind \<Rightarrow> Address" where
  "sample_address name kind = \<lparr>ad_Name = name, ad_Kind = kind, ad_Durable = False, ad_MaxLength = 0,
     ad_DefaultTTL = 0, ad_DeadLetter = '''', ad_Paused = False, ad_CreatedAt = 1, ad_Version = 1\<rparr>"

definition sample_binding :: "string \<Rightarrow> int \<Rightarrow> Binding" where
  "sample_binding bid prio = \<lparr>b_ID = bid, b_Source = ''news'', b_Destination = ''jobs'',
     b_RoutingKey = '''', b_Filter = [], b_Priority = prio, b_CreatedAt = 1\<rparr>"

definition sample_net :: Memory where
  "sample_net = NewMemory\<lparr>
     mm_addresses := [(''news'', sample_address ''news'' KindFanout), (''jobs'', sample_address ''jobs'' KindQueue)],
     mm_bindings := [(''b1'', sample_binding ''b1'' 3), (''b2'', sample_binding ''b2'' 5)]\<rparr>"

lemma mem_wf_sample_net: "mem_wf sample_net"
  by (simp add: mem_wf_def sample_net_def NewMemory_def keyed_def wf_map_def sample_address_def sample_binding_def)

theorem Resolve_exact_witness:
  "\<exists>routes. Resolve id_ranges None ''news'' ''any.key'' [] sample_net = Inr routes \<and>
     \<lparr>rt_Destination = ''jobs'', rt_Priority = 5\<rparr> \<in> set routes \<and> distinct (map rt_Destination routes)"
proof -
  let ?src = "sample_address ''news'' KindFanout"
  let ?f = "feeds sample_net ''news'' (ad_Kind ?src) ''any.key'' []"
  have src: "mem_Get None ''news'' sample_net = Inr ?src"
    by (simp add: mem_Get_def sample_net_def)
  have kind: "ad_Kind ?src \<in> {KindFanout, KindTopic, KindDirect}" by (simp add: sample_address_def)
  have f: "?f (sample_binding ''b2'' 5)"
    by (simp add: feeds_def eligible_def sample_net_def sample_binding_def binding_matches_def Match_def
        topicMatch_def sample_address_def)
  have all: "b_Priority b \<le> 5" if "?f b" for b
    using that by (auto simp: feeds_def sample_net_def sample_binding_def split: if_splits)
  have best: "\<exists>b. ?f b \<and> \<lparr>rt_Destination = ''jobs'', rt_Priority = 5\<rparr> = route_of b \<and>
      (\<forall>b'. ?f b' \<and> b_Destination b' = b_Destination b \<longrightarrow> b_Priority b' \<le> b_Priority b)"
    by (rule exI [of _ "sample_binding ''b2'' 5"]) (use f all in \<open>simp add: sample_binding_def\<close>)
  have "''news'' \<noteq> ''''" by simp
  from Resolve_exact [OF mem_wf_sample_net valid_id_ranges this src kind, of "''any.key''" "[]"] best
  show ?thesis by blast
qed

end
