(* ===== verification/AddressService.thy ===== *)
theory AddressService
  imports Routing
begin

text \<open>
  The address service (\<open>internal/address/application/service.go\<close>) over the in-memory store. \<open>rnd\<close> is what
  the random source returned for an identifier. A handler returns its result and the store, which is
  unchanged when it fails.
\<close>

definition address_newID :: "string \<Rightarrow> byte list option \<Rightarrow> error + string" where
  "address_newID pre rnd =
    (case rnd of
       None \<Rightarrow> Inl (Wrap ''random id'' (New ''random source''))
     | Some b \<Rightarrow> Inr (pre @ ''_'' @ hex b))"

definition as_Create ::
  "(string \<Rightarrow> duration option) \<Rightarrow> ctx \<Rightarrow> time \<Rightarrow> Create \<Rightarrow> Memory \<Rightarrow> (error + Address) \<times> Memory" where
  "as_Create ParseDuration ctx now inp m =
    (case New_Address ParseDuration inp now of
       Inl e \<Rightarrow> (Inl e, m)
     | Inr a \<Rightarrow>
         let dead = (if ad_DeadLetter a \<noteq> '''' then
             (case mem_Get ctx (ad_DeadLetter a) m of
                Inl e \<Rightarrow> Some (Wrap ''dead-letter address'' e) | Inr _ \<Rightarrow> None) else None) in
         case dead of
           Some e \<Rightarrow> (Inl e, m)
         | None \<Rightarrow>
             (case mem_Create ctx a m of
                Inl e \<Rightarrow> (Inl (Wrap ''create address'' e), m)
              | Inr m' \<Rightarrow> (Inr a, m')))"

definition as_Bind ::
  "ctx \<Rightarrow> time \<Rightarrow> byte list option \<Rightarrow> Bind \<Rightarrow> Memory \<Rightarrow> (error + Binding) \<times> Memory" where
  "as_Bind ctx now rnd inp m =
    (case mem_Get ctx (bi_Source inp) m of
       Inl e \<Rightarrow> (Inl (Wrap ''source'' e), m)
     | Inr _ \<Rightarrow>
       (case mem_Get ctx (bi_Destination inp) m of
          Inl e \<Rightarrow> (Inl (Wrap ''destination'' e), m)
        | Inr _ \<Rightarrow>
          (case address_newID ''bnd'' rnd of
             Inl e \<Rightarrow> (Inl e, m)
           | Inr bid \<Rightarrow>
             (case NewBinding bid inp now of
                Inl e \<Rightarrow> (Inl e, m)
              | Inr b \<Rightarrow>
                (case CreateBinding ctx b m of
                   Inl e \<Rightarrow> (Inl (Wrap ''save binding'' e), m)
                 | Inr m' \<Rightarrow> (Inr b, m'))))))"

definition as_Pause :: "ctx \<Rightarrow> string \<Rightarrow> bool \<Rightarrow> Memory \<Rightarrow> (error + Address) \<times> Memory" where
  "as_Pause ctx name pause m =
    (case SetPaused ctx name pause m of
       Inl e \<Rightarrow> (Inl (Wrap ''pause address'' e), m)
     | Inr (a, m') \<Rightarrow> (Inr a, m'))"

definition as_List :: "ranges \<Rightarrow> ctx \<Rightarrow> Memory \<Rightarrow> error + Address list" where
  "as_List rs ctx m = mem_List rs ctx m"

definition as_ListBindings :: "ranges \<Rightarrow> ctx \<Rightarrow> string \<Rightarrow> Memory \<Rightarrow> error + Binding list" where
  "as_ListBindings rs ctx source m = ListBindings rs ctx source m"

section \<open>The topology invariant\<close>

text \<open>
  What the administration of addresses maintains: well-formed addresses and bindings under their
  names, dead-letter addresses and binding ends that exist.
\<close>

definition topology_ok :: "Memory \<Rightarrow> bool" where
  "topology_ok m = (mem_wf m \<and>
     (\<forall>k a. address_view m k = Some a \<longrightarrow> address_wf a \<and>
        (ad_DeadLetter a \<noteq> '''' \<longrightarrow> address_view m (ad_DeadLetter a) \<noteq> None)) \<and>
     (\<forall>k b. get (mm_bindings m) k = Some b \<longrightarrow> binding_wf b \<and>
        address_view m (b_Source b) \<noteq> None \<and> address_view m (b_Destination b) \<noteq> None))"

datatype admin =
    ACreate "string \<Rightarrow> duration option" ctx time Create
  | ABind ctx time "byte list option" Bind
  | APause ctx string bool

fun admin_step :: "admin \<Rightarrow> Memory \<Rightarrow> Memory" where
  "admin_step (ACreate pd ctx now inp) m = snd (as_Create pd ctx now inp m)"
| "admin_step (ABind ctx now rnd inp) m = snd (as_Bind ctx now rnd inp m)"
| "admin_step (APause ctx name p) m = snd (as_Pause ctx name p m)"

lemma as_Create_Inr:
  "as_Create pd ctx now inp m = (Inr a, m') \<Longrightarrow>
     New_Address pd inp now = Inr a \<and> (ad_DeadLetter a \<noteq> '''' \<longrightarrow> address_view m (ad_DeadLetter a) \<noteq> None) \<and>
     mem_Create ctx a m = Inr m'"
  by (auto simp: as_Create_def Let_def addresses.fetch_Inr split: sum.splits if_splits option.splits)

lemma as_Bind_Inr:
  "as_Bind ctx now rnd inp m = (Inr b, m') \<Longrightarrow>
     address_view m (bi_Source inp) \<noteq> None \<and> address_view m (bi_Destination inp) \<noteq> None \<and>
     (\<exists>bid. NewBinding bid inp now = Inr b) \<and> CreateBinding ctx b m = Inr m'"
  by (auto simp: as_Bind_def addresses.fetch_Inr split: sum.splits)

lemma admin_failure:
  "as_Create pd ctx now inp m = (Inl e, m') \<Longrightarrow> m' = m"
  "as_Bind ctx now rnd bnd m = (Inl e, m') \<Longrightarrow> m' = m"
  "as_Pause ctx name p m = (Inl e, m') \<Longrightarrow> m' = m"
  by (auto simp: as_Create_def as_Bind_def as_Pause_def Let_def split: sum.splits if_splits option.splits)

lemma topology_create:
  assumes "topology_ok m" "as_Create pd ctx now inp m = (r, m')"
  shows "topology_ok m'"
proof (cases r)
  case (Inl e)
  with assms admin_failure(1) show ?thesis by blast
next
  case (Inr a)
  note c = as_Create_Inr [OF assms(2) [unfolded Inr]]
  have wf: "address_wf a" using c New_Address_wf by blast
  have view: "address_view m (ad_Name a) = None" "address_view m' = (address_view m)(ad_Name a \<mapsto> a)"
    using addresses.create_Inr c by blast+
  have bs: "mm_bindings m' = mm_bindings m"
    using c by (auto simp: mem_Create_def guardE_Inr_iff split: if_splits)
  have "mem_wf m'" using assms(1) c mem_wf_steps(1) by (auto simp: topology_ok_def)
  then show ?thesis
    using assms(1) c wf by (auto simp: topology_ok_def view bs)
qed

lemma NewBinding_ends:
  assumes "topology_ok m" "address_view m (bi_Source inp) \<noteq> None" "address_view m (bi_Destination inp) \<noteq> None"
    and "NewBinding bid inp now = Inr b"
  shows "b_Source b = bi_Source inp" "b_Destination b = bi_Destination inp"
proof -
  have "TrimSpace k = k" if "address_view m k \<noteq> None" for k
  proof -
    from that obtain a where a: "address_view m k = Some a" by auto
    then have "ad_Name a = k" "namePattern (ad_Name a)"
      using assms(1) keyed_get [OF mem_wfD(1)] by (auto simp: topology_ok_def address_wf_def)
    then show ?thesis using TrimSpace_name by simp
  qed
  with assms(2-4) show "b_Source b = bi_Source inp" "b_Destination b = bi_Destination inp"
    by (auto simp: NewBinding_def Let_def split: if_splits)
qed

lemma topology_bind:
  assumes "topology_ok m" "as_Bind ctx now rnd inp m = (r, m')"
  shows "topology_ok m'"
proof (cases r)
  case (Inl e)
  with assms admin_failure(2) show ?thesis by blast
next
  case (Inr b)
  note c = as_Bind_Inr [OF assms(2) [unfolded Inr]]
  then obtain bid where b: "NewBinding bid inp now = Inr b" by blast
  note ends = NewBinding_ends [OF assms(1) _ _ b]
  have wf: "binding_wf b" by (rule NewBinding_wf [OF b])
  have m': "mm_addresses m' = mm_addresses m" "mm_bindings m' = put (b_ID b) b (mm_bindings m)"
    using c by (auto simp: CreateBinding_def guardE_Inr_iff split: if_splits)
  have "mem_wf m'" using assms(1) c mem_wf_steps(4) by (auto simp: topology_ok_def)
  then show ?thesis
    using assms(1) c wf ends by (auto simp: topology_ok_def m' map_simps)
qed

lemma topology_pause:
  assumes "topology_ok m" "as_Pause ctx name p m = (r, m')"
  shows "topology_ok m'"
proof (cases r)
  case (Inl e)
  with assms admin_failure(3) show ?thesis by blast
next
  case (Inr a)
  have sp: "SetPaused ctx name p m = Inr (a, m')"
    using assms(2) Inr by (auto simp: as_Pause_def split: sum.splits)
  then obtain a0 where a0: "address_view m name = Some a0" "a = a0\<lparr>ad_Paused := p, ad_Version := ad_Version a0 + 1\<rparr>"
    "m' = m\<lparr>mm_addresses := put name a (mm_addresses m)\<rparr>"
    by (auto simp: SetPaused_def guardE_Inr_iff Let_def split: option.splits)
  have "mem_wf m'" using assms(1) sp mem_wf_steps(2) by (auto simp: topology_ok_def)
  moreover have "address_wf a" using assms(1) a0(1) by (auto simp: topology_ok_def a0(2) address_wf_def)
  ultimately show ?thesis
    using assms(1) a0(1,3) by (auto simp: topology_ok_def map_simps a0(2))
qed

lemma topology_step: "topology_ok m \<Longrightarrow> topology_ok (admin_step ad m)"
  by (cases ad) (auto intro: topology_create topology_bind topology_pause prod.collapse [symmetric])

lemma topology_steps: "topology_ok m \<Longrightarrow> topology_ok (fold admin_step ads m)"
  by (induction ads arbitrary: m) (auto intro: topology_step)

lemma topology_New: "topology_ok NewMemory"
  by (simp add: topology_ok_def mem_wf_New) (simp add: NewMemory_def)

section \<open>Properties\<close>

text \<open>
  C34: whatever sequence of address creations, bindings and pauses the broker is given, with
  whatever inputs, every stored address has a valid name and kind, a non-negative length limit and
  time to live, and a dead-letter address that is another, existing address; every stored binding
  joins two different existing addresses with a priority between 0 and 9.
\<close>

theorem topology_invariant:
  defines "m \<equiv> \<lambda>ads. fold admin_step ads NewMemory"
  shows "(address_view (m ads) k = Some a \<longrightarrow> ad_Name a = k \<and> address_wf a \<and>
      (ad_DeadLetter a \<noteq> '''' \<longrightarrow> address_view (m ads) (ad_DeadLetter a) \<noteq> None)) \<and>
    (get (mm_bindings (m ads)) j = Some b \<longrightarrow> b_ID b = j \<and> binding_wf b \<and>
      address_view (m ads) (b_Source b) \<noteq> None \<and> address_view (m ads) (b_Destination b) \<noteq> None)"
proof -
  have "topology_ok (m ads)" unfolding m_def by (rule topology_steps [OF topology_New])
  then show ?thesis
    by (auto simp: topology_ok_def dest: mem_wfD intro: keyed_get)
qed

theorem topology_invariant_witness:
  "\<exists>a. address_view (fold admin_step [ACreate (\<lambda>s. None) None 1 \<lparr>cr_Name = ''jobs'', cr_Kind = KindQueue,
      cr_Durable = True, cr_MaxLength = 5, cr_DefaultTTL = '''', cr_DeadLetter = ''''\<rparr>] NewMemory) ''jobs'' = Some a \<and>
    address_wf a"
proof -
  let ?c = "\<lparr>cr_Name = ''jobs'', cr_Kind = KindQueue, cr_Durable = True, cr_MaxLength = 5,
    cr_DefaultTTL = '''', cr_DeadLetter = ''''\<rparr>"
  let ?ads = "[ACreate (\<lambda>s. None) None 1 ?c]"
  have n: "namePattern ''jobs''" by (simp add: name_start_def name_char_def)
  obtain a where a: "New_Address (\<lambda>s. None) ?c 1 = Inr a" "ad_Name a = ''jobs''" "ad_DeadLetter a = ''''"
    using n by (simp add: New_Address_def TrimSpace_name [OF n] Let_def)
  then have "address_view (fold admin_step ?ads NewMemory) ''jobs'' = Some a"
    by (simp add: as_Create_def mem_Create_def NewMemory_def)
  with topology_invariant [of ?ads "''jobs''" a] show ?thesis by blast
qed

end
