(* ===== verification/BodyLog.thy ===== *)
theory BodyLog
  imports Prelude
begin

text \<open>
  The body log (\<open>delivery/domain/repository.go\<close>, interface \<open>BodyLog\<close>) and its two implementations in
  \<open>internal/storage/infrastructure\<close>: \<open>memorylog.go\<close> and \<open>filelog.go\<close>. The file is the list of its bytes;
  short reads are errors as in the source, failures of the operating system (a full disk, a
  permission) are not modelled, and the rename that ends a compaction is one step.
\<close>

section \<open>Memory log\<close>

record MemoryLog =
  ml_records :: "(int, byte list) gomap"
  ml_next :: int

definition NewMemoryLog :: MemoryLog where
  "NewMemoryLog = \<lparr>ml_records = [], ml_next = 0\<rparr>"

definition ml_Append :: "ctx \<Rightarrow> string \<Rightarrow> byte list \<Rightarrow> MemoryLog \<Rightarrow> error + (int \<times> MemoryLog)" where
  "ml_Append ctx mid b l = guardE ctx
    (let off = ml_next l in
     Inr (off, \<lparr>ml_records = put off b (ml_records l), ml_next = ml_next l + 1\<rparr>))"

definition ml_Read :: "ctx \<Rightarrow> int \<Rightarrow> MemoryLog \<Rightarrow> error + byte list" where
  "ml_Read ctx off l = guardE ctx
    (case get (ml_records l) off of None \<Rightarrow> Inl (New ''log offset not found'') | Some b \<Rightarrow> Inr b)"

definition ml_Compact ::
  "(int, byte list) order \<Rightarrow> ctx \<Rightarrow> (int, unit) gomap \<Rightarrow> MemoryLog \<Rightarrow> error + MemoryLog" where
  "ml_Compact rng ctx live l = guardE ctx
    (Inr (l\<lparr>ml_records :=
       fold (\<lambda>(off, b) rs. if get live off = None then del off rs else rs) (rng (ml_records l)) (ml_records l)\<rparr>))"

section \<open>File log\<close>

record FileLog =
  fl_data :: "byte list"
  fl_offsets :: "(int, nat) gomap"

text \<open>\<open>io.ReadFull\<close> of \<open>n\<close> bytes at a position: no bytes at all is \<open>EOF\<close>, too few \<open>ErrUnexpectedEOF\<close>.\<close>

definition read_full :: "byte list \<Rightarrow> nat \<Rightarrow> nat \<Rightarrow> error + byte list" where
  "read_full data pos n =
    (let avail = drop pos data in
     if n = 0 then Inr []
     else if avail = [] then Inl EOF
     else if length avail < n then Inl ErrUnexpectedEOF
     else Inr (take n avail))"

text \<open>The loop of \<open>reindex\<close>: \<open>pos\<close> is the position in the file, \<open>logical\<close> the number of the record.\<close>

function reindex_loop :: "byte list \<Rightarrow> nat \<Rightarrow> int \<Rightarrow> (int, nat) gomap \<Rightarrow> error + (int, nat) gomap" where
  "reindex_loop data pos logical offsets =
    (case read_full data pos 4 of
       Inl e \<Rightarrow> if errors_Is e EOF then Inr offsets else Inl (Wrap ''read log header'' e)
     | Inr hdr \<Rightarrow>
         if unat (Uint32 hdr) > 67108864 then Inl (New ''corrupt message log record'')
         else reindex_loop data (pos + 4 + unat (Uint32 hdr)) (logical + 1) (put logical pos offsets))"
  by pat_completeness auto
termination
  by (relation "measure (\<lambda>(data, pos, logical, offsets). length data - pos)")
    (auto simp: read_full_def Let_def split: if_splits)

declare reindex_loop.simps [simp del]

text \<open>\<open>OpenFileLog\<close> on a file with these bytes.\<close>

definition OpenFileLog :: "byte list \<Rightarrow> error + FileLog" where
  "OpenFileLog data =
    tryE (reindex_loop data 0 0 []) (\<lambda>offsets. Inr \<lparr>fl_data = data, fl_offsets = offsets\<rparr>)"

definition fl_Append :: "ctx \<Rightarrow> string \<Rightarrow> byte list \<Rightarrow> FileLog \<Rightarrow> error + (int \<times> FileLog)" where
  "fl_Append ctx mid body l = guardE ctx
    (if length body > 67108864 then Inl (New ''message body exceeds log limit'')
     else
       let pos = length (fl_data l);
           record_bytes = bytes_of_string mid @ [10] @ body;
           logical = int (length (fl_offsets l)) in
       Inr (logical, \<lparr>fl_data = fl_data l @ PutUint32 (word_of_nat (length record_bytes)) @ record_bytes,
         fl_offsets = put logical pos (fl_offsets l)\<rparr>))"

text \<open>
  \<open>bufio.Scanner\<close> with its defaults: the first line without its newline and one trailing carriage
  return; \<open>None\<close> when there is no input or no newline among the 65536 bytes its buffer may hold.
\<close>

definition drop_cr :: "byte list \<Rightarrow> byte list" where
  "drop_cr bs = (if bs \<noteq> [] \<and> last bs = 13 then butlast bs else bs)"

definition scan_line :: "byte list \<Rightarrow> byte list option" where
  "scan_line data =
    (let line = takeWhile (\<lambda>b. b \<noteq> 10) data in
     if data = [] then None
     else if length line \<ge> 65536 then None
     else Some (drop_cr line))"

definition read_record :: "byte list \<Rightarrow> nat \<Rightarrow> error + (32 word \<times> byte list)" where
  "read_record data pos =
    tryE (read_full data pos 4) (\<lambda>hdr.
    tryE (read_full data (pos + 4) (unat (Uint32 hdr))) (\<lambda>rec. Inr (Uint32 hdr, rec)))"

definition fl_Read :: "ctx \<Rightarrow> int \<Rightarrow> FileLog \<Rightarrow> error + byte list" where
  "fl_Read ctx off l = guardE ctx
    (case get (fl_offsets l) off of
       None \<Rightarrow> Inl (New ''log offset not found'')
     | Some pos \<Rightarrow>
         tryE (read_record (fl_data l) pos) (\<lambda>(n, data).
           case scan_line data of
             None \<Rightarrow> Inl (New ''invalid log record'')
           | Some tok \<Rightarrow>
               let cut = length tok + 1 in
               if cut > length data then Inl (New ''invalid log delimiter'')
               else Inr (drop cut data)))"

text \<open>The loop of \<open>Compact\<close>: \<open>tmp\<close> are the bytes written so far. A missing offset reads as 0.\<close>

fun compact_loop ::
  "FileLog \<Rightarrow> (int, unit) gomap \<Rightarrow> int list \<Rightarrow> byte list \<Rightarrow> (int, nat) gomap \<Rightarrow> error + FileLog" where
  "compact_loop l live [] tmp newOffsets = Inr \<lparr>fl_data = tmp, fl_offsets = newOffsets\<rparr>"
| "compact_loop l live (old # olds) tmp newOffsets =
     (if get live old = None then compact_loop l live olds tmp newOffsets
      else
        let pos = (case get (fl_offsets l) old of Some p \<Rightarrow> p | None \<Rightarrow> 0) in
        tryE (read_record (fl_data l) pos) (\<lambda>(n, data).
          compact_loop l live olds (tmp @ PutUint32 n @ data)
            (put (int (length newOffsets)) (length tmp) newOffsets)))"

definition fl_Compact :: "ctx \<Rightarrow> (int, unit) gomap \<Rightarrow> FileLog \<Rightarrow> error + FileLog" where
  "fl_Compact ctx live l = guardE ctx
    (compact_loop l live (map int [0..<length (fl_offsets l)]) [] [])"

section \<open>The contract\<close>

text \<open>
  \<open>view l off\<close> is the body filed at an offset. A log accepts the identifiers in \<open>ok_id\<close> and bodies up
  to \<open>limit\<close> bytes; what it accepts it returns, under an offset that was free.
\<close>

locale body_log =
  fixes inv :: "'l \<Rightarrow> bool"
    and view :: "'l \<Rightarrow> int \<Rightarrow> byte list option"
    and append :: "ctx \<Rightarrow> string \<Rightarrow> byte list \<Rightarrow> 'l \<Rightarrow> error + (int \<times> 'l)"
    and read :: "ctx \<Rightarrow> int \<Rightarrow> 'l \<Rightarrow> error + byte list"
    and ok_id :: "string \<Rightarrow> bool"
    and limit :: nat
  assumes append_ok: "inv l \<Longrightarrow> ok_id mid \<Longrightarrow> length b \<le> limit \<Longrightarrow>
      \<exists>off l'. append None mid b l = Inr (off, l') \<and> inv l' \<and> view l off = None \<and> view l' = (view l)(off \<mapsto> b)"
    and read_ok: "inv l \<Longrightarrow> view l off = Some b \<Longrightarrow> read None off l = Inr b"
begin

lemma append_Inr:
  assumes "inv l" "ok_id mid" "length b \<le> limit" "append None mid b l = Inr (off, l')"
  shows "inv l'" "view l off = None" "view l' = (view l)(off \<mapsto> b)"
  using append_ok [OF assms(1-3)] assms(4) by auto

text \<open>Appending a sequence of bodies.\<close>

fun append_all :: "(string \<times> byte list) list \<Rightarrow> 'l \<Rightarrow> error + (int list \<times> 'l)" where
  "append_all [] l = Inr ([], l)"
| "append_all ((mid, b) # xs) l =
     tryE (append None mid b l) (\<lambda>(off, l). tryE (append_all xs l) (\<lambda>(offs, l). Inr (off # offs, l)))"

lemma append_all_ok:
  assumes "inv l" "\<forall>(mid, b)\<in>set xs. ok_id mid \<and> length b \<le> limit"
  shows "\<exists>offs l'. append_all xs l = Inr (offs, l') \<and> inv l' \<and> length offs = length xs \<and> distinct offs \<and>
    (\<forall>off b. view l off = Some b \<longrightarrow> view l' off = Some b \<and> off \<notin> set offs) \<and>
    list_all2 (\<lambda>off (mid, b). view l' off = Some b) offs xs"
  using assms
proof (induction xs arbitrary: l)
  case (Cons x xs)
  obtain mid b where x: "x = (mid, b)" by (cases x)
  with Cons.prems obtain off l1 where a: "append None mid b l = Inr (off, l1)" "inv l1"
      "view l off = None" "view l1 = (view l)(off \<mapsto> b)"
    using append_ok [of l mid b] by auto
  with Cons.IH [of l1] Cons.prems obtain offs l' where IH: "append_all xs l1 = Inr (offs, l')" "inv l'"
      "length offs = length xs" "distinct offs"
      "\<forall>off b. view l1 off = Some b \<longrightarrow> view l' off = Some b \<and> off \<notin> set offs"
      "list_all2 (\<lambda>off (mid, b). view l' off = Some b) offs xs"
    by auto
  have "append_all (x # xs) l = Inr (off # offs, l')" by (simp add: x a(1) IH(1))
  moreover have "\<forall>o' c. view l o' = Some c \<longrightarrow> view l' o' = Some c \<and> o' \<notin> set (off # offs)"
  proof (intro allI impI)
    fix o' c
    assume c: "view l o' = Some c"
    with a(3) have "o' \<noteq> off" by auto
    with c a(4) have "view l1 o' = Some c" by simp
    with IH(5) \<open>o' \<noteq> off\<close> show "view l' o' = Some c \<and> o' \<notin> set (off # offs)" by simp
  qed
  moreover have "view l' off = Some b \<and> off \<notin> set offs" using IH(5) a(4) by simp
  ultimately show ?case
    using IH(2-4,6) by (auto simp: x)
qed simp

end

section \<open>The memory log keeps the contract\<close>

definition ml_inv :: "MemoryLog \<Rightarrow> bool" where
  "ml_inv l = (wf_map (ml_records l) \<and> (\<forall>off b. get (ml_records l) off = Some b \<longrightarrow> off < ml_next l))"

abbreviation ml_view :: "MemoryLog \<Rightarrow> int \<Rightarrow> byte list option" where
  "ml_view l \<equiv> get (ml_records l)"

interpretation memory_log: body_log ml_inv ml_view ml_Append ml_Read "\<lambda>mid. True" limit for limit
proof unfold_locales
  fix l mid and b :: "byte list"
  assume inv: "ml_inv l"
  have free: "ml_view l (ml_next l) = None"
    using inv by (cases "ml_view l (ml_next l)") (auto simp: ml_inv_def)
  have "ml_inv \<lparr>ml_records = put (ml_next l) b (ml_records l), ml_next = ml_next l + 1\<rparr>"
    using inv unfolding ml_inv_def by (force simp: map_simps)
  with free show "\<exists>off l'. ml_Append None mid b l = Inr (off, l') \<and> ml_inv l' \<and>
      ml_view l off = None \<and> ml_view l' = (ml_view l)(off \<mapsto> b)"
    by (simp add: ml_Append_def Let_def update_conv')
qed (simp add: ml_Read_def)

lemma ml_Compact_view:
  assumes "ml_inv l" "valid_range rng"
  shows "\<exists>l'. ml_Compact rng None live l = Inr l' \<and> ml_inv l' \<and>
    (\<forall>off. ml_view l' off = (if get live off = None then None else ml_view l off))"
proof -
  have fold: "get (fold (\<lambda>(off, b) rs. if get live off = None then del off rs else rs) xs rs) k =
      (if get live k = None \<and> k \<in> fst ` set xs then None else get rs k)" for xs and rs :: "(int, byte list) gomap" and k
    by (induction xs arbitrary: rs) (auto simp: map_simps)
  have wf: "wf_map (fold (\<lambda>(off, b) rs. if get live off = None then del off rs else rs) xs rs)"
    if "wf_map rs" for xs and rs :: "(int, byte list) gomap"
    using that by (induction xs arbitrary: rs) auto
  have keys: "k \<in> fst ` set (rng (ml_records l)) \<longleftrightarrow> ml_view l k \<noteq> None" for k
    by (simp add: valid_range_set [OF assms(2)] get_None_keys)
  obtain l' where l': "ml_Compact rng None live l = Inr l'" by (simp add: ml_Compact_def)
  then have view: "ml_view l' off = (if get live off = None then None else ml_view l off)" for off
    by (auto simp: ml_Compact_def fold keys)
  moreover have "ml_inv l'"
    using assms(1) l' view by (auto simp: ml_inv_def ml_Compact_def wf split: if_splits)
  ultimately show ?thesis using l' by blast
qed

section \<open>The file log keeps the contract\<close>

text \<open>The bytes of a record, and the position of each record of a log.\<close>

definition record_bytes :: "string \<times> byte list \<Rightarrow> byte list" where
  "record_bytes = (\<lambda>(mid, body). bytes_of_string mid @ [10] @ body)"

definition enc_record :: "string \<times> byte list \<Rightarrow> byte list" where
  "enc_record r = PutUint32 (word_of_nat (length (record_bytes r))) @ record_bytes r"

definition enc_log :: "(string \<times> byte list) list \<Rightarrow> byte list" where
  "enc_log rs = concat (map enc_record rs)"

definition record_pos :: "(string \<times> byte list) list \<Rightarrow> nat \<Rightarrow> nat" where
  "record_pos rs k = length (enc_log (take k rs))"

text \<open>
  Identifiers the reader can cut off again: no newline, no carriage return at the end, shorter than
  the scanner's buffer. The broker's own identifiers are a prefix and hexadecimal digits.
\<close>

definition log_id :: "string \<Rightarrow> bool" where
  "log_id mid = (10 \<notin> set (bytes_of_string mid) \<and> (mid = [] \<or> last (bytes_of_string mid) \<noteq> 13) \<and> length mid < 65536)"

definition log_record :: "string \<times> byte list \<Rightarrow> bool" where
  "log_record = (\<lambda>(mid, body). log_id mid \<and> length body \<le> 67108864)"

text \<open>\<open>log_rep l rs\<close>: the file holds the records \<open>rs\<close> in order, and the offsets lead to them.\<close>

definition log_rep :: "FileLog \<Rightarrow> (string \<times> byte list) list \<Rightarrow> bool" where
  "log_rep l rs = (fl_data l = enc_log rs \<and> list_all log_record rs \<and>
     fl_offsets l = map (\<lambda>k. (int k, record_pos rs k)) [0..<length rs])"

lemma get_offsets: "get (map (\<lambda>k. (int k, f k)) [0..<n]) off = (if 0 \<le> off \<and> off < int n then Some (f (nat off)) else None)"
proof (induction n)
  case (Suc n)
  have "get (map (\<lambda>k. (int k, f k)) [0..<n] @ [(int n, f n)]) off =
      (if 0 \<le> off \<and> off < int n then Some (f (nat off)) else if off = int n then Some (f n) else None)"
    using Suc by (simp add: map_add_def)
  then show ?case by auto
qed simp

lemma enc_log_append [simp]: "enc_log (rs @ qs) = enc_log rs @ enc_log qs"
  by (simp add: enc_log_def)

lemma enc_log_simps [simp]: "enc_log [] = []" "enc_log (r # rs) = enc_record r @ enc_log rs"
  by (simp_all add: enc_log_def)

lemma record_length: "log_record r \<Longrightarrow> length (record_bytes r) < 67174401"
  by (auto simp: log_record_def log_id_def record_bytes_def)

lemma word_record_length:
  assumes "log_record r"
  shows "unat (word_of_nat (length (record_bytes r)) :: 32 word) = length (record_bytes r)"
  using record_length [OF assms] by (simp add: unat_of_nat)

lemma log_split: "k < length rs \<Longrightarrow> enc_log rs = enc_log (take k rs) @ enc_record (rs ! k) @ enc_log (drop (Suc k) rs)"
  by (metis Cons_nth_drop_Suc append_take_drop_id enc_log_append enc_log_simps(2))

lemma read_full_append: "read_full (p @ q @ r) (length p) (length q) = Inr q"
  by (cases "q = []") (auto simp: read_full_def Let_def)

lemma read_record_at:
  assumes "log_record r"
  shows "read_record (p @ enc_record r @ q) (length p) =
    Inr (word_of_nat (length (record_bytes r)), record_bytes r)"
proof -
  let ?h = "PutUint32 (word_of_nat (length (record_bytes r)))"
  have "read_full (p @ enc_record r @ q) (length p) 4 = Inr ?h"
    using read_full_append [of p ?h "record_bytes r @ q"] by (simp add: enc_record_def)
  moreover have "read_full (p @ enc_record r @ q) (length p + 4) (length (record_bytes r)) = Inr (record_bytes r)"
    using read_full_append [of "p @ ?h" "record_bytes r" q] by (simp add: enc_record_def)
  moreover have "Uint32 ?h = word_of_nat (length (record_bytes r))"
    using Uint32_PutUint32 [of _ "[]"] by simp
  ultimately show ?thesis
    by (simp add: read_record_def word_record_length [OF assms])
qed

lemma scan_record:
  assumes "log_id mid"
  shows "scan_line (record_bytes (mid, body)) = Some (bytes_of_string mid)"
proof -
  have "takeWhile (\<lambda>b. b \<noteq> 10) (record_bytes (mid, body)) = bytes_of_string mid"
    using assms by (auto simp: record_bytes_def log_id_def takeWhile_append2 takeWhile_tail)
  moreover have "record_bytes (mid, body) \<noteq> []" by (simp add: record_bytes_def)
  ultimately show ?thesis
    using assms by (auto simp: scan_line_def log_id_def drop_cr_def)
qed

lemma log_rep_length: "log_rep l rs \<Longrightarrow> length (fl_offsets l) = length rs"
  by (simp add: log_rep_def)

lemma log_rep_get:
  "log_rep l rs \<Longrightarrow> get (fl_offsets l) off =
     (if 0 \<le> off \<and> off < int (length rs) then Some (record_pos rs (nat off)) else None)"
  by (simp add: log_rep_def get_offsets)

lemma log_rep_record:
  assumes "log_rep l rs" "k < length rs"
  shows "read_record (fl_data l) (record_pos rs k) =
    Inr (word_of_nat (length (record_bytes (rs ! k))), record_bytes (rs ! k))"
  using assms read_record_at [of "rs ! k" "enc_log (take k rs)" "enc_log (drop (Suc k) rs)"]
  by (simp add: log_rep_def record_pos_def log_split [OF assms(2)] list_all_length)

lemma fl_Read_rep:
  assumes "log_rep l rs"
  shows "fl_Read None off l =
    (if 0 \<le> off \<and> off < int (length rs) then Inr (snd (rs ! nat off)) else Inl (New ''log offset not found''))"
proof (cases "0 \<le> off \<and> off < int (length rs)")
  case True
  then have k: "nat off < length rs" by auto
  obtain mid body where r: "rs ! nat off = (mid, body)" by (cases "rs ! nat off")
  have "log_id mid" using assms k r by (auto simp: log_rep_def list_all_length log_record_def)
  then show ?thesis
    using True r by (simp add: fl_Read_def log_rep_get [OF assms] log_rep_record [OF assms k] scan_record)
      (simp add: record_bytes_def)
qed (auto simp: fl_Read_def log_rep_get [OF assms])

lemma record_pos_snoc: "k \<le> length rs \<Longrightarrow> record_pos (rs @ [r]) k = record_pos rs k"
  by (simp add: record_pos_def)

lemma put_fresh_offset:
  "put (int n) p (map (\<lambda>k. (int k, f k)) [0..<n]) = map (\<lambda>k. (int k, f k)) [0..<n] @ [(int n, p)]"
  by (rule put_new) auto

lemma fl_Append_rep:
  assumes "log_rep l rs" "log_id mid" "length body \<le> 67108864"
  shows "\<exists>l'. fl_Append None mid body l = Inr (int (length rs), l') \<and> log_rep l' (rs @ [(mid, body)])"
proof -
  have "map (\<lambda>k. (int k, record_pos (rs @ [(mid, body)]) k)) [0..<Suc (length rs)] =
      map (\<lambda>k. (int k, record_pos rs k)) [0..<length rs] @ [(int (length rs), length (enc_log rs))]"
    by (simp add: record_pos_snoc) (simp add: record_pos_def)
  then show ?thesis
    using assms unfolding log_rep_def fl_Append_def
    by (simp add: Let_def put_fresh_offset enc_record_def record_bytes_def log_record_def)
qed

definition fl_inv :: "FileLog \<Rightarrow> bool" where
  "fl_inv l = (\<exists>rs. log_rep l rs)"

definition fl_view :: "FileLog \<Rightarrow> int \<Rightarrow> byte list option" where
  "fl_view l off = (case fl_Read None off l of Inl e \<Rightarrow> None | Inr b \<Rightarrow> Some b)"

lemma fl_view_rep:
  "log_rep l rs \<Longrightarrow> fl_view l off = (if 0 \<le> off \<and> off < int (length rs) then Some (snd (rs ! nat off)) else None)"
  by (simp add: fl_view_def fl_Read_rep)

interpretation file_log: body_log fl_inv fl_view fl_Append fl_Read log_id 67108864
proof unfold_locales
  fix l mid and b :: "byte list"
  assume inv: "fl_inv l" and ok: "log_id mid" "length b \<le> 67108864"
  obtain rs where rs: "log_rep l rs" using inv by (auto simp: fl_inv_def)
  obtain l' where l': "fl_Append None mid b l = Inr (int (length rs), l')" "log_rep l' (rs @ [(mid, b)])"
    using fl_Append_rep [OF rs ok] by blast
  have "fl_view l' = (fl_view l)(int (length rs) \<mapsto> b)"
  proof
    fix off
    show "fl_view l' off = ((fl_view l)(int (length rs) \<mapsto> b)) off"
      by (auto simp: fl_view_rep [OF rs] fl_view_rep [OF l'(2)] nth_append)
  qed
  moreover have "fl_view l (int (length rs)) = None" by (simp add: fl_view_rep [OF rs])
  ultimately show "\<exists>off l'. fl_Append None mid b l = Inr (off, l') \<and> fl_inv l' \<and>
      fl_view l off = None \<and> fl_view l' = (fl_view l)(off \<mapsto> b)"
    using l' by (auto simp: fl_inv_def)
next
  fix l off b
  assume "fl_view l off = Some b"
  then show "fl_Read None off l = Inr b" by (simp add: fl_view_def split: sum.splits)
qed

section \<open>Reopening and compacting\<close>

lemma read_header:
  "read_full (p @ enc_record r @ q) (length p) 4 = Inr (PutUint32 (word_of_nat (length (record_bytes r))))"
  using read_full_append [of p "PutUint32 (word_of_nat (length (record_bytes r)))" "record_bytes r @ q"]
  by (simp add: enc_record_def)

lemma reindex_end: "reindex_loop data (length data) n offs = Inr offs"
  by (simp add: reindex_loop.simps [of data] read_full_def)

lemma Uint32_PutUint32_plain [simp]: "Uint32 (PutUint32 x) = x"
  using Uint32_PutUint32 [of x "[]"] by simp

lemma length_enc_record: "length (enc_record r) = 4 + length (record_bytes r)"
  by (simp add: enc_record_def)

lemma reindex_step:
  assumes "read_full data pos 4 = Inr (PutUint32 w)"
  shows "reindex_loop data pos n offs =
    (if unat w \<le> 67108864 then reindex_loop data (pos + 4 + unat w) (n + 1) (put n pos offs)
     else Inl (New ''corrupt message log record''))"
  by (subst reindex_loop.simps) (simp add: assms)

lemma reindex_records:
  assumes "list_all log_record (ps @ rs)"
  shows "reindex_loop (enc_log (ps @ rs)) (length (enc_log ps)) (int (length ps))
      (map (\<lambda>k. (int k, record_pos (ps @ rs) k)) [0..<length ps]) =
    (if list_all (\<lambda>r. length (record_bytes r) \<le> 67108864) rs
     then Inr (map (\<lambda>k. (int k, record_pos (ps @ rs) k)) [0..<length (ps @ rs)])
     else Inl (New ''corrupt message log record''))"
  using assms
proof (induction rs arbitrary: ps)
  case Nil
  then show ?case using reindex_end [of "enc_log ps"] by simp
next
  case (Cons r rs)
  let ?data = "enc_log (ps @ r # rs)"
  have ok: "unat (word_of_nat (length (record_bytes r)) :: 32 word) = length (record_bytes r)"
    by (rule word_record_length) (use Cons.prems in simp)
  have hdr: "read_full ?data (length (enc_log ps)) 4 = Inr (PutUint32 (word_of_nat (length (record_bytes r))))"
    using read_header [of "enc_log ps" r "enc_log rs"] by simp
  have offs: "put (int (length ps)) (length (enc_log ps)) (map (\<lambda>k. (int k, record_pos (ps @ r # rs) k)) [0..<length ps]) =
      map (\<lambda>k. (int k, record_pos ((ps @ [r]) @ rs) k)) [0..<length (ps @ [r])]"
    by (simp add: put_fresh_offset record_pos_def)
  show ?case
  proof (cases "length (record_bytes r) \<le> 67108864")
    case True
    have "reindex_loop ?data (length (enc_log ps)) (int (length ps))
        (map (\<lambda>k. (int k, record_pos (ps @ r # rs) k)) [0..<length ps]) =
      reindex_loop (enc_log ((ps @ [r]) @ rs)) (length (enc_log (ps @ [r]))) (int (length (ps @ [r])))
        (map (\<lambda>k. (int k, record_pos ((ps @ [r]) @ rs) k)) [0..<length (ps @ [r])])"
      unfolding reindex_step [OF hdr] ok offs using True by (simp add: length_enc_record ac_simps)
    with Cons.IH [of "ps @ [r]"] Cons.prems True show ?thesis by simp
  next
    case False
    then show ?thesis unfolding reindex_step [OF hdr] ok by simp
  qed
qed

lemma compact_records:
  assumes "log_rep l rs" "\<forall>k\<in>set ks. k < length rs" "list_all log_record qs"
  shows "\<exists>l'. compact_loop l live (map int ks) (enc_log qs) (map (\<lambda>k. (int k, record_pos qs k)) [0..<length qs]) = Inr l' \<and>
    log_rep l' (qs @ map ((!) rs) (filter (\<lambda>k. get live (int k) \<noteq> None) ks))"
  using assms(2,3)
proof (induction ks arbitrary: qs)
  case Nil
  then show ?case by (simp add: log_rep_def)
next
  case (Cons k ks)
  show ?case
  proof (cases "get live (int k)")
    case None
    with Cons show ?thesis by simp
  next
    case (Some u)
    have k: "k < length rs" using Cons.prems by simp
    then have r: "log_record (rs ! k)" using assms(1) by (simp add: log_rep_def list_all_length)
    have offs: "put (int (length qs)) (length (enc_log qs)) (map (\<lambda>k. (int k, record_pos qs k)) [0..<length qs]) =
        map (\<lambda>j. (int j, record_pos (qs @ [rs ! k]) j)) [0..<length (qs @ [rs ! k])]"
      by (simp add: put_fresh_offset record_pos_snoc) (simp add: record_pos_def)
    have "enc_log qs @ PutUint32 (word_of_nat (length (record_bytes (rs ! k)))) @ record_bytes (rs ! k) =
        enc_log (qs @ [rs ! k])"
      by (simp add: enc_record_def)
    with Some k Cons.IH [of "qs @ [rs ! k]"] Cons.prems r show ?thesis
      by (simp add: log_rep_get [OF assms(1)] log_rep_record [OF assms(1) k] offs del: enc_log_append)
  qed
qed

lemma fl_Compact_rep:
  assumes "log_rep l rs"
  shows "\<exists>l'. fl_Compact None live l = Inr l' \<and>
    log_rep l' (map ((!) rs) (filter (\<lambda>k. get live (int k) \<noteq> None) [0..<length rs]))"
  using compact_records [OF assms, of "[0..<length rs]" "[]" live]
  by (simp add: fl_Compact_def log_rep_length [OF assms])

section \<open>Properties\<close>

text \<open>
  The file log returns what was appended. After any sequence of appends of acceptable
  identifiers and bodies to a log in good order, every append has succeeded with an offset of its
  own, and reading each offset returns the body appended there, as do the offsets that could be
  read before.
\<close>

theorem file_log_append_read:
  assumes "log_rep l rs" "list_all log_record xs"
  shows "\<exists>l'. fold (\<lambda>(mid, b) r. tryE r (\<lambda>l. tryE (fl_Append None mid b l) (\<lambda>(off, l). Inr l))) xs (Inr l) = Inr l' \<and>
    log_rep l' (rs @ xs) \<and>
    (\<forall>k < length rs. fl_Read None (int k) l' = Inr (snd (rs ! k)) \<and> fl_Read None (int k) l = Inr (snd (rs ! k))) \<and>
    (\<forall>k < length xs. fl_Read None (int (length rs + k)) l' = Inr (snd (xs ! k)))"
proof -
  have "\<exists>l'. fold (\<lambda>(mid, b) r. tryE r (\<lambda>l. tryE (fl_Append None mid b l) (\<lambda>(off, l). Inr l))) xs (Inr l) = Inr l' \<and>
    log_rep l' (rs @ xs)"
    using assms
  proof (induction xs arbitrary: l rs)
    case (Cons x xs)
    obtain mid b where x: "x = (mid, b)" by (cases x)
    with Cons.prems obtain l1 where
      "fl_Append None mid b l = Inr (int (length rs), l1)" "log_rep l1 (rs @ [(mid, b)])"
      using fl_Append_rep [of l rs mid b] by (auto simp: log_record_def)
    with Cons.IH [of l1 "rs @ [(mid, b)]"] Cons.prems x show ?case by simp
  qed simp
  then obtain l' where l': "fold (\<lambda>(mid, b) r. tryE r (\<lambda>l. tryE (fl_Append None mid b l) (\<lambda>(off, l). Inr l))) xs (Inr l) = Inr l'"
    "log_rep l' (rs @ xs)" by blast
  then show ?thesis
    by (auto simp: fl_Read_rep [OF assms(1)] fl_Read_rep [OF l'(2)] nth_append nat_add_distrib)
qed

theorem file_log_append_read_witness:
  "\<exists>l'. log_rep l' [(''msg_00'', [1, 10, 2]), (''msg_01'', [])] \<and> fl_Read None 0 l' = Inr [1, 10, 2] \<and>
     fl_Read None 1 l' = Inr []"
proof -
  let ?l = "\<lparr>fl_data = [], fl_offsets = []\<rparr>"
  have empty: "log_rep ?l []" by (simp add: log_rep_def)
  have ok: "list_all log_record [(''msg_00'', [1, 10, 2]), (''msg_01'', [])]"
    by (simp add: log_record_def log_id_def byte_of_char_def)
  from file_log_append_read [OF empty ok] obtain l' where
    l': "log_rep l' [(''msg_00'', [1, 10, 2]), (''msg_01'', [])]"
      "fl_Read None (int 0) l' = Inr [1, 10, 2]" "fl_Read None (int 1) l' = Inr []"
    by (auto simp: numeral_2_eq_2 All_less_Suc)
  then show ?thesis by auto
qed

lemma OpenFileLog_rep:
  assumes "log_rep l rs"
  shows "OpenFileLog (fl_data l) =
    (if list_all (\<lambda>r. length (record_bytes r) \<le> 67108864) rs then Inr l
     else Inl (New ''corrupt message log record''))"
  using assms reindex_records [of "[]" rs] by (cases l) (auto simp: OpenFileLog_def log_rep_def)



text \<open>
  C35: compacting the file log keeps exactly the live records, in their order, but numbers them
  anew from zero; the memory log keeps the live offsets and drops the others. So after compaction
  the \<open>i\<close>-th live body of a file log is read at offset \<open>i\<close>, whatever offset it had.
\<close>

theorem compaction_renumbers:
  assumes "log_rep l rs" "ml_inv ml" "valid_range rng"
  shows "\<exists>l' ml'. fl_Compact None live l = Inr l' \<and> ml_Compact rng None live ml = Inr ml' \<and>
    (let kept = filter (\<lambda>k. get live (int k) \<noteq> None) [0..<length rs] in
      log_rep l' (map ((!) rs) kept) \<and>
      (\<forall>i < length kept. fl_Read None (int i) l' = fl_Read None (int (kept ! i)) l)) \<and>
    (\<forall>off. ml_Read None off ml' =
      (if get live off = None then Inl (New ''log offset not found'') else ml_Read None off ml))"
proof -
  let ?kept = "filter (\<lambda>k. get live (int k) \<noteq> None) [0..<length rs]"
  obtain l' where l': "fl_Compact None live l = Inr l'" "log_rep l' (map ((!) rs) ?kept)"
    using fl_Compact_rep [OF assms(1)] by blast
  obtain ml' where ml': "ml_Compact rng None live ml = Inr ml'"
    "\<forall>off. ml_view ml' off = (if get live off = None then None else ml_view ml off)"
    using ml_Compact_view [OF assms(2,3)] by blast
  have "fl_Read None (int i) l' = fl_Read None (int (?kept ! i)) l" if "i < length ?kept" for i
  proof -
    have "?kept ! i \<in> set ?kept" using that by (rule nth_mem)
    then have "?kept ! i < length rs" by simp
    with that show ?thesis by (simp add: fl_Read_rep [OF assms(1)] fl_Read_rep [OF l'(2)])
  qed
  with l' ml' show ?thesis by (auto simp: ml_Read_def Let_def)
qed

theorem compaction_renumbers_witness:
  "\<exists>l l'. log_rep l [(''a'', [1]), (''b'', [2])] \<and> fl_Compact None [(1, ())] l = Inr l' \<and>
     fl_Read None 0 l' = Inr [2]"
proof -
  let ?rs = "[(''a'', [1 :: byte]), (''b'', [2])]"
  let ?l = "\<lparr>fl_data = enc_log ?rs, fl_offsets = map (\<lambda>k. (int k, record_pos ?rs k)) [0..<length ?rs]\<rparr>"
  have "list_all log_record ?rs" by (simp add: log_record_def log_id_def byte_of_char_def)
  then have rep: "log_rep ?l ?rs" by (simp add: log_rep_def)
  have ml: "ml_inv NewMemoryLog" by (simp add: ml_inv_def NewMemoryLog_def)
  have kept: "filter (\<lambda>k. get [(1, ())] (int k) \<noteq> None) [0..<length ?rs] = [1]"
    by (simp add: upt_rec)
  from compaction_renumbers [OF rep ml valid_range_id(1), of "[(1, ())]"] obtain l' where
    l': "fl_Compact None [(1, ())] ?l = Inr l'" "log_rep l' (map ((!) ?rs) [1])"
      "fl_Read None (int 0) l' = fl_Read None (int 1) ?l"
    unfolding kept Let_def by auto
  have "fl_Read None 0 l' = Inr [2]" using fl_Read_rep [OF l'(2), of 0] by simp
  with rep l'(1) show ?thesis by blast
qed

end
