(* ===== verification/Delivery.thy ===== *)
theory Delivery
  imports AddressService BodyLog
begin

text \<open>
  The delivery service (\<open>internal/delivery/application/service.go\<close>) over the in-memory store and a body
  log, whose operations are a record so that either log can be used. A handler returns its result
  and the state it leaves behind, also when it fails half-way. \<open>clk i\<close> and \<open>rnd i\<close> are the reading of
  the clock and of the random source in round \<open>i\<close> of a loop. The service holds its own lock in
  \<open>Acquire\<close>, \<open>Settle\<close> and \<open>Disconnect\<close>, so these are atomic; the other handlers are sequences of atomic
  store operations and are modelled as running undisturbed.
\<close>

section \<open>State\<close>

record 'l BodyLog =
  bl_Append :: "ctx \<Rightarrow> string \<Rightarrow> byte list \<Rightarrow> 'l \<Rightarrow> error + (int \<times> 'l)"
  bl_Read :: "ctx \<Rightarrow> int \<Rightarrow> 'l \<Rightarrow> error + byte list"

record 'l Service =
  sv_mem :: Memory
  sv_log :: 'l
  sv_seq :: "32 word"

definition NewDeliveryService :: "Memory \<Rightarrow> 'l \<Rightarrow> 'l Service" where
  "NewDeliveryService m l = \<lparr>sv_mem = m, sv_log = l, sv_seq = 0\<rparr>"

definition randomID :: "string \<Rightarrow> byte list option \<Rightarrow> error + string" where
  "randomID pre rnd = random_id pre rnd"

section \<open>Dead letters and length limits\<close>

definition deadLetter :: "ctx \<Rightarrow> Message \<Rightarrow> string \<Rightarrow> Memory \<Rightarrow> error + (Message \<times> Memory)" where
  "deadLetter ctx msg reason m =
    tryE (mem_Get ctx (m_Address msg) m) (\<lambda>a.
      let msg = msg\<lparr>m_Headers := put ''x-original-address'' (m_Address msg)
            (put ''x-death-reason'' reason (m_Headers msg)), m_State := StateDeadLettered\<rparr>;
          msg = (if ad_DeadLetter a \<noteq> '''' then
              (case mem_Get ctx (ad_DeadLetter a) m of
                 Inr dl \<Rightarrow> if \<not> ad_Paused dl
                   then msg\<lparr>m_Address := ad_DeadLetter a, m_State := StateAvailable, m_ExpiresAt := 0\<rparr> else msg
               | Inl _ \<Rightarrow> msg) else msg) in
      tryE (mem_Update ctx msg m) (\<lambda>m'. Inr (msg, m')))"

text \<open>The loop \<open>for len(ready) > a.MaxLength\<close>: \<open>ready[len(ready)-1]\<close> of an empty slice panics.\<close>

function enforce_loop :: "ctx \<Rightarrow> int \<Rightarrow> Message list \<Rightarrow> Memory \<Rightarrow> error option \<times> Memory" where
  "enforce_loop ctx mx ready m =
    (if int (length ready) > mx then
       (if ready = [] then (Some (Panic ''index out of range''), m)
        else case deadLetter ctx (last ready) ''max-length'' m of
            Inl e \<Rightarrow> (Some e, m)
          | Inr (victim, m') \<Rightarrow> enforce_loop ctx mx (butlast ready) m')
     else (None, m))"
  by pat_completeness auto
termination
  by (relation "measure (\<lambda>(ctx, mx, ready, m). length ready)") auto

declare enforce_loop.simps [simp del]

definition enforceMaxLength :: "ranges \<Rightarrow> ctx \<Rightarrow> string \<Rightarrow> Memory \<Rightarrow> error option \<times> Memory" where
  "enforceMaxLength rs ctx name m =
    (case mem_Get ctx name m of
       Inl e \<Rightarrow> (Some e, m)
     | Inr a \<Rightarrow>
         if ad_MaxLength a = 0 then (None, m)
         else case ListReady rs ctx name 0 m of
             Inl e \<Rightarrow> (Some e, m)
           | Inr ready \<Rightarrow> enforce_loop ctx (ad_MaxLength a) ready m)"

section \<open>Publishing\<close>

fun publish_loop ::
  "'l BodyLog \<Rightarrow> ranges \<Rightarrow> ctx \<Rightarrow> (nat \<Rightarrow> time) \<Rightarrow> (nat \<Rightarrow> byte list option) \<Rightarrow> Publish \<Rightarrow> nat \<Rightarrow> Route list \<Rightarrow>
    Message list \<Rightarrow> 'l Service \<Rightarrow> (error option \<times> Message list) \<times> 'l Service" where
  "publish_loop bl rs ctx clk rnd inp i [] created s = ((None, created), s)"
| "publish_loop bl rs ctx clk rnd inp i (route # routes) created s =
    (case randomID ''msg'' (rnd i) of
       Inl e \<Rightarrow> ((Some e, created), s)
     | Inr mid \<Rightarrow>
       (case NewMessage mid (inp\<lparr>p_Address := rt_Destination route\<rparr>) (clk i) of
          Inl e \<Rightarrow> ((Some e, created), s)
        | Inr msg \<Rightarrow>
          (case bl_Append bl ctx (m_ID msg) (m_Body msg) (sv_log s) of
             Inl e \<Rightarrow> ((Some (Wrap ''append body log'' e), created), s)
           | Inr (off, l) \<Rightarrow>
             (let msg = msg\<lparr>m_LogOffset := off\<rparr>; s = s\<lparr>sv_log := l\<rparr> in
              case mem_Put ctx msg (sv_mem s) of
                Inl e \<Rightarrow> ((Some (Wrap ''save message metadata'' e), created), s)
              | Inr m \<Rightarrow>
                (case enforceMaxLength rs ctx (rt_Destination route) m of
                   (Some e, m') \<Rightarrow> ((Some e, created @ [msg]), s\<lparr>sv_mem := m'\<rparr>)
                 | (None, m') \<Rightarrow>
                     publish_loop bl rs ctx clk rnd inp (Suc i) routes (created @ [msg]) (s\<lparr>sv_mem := m'\<rparr>))))))"

definition Publish_op ::
  "'l BodyLog \<Rightarrow> ranges \<Rightarrow> ctx \<Rightarrow> (nat \<Rightarrow> time) \<Rightarrow> (nat \<Rightarrow> byte list option) \<Rightarrow> Publish \<Rightarrow>
    'l Service \<Rightarrow> (error option \<times> Message list) \<times> 'l Service" where
  "Publish_op bl rs ctx clk rnd inp s =
    (case mem_Get ctx (p_Address inp) (sv_mem s) of
       Inl e \<Rightarrow> ((Some (Wrap ''load address'' e), []), s)
     | Inr a \<Rightarrow>
       (case Accepting a of
          Some e \<Rightarrow> ((Some e, []), s)
        | None \<Rightarrow>
          let inp = (if p_TTL inp = 0 then inp\<lparr>p_TTL := ad_DefaultTTL a\<rparr> else inp) in
          case Resolve rs ctx (p_Address inp) (p_RoutingKey inp) (p_Headers inp) (sv_mem s) of
            Inl e \<Rightarrow> ((Some (Wrap ''resolve routes'' e), []), s)
          | Inr routes \<Rightarrow>
              if routes = [] then ((Some (New ''message was unroutable''), []), s)
              else publish_loop bl rs ctx clk rnd inp 0 routes [] s))"

fun stage_loop ::
  "'l BodyLog \<Rightarrow> ctx \<Rightarrow> (nat \<Rightarrow> time) \<Rightarrow> (nat \<Rightarrow> byte list option) \<Rightarrow> Publish \<Rightarrow> nat \<Rightarrow> Route list \<Rightarrow>
    Message list \<Rightarrow> 'l Service \<Rightarrow> (error option \<times> Message list) \<times> 'l Service" where
  "stage_loop bl ctx clk rnd inp i [] out s = ((None, out), s)"
| "stage_loop bl ctx clk rnd inp i (route # routes) out s =
    (case randomID ''msg'' (rnd i) of
       Inl e \<Rightarrow> ((Some e, out), s)
     | Inr mid \<Rightarrow>
       (let inp = inp\<lparr>p_Address := rt_Destination route\<rparr> in
        case NewMessage mid inp (clk i) of
          Inl e \<Rightarrow> ((Some e, out), s)
        | Inr msg \<Rightarrow>
          (let msg = msg\<lparr>m_State := StateAcquired\<rparr> in
           case bl_Append bl ctx (m_ID msg) (m_Body msg) (sv_log s) of
             Inl e \<Rightarrow> ((Some e, out), s)
           | Inr (off, l) \<Rightarrow>
             (let msg = msg\<lparr>m_LogOffset := off\<rparr>; s = s\<lparr>sv_log := l\<rparr> in
              case mem_Put ctx msg (sv_mem s) of
                Inl e \<Rightarrow> ((Some e, out), s)
              | Inr m \<Rightarrow> stage_loop bl ctx clk rnd inp (Suc i) routes (out @ [msg]) (s\<lparr>sv_mem := m\<rparr>)))))"

definition Stage ::
  "'l BodyLog \<Rightarrow> ranges \<Rightarrow> ctx \<Rightarrow> (nat \<Rightarrow> time) \<Rightarrow> (nat \<Rightarrow> byte list option) \<Rightarrow> Publish \<Rightarrow>
    'l Service \<Rightarrow> (error option \<times> Message list) \<times> 'l Service" where
  "Stage bl rs ctx clk rnd inp s =
    (if p_TransactionID inp = '''' then ((Some (New ''transaction id required''), []), s)
     else case mem_Get ctx (p_Address inp) (sv_mem s) of
       Inl e \<Rightarrow> ((Some (Wrap ''load address'' e), []), s)
     | Inr a \<Rightarrow>
       (case Accepting a of
          Some e \<Rightarrow> ((Some e, []), s)
        | None \<Rightarrow>
          let inp = (if p_TTL inp = 0 then inp\<lparr>p_TTL := ad_DefaultTTL a\<rparr> else inp) in
          case Resolve rs ctx (p_Address inp) (p_RoutingKey inp) (p_Headers inp) (sv_mem s) of
            Inl e \<Rightarrow> ((Some e, []), s)
          | Inr routes \<Rightarrow>
              if routes = [] then ((Some (New ''message was unroutable''), []), s)
              else stage_loop bl ctx clk rnd inp 0 routes [] s))"

definition CommitStaged :: "ranges \<Rightarrow> ctx \<Rightarrow> string \<Rightarrow> Memory \<Rightarrow> error option \<times> Memory" where
  "CommitStaged rs ctx mid m =
    (case mem_message ctx mid m of
       Inl e \<Rightarrow> (Some e, m)
     | Inr msg \<Rightarrow>
         if m_State msg \<noteq> StateAcquired \<or> m_TransactionID msg = ''''
         then (Some (New ''message is not transaction-staged''), m)
         else
           let msg = msg\<lparr>m_State := StateAvailable, m_TransactionID := ''''\<rparr> in
           case mem_Update ctx msg m of
             Inl e \<Rightarrow> (Some e, m)
           | Inr m' \<Rightarrow> enforceMaxLength rs ctx (m_Address msg) m')"

definition RollbackStaged :: "ctx \<Rightarrow> string \<Rightarrow> Memory \<Rightarrow> error + Memory" where
  "RollbackStaged ctx mid m =
    tryE (mem_message ctx mid m) (\<lambda>msg.
      if m_TransactionID msg = '''' then Inl (New ''message is not transaction-staged'')
      else deleteMessage ctx mid m)"

section \<open>Consuming\<close>

definition Register :: "ctx \<Rightarrow> time \<Rightarrow> string \<Rightarrow> string \<Rightarrow> 32 word \<Rightarrow> Semantics \<Rightarrow> Memory \<Rightarrow> (error + Consumer) \<times> Memory" where
  "Register ctx now cid addressName prefetch sem m =
    (case mem_Get ctx addressName m of
       Inl e \<Rightarrow> (Inl e, m)
     | Inr _ \<Rightarrow>
       (case NewConsumer cid addressName prefetch sem now of
          Inl e \<Rightarrow> (Inl e, m)
        | Inr c \<Rightarrow>
          (case SaveConsumer ctx c m of
             Inl e \<Rightarrow> (Inl (Wrap ''save consumer'' e), m)
           | Inr m' \<Rightarrow> (Inr c, m'))))"

definition Acquire_op ::
  "'l BodyLog \<Rightarrow> ranges \<Rightarrow> ctx \<Rightarrow> time \<Rightarrow> string \<Rightarrow> 'l Service \<Rightarrow> (error + Message \<times> 32 word) \<times> 'l Service" where
  "Acquire_op bl rs ctx now consumerID s =
    (case GetConsumer ctx consumerID (sv_mem s) of
       Inl e \<Rightarrow> (Inl e, s)
     | Inr c \<Rightarrow>
         if co_Credit c = 0 then (Inl (New ''credit exhausted''), s)
         else case ListReady rs ctx (co_Address c) 1 (sv_mem s) of
           Inl e \<Rightarrow> (Inl e, s)
         | Inr [] \<Rightarrow> (Inl (New ''no message available''), s)
         | Inr (msg # _) \<Rightarrow>
             if Message_Expired msg now then
               (case deadLetter ctx msg ''ttl-expired'' (sv_mem s) of
                  Inl e \<Rightarrow> (Inl e, s)
                | Inr (_, m) \<Rightarrow> (Inl (New ''message expired''), s\<lparr>sv_mem := m\<rparr>))
             else
               let did = sv_seq s + 1; s = s\<lparr>sv_seq := did\<rparr> in
               case Consumer_Acquire c did (m_ID msg) of
                 Inl e \<Rightarrow> (Inl e, s)
               | Inr c \<Rightarrow>
                   let msg = msg\<lparr>m_State := StateAcquired, m_DeliveryCount := m_DeliveryCount msg + 1,
                         m_Redelivered := m_DeliveryCount msg + 1 > 1\<rparr>;
                       (msg, c) = (if co_Semantics c = AtMostOnce
                         then (msg\<lparr>m_State := StateAccepted\<rparr>,
                               (case Consumer_Settle c did of Inl _ \<Rightarrow> c | Inr c' \<Rightarrow> c'))
                         else (msg, c)) in
                   case mem_Update ctx msg (sv_mem s) of
                     Inl e \<Rightarrow> (Inl e, s)
                   | Inr m \<Rightarrow>
                     (case SaveConsumer ctx c m of
                        Inl e \<Rightarrow> (Inl e, s\<lparr>sv_mem := m\<rparr>)
                      | Inr m' \<Rightarrow>
                        (case bl_Read bl ctx (m_LogOffset msg) (sv_log s) of
                           Inl e \<Rightarrow> (Inl (Wrap ''read message body'' e), s\<lparr>sv_mem := m'\<rparr>)
                         | Inr body \<Rightarrow> (Inr (msg\<lparr>m_Body := body\<rparr>, did), s\<lparr>sv_mem := m'\<rparr>))))"

definition Settle_op :: "ctx \<Rightarrow> string \<Rightarrow> 32 word \<Rightarrow> State \<Rightarrow> Memory \<Rightarrow> error option \<times> Memory" where
  "Settle_op ctx consumerID deliveryID st m =
    (case GetConsumer ctx consumerID m of
       Inl e \<Rightarrow> (Some e, m)
     | Inr c \<Rightarrow>
       (case get (co_Unsettled c) deliveryID of
          None \<Rightarrow> (Some (New ''delivery not found''), m)
        | Some msgID \<Rightarrow>
          (case mem_message ctx msgID m of
             Inl e \<Rightarrow> (Some e, m)
           | Inr msg \<Rightarrow>
             (case (case st of
                 StateAccepted \<Rightarrow> Inr (msg\<lparr>m_State := StateAccepted\<rparr>, m)
               | StateReleased \<Rightarrow> Inr (msg\<lparr>m_State := StateReleased, m_Redelivered := True\<rparr>, m)
               | StateRejected \<Rightarrow> deadLetter ctx msg ''rejected'' m
               | _ \<Rightarrow> Inl (New ''unsupported disposition state'')) of
                Inl e \<Rightarrow> (Some e, m)
              | Inr (msg, m) \<Rightarrow>
                (case Consumer_Settle c deliveryID of
                   Inl e \<Rightarrow> (Some e, m)
                 | Inr c \<Rightarrow>
                   (case (if m_State msg \<noteq> StateDeadLettered then mem_Update ctx msg m else Inr m) of
                      Inl e \<Rightarrow> (Some e, m)
                    | Inr m \<Rightarrow>
                      (case SaveConsumer ctx c m of Inl e \<Rightarrow> (Some e, m) | Inr m \<Rightarrow> (None, m))))))))"

definition disconnect_loop :: "ctx \<Rightarrow> string list \<Rightarrow> Memory \<Rightarrow> Memory" where
  "disconnect_loop ctx ids m =
    fold (\<lambda>mid m.
      case mem_message ctx mid m of
        Inl _ \<Rightarrow> m
      | Inr msg \<Rightarrow>
          (case mem_Update ctx (msg\<lparr>m_State := StateReleased, m_Redelivered := True\<rparr>) m of
             Inl _ \<Rightarrow> m | Inr m' \<Rightarrow> m')) ids m"

definition Disconnect :: "ranges \<Rightarrow> ctx \<Rightarrow> time \<Rightarrow> string \<Rightarrow> Memory \<Rightarrow> error option \<times> Memory" where
  "Disconnect rs ctx now cid m =
    (case GetConsumer ctx cid m of
       Inl e \<Rightarrow> (Some e, m)
     | Inr c \<Rightarrow>
         let m = disconnect_loop ctx (map snd (r_unsettled rs (co_Unsettled c))) m;
             c = c\<lparr>co_Unsettled := [], co_Connected := False, co_Credit := 0, co_LastSeen := now\<rparr> in
         case SaveConsumer ctx c m of Inl e \<Rightarrow> (Some e, m) | Inr m' \<Rightarrow> (None, m'))"

section \<open>Maintenance\<close>

fun sweep_loop :: "ctx \<Rightarrow> (nat \<Rightarrow> time) \<Rightarrow> nat \<Rightarrow> Message list \<Rightarrow> nat \<Rightarrow> Memory \<Rightarrow> (error option \<times> nat) \<times> Memory" where
  "sweep_loop ctx clk i [] n m = ((None, n), m)"
| "sweep_loop ctx clk i (msg # rest) n m =
    (if (m_State msg = StateAvailable \<or> m_State msg = StateReleased) \<and> Message_Expired msg (clk i) then
       (case deadLetter ctx msg ''ttl-expired'' m of
          Inl e \<Rightarrow> ((Some e, n), m)
        | Inr (_, m') \<Rightarrow> sweep_loop ctx clk (Suc i) rest (n + 1) m')
     else sweep_loop ctx clk (Suc i) rest n m)"

definition SweepExpired :: "ranges \<Rightarrow> ctx \<Rightarrow> (nat \<Rightarrow> time) \<Rightarrow> Memory \<Rightarrow> (error option \<times> nat) \<times> Memory" where
  "SweepExpired rs ctx clk m =
    (case mem_All rs ctx m of
       Inl e \<Rightarrow> ((Some e, 0), m)
     | Inr all \<Rightarrow> sweep_loop ctx clk 0 all 0 m)"

definition is_dead :: "Message \<Rightarrow> bool" where
  "is_dead msg = (m_State msg = StateDeadLettered \<or> m_State msg = StateExpired \<or>
     get_string (m_Headers msg) ''x-original-address'' \<noteq> '''')"

text \<open>Collect the dead messages; the loop stops when the limit is reached.\<close>

fun collect_dead :: "int \<Rightarrow> Message list \<Rightarrow> Message list \<Rightarrow> Message list" where
  "collect_dead limit [] dead = dead"
| "collect_dead limit (msg # rest) dead =
    (if is_dead msg then
       let dead = dead @ [msg] in
       if limit > 0 \<and> int (length dead) \<ge> limit then dead else collect_dead limit rest dead
     else collect_dead limit rest dead)"

fun replay_loop :: "ctx \<Rightarrow> Message list \<Rightarrow> nat \<Rightarrow> Memory \<Rightarrow> (error option \<times> nat) \<times> Memory" where
  "replay_loop ctx [] n m = ((None, n), m)"
| "replay_loop ctx (msg # rest) n m =
    (let orig = get_string (m_Headers msg) ''x-original-address'';
         target = (if orig = '''' then m_Address msg else orig) in
     case mem_Get ctx target m of
       Inl _ \<Rightarrow> replay_loop ctx rest n m
     | Inr a \<Rightarrow>
         if ad_Paused a then replay_loop ctx rest n m
         else case mem_Update ctx (msg\<lparr>m_Address := target, m_State := StateAvailable, m_ExpiresAt := 0,
               m_Redelivered := True\<rparr>) m of
             Inl e \<Rightarrow> ((Some e, n), m)
           | Inr m' \<Rightarrow> replay_loop ctx rest (n + 1) m')"

definition ReplayDead :: "ranges \<Rightarrow> ctx \<Rightarrow> int \<Rightarrow> Memory \<Rightarrow> (error option \<times> nat) \<times> Memory" where
  "ReplayDead rs ctx limit m =
    (case mem_All rs ctx m of
       Inl e \<Rightarrow> ((Some e, 0), m)
     | Inr all \<Rightarrow> replay_loop ctx (collect_dead limit all []) 0 m)"

definition Depth_op :: "ctx \<Rightarrow> string \<Rightarrow> Memory \<Rightarrow> error + nat" where
  "Depth_op ctx address m = mem_Depth ctx address m"

end
