(* ===== verification/DeliveryProps.thy ===== *)
theory DeliveryProps
  imports Delivery
begin

text \<open>
  What the delivery service guarantees: length limits, publication with readable bodies, refused
  publications, conservation of messages, unique delivery, and what becomes of settlements.
\<close>

section \<open>Dead letters\<close>

text \<open>The message a dead letter becomes.\<close>

definition dead_form :: "Memory \<Rightarrow> string \<Rightarrow> Message \<Rightarrow> Message" where
  "dead_form m reason msg =
    (let msg' = msg\<lparr>m_Headers := put ''x-original-address'' (m_Address msg)
          (put ''x-death-reason'' reason (m_Headers msg)), m_State := StateDeadLettered\<rparr> in
     case address_view m (m_Address msg) of
       None \<Rightarrow> msg'
     | Some a \<Rightarrow>
         if ad_DeadLetter a = '''' then msg'
         else case address_view m (ad_DeadLetter a) of
             None \<Rightarrow> msg'
           | Some dl \<Rightarrow> if ad_Paused dl then msg'
               else msg'\<lparr>m_Address := ad_DeadLetter a, m_State := StateAvailable, m_ExpiresAt := 0\<rparr>)"

lemma dead_form_ID [simp]: "m_ID (dead_form m reason msg) = m_ID msg"
  by (simp add: dead_form_def Let_def split: option.split)

lemma dead_form_LogOffset [simp]: "m_LogOffset (dead_form m reason msg) = m_LogOffset msg"
  by (simp add: dead_form_def Let_def split: option.split)

lemma dead_form_cong: "mm_addresses m = mm_addresses m' \<Longrightarrow> dead_form m = dead_form m'"
  by (intro ext) (auto simp: dead_form_def Let_def split: option.split)

lemma dead_form_not_ready:
  assumes "address_view m (m_Address msg) = Some a" "ad_DeadLetter a \<noteq> m_Address msg"
  shows "\<not> is_ready (m_Address msg) (dead_form m reason msg)"
  using assms by (auto simp: dead_form_def is_ready_def Let_def split: option.split)

lemma deadLetter_eq:
  "deadLetter ctx msg reason m =
    (case ctx of
       Some e \<Rightarrow> Inl e
     | None \<Rightarrow>
         if address_view m (m_Address msg) = None then Inl ErrAddressNotFound
         else if message_view m (m_ID msg) = None then Inl ErrMessageNotFound
         else Inr (dead_form m reason msg,
           m\<lparr>mm_messages := put (m_ID msg) (dead_form m reason msg) (mm_messages m)\<rparr>))"
proof (cases ctx)
  case None
  then show ?thesis
    by (auto simp: deadLetter_def dead_form_def mem_Update_def addresses.fetch_live Let_def split: option.split)
next
  case (Some e)
  then show ?thesis by (simp add: deadLetter_def addresses.fetch_dead)
qed

lemma deadLetter_Inr:
  "deadLetter ctx msg reason m = Inr (msg', m') \<longleftrightarrow>
     ctx = None \<and> address_view m (m_Address msg) \<noteq> None \<and> message_view m (m_ID msg) \<noteq> None \<and>
     msg' = dead_form m reason msg \<and> m' = m\<lparr>mm_messages := put (m_ID msg) msg' (mm_messages m)\<rparr>"
  by (auto simp: deadLetter_eq split: option.splits if_splits)

section \<open>Length limits\<close>

text \<open>What a store looks like from outside, one map at a time: only messages have changed.\<close>

definition only_messages :: "Memory \<Rightarrow> Memory \<Rightarrow> bool" where
  "only_messages m m' = (m' = m\<lparr>mm_messages := mm_messages m'\<rparr>)"

lemma only_messages_refl [simp]: "only_messages m m"
  by (simp add: only_messages_def)

lemma only_messages_put [simp]: "only_messages m (m\<lparr>mm_messages := ms\<rparr>)"
  by (simp add: only_messages_def)

lemma only_messages_trans: "only_messages m m' \<Longrightarrow> only_messages m' m'' \<Longrightarrow> only_messages m m''"
  by (cases m; cases m'; cases m'') (simp add: only_messages_def)

lemma only_messagesD:
  assumes "only_messages m m'"
  shows "mm_addresses m' = mm_addresses m" "mm_bindings m' = mm_bindings m"
    "mm_consumers m' = mm_consumers m" "mm_transactions m' = mm_transactions m"
  using assms by (cases m; cases m'; simp add: only_messages_def)+

lemma enforce_loop_ok:
  assumes "address_view m name = Some a" "0 \<le> mx" "keyed m_ID (mm_messages m)"
    and "distinct (map m_ID ready)"
    and "\<And>msg. msg \<in> set ready \<Longrightarrow> message_view m (m_ID msg) = Some msg \<and> m_Address msg = name"
  shows "\<exists>m'. enforce_loop None mx ready m = (None, m') \<and> only_messages m m' \<and> keyed m_ID (mm_messages m') \<and>
    (\<forall>k. message_view m' k =
      (if k \<in> m_ID ` set (drop (nat mx) ready) then map_option (dead_form m ''max-length'') (message_view m k)
       else message_view m k))"
  using assms
proof (induction ready arbitrary: m rule: rev_induct)
  case Nil
  then show ?case by (simp add: enforce_loop.simps)
next
  case (snoc v ready)
  show ?case
  proof (cases "int (length ready) < mx")
    case True
    then have "drop (nat mx) (ready @ [v]) = []" by simp
    with True snoc.prems show ?thesis by (simp add: enforce_loop.simps)
  next
    case False
    have v: "message_view m (m_ID v) = Some v" "m_Address v = name" using snoc.prems(5) [of v] by auto
    let ?v = "dead_form m ''max-length'' v"
    let ?m1 = "m\<lparr>mm_messages := put (m_ID v) ?v (mm_messages m)\<rparr>"
    have step: "enforce_loop None mx (ready @ [v]) m = enforce_loop None mx ready ?m1"
      using False snoc.prems(1) v by (subst enforce_loop.simps) (simp add: deadLetter_eq)
    have "\<exists>m'. enforce_loop None mx ready ?m1 = (None, m') \<and> only_messages ?m1 m' \<and> keyed m_ID (mm_messages m') \<and>
      (\<forall>k. message_view m' k =
        (if k \<in> m_ID ` set (drop (nat mx) ready) then map_option (dead_form ?m1 ''max-length'') (message_view ?m1 k)
         else message_view ?m1 k))"
    proof (rule snoc.IH)
      show "message_view ?m1 (m_ID msg) = Some msg \<and> m_Address msg = name" if "msg \<in> set ready" for msg
      proof -
        have "m_ID msg \<noteq> m_ID v" using that snoc.prems(4) by (auto simp: image_iff)
        then show ?thesis using snoc.prems(5) [of msg] that by (auto simp: map_simps)
      qed
    qed (use snoc.prems in \<open>auto\<close>)
    then obtain m' where m': "enforce_loop None mx ready ?m1 = (None, m')" "only_messages ?m1 m'"
      "keyed m_ID (mm_messages m')"
      "\<And>k. message_view m' k =
        (if k \<in> m_ID ` set (drop (nat mx) ready) then map_option (dead_form ?m1 ''max-length'') (message_view ?m1 k)
         else message_view ?m1 k)" by blast
    have df: "dead_form ?m1 = dead_form m" by (rule dead_form_cong) simp
    have drop: "drop (nat mx) (ready @ [v]) = drop (nat mx) ready @ [v]" using False snoc.prems(2) by simp
    have notin: "m_ID v \<notin> m_ID ` set (drop (nat mx) ready)"
      using snoc.prems(4) by (auto dest: in_set_dropD)
    have "message_view m' k = (if k \<in> m_ID ` set (drop (nat mx) (ready @ [v]))
        then map_option (dead_form m ''max-length'') (message_view m k) else message_view m k)" for k
      unfolding drop using m'(4) [of k] notin v(1) by (auto simp: df map_simps)
    moreover have "only_messages m m'" by (rule only_messages_trans [OF _ m'(2)]) simp
    ultimately show ?thesis using m'(1,3) step by auto
  qed
qed

text \<open>The depth counts the ready messages of the address.\<close>

lemma mem_Depth_card:
  assumes "keyed m_ID (mm_messages m)"
  shows "mem_Depth None a m = Inr (card {k. \<exists>msg. message_view m k = Some msg \<and> is_ready a msg})"
proof -
  let ?l = "filter (is_ready a) (map snd (mm_messages m))"
  have "distinct (map m_ID ?l)"
    using keyed_distinct [OF assms valid_range_id(2)] by (rule distinct_map_filter)
  then have "length ?l = card (m_ID ` set ?l)" by (metis distinct_card length_map set_map)
  also have "m_ID ` set ?l = {k. \<exists>msg. message_view m k = Some msg \<and> is_ready a msg}"
    using keyed_values [OF assms valid_range_id(2)] keyed_get [OF assms] by (auto simp: image_iff) metis+
  finally show ?thesis by (simp add: mem_Depth_def)
qed

lemma ListReady_all:
  assumes "mem_wf m" "valid_ranges rs" "ListReady rs None a 0 m = Inr ready"
  shows "distinct (map m_ID ready)" "sorted (map ready_key ready)"
    "msg \<in> set ready \<longleftrightarrow> message_view m (m_ID msg) = Some msg \<and> is_ready a msg"
proof -
  let ?vs = "map snd (r_messages rs (mm_messages m))"
  note W = mem_wfD(3) [OF assms(1)] valid_rangesD(3) [OF assms(2)]
  have r: "ready = sort_key ready_key (filter (is_ready a) ?vs)"
    using assms(3) by (simp add: ListReady_eq limit_to_take)
  have "distinct (map m_ID (filter (is_ready a) ?vs))"
    by (rule distinct_map_filter [OF keyed_distinct [OF W]])
  moreover have "mset (map m_ID ready) = mset (map m_ID (filter (is_ready a) ?vs))" by (simp add: r)
  ultimately show "distinct (map m_ID ready)" by (metis mset_eq_imp_distinct_iff)
  show "sorted (map ready_key ready)" by (simp add: r)
  show "msg \<in> set ready \<longleftrightarrow> message_view m (m_ID msg) = Some msg \<and> is_ready a msg"
    using keyed_values [OF W, of msg] by (auto simp: r)
qed

lemma mem_wf_only_messages: "mem_wf m \<Longrightarrow> only_messages m m' \<Longrightarrow> keyed m_ID (mm_messages m') \<Longrightarrow> mem_wf m'"
  by (simp add: mem_wf_def only_messagesD)

text \<open>
  The messages the limit pushes out are those after the first \<open>MaxLength\<close> of the ready queue.
\<close>

lemma enforceMaxLength_ok:
  assumes "mem_wf m" "valid_ranges rs" "address_view m name = Some a" "0 \<le> ad_MaxLength a"
  shows "\<exists>ready m'. ListReady rs None name 0 m = Inr ready \<and> enforceMaxLength rs None name m = (None, m') \<and>
    only_messages m m' \<and> mem_wf m' \<and>
    (\<forall>k. message_view m' k =
      (if ad_MaxLength a \<noteq> 0 \<and> k \<in> m_ID ` set (drop (nat (ad_MaxLength a)) ready)
       then map_option (dead_form m ''max-length'') (message_view m k) else message_view m k))"
proof -
  obtain ready where r: "ListReady rs None name 0 m = Inr ready" by (simp add: ListReady_def)
  note R = ListReady_all [OF assms(1,2) r]
  obtain m' where m': "enforce_loop None (ad_MaxLength a) ready m = (None, m')" "only_messages m m'"
    "keyed m_ID (mm_messages m')"
    "\<forall>k. message_view m' k =
      (if k \<in> m_ID ` set (drop (nat (ad_MaxLength a)) ready) then map_option (dead_form m ''max-length'') (message_view m k)
       else message_view m k)"
    using enforce_loop_ok [OF assms(3,4) mem_wfD(3) [OF assms(1)] R(1)] R(3) by (auto simp: is_ready_def)
  have g: "mem_Get None name m = Inr a" by (simp add: addresses.fetch_Inr assms(3))
  show ?thesis
  proof (cases "ad_MaxLength a = 0")
    case True
    then have "enforceMaxLength rs None name m = (None, m)" by (simp add: enforceMaxLength_def g)
    with True r assms(1) show ?thesis by simp
  next
    case False
    then have "enforceMaxLength rs None name m = (None, m')" by (simp add: enforceMaxLength_def g r m'(1))
    with False r m' mem_wf_only_messages [OF assms(1) m'(2,3)] show ?thesis by auto
  qed
qed

lemma ready_ids:
  assumes "mem_wf m" "valid_ranges rs" "ListReady rs None name 0 m = Inr ready"
  shows "{k. \<exists>msg. message_view m k = Some msg \<and> is_ready name msg} = m_ID ` set ready"
  using ListReady_all(3) [OF assms] keyed_get [OF mem_wfD(3) [OF assms(1)]]
  by (auto simp: image_iff)

section \<open>Properties\<close>

text \<open>
  C4: the length limit of an address holds. Enforcing it always succeeds on an existing address;
  afterwards its depth is the old depth or the limit, whichever is smaller; the messages that
  stay are the first ones of the ready queue, untouched; the others are dead-lettered, and no
  message of any address is lost.
\<close>

theorem enforceMaxLength_bounds:
  assumes "mem_wf m" "valid_ranges rs" "address_view m name = Some a" "address_wf a" "ad_Name a = name"
    and "0 < ad_MaxLength a" "ListReady rs None name 0 m = Inr ready"
  shows "\<exists>m'. enforceMaxLength rs None name m = (None, m') \<and>
    mem_Depth None name m' = Inr (min (length ready) (nat (ad_MaxLength a))) \<and>
    (\<forall>msg\<in>set (take (nat (ad_MaxLength a)) ready). message_view m' (m_ID msg) = Some msg) \<and>
    (\<forall>msg\<in>set (drop (nat (ad_MaxLength a)) ready).
       message_view m' (m_ID msg) = Some (dead_form m ''max-length'' msg)) \<and>
    (\<forall>k. (message_view m' k = None) = (message_view m k = None))"
proof -
  let ?n = "nat (ad_MaxLength a)"
  let ?out = "m_ID ` set (drop ?n ready)"
  have nonneg: "0 \<le> ad_MaxLength a" using assms(6) by simp
  obtain m' where m': "enforceMaxLength rs None name m = (None, m')" "mem_wf m'"
    "\<And>k. message_view m' k = (if k \<in> ?out then map_option (dead_form m ''max-length'') (message_view m k)
       else message_view m k)"
    using enforceMaxLength_ok [OF assms(1-3) nonneg] assms(6,7) by auto
  note R = ListReady_all [OF assms(1,2,7)]
  have view: "msg \<in> set ready \<Longrightarrow> message_view m (m_ID msg) = Some msg" for msg using R(3) by blast
  have disj: "m_ID msg \<notin> ?out" if "msg \<in> set (take ?n ready)" for msg
    using R(1) that by (metis append_take_drop_id distinct_append disjoint_iff image_eqI list.set_map map_append)
  have dead: "\<not> is_ready name (dead_form m ''max-length'' msg)" if "msg \<in> set ready" for msg
    using R(3) [of msg] that assms(3-5) dead_form_not_ready [of m msg a]
    by (auto simp: is_ready_def address_wf_def)
  have "{k. \<exists>msg. message_view m' k = Some msg \<and> is_ready name msg} = m_ID ` set (take ?n ready)" (is "?L = ?R")
  proof
    show "?L \<subseteq> ?R"
    proof
      fix k assume "k \<in> ?L"
      then obtain msg where msg: "message_view m' k = Some msg" "is_ready name msg" by blast
      have "k \<notin> ?out"
      proof
        assume "k \<in> ?out"
        then obtain v where v: "v \<in> set (drop ?n ready)" "k = m_ID v" by blast
        then have "v \<in> set ready" by (auto dest: in_set_dropD)
        with v msg view dead show False using m'(3) [of k] by (auto split: if_splits)
      qed
      then have "message_view m k = Some msg" using msg m'(3) [of k] by simp
      then have "k = m_ID msg" "msg \<in> set ready"
        using msg(2) R(3) [of msg] keyed_get [OF mem_wfD(3) [OF assms(1)]] by auto
      with \<open>k \<notin> ?out\<close> have "msg \<in> set (take ?n ready)"
        by (metis Un_iff append_take_drop_id image_eqI set_append)
      with \<open>k = m_ID msg\<close> show "k \<in> ?R" by blast
    qed
    show "?R \<subseteq> ?L"
    proof
      fix k assume "k \<in> ?R"
      then obtain msg where "msg \<in> set (take ?n ready)" "k = m_ID msg" by blast
      then show "k \<in> ?L" using disj m'(3) [of k] R(3) [of msg] by (auto dest: in_set_takeD)
    qed
  qed
  moreover have "card (m_ID ` set (take ?n ready)) = min (length ready) ?n"
  proof -
    have "distinct (map m_ID (take ?n ready))" using distinct_take [OF R(1)] by (simp add: take_map)
    from distinct_card [OF this] show ?thesis by simp
  qed
  ultimately have "mem_Depth None name m' = Inr (min (length ready) ?n)"
    by (simp add: mem_Depth_card [OF mem_wfD(3) [OF m'(2)]])
  moreover have "message_view m' (m_ID msg) = Some msg" if "msg \<in> set (take ?n ready)" for msg
    using disj [OF that] m'(3) view that by (auto dest: in_set_takeD)
  moreover have "message_view m' (m_ID msg) = Some (dead_form m ''max-length'' msg)" if "msg \<in> set (drop ?n ready)" for msg
    using m'(3) [of "m_ID msg"] view [of msg] that by (auto dest: in_set_dropD)
  moreover have "(message_view m' k = None) = (message_view m k = None)" for k by (simp add: m'(3))
  ultimately show ?thesis using m'(1) by blast
qed

text \<open>A limited queue with two ready messages, for the witness.\<close>

definition sample_full :: Memory where
  "sample_full = sample_store\<lparr>mm_addresses := [(''jobs'', (sample_address ''jobs'' KindQueue)\<lparr>ad_MaxLength := 1\<rparr>)]\<rparr>"

lemma mem_wf_sample_full: "mem_wf sample_full"
  using mem_wf_sample by (simp add: sample_full_def mem_wf_def sample_address_def keyed_def wf_map_def)

theorem enforceMaxLength_bounds_witness:
  "\<exists>m'. enforceMaxLength id_ranges None ''jobs'' sample_full = (None, m') \<and> mem_Depth None ''jobs'' m' = Inr 1"
proof -
  let ?a = "(sample_address ''jobs'' KindQueue)\<lparr>ad_MaxLength := 1\<rparr>"
  have a: "address_view sample_full ''jobs'' = Some ?a" by (simp add: sample_full_def)
  have wf: "address_wf ?a" "ad_Name ?a = ''jobs''" "0 < ad_MaxLength ?a"
    by (simp_all add: address_wf_def sample_address_def name_start_def name_char_def)
  have r: "ListReady id_ranges None ''jobs'' 0 sample_full =
      Inr [sample_message ''m2'' 7 9, sample_message ''m1'' 1 5]"
    by (simp add: ListReady_def sample_full_def sample_store_def NewMemory_def id_ranges_def limit_to_def
        is_ready_def sample_message_def ready_key_def)
  from enforceMaxLength_bounds [OF mem_wf_sample_full valid_id_ranges a wf r] show ?thesis by auto
qed

section \<open>Publishing\<close>

text \<open>Identifiers the random source yields.\<close>

definition rid :: "(nat \<Rightarrow> byte list option) \<Rightarrow> nat \<Rightarrow> string" where
  "rid rnd i = ''msg_'' @ hex (case rnd i of Some b \<Rightarrow> b | None \<Rightarrow> [])"

lemma randomID_rid: "rnd i \<noteq> None \<Longrightarrow> randomID ''msg'' (rnd i) = Inr (rid rnd i)"
  by (auto simp: randomID_def random_id_def rid_def)

text \<open>
  \<open>fresh_ids rnd k n m\<close>: in the rounds \<open>k\<close> to \<open>k + n - 1\<close> the random source works and yields different
  identifiers that the store does not have.
\<close>

definition fresh_ids :: "(nat \<Rightarrow> byte list option) \<Rightarrow> nat \<Rightarrow> nat \<Rightarrow> Memory \<Rightarrow> bool" where
  "fresh_ids rnd k n m = ((\<forall>i\<in>{k..<k+n}. (\<exists>b. rnd i = Some b \<and> length b = 12) \<and> message_view m (rid rnd i) = None) \<and>
     inj_on (rid rnd) {k..<k+n})"

text \<open>
  \<open>kept m m'\<close>: every message of \<open>m\<close> is still there in \<open>m'\<close>, with its place in the log, and unchanged unless
  a length limit has evicted it.
\<close>

definition evicted :: "Message \<Rightarrow> bool" where
  "evicted msg = (get (m_Headers msg) ''x-death-reason'' = Some ''max-length'')"

definition kept :: "Memory \<Rightarrow> Memory \<Rightarrow> bool" where
  "kept m m' = (\<forall>k msg. message_view m k = Some msg \<longrightarrow>
     (\<exists>msg'. message_view m' k = Some msg' \<and> m_LogOffset msg' = m_LogOffset msg \<and> (msg' = msg \<or> evicted msg')))"

lemma dead_form_evicted: "evicted (dead_form m ''max-length'' msg)"
  by (simp add: evicted_def dead_form_def Let_def map_simps split: option.split)

lemma kept_refl [simp]: "kept m m"
  by (simp add: kept_def)

lemma kept_trans: "kept m m' \<Longrightarrow> kept m' m'' \<Longrightarrow> kept m m''"
  unfolding kept_def by metis

lemma topology_only_messages:
  "topology_ok m \<Longrightarrow> only_messages m m' \<Longrightarrow> keyed m_ID (mm_messages m') \<Longrightarrow> topology_ok m'"
  unfolding topology_ok_def by (auto simp: only_messagesD intro: mem_wf_only_messages)

lemma enforceMaxLength_topology:
  assumes "topology_ok m" "valid_ranges rs" "address_view m name \<noteq> None"
  shows "\<exists>m'. enforceMaxLength rs None name m = (None, m') \<and> topology_ok m' \<and> kept m m' \<and> only_messages m m' \<and>
    (\<forall>k. (message_view m' k = None) = (message_view m k = None))"
proof -
  obtain a where a: "address_view m name = Some a" using assms(3) by auto
  have wf: "mem_wf m" "0 \<le> ad_MaxLength a"
    using assms(1) a by (auto simp: topology_ok_def address_wf_def)
  from enforceMaxLength_ok [OF wf(1) assms(2) a wf(2)] obtain ready m' where
    "ListReady rs None name 0 m = Inr ready" and m': "enforceMaxLength rs None name m = (None, m')" "only_messages m m'" "mem_wf m'"
    "\<forall>k. message_view m' k =
      (if ad_MaxLength a \<noteq> 0 \<and> k \<in> m_ID ` set (drop (nat (ad_MaxLength a)) ready)
       then map_option (dead_form m ''max-length'') (message_view m k) else message_view m k)" by (elim exE conjE)
  moreover have "kept m m'" using m'(4) by (auto simp: kept_def dead_form_evicted)
  moreover have "topology_ok m'"
    by (rule topology_only_messages [OF assms(1) m'(2) mem_wfD(3) [OF m'(3)]])
  ultimately show ?thesis by auto
qed

lemma Resolve_exists:
  assumes "Resolve rs ctx source key headers m = Inr routes" "r \<in> set routes"
  shows "address_view m (rt_Destination r) \<noteq> None"
proof -
  have ctx: "ctx = None" "address_view m source \<noteq> None"
    using assms(1) by (auto simp: Resolve_def addresses.fetch_Inr split: sum.splits)
  have found: "address_view m (rt_Destination r) \<noteq> None"
    if "r \<in> set (firsts {} (filter (eligible m kind key headers) bs))" for kind bs
    using firsts_sound [OF that] by (auto simp: eligible_def)
  show ?thesis
    using assms ctx found
    by (auto simp: Resolve_def resolve_loop_firsts split: sum.splits if_splits)
qed

lemma topology_put:
  assumes "topology_ok m" "mem_Put None msg m = Inr m'"
  shows "topology_ok m'" "kept m m'" "only_messages m m'" "message_view m' = (message_view m)(m_ID msg \<mapsto> msg)"
proof -
  have m': "message_view m (m_ID msg) = None" "m' = m\<lparr>mm_messages := put (m_ID msg) msg (mm_messages m)\<rparr>"
    using assms(2) by (auto simp: mem_Put_def split: if_splits)
  then show "topology_ok m'" "only_messages m m'"
    using assms(1) mem_wf_steps(6) [OF _ assms(2)] by (auto simp: topology_ok_def)
  show "kept m m'" "message_view m' = (message_view m)(m_ID msg \<mapsto> msg)"
    using m' by (auto simp: kept_def map_simps update_conv')
qed

text \<open>
  \<open>published\<close>: what a message just published looks like from outside, and what else has stayed.
\<close>

definition stored_body :: "('l \<Rightarrow> int \<Rightarrow> byte list option) \<Rightarrow> 'l Service \<Rightarrow> byte list \<Rightarrow> Message \<Rightarrow> bool" where
  "stored_body view s body msg = (view (sv_log s) (m_LogOffset msg) = Some body \<and>
     (\<exists>msg'. message_view (sv_mem s) (m_ID msg) = Some msg' \<and> m_LogOffset msg' = m_LogOffset msg \<and> (msg' = msg \<or> evicted msg')))"

definition svc_kept :: "('l \<Rightarrow> int \<Rightarrow> byte list option) \<Rightarrow> 'l Service \<Rightarrow> 'l Service \<Rightarrow> bool" where
  "svc_kept view s s' = (kept (sv_mem s) (sv_mem s') \<and>
     (\<forall>off b. view (sv_log s) off = Some b \<longrightarrow> view (sv_log s') off = Some b))"

lemma svc_kept_refl [simp]: "svc_kept view s s"
  by (simp add: svc_kept_def)

lemma svc_kept_trans: "svc_kept view s s' \<Longrightarrow> svc_kept view s' s'' \<Longrightarrow> svc_kept view s s''"
  unfolding svc_kept_def using kept_trans by blast

lemma stored_body_kept: "stored_body view s body msg \<Longrightarrow> svc_kept view s s' \<Longrightarrow> stored_body view s' body msg"
  unfolding stored_body_def svc_kept_def kept_def by metis

lemma fresh_ids_Suc:
  assumes "fresh_ids rnd i (Suc n) m" "\<forall>k. k \<noteq> rid rnd i \<longrightarrow> (message_view m' k = None) = (message_view m k = None)"
  shows "fresh_ids rnd (Suc i) n m'"
proof -
  have inj: "inj_on (rid rnd) {i..<i + Suc n}" using assms(1) by (simp add: fresh_ids_def)
  have "rid rnd j \<noteq> rid rnd i" if "j \<in> {Suc i..<Suc i + n}" for j
    using that inj_onD [OF inj, of j i] by auto
  moreover have "inj_on (rid rnd) {Suc i..<Suc i + n}" by (rule inj_on_subset [OF inj]) auto
  ultimately show ?thesis
    using assms by (auto simp: fresh_ids_def)
qed

lemma fresh_ids_here:
  assumes "fresh_ids rnd i (Suc n) m"
  shows "\<exists>b. rnd i = Some b \<and> length b = 12 \<and> message_view m (rid rnd i) = None"
proof -
  have "i \<in> {i..<i + Suc n}" by simp
  then show ?thesis using assms unfolding fresh_ids_def by blast
qed

definition good_input :: "nat \<Rightarrow> Publish \<Rightarrow> bool" where
  "good_input limit inp = (p_Body inp \<noteq> [] \<and> length (p_Body inp) \<le> limit \<and> 0 \<le> p_Priority inp \<and> p_Priority inp \<le> 9)"

context body_log
begin

lemma publish_step:
  assumes "topology_ok (sv_mem s)" "inv (sv_log s)" "valid_ranges rs"
    and "address_view (sv_mem s) (rt_Destination r) \<noteq> None" "rt_Destination r \<noteq> ''''"
    and "fresh_ids rnd i (Suc n) (sv_mem s)" "\<And>b. length b = 12 \<Longrightarrow> ok_id (''msg_'' @ hex b)"
    and "good_input limit inp"
  shows "\<exists>msg s'. publish_loop \<lparr>bl_Append = append, bl_Read = read\<rparr> rs None clk rnd inp i (r # routes) created s =
      publish_loop \<lparr>bl_Append = append, bl_Read = read\<rparr> rs None clk rnd inp (Suc i) routes (created @ [msg]) s' \<and>
    topology_ok (sv_mem s') \<and> inv (sv_log s') \<and> mm_addresses (sv_mem s') = mm_addresses (sv_mem s) \<and>
    fresh_ids rnd (Suc i) n (sv_mem s') \<and> m_Address msg = rt_Destination r \<and> m_ID msg = rid rnd i \<and>
    stored_body view s' (p_Body inp) msg \<and> svc_kept view s s' \<and>
    (\<forall>k. message_view (sv_mem s') k = None \<longleftrightarrow> k \<noteq> m_ID msg \<and> message_view (sv_mem s) k = None)"
proof -
  note good = assms(8) [unfolded good_input_def]
  let ?id = "rid rnd i"
  obtain b where b: "rnd i = Some b" "length b = 12" "message_view (sv_mem s) ?id = None"
    using fresh_ids_here [OF assms(6)] by blast
  have rid: "randomID ''msg'' (rnd i) = Inr ?id" "?id = ''msg_'' @ hex b"
    using b by (simp_all add: randomID_def random_id_def rid_def)
  obtain msg where msg: "NewMessage ?id (inp\<lparr>p_Address := rt_Destination r\<rparr>) (clk i) = Inr msg"
      "m_ID msg = ?id" "m_Body msg = p_Body inp" "m_Address msg = rt_Destination r"
    using assms(5) good rid(2) by (simp add: NewMessage_def Let_def)
  have id: "ok_id ?id" using assms(7) [OF b(2)] rid(2) by simp
  obtain off l where app: "append None ?id (p_Body inp) (sv_log s) = Inr (off, l)"
    using append_ok [OF assms(2) id] good by blast
  have log: "inv l" "view (sv_log s) off = None" "view l = (view (sv_log s))(off \<mapsto> p_Body inp)"
    using append_Inr [OF assms(2) id _ app] good by auto
  let ?msg = "msg\<lparr>m_LogOffset := off\<rparr>"
  obtain m1 where put: "mem_Put None ?msg (sv_mem s) = Inr m1"
    using b(3) msg(2) by (simp add: mem_Put_def)
  note P = topology_put [OF assms(1) put]
  obtain m2 where enf: "enforceMaxLength rs None (rt_Destination r) m1 = (None, m2)" "topology_ok m2"
      "kept m1 m2" "only_messages m1 m2" "\<forall>k. (message_view m2 k = None) = (message_view m1 k = None)"
    using enforceMaxLength_topology [OF P(1) assms(3), of "rt_Destination r"] assms(4)
    by (auto simp: only_messagesD [OF P(3)])
  let ?s = "s\<lparr>sv_log := l, sv_mem := m2\<rparr>"
  have "svc_kept view s ?s"
    using kept_trans [OF P(2) enf(3)] log by (auto simp: svc_kept_def)
  moreover have "stored_body view ?s (p_Body inp) ?msg"
  proof -
    have "message_view m1 (m_ID ?msg) = Some ?msg" by (simp add: P(4))
    with enf(3) have "\<exists>msg'. message_view m2 (m_ID ?msg) = Some msg' \<and> m_LogOffset msg' = m_LogOffset ?msg \<and> (msg' = ?msg \<or> evicted msg')"
      unfolding kept_def by blast
    with log(3) show ?thesis by (simp add: stored_body_def)
  qed
  moreover have "fresh_ids rnd (Suc i) n (sv_mem ?s)"
    by (rule fresh_ids_Suc [OF assms(6)]) (use enf(5) P(4) msg(2) in simp)
  moreover have "\<forall>k. message_view (sv_mem ?s) k = None \<longleftrightarrow> k \<noteq> m_ID ?msg \<and> message_view (sv_mem s) k = None"
    using enf(5) by (simp add: P(4))
  ultimately show ?thesis
    using rid(1) msg app put enf log(1)
    by (intro exI [of _ ?msg] exI [of _ ?s])
      (simp add: Let_def only_messagesD [OF P(3)] only_messagesD [OF enf(4)])
qed

lemma publish_loop_ok:
  assumes "topology_ok (sv_mem s)" "inv (sv_log s)" "valid_ranges rs"
    and "\<And>r. r \<in> set routes \<Longrightarrow> address_view (sv_mem s) (rt_Destination r) \<noteq> None \<and> rt_Destination r \<noteq> ''''"
    and "fresh_ids rnd i (length routes) (sv_mem s)" "\<And>b. length b = 12 \<Longrightarrow> ok_id (''msg_'' @ hex b)"
    and "good_input limit inp"
  shows "\<exists>new s'. publish_loop \<lparr>bl_Append = append, bl_Read = read\<rparr> rs None clk rnd inp i routes created s =
      ((None, created @ new), s') \<and> topology_ok (sv_mem s') \<and> inv (sv_log s') \<and>
    map m_Address new = map rt_Destination routes \<and> map m_ID new = map (rid rnd) [i..<i + length routes] \<and>
    (\<forall>msg\<in>set new. stored_body view s' (p_Body inp) msg) \<and> svc_kept view s s' \<and>
    (\<forall>k. message_view (sv_mem s') k = None \<longleftrightarrow> k \<notin> m_ID ` set new \<and> message_view (sv_mem s) k = None)"
  using assms(1,2,4,5)
proof (induction routes arbitrary: i created s)
  case Nil
  then show ?case by simp
next
  case (Cons r routes)
  let ?bl = "\<lparr>bl_Append = append, bl_Read = read\<rparr>"
  have r: "address_view (sv_mem s) (rt_Destination r) \<noteq> None" "rt_Destination r \<noteq> ''''"
    using Cons.prems(3) [of r] by simp_all
  obtain msg s1 where s1: "publish_loop ?bl rs None clk rnd inp i (r # routes) created s =
      publish_loop ?bl rs None clk rnd inp (Suc i) routes (created @ [msg]) s1"
    "topology_ok (sv_mem s1)" "inv (sv_log s1)" "mm_addresses (sv_mem s1) = mm_addresses (sv_mem s)"
    "fresh_ids rnd (Suc i) (length routes) (sv_mem s1)" "m_Address msg = rt_Destination r"
    "stored_body view s1 (p_Body inp) msg" "svc_kept view s s1" "m_ID msg = rid rnd i"
    "\<forall>k. message_view (sv_mem s1) k = None \<longleftrightarrow> k \<noteq> m_ID msg \<and> message_view (sv_mem s) k = None"
    using publish_step [OF Cons.prems(1,2) assms(3) r Cons.prems(4) [simplified] assms(6,7), where created = created and routes = routes and clk = clk]
    by auto
  have "\<exists>nw s'. publish_loop ?bl rs None clk rnd inp (Suc i) routes (created @ [msg]) s1 =
      ((None, (created @ [msg]) @ nw), s') \<and> topology_ok (sv_mem s') \<and> inv (sv_log s') \<and>
    map m_Address nw = map rt_Destination routes \<and> map m_ID nw = map (rid rnd) [Suc i..<Suc i + length routes] \<and>
    (\<forall>msg\<in>set nw. stored_body view s' (p_Body inp) msg) \<and> svc_kept view s1 s' \<and>
    (\<forall>k. message_view (sv_mem s') k = None \<longleftrightarrow> k \<notin> m_ID ` set nw \<and> message_view (sv_mem s1) k = None)"
    by (rule Cons.IH) (use s1 Cons.prems(3) in auto)
  then obtain nw s' where s': "publish_loop ?bl rs None clk rnd inp (Suc i) routes (created @ [msg]) s1 =
      ((None, created @ msg # nw), s')" "topology_ok (sv_mem s')" "inv (sv_log s')"
    "map m_Address nw = map rt_Destination routes" "\<forall>msg\<in>set nw. stored_body view s' (p_Body inp) msg"
    "svc_kept view s1 s'" "map m_ID nw = map (rid rnd) [Suc i..<Suc i + length routes]"
    "\<forall>k. message_view (sv_mem s') k = None \<longleftrightarrow> k \<notin> m_ID ` set nw \<and> message_view (sv_mem s1) k = None" by auto
  then show ?case
    unfolding s1(1) using s1(6,9,10) stored_body_kept [OF s1(7) s'(6)] svc_kept_trans [OF s1(8) s'(6)]
    by (intro exI [of _ "msg # nw"] exI [of _ s']) (simp add: upt_conv_Cons conj_left_commute del: upt_Suc)
qed

lemma Publish_ok:
  assumes "topology_ok (sv_mem s)" "inv (sv_log s)" "valid_ranges rs"
    and "address_view (sv_mem s) (p_Address inp) = Some a" "\<not> ad_Paused a"
    and "Resolve rs None (p_Address inp) (p_RoutingKey inp) (p_Headers inp) (sv_mem s) = Inr routes" "routes \<noteq> []"
    and "fresh_ids rnd 0 (length routes) (sv_mem s)" "\<And>b. length b = 12 \<Longrightarrow> ok_id (''msg_'' @ hex b)"
    and "good_input limit inp"
  shows "\<exists>new s'. Publish_op \<lparr>bl_Append = append, bl_Read = read\<rparr> rs None clk rnd inp s = ((None, new), s') \<and>
    topology_ok (sv_mem s') \<and> inv (sv_log s') \<and> map m_Address new = map rt_Destination routes \<and>
    map m_ID new = map (rid rnd) [0..<length routes] \<and>
    (\<forall>msg\<in>set new. stored_body view s' (p_Body inp) msg) \<and> svc_kept view s s' \<and>
    (\<forall>k. message_view (sv_mem s') k = None \<longleftrightarrow> k \<notin> m_ID ` set new \<and> message_view (sv_mem s) k = None)"
proof -
  let ?inp = "if p_TTL inp = 0 then inp\<lparr>p_TTL := ad_DefaultTTL a\<rparr> else inp"
  have good: "good_input limit ?inp" using assms(10) by (simp add: good_input_def)
  have dest: "address_view (sv_mem s) (rt_Destination r) \<noteq> None \<and> rt_Destination r \<noteq> ''''" if r: "r \<in> set routes" for r
  proof -
    obtain d where d: "address_view (sv_mem s) (rt_Destination r) = Some d"
      using Resolve_exists [OF assms(6) r] by auto
    then have "namePattern (rt_Destination r)"
      using assms(1) keyed_get [OF mem_wfD(1)] by (fastforce simp: topology_ok_def address_wf_def)
    with d show ?thesis by auto
  qed
  have "mem_Get None (p_Address inp) (sv_mem s) = Inr a" by (simp add: addresses.fetch_Inr assms(4))
  then have "Publish_op \<lparr>bl_Append = append, bl_Read = read\<rparr> rs None clk rnd inp s =
      publish_loop \<lparr>bl_Append = append, bl_Read = read\<rparr> rs None clk rnd ?inp 0 routes [] s"
    using assms(5-7) by (simp add: Publish_op_def Accepting_def Let_def)
  moreover have "p_Body ?inp = p_Body inp" by simp
  ultimately show ?thesis
    using publish_loop_ok [OF assms(1-3) dest assms(8,9) good, of clk "[]"] by simp
qed

end

section \<open>Identifiers in the file log\<close>

lemma hex_digit_code: "n < 16 \<Longrightarrow> of_char (hex_digit n) = (if n < 10 then 48 + n else 87 + n)"
  by (simp add: hex_digit_def)

lemma hex_chars: "c \<in> set (hex bs) \<Longrightarrow> 48 \<le> (of_char c :: nat)"
proof (induction bs)
  case (Cons b bs)
  have "unat b div 16 < 16" "unat b mod 16 < 16" using byte_bound [of b] by auto
  with Cons show ?case by (auto simp: hex_digit_code split: if_splits)
qed simp

lemma length_hex: "length (hex bs) = 2 * length bs"
  by (induction bs) auto

lemma byte_of_char_code: "unat (byte_of_char c) = of_char c"
  by (simp add: byte_of_char_def unat_of_char)

lemma msg_id_chars: "c \<in> set (''msg_'' @ hex b) \<Longrightarrow> byte_of_char c \<noteq> 10 \<and> byte_of_char c \<noteq> 13"
proof -
  assume "c \<in> set (''msg_'' @ hex b)"
  then have "48 \<le> (of_char c :: nat)" using hex_chars [of c b] by auto
  then have "48 \<le> unat (byte_of_char c)" by (simp add: byte_of_char_code)
  then show ?thesis by auto
qed

lemma msg_log_id: "length b = 12 \<Longrightarrow> log_id (''msg_'' @ hex b)"
proof -
  assume b: "length b = 12"
  let ?id = "''msg_'' @ hex b"
  have "last ?id \<in> set ?id" by (rule last_in_set) simp
  then have "last (bytes_of_string ?id) \<noteq> 13" using msg_id_chars by (metis last_map append_Cons list.distinct(1))
  moreover have "10 \<notin> set (bytes_of_string ?id)"
  proof
    assume "10 \<in> set (bytes_of_string ?id)"
    then obtain c where "c \<in> set ?id" "byte_of_char c = 10" unfolding set_map by (elim imageE) simp
    with msg_id_chars show False by blast
  qed
  ultimately show ?thesis using b by (simp only: log_id_def) (simp add: length_hex)
qed

definition file_log_ops :: "FileLog BodyLog" where
  "file_log_ops = \<lparr>bl_Append = fl_Append, bl_Read = fl_Read\<rparr>"

definition memory_log_ops :: "MemoryLog BodyLog" where
  "memory_log_ops = \<lparr>bl_Append = ml_Append, bl_Read = ml_Read\<rparr>"

text \<open>
  One new message per route: in the order of the routes, under identifiers that differ from each other
  and that the store did not have, with a place in the log where the body is read back; what is stored
  under each is that message, with the destination of its route as its address, unless a length limit
  has evicted it already. No other identifier is new.
\<close>

definition copies_stored :: "Route list \<Rightarrow> byte list \<Rightarrow> FileLog Service \<Rightarrow> FileLog Service \<Rightarrow> Message list \<Rightarrow> bool" where
  "copies_stored routes body s s' nw = (map m_Address nw = map rt_Destination routes \<and> distinct (map m_ID nw) \<and>
     (\<forall>msg\<in>set nw. message_view (sv_mem s) (m_ID msg) = None \<and> fl_Read None (m_LogOffset msg) (sv_log s') = Inr body \<and>
        (\<exists>msg'. mem_message None (m_ID msg) (sv_mem s') = Inr msg' \<and> m_LogOffset msg' = m_LogOffset msg \<and> (msg' = msg \<or> evicted msg'))) \<and>
     (\<forall>k. message_view (sv_mem s') k = None \<longleftrightarrow> k \<notin> m_ID ` set nw \<and> message_view (sv_mem s) k = None))"

lemma published_file:
  assumes "topology_ok (sv_mem s)" "fl_inv (sv_log s)" "valid_ranges rs"
    and "address_view (sv_mem s) (p_Address inp) = Some a" "\<not> ad_Paused a"
    and "Resolve rs None (p_Address inp) (p_RoutingKey inp) (p_Headers inp) (sv_mem s) = Inr routes" "routes \<noteq> []"
    and "fresh_ids rnd 0 (length routes) (sv_mem s)" "good_input 67108864 inp"
  shows "\<exists>nw s'. Publish_op file_log_ops rs None clk rnd inp s = ((None, nw), s') \<and> copies_stored routes (p_Body inp) s s' nw"
proof -
  have read: "fl_Read None off l = Inr b \<longleftrightarrow> fl_view l off = Some b" for off l b
    by (simp add: fl_view_def split: sum.split)
  obtain nw s' where s': "Publish_op file_log_ops rs None clk rnd inp s = ((None, nw), s')" "map m_Address nw = map rt_Destination routes"
    "map m_ID nw = map (rid rnd) [0..<length routes]" "\<forall>msg\<in>set nw. stored_body fl_view s' (p_Body inp) msg"
    "\<forall>k. message_view (sv_mem s') k = None \<longleftrightarrow> k \<notin> m_ID ` set nw \<and> message_view (sv_mem s) k = None"
    using file_log.Publish_ok [OF assms(1-8) msg_log_id assms(9), of clk] by (auto simp: file_log_ops_def)
  have "distinct (map m_ID nw)" using assms(8) by (simp add: s'(3) distinct_map fresh_ids_def atLeast0LessThan)
  moreover have "message_view (sv_mem s) (m_ID msg) = None" if "msg \<in> set nw" for msg
  proof -
    have "m_ID msg \<in> set (map m_ID nw)" using that by simp
    then show ?thesis using assms(8) by (auto simp: s'(3) fresh_ids_def)
  qed
  ultimately show ?thesis
    using s'(1,2,4,5) by (auto simp: copies_stored_def stored_body_def read messages.fetch_Inr)
qed

text \<open>The same, as a client of the store reads it.\<close>

lemma copies_stored_report:
  assumes "copies_stored routes body s s' nw"
  shows "map m_Address nw = map rt_Destination routes" "distinct (map m_ID nw)"
    and "\<forall>msg\<in>set nw. mem_message None (m_ID msg) (sv_mem s) = Inl ErrMessageNotFound \<and>
       fl_Read None (m_LogOffset msg) (sv_log s') = Inr body \<and>
       (\<exists>msg'. mem_message None (m_ID msg) (sv_mem s') = Inr msg' \<and> m_LogOffset msg' = m_LogOffset msg \<and>
          (msg' = msg \<or> get (m_Headers msg') ''x-death-reason'' = Some ''max-length''))"
    and "\<forall>k. message_view (sv_mem s') k \<noteq> None \<longrightarrow> k \<in> m_ID ` set nw \<or> message_view (sv_mem s) k \<noteq> None"
  using assms by (simp_all add: copies_stored_def evicted_def messages.fetch_Inl)

text \<open>
  C3: publishing delivers to every route. On a well-formed broker with a file log in good order, a
  message with a body of at most 64 MiB and a priority between 0 and 9, sent to an address that
  exists and is not paused and has routes, is accepted; one message per route is stored, in the
  order of the routes, under new and different identifiers and with the destination of its route as
  its address (unless a length limit has evicted it already), each with a place in the log where the
  published body is read back, and no other; every message that was stored before is still there with
  its body. (The random source yields new identifiers.)
\<close>

theorem Publish_delivers:
  assumes "topology_ok (sv_mem s)" "fl_inv (sv_log s)" "valid_ranges rs"
    and "address_view (sv_mem s) (p_Address inp) = Some a" "\<not> ad_Paused a"
    and "Resolve rs None (p_Address inp) (p_RoutingKey inp) (p_Headers inp) (sv_mem s) = Inr routes" "routes \<noteq> []"
    and "fresh_ids rnd 0 (length routes) (sv_mem s)" "good_input 67108864 inp"
  shows "\<exists>new s'. Publish_op file_log_ops rs None clk rnd inp s = ((None, new), s') \<and>
    topology_ok (sv_mem s') \<and> fl_inv (sv_log s') \<and> map m_Address new = map rt_Destination routes \<and>
    distinct (map m_ID new) \<and>
    (\<forall>msg\<in>set new. mem_message None (m_ID msg) (sv_mem s) = Inl ErrMessageNotFound \<and>
       fl_Read None (m_LogOffset msg) (sv_log s') = Inr (p_Body inp) \<and>
       (\<exists>msg'. mem_message None (m_ID msg) (sv_mem s') = Inr msg' \<and> m_LogOffset msg' = m_LogOffset msg \<and>
          (msg' = msg \<or> get (m_Headers msg') ''x-death-reason'' = Some ''max-length''))) \<and>
    (\<forall>k. message_view (sv_mem s') k \<noteq> None \<longrightarrow> k \<in> m_ID ` set new \<or> message_view (sv_mem s) k \<noteq> None) \<and>
    (\<forall>k msg b. mem_message None k (sv_mem s) = Inr msg \<and> fl_Read None (m_LogOffset msg) (sv_log s) = Inr b \<longrightarrow>
       (\<exists>msg'. mem_message None k (sv_mem s') = Inr msg' \<and> fl_Read None (m_LogOffset msg') (sv_log s') = Inr b))"
proof -
  obtain new s' where s': "Publish_op file_log_ops rs None clk rnd inp s = ((None, new), s')"
    "topology_ok (sv_mem s')" "fl_inv (sv_log s')" "svc_kept fl_view s s'"
    using file_log.Publish_ok [OF assms(1-8) msg_log_id assms(9), of clk] by (auto simp: file_log_ops_def)
  have copies: "copies_stored routes (p_Body inp) s s' new" using published_file [OF assms, of clk] s'(1) by auto
  have read: "fl_Read None off l = Inr b \<longleftrightarrow> fl_view l off = Some b" for off l b
    by (simp add: fl_view_def split: sum.split)
  have "\<exists>msg'. mem_message None k (sv_mem s') = Inr msg' \<and> fl_Read None (m_LogOffset msg') (sv_log s') = Inr b"
    if "mem_message None k (sv_mem s) = Inr msg" "fl_Read None (m_LogOffset msg) (sv_log s) = Inr b" for k msg b
    using s'(4) that by (simp add: svc_kept_def kept_def read messages.fetch_Inr) metis
  with s' copies_stored_report [OF copies] show ?thesis by (intro exI [of _ new] exI [of _ s']) simp
qed

definition sample_publish :: Publish where
  "sample_publish = \<lparr>p_Address = ''jobs'', p_RoutingKey = '''', p_Headers = [], p_Body = [1, 2, 3],
     p_Priority = 4, p_TTL = 60, p_Settled = True, p_TransactionID = ''''\<rparr>"

definition sample_queue :: Memory where
  "sample_queue = NewMemory\<lparr>mm_addresses := [(''jobs'', sample_address ''jobs'' KindQueue)]\<rparr>"

lemma topology_sample_queue: "topology_ok sample_queue"
proof -
  have "mem_wf sample_queue"
    by (simp add: sample_queue_def mem_wf_def NewMemory_def keyed_def wf_map_def sample_address_def)
  moreover have "address_wf (sample_address ''jobs'' KindQueue)"
    by (simp add: address_wf_def sample_address_def name_start_def name_char_def)
  ultimately show ?thesis
    by (auto simp: topology_ok_def sample_queue_def NewMemory_def sample_address_def split: if_splits)
qed

definition zero_ids :: "nat \<Rightarrow> byte list option" where
  "zero_ids i = Some (replicate 12 0)"

lemma fresh_zero_ids: "message_view m (rid zero_ids 0) = None \<Longrightarrow> fresh_ids zero_ids 0 (Suc 0) m"
  by (simp add: fresh_ids_def zero_ids_def)

theorem Publish_delivers_witness:
  "\<exists>new s'. Publish_op file_log_ops id_ranges None (\<lambda>i. 100) zero_ids sample_publish
      (NewDeliveryService sample_queue \<lparr>fl_data = [], fl_offsets = []\<rparr>) = ((None, new), s') \<and>
    map m_Address new = [''jobs''] \<and>
    (\<forall>msg\<in>set new. fl_Read None (m_LogOffset msg) (sv_log s') = Inr [1, 2, 3])"
proof -
  let ?s = "NewDeliveryService sample_queue \<lparr>fl_data = [], fl_offsets = []\<rparr>"
  let ?a = "sample_address ''jobs'' KindQueue"
  have m: "sv_mem ?s = sample_queue" "sv_log ?s = \<lparr>fl_data = [], fl_offsets = []\<rparr>"
    by (simp_all add: NewDeliveryService_def)
  have top: "topology_ok (sv_mem ?s)" by (simp add: m topology_sample_queue)
  have log: "fl_inv (sv_log ?s)" unfolding fl_inv_def by (rule exI [of _ "[]"]) (simp add: m log_rep_def)
  have a: "address_view (sv_mem ?s) (p_Address sample_publish) = Some ?a"
    unfolding m by (simp add: sample_queue_def sample_publish_def)
  have up: "\<not> ad_Paused ?a" by (simp add: sample_address_def)
  have r: "Resolve id_ranges None (p_Address sample_publish) (p_RoutingKey sample_publish)
      (p_Headers sample_publish) (sv_mem ?s) = Inr [\<lparr>rt_Destination = ''jobs'', rt_Priority = 0\<rparr>]"
    using a by (simp add: Resolve_def addresses.fetch_live) (simp add: sample_address_def sample_publish_def)
  have f: "fresh_ids zero_ids 0 (length [\<lparr>rt_Destination = ''jobs'', rt_Priority = 0\<rparr>]) (sv_mem ?s)"
    unfolding m using fresh_zero_ids [of sample_queue] by (simp add: sample_queue_def NewMemory_def)
  have g: "good_input 67108864 sample_publish" by (simp add: good_input_def sample_publish_def)
  have "p_Body sample_publish = [1, 2, 3]" by (simp add: sample_publish_def)
  with Publish_delivers [OF top log valid_id_ranges a up r _ f g, of "\<lambda>i. 100"] show ?thesis by auto
qed

end
