(* ===== verification/ConsumeProps.thy ===== *)
theory ConsumeProps
  imports DeliveryProps
begin

text \<open>
  Consuming and maintenance: what every handler of the delivery service keeps (no message is lost,
  no place in the log changes), unique delivery, and what becomes of unsettled deliveries.
\<close>

section \<open>What the handlers keep\<close>

abbreviation place :: "Message \<Rightarrow> int \<times> string" where
  "place msg \<equiv> (m_LogOffset msg, m_TransactionID msg)"

definition offs :: "Memory \<Rightarrow> string \<Rightarrow> (int \<times> string) option" where
  "offs m k = map_option place (message_view m k)"

definition no_unsettled :: "Memory \<Rightarrow> bool" where
  "no_unsettled m = (\<forall>k c. consumer_view m k = Some c \<longrightarrow> co_Unsettled c = [])"

text \<open>No stored address has a negative length limit; a limit is checked when an address is created.\<close>

definition limited :: "Memory \<Rightarrow> bool" where
  "limited m = (\<forall>k a. address_view m k = Some a \<longrightarrow> 0 \<le> ad_MaxLength a)"

lemma limited_cong: "mm_addresses m' = mm_addresses m \<Longrightarrow> limited m' = limited m"
  by (simp add: limited_def)

text \<open>
  \<open>same m m'\<close>: the store stays well-formed and has the same messages, at the same places in the log
  and of the same transactions. \<open>grows\<close> allows new messages, and lets messages leave their transaction
  but not join one. Neither makes a delivery unsettled or
  a length limit negative.
\<close>

definition same :: "Memory \<Rightarrow> Memory \<Rightarrow> bool" where
  "same m m' = (mem_wf m \<longrightarrow> mem_wf m' \<and> offs m' = offs m \<and> (no_unsettled m \<longrightarrow> no_unsettled m') \<and> (limited m \<longrightarrow> limited m'))"

definition grows :: "Memory \<Rightarrow> Memory \<Rightarrow> bool" where
  "grows m m' = (mem_wf m \<longrightarrow> mem_wf m' \<and> (\<forall>k off t. offs m k = Some (off, t) \<longrightarrow> (\<exists>t'. offs m' k = Some (off, t') \<and> (t = '''' \<longrightarrow> t' = ''''))) \<and>
     (no_unsettled m \<longrightarrow> no_unsettled m') \<and> (limited m \<longrightarrow> limited m'))"

lemma same_refl [simp]: "same m m"
  by (simp add: same_def)

lemma same_trans: "same m m' \<Longrightarrow> same m' m'' \<Longrightarrow> same m m''"
  by (auto simp: same_def)

lemma grows_refl [simp]: "grows m m"
  by (simp add: grows_def)

lemma same_grows: "same m m' \<Longrightarrow> grows m m'"
  by (auto simp: same_def grows_def)

lemma grows_trans: "grows m m' \<Longrightarrow> grows m' m'' \<Longrightarrow> grows m m''"
  by (simp add: grows_def) metis

lemma same_put_message:
  assumes "mem_wf m \<Longrightarrow> offs m (m_ID msg) = Some (place msg)"
  shows "same m (m\<lparr>mm_messages := put (m_ID msg) msg (mm_messages m)\<rparr>)"
  using assms by (auto simp: same_def offs_def mem_wf_def no_unsettled_def limited_def map_simps fun_eq_iff)

lemma grows_Update:
  assumes "mem_Update ctx msg m = Inr m'" "mem_wf m \<Longrightarrow> offs m (m_ID msg) = Some (m_LogOffset msg, t)"
    "t = '''' \<Longrightarrow> m_TransactionID msg = ''''"
  shows "grows m m'"
  using assms by (auto simp: mem_Update_def guardE_Inr_iff grows_def offs_def mem_wf_def no_unsettled_def limited_def map_simps split: if_splits)

lemma same_Update:
  assumes "mem_Update ctx msg m = Inr m'" "mem_wf m \<Longrightarrow> offs m (m_ID msg) = Some (place msg)"
  shows "same m m'"
proof -
  have "m' = m\<lparr>mm_messages := put (m_ID msg) msg (mm_messages m)\<rparr>"
    using assms(1) by (auto simp: mem_Update_def guardE_Inr_iff split: if_splits)
  then show ?thesis using same_put_message [of m msg] assms(2) by simp
qed

lemma same_SaveConsumer:
  assumes "SaveConsumer ctx c m = Inr m'" "no_unsettled m \<Longrightarrow> co_Unsettled c = []"
  shows "same m m'"
proof -
  have "m' = m\<lparr>mm_consumers := put (co_ID c) c (mm_consumers m)\<rparr>"
    using assms(1) by (auto simp: SaveConsumer_def guardE_Inr_iff)
  then show ?thesis
    using assms(2) by (auto simp: same_def offs_def [abs_def] mem_wf_def no_unsettled_def limited_def map_simps)
qed

lemma dead_form_TransactionID [simp]: "m_TransactionID (dead_form m reason msg) = m_TransactionID msg"
  by (simp add: dead_form_def Let_def split: option.split)

lemma same_deadLetter:
  assumes "deadLetter ctx msg reason m = Inr (msg', m')" "mem_wf m \<Longrightarrow> offs m (m_ID msg) = Some (place msg)"
  shows "same m m'" "m_ID msg' = m_ID msg \<and> place msg' = place msg"
  using assms same_put_message [of m "dead_form m reason msg"] by (auto simp: deadLetter_Inr)

lemma message_offs: "mem_message ctx k m = Inr msg \<Longrightarrow> mem_wf m \<Longrightarrow> m_ID msg = k \<and> offs m k = Some (place msg)"
  using keyed_get [OF mem_wfD(3)] by (auto simp: messages.fetch_Inr offs_def)

lemma ready_offs:
  assumes "ListReady rs ctx a n m = Inr ready" "mem_wf m" "valid_ranges rs" "msg \<in> set ready"
  shows "message_view m (m_ID msg) = Some msg \<and> is_ready a msg" "offs m (m_ID msg) = Some (place msg)"
proof -
  have "msg \<in> set (map snd (r_messages rs (mm_messages m))) \<and> is_ready a msg"
    using assms(1,4) by (auto simp: ListReady_eq limit_to_take dest: in_set_takeD split: if_splits)
  then show "message_view m (m_ID msg) = Some msg \<and> is_ready a msg"
    using keyed_values [OF mem_wfD(3) [OF assms(2)] valid_rangesD(3) [OF assms(3)]] by blast
  then show "offs m (m_ID msg) = Some (place msg)" by (simp add: offs_def)
qed

lemma all_offs:
  assumes "mem_All rs ctx m = Inr all" "mem_wf m" "valid_ranges rs" "msg \<in> set all"
  shows "offs m (m_ID msg) = Some (place msg)"
proof -
  have "msg \<in> set (map snd (r_messages rs (mm_messages m)))"
    using assms(1,4) by (simp add: mem_All_def guardE_Inr_iff)
  then have "message_view m (m_ID msg) = Some msg"
    using keyed_values [OF mem_wfD(3) [OF assms(2)] valid_rangesD(3) [OF assms(3)]] by blast
  then show ?thesis by (simp add: offs_def)
qed

section \<open>Handler by handler\<close>

lemma enforce_loop_same:
  assumes "enforce_loop ctx mx ready m = (r, m')" "mem_wf m"
    and "\<And>msg. msg \<in> set ready \<Longrightarrow> offs m (m_ID msg) = Some (place msg)"
  shows "same m m'"
  using assms
proof (induction ready arbitrary: m rule: rev_induct)
  case Nil
  then show ?case by (auto simp: enforce_loop.simps [of ctx mx "[]"] split: if_splits)
next
  case (snoc v ready)
  show ?case
  proof (cases "int (length (ready @ [v])) > mx")
    case False
    then show ?thesis using snoc.prems(1) by (simp add: enforce_loop.simps [of ctx mx "ready @ [v]"])
  next
    case True
    note step = snoc.prems(1) [unfolded enforce_loop.simps [of ctx mx "ready @ [v]"] if_P [OF True]]
    show ?thesis
    proof (cases "deadLetter ctx v ''max-length'' m")
      case (Inl e)
      then show ?thesis using step by simp
    next
      case (Inr x)
      obtain v' m1 where x: "x = (v', m1)" by (cases x)
      have s1: "same m m1" using same_deadLetter(1) [OF Inr [unfolded x]] snoc.prems(3) by simp
      have "same m1 m'"
        by (rule snoc.IH) (use step Inr x s1 snoc.prems(2,3) in \<open>auto simp: same_def\<close>)
      with s1 show ?thesis by (rule same_trans)
    qed
  qed
qed

lemma enforceMaxLength_same:
  assumes "enforceMaxLength rs ctx name m = (r, m')" "valid_ranges rs"
  shows "same m m'"
proof (cases "mem_wf m")
  case True
  show ?thesis
    using assms enforce_loop_same [OF _ True] ready_offs(2) [OF _ True assms(2)]
    by (auto simp: enforceMaxLength_def split: sum.splits if_splits)
qed (simp add: same_def)

lemma CommitStaged_grows:
  assumes "CommitStaged rs ctx mid m = (r, m')" "valid_ranges rs"
  shows "grows m m'"
proof (cases "mem_message ctx mid m")
  case (Inl e)
  then show ?thesis using assms(1) by (simp add: CommitStaged_def)
next
  case (Inr msg)
  let ?msg = "msg\<lparr>m_State := StateAvailable, m_TransactionID := ''''\<rparr>"
  show ?thesis
  proof (cases "m_State msg \<noteq> StateAcquired \<or> m_TransactionID msg = ''''")
    case True
    then show ?thesis using assms(1) Inr by (auto simp: CommitStaged_def)
  next
    case False
    show ?thesis
    proof (cases "mem_Update ctx ?msg m")
      case (Inl e)
      then show ?thesis using assms(1) Inr False by (auto simp: CommitStaged_def Let_def)
    next
      case upd: (Inr m1)
      have "grows m m1" by (rule grows_Update [OF upd]) (use message_offs [OF Inr] in simp_all)
      moreover have "same m1 m'"
        by (rule enforceMaxLength_same [OF _ assms(2)])
          (use assms(1) Inr False upd in \<open>auto simp: CommitStaged_def Let_def\<close>)
      ultimately show ?thesis using grows_trans same_grows by blast
    qed
  qed
qed

lemma Register_same: "Register ctx now cid a p sem m = (r, m') \<Longrightarrow> same m m'"
  using NewConsumer_wf by (auto simp: Register_def split: sum.splits intro: same_SaveConsumer)

lemma SaveConsumer_keeps:
  "SaveConsumer ctx c m = Inr m' \<Longrightarrow> mem_wf m \<Longrightarrow> mem_wf m' \<and> offs m' = offs m \<and> (limited m \<longrightarrow> limited m')"
  by (auto simp: SaveConsumer_def guardE_Inr_iff mem_wf_def offs_def [abs_def] limited_def)

text \<open>The part of \<open>Settle\<close> after the delivery was found.\<close>

definition disposition :: "ctx \<Rightarrow> State \<Rightarrow> Message \<Rightarrow> Memory \<Rightarrow> error + (Message \<times> Memory)" where
  "disposition ctx st msg m =
    (case st of
       StateAccepted \<Rightarrow> Inr (msg\<lparr>m_State := StateAccepted\<rparr>, m)
     | StateReleased \<Rightarrow> Inr (msg\<lparr>m_State := StateReleased, m_Redelivered := True\<rparr>, m)
     | StateRejected \<Rightarrow> deadLetter ctx msg ''rejected'' m
     | _ \<Rightarrow> Inl (New ''unsupported disposition state''))"

lemma disposition_same:
  assumes "disposition ctx st msg m = Inr (msg', m')" "mem_wf m \<Longrightarrow> offs m (m_ID msg) = Some (place msg)"
  shows "same m m' \<and> m_ID msg' = m_ID msg \<and> place msg' = place msg"
  using assms same_deadLetter [of ctx msg "''rejected''" m msg' m']
  by (auto simp: disposition_def split: State.splits)

lemma Settle_op_cases:
  assumes "Settle_op ctx cid did st m = (r, m')"
  shows "r \<noteq> None \<and> m' = m \<or> (\<exists>c mid msg msg1 m1. GetConsumer ctx cid m = Inr c \<and> get (co_Unsettled c) did = Some mid \<and>
    mem_message ctx mid m = Inr msg \<and> disposition ctx st msg m = Inr (msg1, m1) \<and>
    (m' = m1 \<or> (\<exists>m2. (m2 = m1 \<or> mem_Update ctx msg1 m1 = Inr m2) \<and> (m' = m2 \<or> SaveConsumer ctx c m2 = Inr m'))))"
proof (cases "\<exists>c mid msg x. GetConsumer ctx cid m = Inr c \<and> get (co_Unsettled c) did = Some mid \<and>
    mem_message ctx mid m = Inr msg \<and> disposition ctx st msg m = Inr x")
  case True
  then obtain c mid msg msg1 m1 where d: "GetConsumer ctx cid m = Inr c" "get (co_Unsettled c) did = Some mid"
    "mem_message ctx mid m = Inr msg" "disposition ctx st msg m = Inr (msg1, m1)" by auto
  have "Consumer_Settle c did = Inr c" using d(2) by (simp add: Consumer_Settle_def)
  then have "m' = m1 \<or> (\<exists>m2. (m2 = m1 \<or> mem_Update ctx msg1 m1 = Inr m2) \<and> (m' = m2 \<or> SaveConsumer ctx c m2 = Inr m'))"
    using assms d unfolding Settle_op_def disposition_def [symmetric]
    by (auto split: sum.splits if_splits)
  with d show ?thesis by blast
next
  case False
  then have "r \<noteq> None \<and> m' = m"
    using assms unfolding Settle_op_def disposition_def [symmetric]
    by (auto split: sum.splits option.splits)
  then show ?thesis by blast
qed

lemma Settle_same:
  assumes "Settle_op ctx cid did st m = (r, m')"
  shows "same m m'"
proof -
  consider "m' = m" | c mid msg msg1 m1 m2 where "GetConsumer ctx cid m = Inr c" "get (co_Unsettled c) did = Some mid"
      "mem_message ctx mid m = Inr msg" "disposition ctx st msg m = Inr (msg1, m1)"
      "m2 = m1 \<or> mem_Update ctx msg1 m1 = Inr m2" "m' = m2 \<or> SaveConsumer ctx c m2 = Inr m'"
    using Settle_op_cases [OF assms] by blast
  then show ?thesis
  proof cases
    case 2
    have "co_Unsettled c \<noteq> []" "consumer_view m cid = Some c" using 2(1,2) by (auto simp: consumers.fetch_Inr)
    then have "\<not> no_unsettled m" unfolding no_unsettled_def by blast
    have msg: "mem_wf m \<Longrightarrow> offs m (m_ID msg) = Some (place msg)" using message_offs [OF 2(3)] by auto
    have d: "same m m1 \<and> m_ID msg1 = m_ID msg \<and> place msg1 = place msg"
      by (rule disposition_same [OF 2(4) msg])
    have "mem_wf m2 \<and> offs m2 = offs m \<and> (limited m \<longrightarrow> limited m2)" if "mem_wf m"
    proof -
      have m1: "mem_wf m1" "offs m1 = offs m" "limited m \<longrightarrow> limited m1" using d that by (simp_all add: same_def)
      have "same m1 m2" if "mem_Update ctx msg1 m1 = Inr m2"
        by (rule same_Update [OF that]) (use d msg m1 \<open>mem_wf m\<close> in simp)
      with 2(5) m1 show ?thesis by (auto simp: same_def)
    qed
    with 2(6) SaveConsumer_keeps [of ctx c m2 m'] \<open>\<not> no_unsettled m\<close> show ?thesis
      by (auto simp: same_def)
  qed simp
qed

lemma disconnect_loop_same: "same m (disconnect_loop ctx ids m)"
proof (induction ids arbitrary: m)
  case (Cons mid ids)
  let ?step = "\<lambda>mid m. case mem_message ctx mid m of Inl _ \<Rightarrow> m
      | Inr msg \<Rightarrow> (case mem_Update ctx (msg\<lparr>m_State := StateReleased, m_Redelivered := True\<rparr>) m of
             Inl _ \<Rightarrow> m | Inr m' \<Rightarrow> m')"
  have "same m (?step mid m)"
    using message_offs [of ctx mid m] by (auto split: sum.split intro!: same_Update)
  then show ?case
    using Cons.IH [of "?step mid m"] same_trans by (simp add: disconnect_loop_def)
qed (simp add: disconnect_loop_def)

lemma Disconnect_same: "Disconnect rs ctx now cid m = (r, m') \<Longrightarrow> same m m'"
proof -
  assume a: "Disconnect rs ctx now cid m = (r, m')"
  show ?thesis
  proof (cases "GetConsumer ctx cid m")
    case (Inl e)
    then show ?thesis using a by (simp add: Disconnect_def)
  next
    case (Inr c)
    let ?m = "disconnect_loop ctx (map snd (r_unsettled rs (co_Unsettled c))) m"
    have "m' = ?m \<or> SaveConsumer ctx (c\<lparr>co_Unsettled := [], co_Connected := False, co_Credit := 0, co_LastSeen := now\<rparr>) ?m = Inr m'"
      using a Inr by (auto simp: Disconnect_def Let_def split: sum.splits)
    then have "same ?m m'" by (auto intro: same_SaveConsumer)
    with disconnect_loop_same show ?thesis by (rule same_trans)
  qed
qed

lemma sweep_loop_same:
  "sweep_loop ctx clk i all n m = (r, m') \<Longrightarrow> mem_wf m \<Longrightarrow>
    (\<And>msg. msg \<in> set all \<Longrightarrow> offs m (m_ID msg) = Some (place msg)) \<Longrightarrow> same m m'"
proof (induction all arbitrary: i n m)
  case (Cons msg all)
  show ?case
  proof (cases "(m_State msg = StateAvailable \<or> m_State msg = StateReleased) \<and> Message_Expired msg (clk i)")
    case True
    show ?thesis
    proof (cases "deadLetter ctx msg ''ttl-expired'' m")
      case (Inl e)
      then show ?thesis using Cons.prems(1) True by simp
    next
      case (Inr x)
      obtain d m1 where x: "x = (d, m1)" by (cases x)
      have s1: "same m m1" using same_deadLetter(1) [OF Inr [unfolded x]] Cons.prems(3) by simp
      have "same m1 m'"
        by (rule Cons.IH [of "Suc i" "n + 1"]) (use Cons.prems True Inr x s1 in \<open>auto simp: same_def\<close>)
      with s1 show ?thesis by (rule same_trans)
    qed
  next
    case False
    then have "sweep_loop ctx clk (Suc i) all n m = (r, m')" using Cons.prems(1) by auto
    then show ?thesis by (rule Cons.IH) (use Cons.prems in auto)
  qed
qed simp

lemma replay_loop_same:
  "replay_loop ctx all n m = (r, m') \<Longrightarrow> mem_wf m \<Longrightarrow>
    (\<And>msg. msg \<in> set all \<Longrightarrow> offs m (m_ID msg) = Some (place msg)) \<Longrightarrow> same m m'"
proof (induction all arbitrary: n m)
  case (Cons msg all)
  let ?o = "get_string (m_Headers msg) ''x-original-address''"
  let ?t = "if ?o = '''' then m_Address msg else ?o"
  let ?msg = "msg\<lparr>m_Address := ?t, m_State := StateAvailable, m_ExpiresAt := 0, m_Redelivered := True\<rparr>"
  show ?case
  proof (cases "\<exists>a. mem_Get ctx ?t m = Inr a \<and> \<not> ad_Paused a")
    case False
    then have "replay_loop ctx (msg # all) n m = replay_loop ctx all n m"
      by (auto simp: Let_def split: sum.split)
    then show ?thesis using Cons.IH [of n m] Cons.prems by simp
  next
    case True
    then obtain a where a: "mem_Get ctx ?t m = Inr a" "\<not> ad_Paused a" by blast
    show ?thesis
    proof (cases "mem_Update ctx ?msg m")
      case (Inl e)
      then show ?thesis using Cons.prems(1) a by (simp add: Let_def)
    next
      case (Inr m1)
      have s1: "same m m1" by (rule same_Update [OF Inr]) (use Cons.prems(3) [of msg] in simp)
      have "same m1 m'"
        by (rule Cons.IH [of "n + 1"]) (use Cons.prems a Inr s1 in \<open>auto simp: same_def Let_def\<close>)
      with s1 show ?thesis by (rule same_trans)
    qed
  qed
qed simp

lemma collect_dead_subset: "set (collect_dead limit all dead) \<subseteq> set dead \<union> set all"
  by (induction limit all dead rule: collect_dead.induct) (auto simp: Let_def split: if_splits)

lemma maintenance_same:
  assumes "valid_ranges rs"
  shows "SweepExpired rs ctx clk m = (r, m') \<Longrightarrow> same m m'"
    and "ReplayDead rs ctx n m = (r, m') \<Longrightarrow> same m m'"
proof -
  show "same m m'" if a: "SweepExpired rs ctx clk m = (r, m')"
  proof (cases "mem_wf m")
    case True
    then show ?thesis
      using a sweep_loop_same [OF _ True] all_offs [OF _ True assms]
      by (auto simp: SweepExpired_def split: sum.splits)
  qed (simp add: same_def)
  show "same m m'" if a: "ReplayDead rs ctx n m = (r, m')"
  proof (cases "mem_wf m \<and> (\<exists>all. mem_All rs ctx m = Inr all)")
    case True
    then obtain all where all: "mem_All rs ctx m = Inr all" "mem_wf m" by blast
    have "offs m (m_ID msg) = Some (place msg)" if "msg \<in> set (collect_dead n all [])" for msg
      using all_offs [OF all assms] collect_dead_subset [of n all "[]"] that by auto
    then show ?thesis
      using a all replay_loop_same [of ctx "collect_dead n all []" 0 m r m'] by (simp add: ReplayDead_def)
  next
    case False
    then show ?thesis using a by (cases "mem_All rs ctx m") (auto simp: same_def ReplayDead_def)
  qed
qed

section \<open>Acquiring\<close>

text \<open>The message that an acquisition stores.\<close>

definition acquired :: "Consumer \<Rightarrow> Message \<Rightarrow> Message" where
  "acquired c msg = msg\<lparr>m_State := (if co_Semantics c = AtMostOnce then StateAccepted else StateAcquired),
     m_DeliveryCount := m_DeliveryCount msg + 1, m_Redelivered := m_DeliveryCount msg + 1 > 1\<rparr>"

lemma acquired_fields [simp]:
  "m_ID (acquired c msg) = m_ID msg" "m_LogOffset (acquired c msg) = m_LogOffset msg"
  "m_TransactionID (acquired c msg) = m_TransactionID msg"
  by (simp_all add: acquired_def)

text \<open>The end of \<open>Acquire\<close>: the message and the consumer are stored and the body is read.\<close>

definition acquire_tail :: "'l BodyLog \<Rightarrow> ctx \<Rightarrow> Consumer \<Rightarrow> Message \<Rightarrow> 32 word \<Rightarrow> 'l Service \<Rightarrow>
    (error + Message \<times> 32 word) \<times> 'l Service" where
  "acquire_tail bl ctx c msg did s =
    (case mem_Update ctx msg (sv_mem s) of
       Inl e \<Rightarrow> (Inl e, s)
     | Inr m \<Rightarrow>
       (case SaveConsumer ctx c m of
          Inl e \<Rightarrow> (Inl e, s\<lparr>sv_mem := m\<rparr>)
        | Inr m' \<Rightarrow>
          (case bl_Read bl ctx (m_LogOffset msg) (sv_log s) of
             Inl e \<Rightarrow> (Inl (Wrap ''read message body'' e), s\<lparr>sv_mem := m'\<rparr>)
           | Inr body \<Rightarrow> (Inr (msg\<lparr>m_Body := body\<rparr>, did), s\<lparr>sv_mem := m'\<rparr>))))"

lemma settle_keeps: "(case Consumer_Settle c d of Inl e \<Rightarrow> c | Inr c' \<Rightarrow> c') = c"
  by (auto split: sum.split dest: Consumer_Settle_Inr)

lemma message_upd_swap:
  "msg\<lparr>m_State := a, m_DeliveryCount := b, m_Redelivered := r\<rparr> = msg\<lparr>m_DeliveryCount := b, m_Redelivered := r, m_State := a\<rparr>"
  by (cases msg) simp

lemma Acquire_op_live:
  assumes "GetConsumer ctx cid (sv_mem s) = Inr c" "co_Credit c \<noteq> 0"
    and "ListReady rs ctx (co_Address c) 1 (sv_mem s) = Inr (msg # rest)" "\<not> Message_Expired msg now"
    and "Consumer_Acquire c (sv_seq s + 1) (m_ID msg) = Inr c"
  shows "Acquire_op bl rs ctx now cid s =
    acquire_tail bl ctx c (acquired c msg) (sv_seq s + 1) (s\<lparr>sv_seq := sv_seq s + 1\<rparr>)"
  using assms by (simp add: Acquire_op_def acquire_tail_def acquired_def settle_keeps Let_def message_upd_swap)

text \<open>Whatever happens, \<open>Acquire\<close> either leaves the store, dead-letters the first message, or ends with the tail.\<close>

lemma Acquire_op_cases:
  assumes "Acquire_op bl rs ctx now cid s = (r, s')"
  shows "(\<exists>e. r = Inl e) \<and> sv_mem s' = sv_mem s \<and> sv_log s' = sv_log s \<or>
    (\<exists>c msg rest d m. GetConsumer ctx cid (sv_mem s) = Inr c \<and>
       ListReady rs ctx (co_Address c) 1 (sv_mem s) = Inr (msg # rest) \<and>
       deadLetter ctx msg ''ttl-expired'' (sv_mem s) = Inr (d, m) \<and> (\<exists>e. r = Inl e) \<and> s' = s\<lparr>sv_mem := m\<rparr>) \<or>
    (\<exists>c msg rest. GetConsumer ctx cid (sv_mem s) = Inr c \<and> co_Credit c \<noteq> 0 \<and> co_Connected c \<and>
       ListReady rs ctx (co_Address c) 1 (sv_mem s) = Inr (msg # rest) \<and> \<not> Message_Expired msg now \<and>
       acquire_tail bl ctx c (acquired c msg) (sv_seq s + 1) (s\<lparr>sv_seq := sv_seq s + 1\<rparr>) = (r, s'))"
proof (cases "\<exists>c msg rest. GetConsumer ctx cid (sv_mem s) = Inr c \<and> co_Credit c \<noteq> 0 \<and>
    ListReady rs ctx (co_Address c) 1 (sv_mem s) = Inr (msg # rest)")
  case False
  then show ?thesis using assms
    by (auto simp: Acquire_op_def split: sum.splits list.splits if_splits)
next
  case True
  then obtain c msg rest where c: "GetConsumer ctx cid (sv_mem s) = Inr c" "co_Credit c \<noteq> 0"
    "ListReady rs ctx (co_Address c) 1 (sv_mem s) = Inr (msg # rest)" by blast
  show ?thesis
  proof (cases "Message_Expired msg now")
    case True
    then show ?thesis using assms c
      by (cases "deadLetter ctx msg ''ttl-expired'' (sv_mem s)") (auto simp: Acquire_op_def)
  next
    case live: False
    show ?thesis
    proof (cases "Consumer_Acquire c (sv_seq s + 1) (m_ID msg)")
      case (Inl e)
      then show ?thesis using assms c live by (auto simp: Acquire_op_def Let_def)
    next
      case (Inr c')
      then have "Consumer_Acquire c (sv_seq s + 1) (m_ID msg) = Inr c" "co_Connected c"
        using Consumer_Acquire_Inr [OF Inr] by (auto simp: Consumer_Acquire_def split: if_splits)
      then show ?thesis using assms c live Acquire_op_live [OF c live] by metis
    qed
  qed
qed

lemma acquire_tail_cases:
  assumes "acquire_tail bl ctx c msg did s = (r, s')"
  shows "sv_log s' = sv_log s \<and> ((\<exists>e. r = Inl e) \<and> sv_mem s' = sv_mem s \<or>
    (\<exists>m. mem_Update ctx msg (sv_mem s) = Inr m \<and> SaveConsumer ctx c m = Inr (sv_mem s') \<and>
       (\<forall>x. r = Inr x \<longrightarrow> (\<exists>body. bl_Read bl ctx (m_LogOffset msg) (sv_log s) = Inr body \<and> x = (msg\<lparr>m_Body := body\<rparr>, did)))))"
  using assms unfolding acquire_tail_def
  by (auto simp: SaveConsumer_def mem_Update_def guardE_def split: sum.splits option.splits if_splits)

lemma Acquire_same:
  assumes "Acquire_op bl rs ctx now cid s = (r, s')" "valid_ranges rs"
  shows "same (sv_mem s) (sv_mem s')"
proof (cases "mem_wf (sv_mem s)")
  case wf: True
  from Acquire_op_cases [OF assms(1)] show ?thesis
  proof (elim disjE exE conjE)
    fix c msg rest d m
    assume "ListReady rs ctx (co_Address c) 1 (sv_mem s) = Inr (msg # rest)"
      "deadLetter ctx msg ''ttl-expired'' (sv_mem s) = Inr (d, m)" "s' = s\<lparr>sv_mem := m\<rparr>"
    then show ?thesis using same_deadLetter(1) ready_offs(2) [OF _ wf assms(2)] by fastforce
  next
    fix c msg rest
    assume a: "GetConsumer ctx cid (sv_mem s) = Inr c" "ListReady rs ctx (co_Address c) 1 (sv_mem s) = Inr (msg # rest)"
      "acquire_tail bl ctx c (acquired c msg) (sv_seq s + 1) (s\<lparr>sv_seq := sv_seq s + 1\<rparr>) = (r, s')"
    have off: "offs (sv_mem s) (m_ID msg) = Some (place msg)" using ready_offs(2) [OF a(2) wf assms(2)] by simp
    have nu: "no_unsettled (sv_mem s) \<Longrightarrow> co_Unsettled c = []"
      using a(1) by (auto simp: no_unsettled_def consumers.fetch_Inr)
    from acquire_tail_cases [OF a(3)] consider "sv_mem s' = sv_mem s"
      | m where "mem_Update ctx (acquired c msg) (sv_mem s) = Inr m" "SaveConsumer ctx c m = Inr (sv_mem s')" by auto
    then show ?thesis
    proof cases
      case 2
      have "same (sv_mem s) m" by (rule same_Update [OF 2(1)]) (simp add: off)
      moreover have "mm_consumers m = mm_consumers (sv_mem s)"
        using 2(1) by (auto simp: mem_Update_def guardE_Inr_iff split: if_splits)
      then have "no_unsettled m \<Longrightarrow> co_Unsettled c = []" using nu by (simp add: no_unsettled_def)
      then have "same m (sv_mem s')" by (rule same_SaveConsumer [OF 2(2)])
      ultimately show ?thesis by (rule same_trans)
    qed simp
  qed simp
qed (simp add: same_def)

section \<open>Publishing, staging, administration\<close>

lemma grows_Put: "mem_Put ctx msg m = Inr m' \<Longrightarrow> grows m m'"
  by (auto simp: mem_Put_def guardE_Inr_iff grows_def mem_wf_def offs_def no_unsettled_def limited_def map_simps split: if_splits)

lemma publish_loop_grows:
  "publish_loop bl rs ctx clk rnd inp i routes created s = (r, s') \<Longrightarrow> valid_ranges rs \<Longrightarrow>
     grows (sv_mem s) (sv_mem s')"
proof (induction routes arbitrary: i created s)
  case (Cons route routes)
  show ?case
  proof (cases "\<exists>mid msg off l m. randomID ''msg'' (rnd i) = Inr mid \<and>
      NewMessage mid (inp\<lparr>p_Address := rt_Destination route\<rparr>) (clk i) = Inr msg \<and>
      bl_Append bl ctx (m_ID msg) (m_Body msg) (sv_log s) = Inr (off, l) \<and>
      mem_Put ctx (msg\<lparr>m_LogOffset := off\<rparr>) (sv_mem s) = Inr m")
    case False
    then have "sv_mem s' = sv_mem s"
      using Cons.prems(1) by (auto simp: Let_def split: sum.splits prod.splits)
    then show ?thesis by simp
  next
    case True
    then obtain mid msg off l m where a: "randomID ''msg'' (rnd i) = Inr mid"
      "NewMessage mid (inp\<lparr>p_Address := rt_Destination route\<rparr>) (clk i) = Inr msg"
      "bl_Append bl ctx (m_ID msg) (m_Body msg) (sv_log s) = Inr (off, l)"
      "mem_Put ctx (msg\<lparr>m_LogOffset := off\<rparr>) (sv_mem s) = Inr m" by blast
    obtain e m' where enf: "enforceMaxLength rs ctx (rt_Destination route) m = (e, m')" by fastforce
    have g: "grows (sv_mem s) m'"
      using grows_trans [OF grows_Put [OF a(4)] same_grows [OF enforceMaxLength_same [OF enf Cons.prems(2)]]] .
    show ?thesis
    proof (cases e)
      case None
      then have "publish_loop bl rs ctx clk rnd inp (Suc i) routes (created @ [msg\<lparr>m_LogOffset := off\<rparr>])
          (s\<lparr>sv_log := l, sv_mem := m'\<rparr>) = (r, s')"
        using Cons.prems(1) a enf by (simp add: Let_def)
      from Cons.IH [OF this Cons.prems(2)] g show ?thesis by (simp add: grows_trans)
    next
      case (Some x)
      then show ?thesis using Cons.prems(1) a enf g by (auto simp: Let_def)
    qed
  qed
qed simp

lemma stage_loop_grows:
  "stage_loop bl ctx clk rnd inp i routes out s = (r, s') \<Longrightarrow> grows (sv_mem s) (sv_mem s')"
proof (induction routes arbitrary: i out s inp)
  case (Cons route routes)
  let ?inp = "inp\<lparr>p_Address := rt_Destination route\<rparr>"
  show ?case
  proof (cases "\<exists>mid msg off l m. randomID ''msg'' (rnd i) = Inr mid \<and> NewMessage mid ?inp (clk i) = Inr msg \<and>
      bl_Append bl ctx (m_ID msg) (m_Body msg) (sv_log s) = Inr (off, l) \<and>
      mem_Put ctx (msg\<lparr>m_State := StateAcquired, m_LogOffset := off\<rparr>) (sv_mem s) = Inr m")
    case False
    then have "sv_mem s' = sv_mem s"
      using Cons.prems(1) by (auto simp: Let_def split: sum.splits prod.splits)
    then show ?thesis by simp
  next
    case True
    then obtain mid msg off l m where a: "randomID ''msg'' (rnd i) = Inr mid" "NewMessage mid ?inp (clk i) = Inr msg"
      "bl_Append bl ctx (m_ID msg) (m_Body msg) (sv_log s) = Inr (off, l)"
      "mem_Put ctx (msg\<lparr>m_State := StateAcquired, m_LogOffset := off\<rparr>) (sv_mem s) = Inr m" by blast
    have "stage_loop bl ctx clk rnd ?inp (Suc i) routes (out @ [msg\<lparr>m_State := StateAcquired, m_LogOffset := off\<rparr>])
        (s\<lparr>sv_log := l, sv_mem := m\<rparr>) = (r, s')"
      using Cons.prems(1) a by (simp add: Let_def)
    from Cons.IH [OF this] grows_Put [OF a(4)] show ?thesis by (simp add: grows_trans)
  qed
qed simp

lemma Publish_grows:
  "Publish_op bl rs ctx clk rnd inp s = (r, s') \<Longrightarrow> valid_ranges rs \<Longrightarrow> grows (sv_mem s) (sv_mem s')"
  by (auto simp: Publish_op_def Let_def split: sum.splits option.splits if_splits dest: publish_loop_grows)

lemma Stage_grows: "Stage bl rs ctx clk rnd inp s = (r, s') \<Longrightarrow> grows (sv_mem s) (sv_mem s')"
  by (auto simp: Stage_def Let_def split: sum.splits option.splits if_splits dest: stage_loop_grows)

lemma same_messages:
  "mm_messages m' = mm_messages m \<Longrightarrow> mm_consumers m' = mm_consumers m \<Longrightarrow> (mem_wf m \<Longrightarrow> mem_wf m') \<Longrightarrow>
     (limited m \<Longrightarrow> limited m') \<Longrightarrow> same m m'"
  by (simp add: same_def offs_def [abs_def] no_unsettled_def)

lemma admin_same: "same m (admin_step ad m)"
proof (cases ad)
  case (ACreate pd ctx now inp)
  obtain r m' where c: "as_Create pd ctx now inp m = (r, m')" by fastforce
  have "same m m'"
  proof (cases r)
    case (Inr a)
    note d = as_Create_Inr [OF c [unfolded Inr]]
    have "limited m \<longrightarrow> limited m'"
      using addresses.create_Inr [of ctx a m m'] d New_Address_wf [of pd inp now a] by (auto simp: limited_def address_wf_def)
    with d show ?thesis using mem_wf_steps(1) [of m ctx a m']
      by (intro same_messages) (auto simp: mem_Create_def guardE_Inr_iff split: if_splits)
  qed (use admin_failure(1) [of pd ctx now inp m _ m'] c in auto)
  then show ?thesis by (simp add: ACreate c)
next
  case (ABind ctx now rnd inp)
  obtain r m' where c: "as_Bind ctx now rnd inp m = (r, m')" by fastforce
  have "same m m'"
  proof (cases r)
    case (Inr b)
    note d = as_Bind_Inr [OF c [unfolded Inr]]
    then show ?thesis using mem_wf_steps(4) [of m ctx b m']
      by (intro same_messages) (auto simp: CreateBinding_def guardE_Inr_iff limited_def split: if_splits)
  qed (use admin_failure(2) [of ctx now rnd inp m _ m'] c in auto)
  then show ?thesis by (simp add: ABind c)
next
  case (APause ctx name p)
  then show ?thesis
    using mem_wf_steps(2) [of m ctx name p]
    by (auto simp: as_Pause_def SetPaused_def guardE_def Let_def limited_def map_simps split: sum.splits option.splits intro!: same_messages)
qed

section \<open>Runs of the broker core\<close>

text \<open>
  One request to the delivery service or to the address administration, with any input. The random
  source fills the twelve bytes of a message identifier, or fails.
\<close>

definition twelve :: "(nat \<Rightarrow> byte list option) \<Rightarrow> bool" where
  "twelve rnd = (\<forall>i b. rnd i = Some b \<longrightarrow> length b = 12)"

inductive svc_step :: "'l BodyLog \<Rightarrow> 'l Service \<Rightarrow> 'l Service \<Rightarrow> bool" for bl where
  publish: "valid_ranges rs \<Longrightarrow> twelve rnd \<Longrightarrow> Publish_op bl rs ctx clk rnd inp s = (r, s') \<Longrightarrow> svc_step bl s s'"
| stage: "valid_ranges rs \<Longrightarrow> twelve rnd \<Longrightarrow> Stage bl rs ctx clk rnd inp s = (r, s') \<Longrightarrow> svc_step bl s s'"
| commit: "valid_ranges rs \<Longrightarrow> CommitStaged rs ctx mid (sv_mem s) = (e, m') \<Longrightarrow> svc_step bl s (s\<lparr>sv_mem := m'\<rparr>)"
| register: "Register ctx now cid a p sem (sv_mem s) = (rc, m') \<Longrightarrow> svc_step bl s (s\<lparr>sv_mem := m'\<rparr>)"
| acquire: "valid_ranges rs \<Longrightarrow> Acquire_op bl rs ctx now cid s = (ra, s') \<Longrightarrow> svc_step bl s s'"
| settle: "Settle_op ctx cid did st (sv_mem s) = (e, m') \<Longrightarrow> svc_step bl s (s\<lparr>sv_mem := m'\<rparr>)"
| disconnect: "valid_ranges rs \<Longrightarrow> Disconnect rs ctx now cid (sv_mem s) = (e, m') \<Longrightarrow> svc_step bl s (s\<lparr>sv_mem := m'\<rparr>)"
| sweep: "valid_ranges rs \<Longrightarrow> SweepExpired rs ctx clk (sv_mem s) = (rn, m') \<Longrightarrow> svc_step bl s (s\<lparr>sv_mem := m'\<rparr>)"
| replay: "valid_ranges rs \<Longrightarrow> ReplayDead rs ctx limit (sv_mem s) = (rn, m') \<Longrightarrow> svc_step bl s (s\<lparr>sv_mem := m'\<rparr>)"
| admin: "svc_step bl s (s\<lparr>sv_mem := admin_step ad (sv_mem s)\<rparr>)"

lemma svc_step_grows: "svc_step bl s s' \<Longrightarrow> grows (sv_mem s) (sv_mem s')"
proof (induction rule: svc_step.induct)
  case (publish rs ctx clk rnd inp s r s') then show ?case by (simp add: Publish_grows)
next
  case (stage rs ctx clk rnd inp s r s') then show ?case by (simp add: Stage_grows)
next
  case (acquire rs ctx now cid s ra s') then show ?case by (simp add: Acquire_same same_grows)
next
  case (commit rs ctx mid s e m') then show ?case by (simp add: CommitStaged_grows)
qed (auto intro!: same_grows dest: Register_same Settle_same Disconnect_same
  maintenance_same simp: admin_same)

text \<open>A staged message is also removed when its transaction is rolled back.\<close>

inductive svc_reachable :: "'l BodyLog \<Rightarrow> 'l \<Rightarrow> 'l Service \<Rightarrow> bool" for bl l where
  start: "svc_reachable bl l (NewDeliveryService NewMemory l)"
| step: "svc_reachable bl l s \<Longrightarrow> svc_step bl s s' \<Longrightarrow> svc_reachable bl l s'"
| rollback: "svc_reachable bl l s \<Longrightarrow> RollbackStaged ctx mid (sv_mem s) = Inr m' \<Longrightarrow> svc_reachable bl l (s\<lparr>sv_mem := m'\<rparr>)"

lemma RollbackStaged_inv:
  "RollbackStaged ctx mid m = Inr m' \<Longrightarrow> mem_wf m \<Longrightarrow> mem_wf m' \<and> (no_unsettled m \<longrightarrow> no_unsettled m')"
  by (auto simp: RollbackStaged_def deleteMessage_def result_iffs no_unsettled_def mem_wf_def split: if_splits)

lemma svc_reachable_inv: "svc_reachable bl l s \<Longrightarrow> mem_wf (sv_mem s) \<and> no_unsettled (sv_mem s)"
proof (induction rule: svc_reachable.induct)
  case start
  then show ?case by (simp add: NewDeliveryService_def mem_wf_New) (simp add: NewMemory_def no_unsettled_def)
next
  case (step s s')
  then show ?case using svc_step_grows [OF step(2)] by (simp add: grows_def)
next
  case (rollback s ctx mid m')
  then show ?case using RollbackStaged_inv [OF rollback(2)] by simp
qed

section \<open>Unique delivery\<close>

definition busy :: "Memory \<Rightarrow> string \<Rightarrow> bool" where
  "busy m k = (\<exists>msg. message_view m k = Some msg \<and> m_State msg \<in> {StateAcquired, StateAccepted})"

lemma Acquire_success:
  assumes "Acquire_op bl rs ctx now cid s = (Inr (msg, did), s')"
  shows "\<exists>c first rest body m. ctx = None \<and> consumer_view (sv_mem s) cid = Some c \<and> co_Credit c \<noteq> 0 \<and> co_Connected c \<and>
    ListReady rs None (co_Address c) 1 (sv_mem s) = Inr (first # rest) \<and> \<not> Message_Expired first now \<and>
    did = sv_seq s + 1 \<and> bl_Read bl None (m_LogOffset first) (sv_log s) = Inr body \<and>
    msg = (acquired c first)\<lparr>m_Body := body\<rparr> \<and>
    mem_Update None (acquired c first) (sv_mem s) = Inr m \<and> SaveConsumer None c m = Inr (sv_mem s')"
proof -
  from Acquire_op_cases [OF assms] obtain c first rest where
    c: "GetConsumer ctx cid (sv_mem s) = Inr c" "co_Credit c \<noteq> 0" "co_Connected c"
      "ListReady rs ctx (co_Address c) 1 (sv_mem s) = Inr (first # rest)" "\<not> Message_Expired first now"
      "acquire_tail bl ctx c (acquired c first) (sv_seq s + 1) (s\<lparr>sv_seq := sv_seq s + 1\<rparr>) = (Inr (msg, did), s')"
    by auto
  have ctx: "ctx = None" "consumer_view (sv_mem s) cid = Some c" using c(1) by (auto simp: consumers.fetch_Inr)
  from acquire_tail_cases [OF c(6)] ctx c show ?thesis by auto
qed

lemma message_view_Save: "SaveConsumer ctx c m = Inr m' \<Longrightarrow> message_view m' = message_view m"
  by (auto simp: SaveConsumer_def guardE_Inr_iff)

lemma busy_put: "busy m k \<Longrightarrow> \<not> busy m (m_ID msg) \<Longrightarrow> mem_Update ctx msg m = Inr m' \<Longrightarrow> busy m' k"
  by (auto simp: busy_def mem_Update_def guardE_Inr_iff map_simps split: if_splits)

lemma ready_not_busy:
  assumes "ListReady rs ctx a n m = Inr ready" "mem_wf m" "valid_ranges rs" "msg \<in> set ready"
  shows "\<not> busy m (m_ID msg)"
  using ready_offs(1) [OF assms] by (auto simp: busy_def is_ready_def)

lemma Acquire_busy:
  assumes "Acquire_op bl rs ctx now cid s = (r, s')" "mem_wf (sv_mem s)" "valid_ranges rs"
  shows "busy (sv_mem s) k \<Longrightarrow> busy (sv_mem s') k"
    and "r = Inr (msg, did) \<Longrightarrow> \<not> busy (sv_mem s) (m_ID msg) \<and> busy (sv_mem s') (m_ID msg)"
proof -
  show "busy (sv_mem s') k" if b: "busy (sv_mem s) k"
    using Acquire_op_cases [OF assms(1)]
  proof (elim disjE exE conjE)
    fix c msg rest d m
    assume a: "ListReady rs ctx (co_Address c) 1 (sv_mem s) = Inr (msg # rest)"
      "deadLetter ctx msg ''ttl-expired'' (sv_mem s) = Inr (d, m)" "s' = s\<lparr>sv_mem := m\<rparr>"
    have "k \<noteq> m_ID msg" using ready_not_busy [OF a(1) assms(2,3)] b by auto
    then show ?thesis using a(2,3) b by (auto simp: deadLetter_Inr busy_def map_simps)
  next
    fix c msg rest
    assume a: "ListReady rs ctx (co_Address c) 1 (sv_mem s) = Inr (msg # rest)"
      "acquire_tail bl ctx c (acquired c msg) (sv_seq s + 1) (s\<lparr>sv_seq := sv_seq s + 1\<rparr>) = (r, s')"
    have "\<not> busy (sv_mem s) (m_ID (acquired c msg))" using ready_not_busy [OF a(1) assms(2,3)] by simp
    with b busy_put [OF b this] acquire_tail_cases [OF a(2)] message_view_Save show ?thesis
      by (auto simp: busy_def)
  qed (use b in simp)
  show "\<not> busy (sv_mem s) (m_ID msg) \<and> busy (sv_mem s') (m_ID msg)" if "r = Inr (msg, did)"
  proof -
    from Acquire_success [OF assms(1) [unfolded that]] obtain c first rest body m where
      a: "ListReady rs None (co_Address c) 1 (sv_mem s) = Inr (first # rest)" "msg = (acquired c first)\<lparr>m_Body := body\<rparr>"
        "mem_Update None (acquired c first) (sv_mem s) = Inr m" "SaveConsumer None c m = Inr (sv_mem s')" by blast
    have "busy m (m_ID first)"
      using a(3) by (auto simp: mem_Update_def busy_def map_simps acquired_def split: if_splits)
    then show ?thesis
      using ready_not_busy [OF a(1) assms(2,3), of first] message_view_Save [OF a(4)] a(2) by (simp add: busy_def)
  qed
qed

text \<open>A sequence of acquisitions by any consumers, and the messages they return.\<close>

fun acquire_run :: "'l BodyLog \<Rightarrow> (ranges \<times> time \<times> string) list \<Rightarrow> 'l Service \<Rightarrow> Message list \<times> 'l Service" where
  "acquire_run bl [] s = ([], s)"
| "acquire_run bl ((rs, now, cid) # xs) s =
     (let (r, s1) = Acquire_op bl rs None now cid s; (ms, s2) = acquire_run bl xs s1 in
      (case r of Inl e \<Rightarrow> ms | Inr (msg, did) \<Rightarrow> msg # ms, s2))"

lemma acquire_run_distinct:
  assumes "mem_wf (sv_mem s)" "\<forall>(rs, now, cid)\<in>set xs. valid_ranges rs" "acquire_run bl xs s = (ms, s')"
  shows "distinct (map m_ID ms) \<and> (\<forall>msg\<in>set ms. \<not> busy (sv_mem s) (m_ID msg))"
  using assms
proof (induction xs arbitrary: s ms s')
  case (Cons x xs)
  obtain rs now cid where x: "x = (rs, now, cid)" by (cases x)
  obtain r s1 where a: "Acquire_op bl rs None now cid s = (r, s1)" by fastforce
  obtain ms1 s2 where run: "acquire_run bl xs s1 = (ms1, s2)" by fastforce
  have rs: "valid_ranges rs" using Cons.prems(2) x by simp
  have "mem_wf (sv_mem s1)" using Acquire_same [OF a rs] Cons.prems(1) by (simp add: same_def)
  then have IH: "distinct (map m_ID ms1)" "\<And>msg. msg \<in> set ms1 \<Longrightarrow> \<not> busy (sv_mem s1) (m_ID msg)"
    using Cons.IH [OF _ _ run] Cons.prems(2) by auto
  note B = Acquire_busy [OF a Cons.prems(1) rs]
  show ?case
  proof (cases r)
    case (Inl e)
    then show ?thesis using Cons.prems(3) IH B(1) x a run by (auto simp: Let_def)
  next
    case (Inr y)
    obtain msg did where y: "y = (msg, did)" by (cases y)
    have "ms = msg # ms1" using Cons.prems(3) x a run Inr y by (simp add: Let_def)
    then show ?thesis using IH B Inr y by fastforce
  qed
qed simp

lemma svc_steps_grow: "(svc_step bl)\<^sup>*\<^sup>* s s' \<Longrightarrow> grows (sv_mem s) (sv_mem s')"
  by (induction rule: rtranclp_induct) (auto intro: grows_trans svc_step_grows)

text \<open>Whatever requests follow, a stored message keeps its identifier and its place in the log.\<close>

lemma svc_steps_keep:
  assumes "(svc_step bl)\<^sup>*\<^sup>* s s'" "mem_wf (sv_mem s)" "mem_message None k (sv_mem s) = Inr msg"
  shows "\<exists>msg'. mem_message None k (sv_mem s') = Inr msg' \<and> m_LogOffset msg' = m_LogOffset msg \<and> m_ID msg' = k"
proof -
  have "offs (sv_mem s) k = Some (place msg)" using assms(3) by (simp add: offs_def messages.fetch_Inr)
  then obtain t where "mem_wf (sv_mem s')" "offs (sv_mem s') k = Some (m_LogOffset msg, t)"
    using svc_steps_grow [OF assms(1)] assms(2) unfolding grows_def by blast
  then show ?thesis
    using keyed_get [OF mem_wfD(3)] by (auto simp: offs_def messages.fetch_Inr)
qed

section \<open>Properties\<close>

text \<open>
  C6: an acquisition that succeeds hands out the first message of the ready queue of the consumer's
  address: an available message, not expired, that no other ready message precedes by priority and
  age. The store keeps it as acquired (as accepted under at-most-once), its delivery count is one
  higher, and the body returned is the one in the log. The consumer needs to be connected and to
  have credit.
\<close>

theorem Acquire_first:
  assumes "Acquire_op bl rs ctx now cid s = (Inr (msg, did), s')" "mem_wf (sv_mem s)" "valid_ranges rs"
  shows "\<exists>c first. GetConsumer None cid (sv_mem s) = Inr c \<and> co_Credit c \<noteq> 0 \<and> co_Connected c \<and>
    mem_message None (m_ID msg) (sv_mem s) = Inr first \<and> is_ready (co_Address c) first \<and> \<not> Message_Expired first now \<and>
    (\<forall>x. mem_message None (m_ID x) (sv_mem s) = Inr x \<and> is_ready (co_Address c) x \<longrightarrow> ready_key first \<le> ready_key x) \<and>
    mem_message None (m_ID msg) (sv_mem s') = Inr (acquired c first) \<and>
    bl_Read bl None (m_LogOffset first) (sv_log s) = Inr (m_Body msg) \<and> msg = (acquired c first)\<lparr>m_Body := m_Body msg\<rparr>"
proof -
  from Acquire_success [OF assms(1)] obtain c first rest body m where
    c: "ctx = None" "consumer_view (sv_mem s) cid = Some c" "co_Credit c \<noteq> 0" "co_Connected c"
      "ListReady rs None (co_Address c) 1 (sv_mem s) = Inr (first # rest)" "\<not> Message_Expired first now"
      "bl_Read bl None (m_LogOffset first) (sv_log s) = Inr body" "msg = (acquired c first)\<lparr>m_Body := body\<rparr>"
      "mem_Update None (acquired c first) (sv_mem s) = Inr m" "SaveConsumer None c m = Inr (sv_mem s')" by blast
  have f: "message_view (sv_mem s) (m_ID first) = Some first \<and> is_ready (co_Address c) first"
    using ready_offs(1) [OF c(5) assms(2,3), of first] by simp
  have least: "ready_key first \<le> ready_key x" if x: "message_view (sv_mem s) (m_ID x) = Some x" "is_ready (co_Address c) x" for x
  proof -
    obtain all where all: "ListReady rs None (co_Address c) 0 (sv_mem s) = Inr all" by (simp add: ListReady_def)
    have "x \<in> set all" using ListReady_all(3) [OF assms(2,3) all] x by simp
    moreover have "first # rest = take 1 all"
      using c(5) all by (simp add: ListReady_eq limit_to_take)
    then have "all = first # tl all" by (cases all) auto
    moreover have "sorted (map ready_key all)" by (rule ListReady_all(2) [OF assms(2,3) all])
    ultimately show ?thesis by (metis (no_types, lifting) list.simps(9) sorted_simps(2) set_ConsD order_refl image_eqI list.set_map)
  qed
  have "message_view m = (message_view (sv_mem s))(m_ID first \<mapsto> acquired c first)"
    using c(9) by (auto simp: mem_Update_def update_conv' split: if_splits)
  then have "message_view (sv_mem s') (m_ID first) = Some (acquired c first)"
    using message_view_Save [OF c(10)] by simp
  with c f least show ?thesis
    by (intro exI [of _ c] exI [of _ first]) (simp add: consumers.fetch_Inr messages.fetch_Inr)
qed

text \<open>
  C7: no message is handed out twice. However the acquisitions of all consumers are interleaved,
  as long as nothing is released, restored or replayed between them, the messages they return are
  all different, and none of them had been handed out before.
\<close>

theorem acquire_unique:
  assumes "mem_wf (sv_mem s)" "\<forall>(rs, now, cid)\<in>set xs. valid_ranges rs" "acquire_run bl xs s = (ms, s')"
  shows "distinct (map m_ID ms) \<and> (\<forall>msg\<in>set ms. \<not> busy (sv_mem s) (m_ID msg))"
  by (rule acquire_run_distinct [OF assms])

text \<open>
  C40: a settlement never succeeds. In no state that requests to a new broker can lead to does a
  consumer have an unsettled delivery, as \<open>Consumer.Acquire\<close> records none; so \<open>Settle\<close> fails for every
  consumer, delivery and disposition and changes nothing.
\<close>

theorem Settle_never_succeeds:
  assumes "svc_reachable bl l s"
  shows "\<exists>e. Settle_op ctx cid did st (sv_mem s) = (Some e, sv_mem s) \<and>
    (ctx = None \<longrightarrow> e = New ''consumer not found'' \<or> e = New ''delivery not found'')"
proof -
  have "no_unsettled (sv_mem s)" using svc_reachable_inv [OF assms] by simp
  then show ?thesis
    by (cases ctx; cases "consumer_view (sv_mem s) cid")
      (auto simp: Settle_op_def GetConsumer_def no_unsettled_def)
qed

text \<open>
  No request loses a message. Whatever sequence of requests the broker core is given
  (publications, commits, registrations, acquisitions, settlements, disconnections, sweeps, replays,
  administration, with any inputs and contexts), every message it had keeps its identifier and its
  place in the body log. Only the roll-back of a transaction removes messages.
\<close>

theorem requests_lose_nothing:
  assumes "(svc_step bl)\<^sup>*\<^sup>* s s'" "mem_wf (sv_mem s)" "mem_message None k (sv_mem s) = Inr msg"
  shows "\<exists>msg'. mem_message None k (sv_mem s') = Inr msg' \<and> m_LogOffset msg' = m_LogOffset msg \<and> m_ID msg' = k"
  by (rule svc_steps_keep [OF assms])

text \<open>A queue with one message and one consumer, for the witnesses.\<close>

definition sample_consumer :: Consumer where
  "sample_consumer = \<lparr>co_ID = ''c1'', co_Address = ''jobs'', co_Prefetch = 1, co_Credit = 1, co_Unsettled = [],
     co_Semantics = AtLeastOnce, co_Connected = True, co_CreatedAt = 1, co_LastSeen = 1\<rparr>"

definition sample_svc :: "MemoryLog Service" where
  "sample_svc = \<lparr>sv_mem = sample_queue\<lparr>
       mm_messages := [(''m1'', (sample_message ''m1'' 1 5)\<lparr>m_ExpiresAt := 100\<rparr>)],
       mm_consumers := [(''c1'', sample_consumer)]\<rparr>,
     sv_log = \<lparr>ml_records = [(0, [7])], ml_next = 1\<rparr>, sv_seq = 0\<rparr>"

lemma mem_wf_sample_svc: "mem_wf (sv_mem sample_svc)"
  using topology_sample_queue
  by (simp add: sample_svc_def topology_ok_def mem_wf_def keyed_def wf_map_def sample_message_def sample_consumer_def)

lemma sample_acquire:
  "\<exists>msg s'. Acquire_op memory_log_ops id_ranges None 10 ''c1'' sample_svc = (Inr (msg, 1), s') \<and> m_ID msg = ''m1''"
  by (simp add: Acquire_op_def sample_svc_def GetConsumer_def sample_consumer_def ListReady_def id_ranges_def
      limit_to_def is_ready_def sample_message_def Message_Expired_def Consumer_Acquire_def mem_Update_def
      SaveConsumer_def memory_log_ops_def ml_Read_def)

theorem Acquire_first_witness:
  "\<exists>msg s' c first. Acquire_op memory_log_ops id_ranges None 10 ''c1'' sample_svc = (Inr (msg, 1), s') \<and>
     mem_message None (m_ID msg) (sv_mem sample_svc) = Inr first \<and>
     mem_message None (m_ID msg) (sv_mem s') = Inr (acquired c first)"
proof -
  obtain msg s' where a: "Acquire_op memory_log_ops id_ranges None 10 ''c1'' sample_svc = (Inr (msg, 1), s')"
    using sample_acquire by blast
  from Acquire_first [OF a mem_wf_sample_svc valid_id_ranges] a show ?thesis by blast
qed

theorem acquire_unique_witness:
  "\<exists>ms s'. acquire_run memory_log_ops [(id_ranges, 10, ''c1''), (id_ranges, 11, ''c1'')] sample_svc = (ms, s') \<and>
     distinct (map m_ID ms) \<and> ms \<noteq> []"
proof -
  let ?xs = "[(id_ranges, 10 :: time, ''c1''), (id_ranges, 11, ''c1'')]"
  obtain ms s' where run: "acquire_run memory_log_ops ?xs sample_svc = (ms, s')" by fastforce
  obtain msg s1 where "Acquire_op memory_log_ops id_ranges None 10 ''c1'' sample_svc = (Inr (msg, 1), s1)"
    using sample_acquire by blast
  with run have "ms \<noteq> []" by (auto simp: Let_def split: prod.splits sum.splits)
  with run acquire_unique [OF mem_wf_sample_svc _ run] show ?thesis by auto
qed

theorem Settle_never_succeeds_witness:
  "\<exists>e. Settle_op None ''c1'' 1 StateAccepted NewMemory = (Some e, NewMemory)"
proof -
  have "svc_reachable memory_log_ops NewMemoryLog (NewDeliveryService NewMemory NewMemoryLog)"
    by (rule svc_reachable.start)
  from Settle_never_succeeds [OF this, of None "''c1''" 1 StateAccepted] show ?thesis
    by (auto simp: NewDeliveryService_def)
qed

theorem requests_lose_nothing_witness:
  "\<exists>s' msg'. svc_step memory_log_ops sample_svc s' \<and> mem_message None ''m1'' (sv_mem s') = Inr msg'"
proof -
  obtain msg s' where a: "Acquire_op memory_log_ops id_ranges None 10 ''c1'' sample_svc = (Inr (msg, 1), s')"
    using sample_acquire by blast
  have step: "svc_step memory_log_ops sample_svc s'" by (rule svc_step.acquire [OF valid_id_ranges a])
  obtain msg0 where m: "mem_message None ''m1'' (sv_mem sample_svc) = Inr msg0"
    by (simp add: mem_message_def sample_svc_def)
  from requests_lose_nothing [OF r_into_rtranclp, of memory_log_ops, OF step mem_wf_sample_svc m] step
  show ?thesis by blast
qed

end
