(* ===== verification/Peer.thy ===== *)
theory Peer
  imports Codec Connection Session Link ConsumeProps "HOL-Library.Signed_Division"
begin

text \<open>
  The AMQP server (\<open>internal/amqp/adapter/server.go\<close>): the peer that serves one connection, with the
  handshake, one handler per performative and the loop that reads frames until the connection ends.

  The socket is the bytes still to be read, the bytes written so far and the error its writes
  return, if any; deadlines, TLS and the accept loop are input and output and are left out. What a
  handler takes from its environment (context, clock, random source, map orders) is an \<open>env\<close>. A
  handler returns its error and the peer it leaves behind, also when it fails half-way. A call
  through a nil pointer is the error \<open>nil_deref\<close>: in Go it is a panic that nothing recovers, and it
  ends the whole process.
\<close>

section \<open>State\<close>

record 'l Server =
  sr_MaxFrame :: "32 word"
  sr_IdleTimeout :: duration
  sr_Auth :: "StaticAuthenticator option"
  sr_Connections :: conn_Registry
  sr_Sessions :: session_Registry
  sr_Links :: link_Registry
  sr_Delivery :: "'l Service"

record net_Conn =
  nc_in :: "byte list"
  nc_out :: "byte list"
  nc_werr :: "error option"
  nc_remote :: string

record 'l peer =
  pe_server :: "'l Server"
  pe_net :: net_Conn
  pe_connection :: Connection
  pe_identity :: Identity
  pe_sessionIDs :: "(16 word, string) gomap"
  pe_linkIDs :: "(string, string) gomap"
  pe_deliveryConsumer :: "(32 word, string) gomap"

record env =
  e_ctx :: ctx
  e_now :: time
  e_rnd :: "byte list option"
  e_clk :: "nat \<Rightarrow> time"
  e_rnds :: "nat \<Rightarrow> byte list option"
  e_ranges :: "nat \<Rightarrow> ranges"
  e_sessions :: "(string, Session) order"
  e_links :: "(string, Link) order"

definition nil_deref :: error where
  "nil_deref = Panic ''invalid memory address or nil pointer dereference''"

text \<open>
  Changes of the objects the peer shares with the registries. \<open>p.connection\<close> is the object the
  connection registry holds, so both are updated.
\<close>

definition set_conn :: "Connection \<Rightarrow> 'l peer \<Rightarrow> 'l peer" where
  "set_conn c p = p\<lparr>pe_connection := c,
    pe_server := (pe_server p)\<lparr>sr_Connections := conn_Set c (sr_Connections (pe_server p))\<rparr>\<rparr>"

definition set_sessions :: "session_Registry \<Rightarrow> 'l peer \<Rightarrow> 'l peer" where
  "set_sessions r p = p\<lparr>pe_server := (pe_server p)\<lparr>sr_Sessions := r\<rparr>\<rparr>"

definition set_links :: "link_Registry \<Rightarrow> 'l peer \<Rightarrow> 'l peer" where
  "set_links r p = p\<lparr>pe_server := (pe_server p)\<lparr>sr_Links := r\<rparr>\<rparr>"

definition set_delivery :: "'l Service \<Rightarrow> 'l peer \<Rightarrow> 'l peer" where
  "set_delivery s p = p\<lparr>pe_server := (pe_server p)\<lparr>sr_Delivery := s\<rparr>\<rparr>"

definition set_mem :: "Memory \<Rightarrow> 'l peer \<Rightarrow> 'l peer" where
  "set_mem m p = set_delivery (sr_Delivery (pe_server p)\<lparr>sv_mem := m\<rparr>) p"

abbreviation peer_sessions :: "'l peer \<Rightarrow> session_Registry" where
  "peer_sessions p \<equiv> sr_Sessions (pe_server p)"

abbreviation peer_links :: "'l peer \<Rightarrow> link_Registry" where
  "peer_links p \<equiv> sr_Links (pe_server p)"

abbreviation peer_delivery :: "'l peer \<Rightarrow> 'l Service" where
  "peer_delivery p \<equiv> sr_Delivery (pe_server p)"

abbreviation peer_state :: "'l peer \<Rightarrow> conn_State" where
  "peer_state p \<equiv> cs_State (Conn_Snapshot (pe_connection p))"

text \<open>\<open>fmt.Sprintf("%d:%d", channel, handle)\<close>\<close>

definition link_slot :: "16 word \<Rightarrow> 32 word \<Rightarrow> string" where
  "link_slot channel handle = dec (unat channel) @ '':'' @ dec (unat handle)"

definition peer_randomID :: "string \<Rightarrow> byte list option \<Rightarrow> error + string" where
  "peer_randomID pre rnd = random_id pre rnd"

definition readUint32 :: "byte list \<Rightarrow> 32 word" where
  "readUint32 b = (if length b < 4 then 0 else Uint32 b)"

section \<open>Writing\<close>

definition peer_write :: "16 word \<Rightarrow> byte \<Rightarrow> Performative \<Rightarrow> byte list \<Rightarrow> 'l peer \<Rightarrow> error option \<times> 'l peer" where
  "peer_write channel typ perf payload p =
    (case FrameFor channel perf payload of
       Inl e \<Rightarrow> (Some e, p)
     | Inr frame \<Rightarrow>
       (case WriteFrame (nc_werr (pe_net p)) (nc_out (pe_net p)) (frame\<lparr>f_Type := typ\<rparr>) (c_MaxFrame (pe_connection p)) of
          Inl e \<Rightarrow> (Some e, p)
        | Inr out \<Rightarrow> (None, p\<lparr>pe_net := (pe_net p)\<lparr>nc_out := out\<rparr>\<rparr>)))"

text \<open>\<open>p.net.Write(b)\<close> and \<open>io.ReadFull(p.net, b)\<close>\<close>

definition net_write :: "byte list \<Rightarrow> 'l peer \<Rightarrow> error option \<times> 'l peer" where
  "net_write b p =
    (case nc_werr (pe_net p) of
       Some e \<Rightarrow> (Some e, p)
     | None \<Rightarrow> (None, p\<lparr>pe_net := (pe_net p)\<lparr>nc_out := nc_out (pe_net p) @ b\<rparr>\<rparr>))"

definition set_in :: "byte list \<Rightarrow> 'l peer \<Rightarrow> 'l peer" where
  "set_in b p = p\<lparr>pe_net := (pe_net p)\<lparr>nc_in := b\<rparr>\<rparr>"

text \<open>\<open>if err := f(p); err != nil { return err }; g(p)\<close>\<close>

definition thenE :: "error option \<times> 'l peer \<Rightarrow> ('l peer \<Rightarrow> error option \<times> 'l peer) \<Rightarrow> error option \<times> 'l peer" where
  "thenE r g = (case r of (Some e, p) \<Rightarrow> (Some e, p) | (None, p) \<Rightarrow> g p)"

definition failE :: "string \<Rightarrow> 'l peer \<Rightarrow> error option \<times> 'l peer" where
  "failE msg p = (Some (New msg), p)"

section \<open>Handshake\<close>

definition sasl_mechanisms :: "StaticAuthenticator \<Rightarrow> Performative" where
  "sasl_mechanisms a = \<lparr>p_Descriptor = DescriptorSASLMechanisms, p_Fields = [VList (map VSymbol (Mechanisms a))]\<rparr>"

definition sasl_outcome :: "byte \<Rightarrow> Performative" where
  "sasl_outcome code = \<lparr>p_Descriptor = DescriptorSASLOutcome, p_Fields = [VUint8 code]\<rparr>"

text \<open>The SASL layer: the branch \<open>protocol == 3\<close>.\<close>

definition sasl_handshake :: "ctx \<Rightarrow> 'l peer \<Rightarrow> error option \<times> 'l peer" where
  "sasl_handshake ctx p =
    (case sr_Auth (pe_server p) of
       None \<Rightarrow> failE ''SASL requested but no authenticator configured'' p
     | Some auth \<Rightarrow>
         thenE (net_write SASLHeader p) (\<lambda>p.
         thenE (peer_write 0 FrameTypeSASL (sasl_mechanisms auth) [] p) (\<lambda>p.
         case ReadFrame (nc_in (pe_net p)) (c_MaxFrame (pe_connection p)) of
           Inl e \<Rightarrow> (Some e, p)
         | Inr (frame, rest) \<Rightarrow>
             let p = set_in rest p in
             case DecodePerformative (f_Body frame) of
               Inl _ \<Rightarrow> failE ''expected SASL init'' p
             | Inr (init, _) \<Rightarrow>
                 if p_Descriptor init \<noteq> DescriptorSASLInit then failE ''expected SASL init'' p
                 else
                   let auth_result = Authenticate auth ctx (Perf_String init 0) (Perf_Binary init 1);
                       code = (case auth_result of Inl _ \<Rightarrow> 1 | Inr _ \<Rightarrow> 0) in
                   thenE (peer_write 0 FrameTypeSASL (sasl_outcome code) [] p) (\<lambda>p.
                   case auth_result of
                     Inl e \<Rightarrow> (Some e, p)
                   | Inr identity \<Rightarrow>
                       let p = p\<lparr>pe_identity := identity\<rparr> in
                       case ReadFull 8 (nc_in (pe_net p)) of
                         Inl e \<Rightarrow> (Some e, p)
                       | Inr (header, rest) \<Rightarrow>
                           let p = set_in rest p in
                           if ValidateProtocolHeader header = Inr 0 then (None, p)
                           else failE ''expected AMQP protocol header after SASL'' p))))"

definition peer_transition :: "conn_State \<Rightarrow> 'l peer \<Rightarrow> error option \<times> 'l peer" where
  "peer_transition nxt p =
    (case Transition (pe_connection p) nxt of Inl e \<Rightarrow> (Some e, p) | Inr c \<Rightarrow> (None, set_conn c p))"

definition handshake :: "ctx \<Rightarrow> 'l peer \<Rightarrow> error option \<times> 'l peer" where
  "handshake ctx p =
    (case ReadFull 8 (nc_in (pe_net p)) of
       Inl e \<Rightarrow> (Some e, p)
     | Inr (header, rest) \<Rightarrow>
         let p = set_in rest p in
         case ValidateProtocolHeader header of
           Inl e \<Rightarrow> (Some e, p)
         | Inr protocol \<Rightarrow>
             thenE (if protocol = 3 then sasl_handshake ctx p else (None, p)) (\<lambda>p.
             thenE (net_write AMQPHeader p) (\<lambda>p. peer_transition StateHeader p)))"

section \<open>Handlers\<close>

text \<open>
  \<open>onOpen\<close>. The reply carries the idle timeout in milliseconds: Go's division truncates towards
  zero and the conversion to \<open>uint32\<close> wraps.
\<close>

definition open_reply :: "Connection \<Rightarrow> Performative" where
  "open_reply c = \<lparr>p_Descriptor = DescriptorOpen, p_Fields = [VString ''amqp-broker-core'', VNil,
     VUint32 (c_MaxFrame c), VUint16 65535, VUint32 (word_of_int (c_IdleTimeout c sdiv 1000000))]\<rparr>"

definition onOpen :: "Performative \<Rightarrow> 'l peer \<Rightarrow> error option \<times> 'l peer" where
  "onOpen perf p =
    (if peer_state p \<noteq> StateHeader then failE ''duplicate open'' p
     else
       let p = set_conn ((pe_connection p)\<lparr>c_ContainerID := Perf_String perf 0\<rparr>) p;
           peerMax = Perf_Uint perf 2;
           p = (if peerMax \<ge> 512 \<and> peerMax < c_MaxFrame (pe_connection p)
                then set_conn ((pe_connection p)\<lparr>c_MaxFrame := peerMax\<rparr>) p else p) in
       thenE (peer_transition StateOpen p) (\<lambda>p.
       peer_write 0 FrameTypeAMQP (open_reply (pe_connection p)) [] p))"

definition begin_reply :: "16 word \<Rightarrow> Performative" where
  "begin_reply channel = \<lparr>p_Descriptor = DescriptorBegin,
     p_Fields = [VUint16 channel, VUint32 0, VUint32 2048, VUint32 2048]\<rparr>"

definition onBegin :: "env \<Rightarrow> 16 word \<Rightarrow> 'l peer \<Rightarrow> error option \<times> 'l peer" where
  "onBegin en channel p =
    (if peer_state p \<noteq> StateOpen then failE ''begin before open'' p
     else case peer_randomID ''ssn'' (e_rnd en) of
       Inl e \<Rightarrow> (Some e, p)
     | Inr sid \<Rightarrow>
       (case Session_Begin (New_Session sid (c_ID (pe_connection p)) channel channel (e_now en)) of
          Inl e \<Rightarrow> (Some e, p)
        | Inr s \<Rightarrow>
          (case session_Add s (peer_sessions p) of
             Inl e \<Rightarrow> (Some e, p)
           | Inr r \<Rightarrow>
               let p = set_sessions r p in
               case AddSession (pe_connection p) channel sid of
                 Inl e \<Rightarrow> (Some e, p)
               | Inr c \<Rightarrow>
                   let p = set_conn c p; p = p\<lparr>pe_sessionIDs := put channel sid (pe_sessionIDs p)\<rparr> in
                   peer_write channel FrameTypeAMQP (begin_reply channel) [] p)))"

definition attach_address :: "Performative \<Rightarrow> string" where
  "attach_address perf = (if Perf_String perf 5 = '''' then Perf_String perf 6 else Perf_String perf 5)"

definition attach_reply :: "Performative \<Rightarrow> Performative" where
  "attach_reply perf = \<lparr>p_Descriptor = DescriptorAttach, p_Fields = [VString (Perf_String perf 0),
     VUint32 (Perf_Uint perf 1), VBool (\<not> Perf_Bool perf 2), VNil, VNil, Field perf 5, Field perf 6]\<rparr>"

text \<open>The consumer of a sending link, when the remote end is a receiver.\<close>

definition attach_consumer :: "env \<Rightarrow> string \<Rightarrow> string \<Rightarrow> Link \<Rightarrow> 'l peer \<Rightarrow> error option \<times> 'l peer" where
  "attach_consumer en lid address l p =
    (case Register (e_ctx en) (e_now en) lid address 100 AtLeastOnce (sv_mem (peer_delivery p)) of
       (Inl e, m) \<Rightarrow> (Some e, set_mem m p)
     | (Inr consumer, m) \<Rightarrow>
         let p = set_mem m p in
         (None, set_links (link_Set (Link_Grant l (co_Credit consumer)) (peer_links p)) p))"

definition onAttach :: "env \<Rightarrow> 16 word \<Rightarrow> Performative \<Rightarrow> 'l peer \<Rightarrow> error option \<times> 'l peer" where
  "onAttach en channel perf p =
    (case get (pe_sessionIDs p) channel of
       None \<Rightarrow> failE ''attach on unmapped session'' p
     | Some sessionID \<Rightarrow>
       let handle = Perf_Uint perf 1; remoteRole = Perf_Bool perf 2; address = attach_address perf in
       if address = '''' then failE ''attach source or target address required'' p
       else case peer_randomID ''lnk'' (e_rnd en) of
         Inl e \<Rightarrow> (Some e, p)
       | Inr lid \<Rightarrow>
         let role = (if remoteRole then RoleSender else RoleReceiver) in
         case tryE (New_Link lid sessionID (Perf_String perf 0) address handle role (e_now en)) Link_Attach of
           Inl e \<Rightarrow> (Some e, p)
         | Inr l \<Rightarrow>
           (case link_Add l (peer_links p) of
              Inl e \<Rightarrow> (Some e, p)
            | Inr r \<Rightarrow>
              let p = set_links r p in
              case session_Get (peer_sessions p) sessionID of
                None \<Rightarrow> (Some nil_deref, p)
              | Some s \<Rightarrow>
                (case Session_Attach s handle lid of
                   Inl e \<Rightarrow> (Some e, p)
                 | Inr s \<Rightarrow>
                   let p = set_sessions (session_Set s (peer_sessions p)) p;
                       p = p\<lparr>pe_linkIDs := put (link_slot channel handle) lid (pe_linkIDs p)\<rparr> in
                   thenE (if remoteRole then attach_consumer en lid address l p else (None, p)) (\<lambda>p.
                   peer_write channel FrameTypeAMQP (attach_reply perf) [] p))))"

definition transfer_perf :: "32 word \<Rightarrow> 32 word \<Rightarrow> Message \<Rightarrow> Performative" where
  "transfer_perf handle did msg = \<lparr>p_Descriptor = DescriptorTransfer,
     p_Fields = [VUint32 handle, VUint32 did, VBinary (bytes_of_string (m_ID msg)), VUint32 0, VBool False,
       VBool False, VNil, VNil, VNil, VNil, VBool False]\<rparr>"

text \<open>
  The delivery loop of \<open>onFlow\<close>: at most \<open>n\<close> more messages, in round \<open>i\<close>, for the sending link \<open>l\<close>. It
  ends quietly when no message is available.
\<close>

fun flow_loop :: "'l BodyLog \<Rightarrow> env \<Rightarrow> 16 word \<Rightarrow> 32 word \<Rightarrow> Link \<Rightarrow> nat \<Rightarrow> nat \<Rightarrow> 'l peer \<Rightarrow> error option \<times> 'l peer" where
  "flow_loop bl en channel handle l i 0 p = (None, p)"
| "flow_loop bl en channel handle l i (Suc n) p =
    (case Acquire_op bl (e_ranges en i) (e_ctx en) (e_clk en i) (l_ID l) (peer_delivery p) of
       (Inl e, d) \<Rightarrow> (if e = New ''no message available'' then None else Some e, set_delivery d p)
     | (Inr (msg, did), d) \<Rightarrow>
         let p = set_delivery d p in
         case Link_Consume l (word_of_nat (length (m_Body msg))) of
           Inl e \<Rightarrow> (Some e, p)
         | Inr l \<Rightarrow>
             let p = set_links (link_Set l (peer_links p)) p in
             thenE (peer_write channel FrameTypeAMQP (transfer_perf handle did msg) (EncodeDataSection (m_Body msg)) p)
               (\<lambda>p. flow_loop bl en channel handle l (Suc i) n
                  (p\<lparr>pe_deliveryConsumer := put did (l_ID l) (pe_deliveryConsumer p)\<rparr>)))"

definition onFlow :: "'l BodyLog \<Rightarrow> env \<Rightarrow> 16 word \<Rightarrow> Performative \<Rightarrow> 'l peer \<Rightarrow> error option \<times> 'l peer" where
  "onFlow bl en channel perf p =
    (case get (pe_sessionIDs p) channel of
       None \<Rightarrow> failE ''flow on unknown session'' p
     | Some sessionID \<Rightarrow>
       (case session_Get (peer_sessions p) sessionID of
          None \<Rightarrow> (Some nil_deref, p)
        | Some s \<Rightarrow>
          let p = set_sessions (session_Set (Session_Flow s (Perf_Uint perf 1) (Perf_Uint perf 3)) (peer_sessions p)) p;
              handle = Perf_Uint perf 4 in
          case get (pe_linkIDs p) (link_slot channel handle) of
            None \<Rightarrow> (None, p)
          | Some lid \<Rightarrow>
            (case link_Get (peer_links p) lid of
               None \<Rightarrow> (None, p)
             | Some l \<Rightarrow>
               let credit = Perf_Uint perf 6; l = Link_Grant l credit;
                   p = set_links (link_Set l (peer_links p)) p in
               if l_Role l \<noteq> RoleSender then (None, p)
               else flow_loop bl en channel handle l 0 (unat credit) p)))"

definition transfer_publish :: "Link \<Rightarrow> byte list \<Rightarrow> bool \<Rightarrow> Publish" where
  "transfer_publish l body settled = \<lparr>p_Address = l_Address l, p_RoutingKey = '''', p_Headers = [], p_Body = body,
     p_Priority = 0, p_TTL = 0, p_Settled = settled, p_TransactionID = ''''\<rparr>"

definition accepted_reply :: "32 word \<Rightarrow> Performative" where
  "accepted_reply did = \<lparr>p_Descriptor = DescriptorDisposition, p_Fields = [VBool True, VUint32 did, VNil, VBool True,
     VMap [(''descriptor'', VUint8 0x24), (''value'', VList [])]]\<rparr>"

definition onTransfer ::
  "'l BodyLog \<Rightarrow> env \<Rightarrow> 16 word \<Rightarrow> Performative \<Rightarrow> byte list \<Rightarrow> 'l peer \<Rightarrow> error option \<times> 'l peer" where
  "onTransfer bl en channel perf payload p =
    (case get (pe_sessionIDs p) channel of
       None \<Rightarrow> failE ''transfer on unknown session'' p
     | Some sessionID \<Rightarrow>
       (case session_Get (peer_sessions p) sessionID of
          None \<Rightarrow> (Some nil_deref, p)
        | Some s \<Rightarrow>
          (case ConsumeIncoming s of
             Inl e \<Rightarrow> (Some e, p)
           | Inr s \<Rightarrow>
             let p = set_sessions (session_Set s (peer_sessions p)) p in
             case get (pe_linkIDs p) (link_slot channel (Perf_Uint perf 0)) of
               None \<Rightarrow> failE ''transfer on unknown link'' p
             | Some lid \<Rightarrow>
               (case link_Get (peer_links p) lid of
                  None \<Rightarrow> (Some nil_deref, p)
                | Some l \<Rightarrow>
                    if l_Role l \<noteq> RoleReceiver then failE ''transfer sent on sender link'' p
                    else case DecodeDataSection payload of
                      Inl e \<Rightarrow> (Some e, p)
                    | Inr body \<Rightarrow>
                      (case Link_Consume l (word_of_nat (length body)) of
                         Inl e \<Rightarrow> (Some e, p)
                       | Inr l \<Rightarrow>
                         let p = set_links (link_Set l (peer_links p)) p in
                         case Publish_op bl (e_ranges en 0) (e_ctx en) (e_clk en) (e_rnds en)
                             (transfer_publish l body (Perf_Bool perf 4)) (peer_delivery p) of
                           ((Some e, _), d) \<Rightarrow> (Some e, set_delivery d p)
                         | ((None, msgs), d) \<Rightarrow>
                             let p = set_delivery d p in
                             if \<not> Perf_Bool perf 4
                             then peer_write channel FrameTypeAMQP (accepted_reply (Perf_Uint perf 1)) [] p
                             else (None, p))))))"

text \<open>
  The loop of \<open>onDisposition\<close> over the delivery identifiers \<open>id .. last\<close>; at the largest identifier it
  stops before \<open>id++\<close> wraps. The result of \<open>Settle\<close> is ignored.
\<close>

definition settle_one :: "env \<Rightarrow> 32 word \<Rightarrow> 'l peer \<Rightarrow> 'l peer" where
  "settle_one en did p =
    (let consumer = get_string (pe_deliveryConsumer p) did in
     if consumer \<noteq> '''' then
       (let p = set_mem (snd (Settle_op (e_ctx en) consumer did StateAccepted (sv_mem (peer_delivery p)))) p in
        p\<lparr>pe_deliveryConsumer := del did (pe_deliveryConsumer p)\<rparr>)
     else p)"

function disposition_loop :: "env \<Rightarrow> 32 word \<Rightarrow> 32 word \<Rightarrow> 'l peer \<Rightarrow> 'l peer" where
  "disposition_loop en did lst p =
    (if did \<le> lst then
       (let p = settle_one en did p in
        if did = - 1 then p else disposition_loop en (did + 1) lst p)
     else p)"
  by pat_completeness auto
termination
proof (relation "measure (\<lambda>(en, did, lst, p). 2 ^ 32 - unat did)")
  fix en :: env and did lst :: "32 word" and p pa :: "'a peer"
  assume "did \<noteq> - 1"
  then have "unat (did + 1) = Suc (unat did)"
    by (metis add.commute add_eq_0_iff unatSuc)
  moreover have "unat did < 2 ^ 32" using unsigned_less [of did] by simp
  ultimately show "((en, did + 1, lst, p), en, did, lst, pa) \<in> measure (\<lambda>(en, did, lst, p). 2 ^ 32 - unat did)"
    by simp
qed simp

declare disposition_loop.simps [simp del]

definition onDisposition :: "env \<Rightarrow> Performative \<Rightarrow> 'l peer \<Rightarrow> error option \<times> 'l peer" where
  "onDisposition en perf p =
    (let fst_id = Perf_Uint perf 1;
         last_id = (if Field perf 2 \<noteq> VNil then Perf_Uint perf 2 else fst_id) in
     (None, disposition_loop en fst_id last_id p))"

definition detach_reply :: "32 word \<Rightarrow> Performative" where
  "detach_reply handle = \<lparr>p_Descriptor = DescriptorDetach, p_Fields = [VUint32 handle, VBool True]\<rparr>"

definition onDetach :: "env \<Rightarrow> 16 word \<Rightarrow> Performative \<Rightarrow> 'l peer \<Rightarrow> error option \<times> 'l peer" where
  "onDetach en channel perf p =
    (case get (pe_sessionIDs p) channel of
       None \<Rightarrow> failE ''detach on unknown session'' p
     | Some sessionID \<Rightarrow>
       let handle = Perf_Uint perf 0; k = link_slot channel handle in
       case get (pe_linkIDs p) k of
         None \<Rightarrow> failE ''unknown link handle'' p
       | Some lid \<Rightarrow>
         let p = (case link_Get (peer_links p) lid of
               None \<Rightarrow> p
             | Some l \<Rightarrow>
                 let p = set_links (link_Set (Link_Detach l) (peer_links p)) p in
                 if l_Role l = RoleSender
                 then set_mem (snd (Disconnect (e_ranges en 0) (e_ctx en) (e_now en) lid (sv_mem (peer_delivery p)))) p
                 else p);
             p = set_links (link_Remove lid (peer_links p)) p;
             p = (case session_Get (peer_sessions p) sessionID of
               None \<Rightarrow> p | Some s \<Rightarrow> set_sessions (session_Set (Session_Detach s handle) (peer_sessions p)) p);
             p = p\<lparr>pe_linkIDs := del k (pe_linkIDs p)\<rparr> in
         peer_write channel FrameTypeAMQP (detach_reply handle) [] p)"

definition bare :: "byte \<Rightarrow> Performative" where
  "bare d = \<lparr>p_Descriptor = d, p_Fields = []\<rparr>"

definition onEnd :: "env \<Rightarrow> 16 word \<Rightarrow> 'l peer \<Rightarrow> error option \<times> 'l peer" where
  "onEnd en channel p =
    (case get (pe_sessionIDs p) channel of
       None \<Rightarrow> failE ''end on unknown session'' p
     | Some sid \<Rightarrow>
       (case session_Get (peer_sessions p) sid of
          None \<Rightarrow> (Some nil_deref, p)
        | Some s \<Rightarrow>
          let p = (case Session_End s of Inl _ \<Rightarrow> p | Inr s \<Rightarrow> set_sessions (session_Set s (peer_sessions p)) p);
              p = set_links (link_RemoveSession (e_links en) sid (peer_links p)) p;
              p = set_sessions (session_Remove sid (peer_sessions p)) p;
              p = set_conn (RemoveSession (pe_connection p) channel) p;
              p = p\<lparr>pe_sessionIDs := del channel (pe_sessionIDs p)\<rparr> in
          peer_write channel FrameTypeAMQP (bare DescriptorEnd) [] p))"

definition onClose :: "'l peer \<Rightarrow> error option \<times> 'l peer" where
  "onClose p =
    (let p = snd (peer_transition StateClosing p) in
     thenE (peer_write 0 FrameTypeAMQP (bare DescriptorClose) [] p) (\<lambda>p. peer_transition StateClosed p))"

section \<open>Frames\<close>

definition process :: "'l BodyLog \<Rightarrow> env \<Rightarrow> Frame \<Rightarrow> 'l peer \<Rightarrow> error option \<times> 'l peer" where
  "process bl en frame p =
    (case DecodePerformative (f_Body frame) of
       Inl e \<Rightarrow> (Some (Wrap (''decode frame on channel '' @ dec (unat (f_Channel frame))) e), p)
     | Inr (perf, n) \<Rightarrow>
       let payload = drop n (f_Body frame); channel = f_Channel frame; d = p_Descriptor perf in
       if d = DescriptorOpen then onOpen perf p
       else if d = DescriptorBegin then onBegin en channel p
       else if d = DescriptorAttach then onAttach en channel perf p
       else if d = DescriptorFlow then onFlow bl en channel perf p
       else if d = DescriptorTransfer then onTransfer bl en channel perf payload p
       else if d = DescriptorDisposition then onDisposition en perf p
       else if d = DescriptorDetach then onDetach en channel perf p
       else if d = DescriptorEnd then onEnd en channel p
       else if d = DescriptorClose then onClose p
       else (Some (Errorf ''performative %s not valid in connection state'' [Perf_Name perf]), p))"

section \<open>What every handler leaves alone\<close>

text \<open>
  \<open>steady p p'\<close>: the input still to be read, the socket and the identity of the connection are the
  same, the connection has not moved back, and output was only appended.
\<close>

definition steady :: "'l peer \<Rightarrow> 'l peer \<Rightarrow> bool" where
  "steady p p' = (nc_in (pe_net p') = nc_in (pe_net p) \<and> nc_werr (pe_net p') = nc_werr (pe_net p) \<and>
     c_ID (pe_connection p') = c_ID (pe_connection p) \<and>
     conn_rank (c_State (pe_connection p)) \<le> conn_rank (c_State (pe_connection p')) \<and>
     (\<exists>bs. nc_out (pe_net p') = nc_out (pe_net p) @ bs))"

lemma steady_refl [simp]: "steady p p"
  by (simp add: steady_def)

lemma steady_trans: "steady p q \<Longrightarrow> steady q r \<Longrightarrow> steady p r"
  by (auto simp: steady_def)

lemma set_fields [simp]:
  "pe_net (set_conn c p) = pe_net p" "pe_connection (set_conn c p) = c"
  "pe_sessionIDs (set_conn c p) = pe_sessionIDs p" "pe_linkIDs (set_conn c p) = pe_linkIDs p"
  "peer_sessions (set_conn c p) = peer_sessions p" "peer_links (set_conn c p) = peer_links p"
  "peer_delivery (set_conn c p) = peer_delivery p" "pe_identity (set_conn c p) = pe_identity p"
  "sr_Connections (pe_server (set_conn c p)) = conn_Set c (sr_Connections (pe_server p))"
  "pe_net (set_sessions r p) = pe_net p" "pe_connection (set_sessions r p) = pe_connection p"
  "pe_sessionIDs (set_sessions r p) = pe_sessionIDs p" "pe_linkIDs (set_sessions r p) = pe_linkIDs p"
  "peer_sessions (set_sessions r p) = r" "peer_links (set_sessions r p) = peer_links p"
  "peer_delivery (set_sessions r p) = peer_delivery p"
  "sr_Connections (pe_server (set_sessions r p)) = sr_Connections (pe_server p)"
  "pe_net (set_links l p) = pe_net p" "pe_connection (set_links l p) = pe_connection p"
  "pe_sessionIDs (set_links l p) = pe_sessionIDs p" "pe_linkIDs (set_links l p) = pe_linkIDs p"
  "peer_sessions (set_links l p) = peer_sessions p" "peer_links (set_links l p) = l"
  "peer_delivery (set_links l p) = peer_delivery p"
  "sr_Connections (pe_server (set_links l p)) = sr_Connections (pe_server p)"
  by (simp_all add: set_conn_def set_sessions_def set_links_def)

lemma set_delivery_fields [simp]:
  "pe_net (set_delivery d p) = pe_net p" "pe_connection (set_delivery d p) = pe_connection p"
  "pe_sessionIDs (set_delivery d p) = pe_sessionIDs p" "pe_linkIDs (set_delivery d p) = pe_linkIDs p"
  "peer_sessions (set_delivery d p) = peer_sessions p" "peer_links (set_delivery d p) = peer_links p"
  "peer_delivery (set_delivery d p) = d"
  "sr_Connections (pe_server (set_delivery d p)) = sr_Connections (pe_server p)"
  "pe_net (set_mem m p) = pe_net p" "pe_connection (set_mem m p) = pe_connection p"
  "pe_sessionIDs (set_mem m p) = pe_sessionIDs p" "pe_linkIDs (set_mem m p) = pe_linkIDs p"
  "peer_sessions (set_mem m p) = peer_sessions p" "peer_links (set_mem m p) = peer_links p"
  "sv_mem (peer_delivery (set_mem m p)) = m"
  "sr_Connections (pe_server (set_mem m p)) = sr_Connections (pe_server p)"
  by (simp_all add: set_delivery_def set_mem_def)

lemma peer_state_eq [simp]: "peer_state p = c_State (pe_connection p)"
  by (simp add: Conn_Snapshot_def)

lemma steady_sets [simp]:
  "steady p (set_sessions r q) = steady p q" "steady p (set_links l q) = steady p q"
  "steady p (set_delivery d q) = steady p q" "steady p (set_mem m q) = steady p q"
  "steady p (q\<lparr>pe_sessionIDs := si\<rparr>) = steady p q" "steady p (q\<lparr>pe_linkIDs := li\<rparr>) = steady p q"
  "steady p (q\<lparr>pe_deliveryConsumer := dc\<rparr>) = steady p q"
  by (simp_all add: steady_def)

lemma steady_set_conn [intro]:
  "steady p q \<Longrightarrow> c_ID c = c_ID (pe_connection q) \<Longrightarrow>
     conn_rank (c_State (pe_connection q)) \<le> conn_rank (c_State c) \<Longrightarrow> steady p (set_conn c q)"
  by (auto simp: steady_def)

lemma steady_write [intro]: "steady p q \<Longrightarrow> steady p (snd (peer_write channel typ perf payload q))"
  by (auto simp: peer_write_def WriteFrame_def steady_def result_iffs split: sum.splits)

lemma steady_thenE [intro]:
  "steady p (snd r) \<Longrightarrow> (\<And>q. r = (None, q) \<Longrightarrow> steady p q \<Longrightarrow> steady p (snd (g q))) \<Longrightarrow> steady p (snd (thenE r g))"
  by (auto simp: thenE_def split: prod.splits option.splits)

lemma steady_transition [intro]: "steady p q \<Longrightarrow> steady p (snd (peer_transition st q))"
  using valid_transition_rank [of "c_State (pe_connection q)" st]
  by (auto simp: peer_transition_def Transition_Inr split: sum.split intro!: steady_set_conn)

lemma snd_failE [simp]: "snd (failE msg p) = p"
  by (simp add: failE_def)

lemmas handler_splits = option.split sum.split prod.split

lemma onOpen_steady: "steady p (snd (onOpen perf p))"
  by (auto simp: onOpen_def Let_def intro!: steady_thenE steady_write steady_transition steady_set_conn)

lemma onBegin_steady: "steady p (snd (onBegin en channel p))"
  by (auto simp: onBegin_def Let_def AddSession_def intro!: steady_write steady_set_conn split: handler_splits if_splits)

lemma attach_consumer_steady: "steady p q \<Longrightarrow> steady p (snd (attach_consumer en lid a l q))"
  by (auto simp: attach_consumer_def Let_def split: handler_splits)

lemma onAttach_steady: "steady p (snd (onAttach en channel perf p))"
  by (auto simp: onAttach_def Let_def intro!: steady_thenE steady_write attach_consumer_steady split: handler_splits if_splits)

lemma flow_loop_steady: "steady p q \<Longrightarrow> steady p (snd (flow_loop bl en channel handle l i n q))"
  by (induction bl en channel handle l i n q rule: flow_loop.induct)
    (auto simp: Let_def intro!: steady_thenE steady_write split: handler_splits)

lemma onFlow_steady: "steady p (snd (onFlow bl en channel perf p))"
  by (auto simp: onFlow_def Let_def intro!: flow_loop_steady split: handler_splits)

lemma onTransfer_steady: "steady p (snd (onTransfer bl en channel perf payload p))"
  by (auto simp: onTransfer_def Let_def intro!: steady_write split: handler_splits)

lemma disposition_loop_steady: "steady p q \<Longrightarrow> steady p (disposition_loop en did lst q)"
  by (induction en did lst q rule: disposition_loop.induct) (subst disposition_loop.simps, auto simp: settle_one_def Let_def)

lemma onDisposition_steady: "steady p (snd (onDisposition en perf p))"
  by (simp add: onDisposition_def Let_def disposition_loop_steady)

lemma onDetach_steady: "steady p (snd (onDetach en channel perf p))"
  by (auto simp: onDetach_def Let_def intro!: steady_write split: handler_splits)

lemma onEnd_steady: "steady p (snd (onEnd en channel p))"
  by (auto simp: onEnd_def Let_def RemoveSession_def intro!: steady_write steady_set_conn split: handler_splits)

lemma onClose_steady: "steady p (snd (onClose p))"
  by (auto simp: onClose_def Let_def intro!: steady_thenE steady_write steady_transition)

lemmas handlers_steady = onOpen_steady onBegin_steady onAttach_steady onFlow_steady onTransfer_steady
  onDisposition_steady onDetach_steady onEnd_steady onClose_steady

lemma process_steady: "steady p (snd (process bl en frame p))"
  by (auto simp: process_def Let_def handlers_steady split: handler_splits)

section \<open>Serving a connection\<close>

lemma ReadFrame_consumes: "ReadFrame r mx = Inr (f, rest) \<Longrightarrow> length rest < length r"
  by (auto simp: ReadFrame_def ReadFull_def Let_def result_iffs split: if_splits sum.splits)

text \<open>
  The loop of \<open>handle\<close>. Every round reads at least the eight bytes of a frame header, so it ends. The
  round \<open>i\<close> has its own environment.
\<close>

function serve :: "'l BodyLog \<Rightarrow> (nat \<Rightarrow> env) \<Rightarrow> nat \<Rightarrow> 'l peer \<Rightarrow> error option \<times> 'l peer" where
  "serve bl envs i p =
    (case ReadFrame (nc_in (pe_net p)) (c_MaxFrame (pe_connection p)) of
       Inl e \<Rightarrow> (Some e, p)
     | Inr (frame, rest) \<Rightarrow>
       (case process bl (envs i) frame (set_conn (Touch (pe_connection p) (e_now (envs i))) (set_in rest p)) of
          (Some e, p') \<Rightarrow> (Some e, p')
        | (None, p') \<Rightarrow> if peer_state p' = StateClosed then (None, p') else serve bl envs (Suc i) p'))"
  by pat_completeness auto
termination
proof (relation "measure (\<lambda>(bl, envs, i, p). length (nc_in (pe_net p)))", goal_cases)
  case (2 bl envs i p fr frame rest err p')
  let ?q = "set_conn (Touch (pe_connection p) (e_now (envs i))) (set_in rest p)"
  have "steady ?q p'" using process_steady [of ?q bl "envs i" frame] 2 by (metis snd_conv)
  then have "nc_in (pe_net p') = rest" by (simp add: steady_def set_in_def)
  with 2 ReadFrame_consumes [of "nc_in (pe_net p)" "c_MaxFrame (pe_connection p)" frame rest] show ?case by simp
qed simp

declare serve.simps [simp del]

definition new_peer :: "net_Conn \<Rightarrow> Connection \<Rightarrow> 'l Server \<Rightarrow> 'l peer" where
  "new_peer nc c s = \<lparr>pe_server = s, pe_net = nc, pe_connection = c,
     pe_identity = \<lparr>i_Subject = '''', i_Mechanism = '''', i_Attributes = []\<rparr>,
     pe_sessionIDs = [], pe_linkIDs = [], pe_deliveryConsumer = []\<rparr>"

text \<open>The deferred clean-up of \<open>handle\<close>.\<close>

definition clean_up :: "env \<Rightarrow> string \<Rightarrow> 'l Server \<Rightarrow> 'l Server" where
  "clean_up en cid s = s\<lparr>sr_Sessions := RemoveConnection (e_sessions en) cid (sr_Sessions s),
     sr_Connections := conn_Remove cid (sr_Connections s)\<rparr>"

definition handle :: "'l BodyLog \<Rightarrow> (nat \<Rightarrow> env) \<Rightarrow> net_Conn \<Rightarrow> 'l Server \<Rightarrow> error option \<times> 'l Server \<times> net_Conn" where
  "handle bl envs nc s =
    (case peer_randomID ''conn'' (e_rnd (envs 0)) of
       Inl e \<Rightarrow> (Some e, s, nc)
     | Inr cid \<Rightarrow>
         let c = New_Connection cid (nc_remote nc) (sr_MaxFrame s) (sr_IdleTimeout s) (e_now (envs 0)) in
         case conn_Add c (sr_Connections s) of
           Inl e \<Rightarrow> (Some e, s, nc)
         | Inr r \<Rightarrow>
             (case thenE (handshake (e_ctx (envs 0)) (new_peer nc c (s\<lparr>sr_Connections := r\<rparr>))) (serve bl envs 1) of
                (err, p) \<Rightarrow> (err, clean_up (envs 0) cid (pe_server p), pe_net p)))"

end
