(* ===== verification/PeerProps.thy ===== *)
theory PeerProps
  imports Peer
begin

text \<open>
  Properties of the AMQP peer: which frames can make it dereference a nil pointer, the invariant of
  its session and link tables, what it does to the delivery service, what a handshake guarantees and
  what a served connection leaves behind.
\<close>

section \<open>Errors of the services\<close>

text \<open>
  No operation a handler calls panics of its own, except that \<open>enforceMaxLength\<close> reads past an empty
  slice when the limit is negative: the nil dereferences are those of the handlers. The context, the
  socket and the log are outside code, so their errors are parameters. The lemmas are about any panic \<open>z\<close>.
\<close>

definition calm_log :: "'l BodyLog \<Rightarrow> bool" where
  "calm_log bl = (\<forall>ctx k b l off. (ctx \<noteq> Some nil_deref \<longrightarrow> bl_Append bl ctx k b l \<noteq> Inl nil_deref) \<and>
     (ctx \<noteq> Some nil_deref \<longrightarrow> bl_Read bl ctx off l \<noteq> Inl nil_deref))"

lemma nil_deref_neq [simp]:
  "nil_deref \<noteq> New s" "nil_deref \<noteq> Wrap s e" "nil_deref \<noteq> Errorf s as" "nil_deref \<noteq> ErrConflictText s"
  "nil_deref \<noteq> ErrAddressNotFound" "nil_deref \<noteq> ErrMessageNotFound" "nil_deref \<noteq> EOF"
  "nil_deref \<noteq> Panic ''index out of range''" "nil_deref \<noteq> Panic ''slice bounds out of range''"
  "New s \<noteq> nil_deref" "Wrap s e \<noteq> nil_deref" "Errorf s as \<noteq> nil_deref" "ErrConflictText s \<noteq> nil_deref"
  "ErrAddressNotFound \<noteq> nil_deref" "ErrMessageNotFound \<noteq> nil_deref" "EOF \<noteq> nil_deref"
  "Panic ''index out of range'' \<noteq> nil_deref" "Panic ''slice bounds out of range'' \<noteq> nil_deref"
  by (simp_all add: nil_deref_def)

lemma encode_calm:
  "encodeValue v \<noteq> Inl (Panic z)" "encodeList fs \<noteq> Inl (Panic z)" "encodeFields fs \<noteq> Inl (Panic z)"
  by (induction v and fs and fs rule: encodeValue_encodeList_encodeFields.induct)
    (auto simp: result_iffs split: option.split any.split)

lemma Validate_calm: "Validate p \<noteq> Some (Panic z)"
  by (auto simp: Validate_def split: option.split)

lemma FrameFor_calm: "FrameFor c p b \<noteq> Inl (Panic z)"
  by (auto simp: FrameFor_def EncodePerformative_def Let_def result_iffs encode_calm Validate_calm)

lemma FrameFor_Marshal: "FrameFor c p b = Inr f \<Longrightarrow> Marshal (f\<lparr>f_Type := t\<rparr>) mx \<noteq> Inl (Panic z)"
proof -
  assume "FrameFor c p b = Inr f"
  then have "f_DataOffset f = 2" by (auto simp: FrameFor_def result_iffs)
  then have o: "marshal_offset (f\<lparr>f_Type := t\<rparr>) = 2" by (simp add: marshal_offset_def)
  let ?n = "marshal_size (f\<lparr>f_Type := t\<rparr>)"
  have "length (copy_at 6 x ((copy_at 0 y (replicate (unat ?n) 0))[4 := 2, 5 := t])) = unat ?n" if "8 \<le> unat ?n" for x y
    using that by simp
  moreover have "8 \<le> unat ?n" if "\<not> ?n < 8" using that by (simp add: word_less_nat_alt)
  ultimately show ?thesis using o by (auto simp: Marshal_def Let_def)
qed

lemma peer_write_calm:
  "nc_werr (pe_net p) \<noteq> Some (Panic z) \<Longrightarrow> fst (peer_write c t f b p) \<noteq> Some (Panic z)"
  using FrameFor_calm [of c f b z] FrameFor_Marshal [of c f b]
  by (auto simp: peer_write_def WriteFrame_def result_iffs split: sum.split)

lemma net_write_calm: "nc_werr (pe_net p) \<noteq> Some (Panic z) \<Longrightarrow> fst (net_write b p) \<noteq> Some (Panic z)"
  by (auto simp: net_write_def split: option.split)

lemma store_calm:
  assumes "ctx \<noteq> Some (Panic z)"
  shows "mem_Get ctx a m \<noteq> Inl (Panic z)" "mem_message ctx k m \<noteq> Inl (Panic z)"
    "mem_Update ctx msg m \<noteq> Inl (Panic z)" "mem_Put ctx msg m \<noteq> Inl (Panic z)"
    "ListReady rs ctx a n m \<noteq> Inl (Panic z)" "ListBindings rs ctx a m \<noteq> Inl (Panic z)"
    "SaveConsumer ctx c m \<noteq> Inl (Panic z)" "GetConsumer ctx k m \<noteq> Inl (Panic z)"
  using assms
  by (auto simp: mem_Get_def mem_message_def mem_Update_def mem_Put_def ListReady_def ListBindings_def
      SaveConsumer_def GetConsumer_def result_iffs split: option.split)

lemma deadLetter_calm: "ctx \<noteq> Some (Panic z) \<Longrightarrow> deadLetter ctx msg reason m \<noteq> Inl (Panic z)"
  by (auto simp: deadLetter_def Let_def result_iffs store_calm)

text \<open>\<open>enforceMaxLength\<close> panics with a negative limit only.\<close>

definition index_panic :: string where
  "index_panic = ''index out of range''"

lemma enforce_loop_calm:
  "ctx \<noteq> Some (Panic z) \<Longrightarrow> z = index_panic \<longrightarrow> 0 \<le> mx \<Longrightarrow> fst (enforce_loop ctx mx ready m) \<noteq> Some (Panic z)"
  by (induction ctx mx ready m rule: enforce_loop.induct)
    (subst enforce_loop.simps, auto simp: deadLetter_calm index_panic_def split: sum.split)

lemma enforceMaxLength_calm:
  assumes "ctx \<noteq> Some (Panic z)" "z = index_panic \<longrightarrow> limited m"
  shows "fst (enforceMaxLength rs ctx a m) \<noteq> Some (Panic z)"
proof -
  have "z = index_panic \<longrightarrow> 0 \<le> ad_MaxLength x" if "mem_Get ctx a m = Inr x" for x
    using assms(2) that by (auto simp: limited_def addresses.fetch_Inr)
  with assms(1) show ?thesis
    by (auto simp: enforceMaxLength_def store_calm enforce_loop_calm split: sum.split)
qed

lemma enforce_loop_addresses: "mm_addresses (snd (enforce_loop ctx mx ready m)) = mm_addresses m"
proof (induction ctx mx ready m rule: enforce_loop.induct)
  case (1 ctx mx ready m)
  have "mm_addresses m' = mm_addresses m" if "deadLetter ctx msg reason m = Inr (msg', m')" for msg reason msg' m'
    using that by (auto simp: deadLetter_Inr)
  with 1 show ?case by (subst enforce_loop.simps) (auto split: sum.split)
qed

lemma limited_enforce: "limited (snd (enforceMaxLength rs ctx a m)) = limited m"
  by (rule limited_cong) (auto simp: enforceMaxLength_def enforce_loop_addresses split: sum.split)

lemma limited_Put: "mem_Put ctx msg m = Inr m' \<Longrightarrow> limited m' = limited m"
  by (rule limited_cong) (auto simp: mem_Put_def guardE_Inr_iff split: if_splits)

lemma create_calm:
  "NewMessage mid p t \<noteq> Inl (Panic z)" "randomID pre r \<noteq> Inl (Panic z)" "peer_randomID pre r \<noteq> Inl (Panic z)"
  "NewConsumer cid a n sem t \<noteq> Inl (Panic z)" "Accepting a' \<noteq> Some (Panic z)"
  by (auto simp: NewMessage_def randomID_def peer_randomID_def random_id_def NewConsumer_def Accepting_def Let_def
      split: option.split)

lemma Resolve_calm: "ctx \<noteq> Some (Panic z) \<Longrightarrow> Resolve rs ctx a k h m \<noteq> Inl (Panic z)"
  by (auto simp: Resolve_def split: sum.split)

lemma publish_loop_calm:
  assumes "ctx \<noteq> Some (Panic z)" "z = index_panic \<longrightarrow> limited (sv_mem s)"
  shows "fst (fst (publish_loop bl rs ctx clk rnd inp i routes created s)) \<noteq> Some (Panic z)"
  using assms
proof (induction routes arbitrary: i created s)
  case (Cons route routes)
  have enf: "e \<noteq> Some (Panic z) \<and> (z = index_panic \<longrightarrow> limited m')"
    if "mem_Put ctx msg (sv_mem s) = Inr m" "enforceMaxLength rs ctx a m = (e, m')" for msg m a e m'
    using enforceMaxLength_calm [OF Cons.prems(1), of m rs a] limited_enforce [of rs ctx a m] limited_Put [OF that(1)]
      Cons.prems(2) that(2) by auto
  have rest: "fst (fst (publish_loop bl rs ctx clk rnd inp (Suc i) routes out (s\<lparr>sv_log := l, sv_mem := m'\<rparr>))) \<noteq> Some (Panic z)"
    if "mem_Put ctx msg (sv_mem s) = Inr m" "enforceMaxLength rs ctx a m = (None, m')" for msg m a m' out l
    using enf [OF that] by (intro Cons.IH [OF Cons.prems(1)]) simp
  show ?case
    by (auto simp: Let_def create_calm rest split: sum.split prod.split option.split dest: enf)
qed simp

lemma Publish_calm:
  assumes "ctx \<noteq> Some (Panic z)" "z = index_panic \<longrightarrow> limited (sv_mem s)"
  shows "fst (fst (Publish_op bl rs ctx clk rnd inp s)) \<noteq> Some (Panic z)"
  using publish_loop_calm [OF assms]
  by (auto simp: Publish_op_def Let_def create_calm split: sum.split option.split)

lemma Register_calm: "ctx \<noteq> Some (Panic z) \<Longrightarrow> fst (Register ctx now cid a n sem m) \<noteq> Inl (Panic z)"
  by (auto simp: Register_def store_calm create_calm split: sum.split)

lemma acquire_tail_calm: "ctx \<noteq> Some (Panic z) \<Longrightarrow> fst (acquire_tail bl ctx c msg d s) \<noteq> Inl (Panic z)"
  by (auto simp: acquire_tail_def store_calm split: sum.split)

lemma Consumer_Acquire_calm: "Consumer_Acquire c d k \<noteq> Inl (Panic z)"
  by (simp add: Consumer_Acquire_def)

lemma Acquire_calm: "ctx \<noteq> Some (Panic z) \<Longrightarrow> fst (Acquire_op bl rs ctx now cid s) \<noteq> Inl (Panic z)"
  using Consumer_Acquire_calm
  by (auto simp: Acquire_op_def Let_def store_calm deadLetter_calm split: sum.split list.split prod.split)

lemma object_calm:
  "Session_Begin s \<noteq> Inl (Panic z)" "Session_Attach s h k \<noteq> Inl (Panic z)" "ConsumeIncoming s \<noteq> Inl (Panic z)"
  "session_Add s r \<noteq> Inl (Panic z)" "AddSession c ch k \<noteq> Inl (Panic z)" "Transition c st \<noteq> Inl (Panic z)"
  "New_Link lid sid nm a h ro t \<noteq> Inl (Panic z)" "Link_Attach l \<noteq> Inl (Panic z)" "link_Add l lr \<noteq> Inl (Panic z)"
  "Link_Consume l n \<noteq> Inl (Panic z)" "DecodeDataSection b \<noteq> Inl (Panic z)"
  by (auto simp: Session_Begin_def Session_Attach_def ConsumeIncoming_def session_Add_def AddSession_def Transition_def
      New_Link_def Link_Attach_def link_Add_def Link_Consume_def DecodeDataSection_def Let_def split: sum.split any.split)

section \<open>Panics\<close>

text \<open>A connection whose context and socket do not themselves report the panic \<open>z\<close>, or a nil dereference.\<close>

definition quiet :: "string \<Rightarrow> env \<Rightarrow> 'l peer \<Rightarrow> bool" where
  "quiet z en p = (e_ctx en \<noteq> Some (Panic z) \<and> nc_werr (pe_net p) \<noteq> Some (Panic z))"

definition calm :: "env \<Rightarrow> 'l peer \<Rightarrow> bool" where
  "calm en p = (e_ctx en \<noteq> Some nil_deref \<and> nc_werr (pe_net p) \<noteq> Some nil_deref)"

definition nil_panic :: string where
  "nil_panic = ''invalid memory address or nil pointer dereference''"

lemma nil_deref_panic: "nil_deref = Panic nil_panic" "Panic z = nil_deref \<longleftrightarrow> z = nil_panic" "nil_panic \<noteq> index_panic"
  by (simp_all add: nil_deref_def nil_panic_def index_panic_def)

lemma calm_quiet: "calm en p = quiet nil_panic en p"
  by (simp add: calm_def quiet_def nil_deref_panic(1))

lemma quiet_sets [simp]:
  "quiet z en (set_conn c p) = quiet z en p" "quiet z en (set_sessions r p) = quiet z en p" "quiet z en (set_links l p) = quiet z en p"
  "quiet z en (set_delivery d p) = quiet z en p" "quiet z en (set_mem m p) = quiet z en p"
  "quiet z en (p\<lparr>pe_sessionIDs := si\<rparr>) = quiet z en p" "quiet z en (p\<lparr>pe_linkIDs := li\<rparr>) = quiet z en p"
  "quiet z en (p\<lparr>pe_deliveryConsumer := dc\<rparr>) = quiet z en p"
  by (simp_all add: quiet_def)

lemma quiet_steady: "steady p q \<Longrightarrow> quiet z en q = quiet z en p"
  by (simp add: steady_def quiet_def)

definition panic_free :: "string \<Rightarrow> error option \<times> 'l peer \<Rightarrow> bool" where
  "panic_free z r = (fst r \<noteq> Some (Panic z))"

lemma panic_free_simps [simp]:
  "panic_free z (None, p)" "panic_free z (Some e, p) = (e \<noteq> Panic z)" "panic_free z (failE msg p)"
  by (simp_all add: panic_free_def failE_def)

lemma panic_free_write: "quiet z en p \<Longrightarrow> panic_free z (peer_write c t f b p)"
  by (simp add: quiet_def panic_free_def peer_write_calm)

lemma panic_free_thenE: "panic_free z r \<Longrightarrow> (\<And>q. r = (None, q) \<Longrightarrow> panic_free z (g q)) \<Longrightarrow> panic_free z (thenE r g)"
  by (auto simp: thenE_def panic_free_def split: prod.splits option.splits)

lemma panic_free_transition: "panic_free z (peer_transition st p)"
  by (auto simp: peer_transition_def object_calm split: sum.split)

lemma quiet_after:
  "peer_write c t f b p = (e, q) \<Longrightarrow> quiet z en q = quiet z en p"
  "peer_transition st p = (e, q) \<Longrightarrow> quiet z en q = quiet z en p"
  "attach_consumer en' lid a l p = (e, q) \<Longrightarrow> quiet z en q = quiet z en p"
  using steady_write [OF steady_refl, of p c t f b] steady_transition [OF steady_refl, of p st]
    attach_consumer_steady [OF steady_refl, of p en' lid a l]
  by (auto dest: quiet_steady)

lemma onOpen_panic_free: "quiet z en p \<Longrightarrow> panic_free z (onOpen perf p)"
  by (auto simp: onOpen_def Let_def quiet_after [where en = en]
      intro!: panic_free_thenE panic_free_transition panic_free_write [of z en])

lemma onBegin_panic_free: "quiet z en p \<Longrightarrow> panic_free z (onBegin en channel p)"
  by (auto simp: onBegin_def Let_def create_calm object_calm intro!: panic_free_write split: sum.split)

lemma attach_consumer_panic_free: "quiet z en p \<Longrightarrow> panic_free z (attach_consumer en lid a l p)"
  using Register_calm [of "e_ctx en" z "e_now en" lid a 100 AtLeastOnce "sv_mem (peer_delivery p)"]
  by (auto simp: attach_consumer_def Let_def quiet_def split: sum.split prod.split)

lemma onAttach_panic_free:
  assumes "quiet z en p" "\<And>sid. get (pe_sessionIDs p) channel = Some sid \<Longrightarrow> session_Get (peer_sessions p) sid \<noteq> None"
  shows "panic_free z (onAttach en channel perf p)"
  using assms
  by (auto simp: onAttach_def Let_def create_calm object_calm tryE_Inl_iff quiet_after
      intro!: panic_free_thenE attach_consumer_panic_free panic_free_write [of z en] split: sum.split option.split)

lemma flow_loop_panic_free: "quiet z en p \<Longrightarrow> panic_free z (flow_loop bl en channel h l i n p)"
proof (induction n arbitrary: l i p)
  case (Suc n)
  have "fst (Acquire_op bl (e_ranges en i) (e_ctx en) (e_clk en i) (l_ID l) (peer_delivery p)) \<noteq> Inl (Panic z)"
    using Suc.prems by (simp add: Acquire_calm quiet_def)
  with Suc show ?case
    by (auto simp: Let_def object_calm quiet_after intro!: panic_free_thenE panic_free_write [of z en] split: sum.split prod.split)
qed simp

lemma onFlow_panic_free:
  assumes "quiet z en p" "\<And>sid. get (pe_sessionIDs p) channel = Some sid \<Longrightarrow> session_Get (peer_sessions p) sid \<noteq> None"
  shows "panic_free z (onFlow bl en channel perf p)"
  using assms by (auto simp: onFlow_def Let_def intro!: flow_loop_panic_free split: option.split)

lemma onDisposition_panic_free: "panic_free z (onDisposition en perf p)"
  by (simp add: onDisposition_def Let_def)

lemma onDetach_panic_free: "quiet z en p \<Longrightarrow> panic_free z (onDetach en channel perf p)"
  by (auto simp: onDetach_def Let_def intro!: panic_free_write [of z en] split: option.split)

lemma onEnd_panic_free:
  assumes "quiet z en p" "\<And>sid. get (pe_sessionIDs p) channel = Some sid \<Longrightarrow> session_Get (peer_sessions p) sid \<noteq> None"
  shows "panic_free z (onEnd en channel p)"
  using assms by (auto simp: onEnd_def Let_def intro!: panic_free_write [of z en] split: option.split sum.split)

lemma onClose_panic_free: "quiet z en p \<Longrightarrow> panic_free z (onClose p)"
  using quiet_steady [OF steady_transition [OF steady_refl [of p], of StateClosing], of z en]
  by (auto simp: onClose_def Let_def intro!: panic_free_thenE panic_free_transition panic_free_write [of z en])

text \<open>The one place: a transfer whose slot names a link that is no longer registered.\<close>

definition dangling :: "16 word \<Rightarrow> Performative \<Rightarrow> 'l peer \<Rightarrow> bool" where
  "dangling channel perf p = (\<exists>sid s lid. get (pe_sessionIDs p) channel = Some sid \<and>
     session_Get (peer_sessions p) sid = Some s \<and> s_IncomingWindow s \<noteq> 0 \<and>
     get (pe_linkIDs p) (link_slot channel (Perf_Uint perf 0)) = Some lid \<and> link_Get (peer_links p) lid = None)"

lemma onTransfer_panic_free:
  assumes "quiet z en p" "z = index_panic \<longrightarrow> limited (sv_mem (peer_delivery p))"
    "\<And>sid. get (pe_sessionIDs p) channel = Some sid \<Longrightarrow> session_Get (peer_sessions p) sid \<noteq> None"
  shows "panic_free z (onTransfer bl en channel perf payload p) \<longleftrightarrow> \<not> (z = nil_panic \<and> dangling channel perf p)"
proof -
  have pub: "Publish_op bl rs (e_ctx en) clk rnd inp (peer_delivery p) \<noteq> ((Some (Panic z), ms), s')" for rs clk rnd inp ms s'
    using Publish_calm [of "e_ctx en" z "peer_delivery p" bl rs clk rnd inp] assms(1,2) by (auto simp: quiet_def)
  show ?thesis
  proof (cases "dangling channel perf p")
    case True
    then show ?thesis by (auto simp: dangling_def onTransfer_def Let_def ConsumeIncoming_def nil_deref_panic)
  next
    case False
    with assms(1,3) show ?thesis
      by (auto simp: dangling_def onTransfer_def Let_def object_calm pub ConsumeIncoming_def
          intro!: panic_free_write [of z en] split: option.split sum.split prod.split)
  qed
qed

section \<open>The session table\<close>

text \<open>
  The channels a peer has begun are those of its connection, each leads to a mapped session of this
  connection and channel in the registry, there are none before the connection is opened, and the
  connection registry holds the connection as the peer sees it.
\<close>

definition session_of :: "'l peer \<Rightarrow> 16 word \<Rightarrow> Session \<Rightarrow> bool" where
  "session_of p ch s = (s_ConnectionID s = c_ID (pe_connection p) \<and> s_LocalChannel s = ch \<and> s_State s = StateMapped)"

definition peer_inv :: "'l peer \<Rightarrow> bool" where
  "peer_inv p = (sessions.inv (peer_sessions p) \<and> c_Sessions (pe_connection p) = pe_sessionIDs p \<and>
     (pe_sessionIDs p \<noteq> [] \<longrightarrow> conn_rank StateOpen \<le> conn_rank (c_State (pe_connection p))) \<and>
     conn_Get (sr_Connections (pe_server p)) (c_ID (pe_connection p)) = Some (pe_connection p) \<and>
     (\<forall>ch sid. get (pe_sessionIDs p) ch = Some sid \<longrightarrow>
        (\<exists>s. session_Get (peer_sessions p) sid = Some s \<and> session_of p ch s)))"

lemma peer_invD:
  assumes "peer_inv p"
  shows "sessions.inv (peer_sessions p)" "c_Sessions (pe_connection p) = pe_sessionIDs p"
    "pe_sessionIDs p \<noteq> [] \<Longrightarrow> conn_rank StateOpen \<le> conn_rank (c_State (pe_connection p))"
    "conn_Get (sr_Connections (pe_server p)) (c_ID (pe_connection p)) = Some (pe_connection p)"
    "get (pe_sessionIDs p) ch = Some sid \<Longrightarrow> \<exists>s. session_Get (peer_sessions p) sid = Some s \<and> session_of p ch s"
  using assms by (auto simp: peer_inv_def)

lemma peer_inv_sets [simp]:
  "peer_inv (set_links l p) = peer_inv p" "peer_inv (set_delivery d p) = peer_inv p" "peer_inv (set_mem m p) = peer_inv p"
  "peer_inv (p\<lparr>pe_linkIDs := li\<rparr>) = peer_inv p" "peer_inv (p\<lparr>pe_deliveryConsumer := dc\<rparr>) = peer_inv p"
  "peer_inv (p\<lparr>pe_net := n\<rparr>) = peer_inv p" "peer_inv (set_in b p) = peer_inv p"
  "peer_inv (set_sessions r (set_links l p)) = peer_inv (set_sessions r p)"
  "peer_inv (set_sessions r (set_mem m p)) = peer_inv (set_sessions r p)"
  by (simp_all add: peer_inv_def session_of_def set_in_def)

lemma peer_inv_write: "peer_inv q \<Longrightarrow> peer_inv (snd (peer_write c t f b q))"
  by (auto simp: peer_write_def split: sum.split)

lemma peer_inv_thenE:
  "peer_inv (snd r) \<Longrightarrow> (\<And>q. r = (None, q) \<Longrightarrow> peer_inv q \<Longrightarrow> peer_inv (snd (g q))) \<Longrightarrow> peer_inv (snd (thenE r g))"
  by (auto simp: thenE_def split: prod.splits option.splits)

lemma session_ident: "sessions.inv r \<Longrightarrow> session_Get r sid = Some s \<Longrightarrow> s_ID s = sid"
  by (auto simp: session_Get_def sessions.inv_def dest: reg_agreeD(1))

lemma session_Get_Set:
  "session_Get (session_Set s r) k = (if k = s_ID s \<and> session_Get r k \<noteq> None then Some s else session_Get r k)"
  by (auto simp: session_Get_def session_Set_def map_simps)

lemma session_Get_Remove: "session_Get (session_Remove sid r) k = (if k = sid then None else session_Get r k)"
  by (simp add: session_Get_def sessions.get_remove)

lemma sessions_inv_Set:
  "sessions.inv r \<Longrightarrow> session_Get r (s_ID s') = Some s \<Longrightarrow> s_ConnectionID s' = s_ConnectionID s \<Longrightarrow>
     s_LocalChannel s' = s_LocalChannel s \<Longrightarrow> sessions.inv (session_Set s' r)"
  by (rule sessions.inv_update) (auto simp: session_Get_def)

lemma peer_inv_set_session:
  assumes "peer_inv p" "session_Get (peer_sessions p) sid = Some s" "s_ID s' = s_ID s"
    "s_ConnectionID s' = s_ConnectionID s" "s_LocalChannel s' = s_LocalChannel s" "s_State s' = s_State s"
  shows "peer_inv (set_sessions (session_Set s' (peer_sessions p)) p)"
  using assms peer_invD(1) [OF assms(1)] session_ident [OF peer_invD(1) [OF assms(1)] assms(2)]
  by (auto simp: peer_inv_def session_of_def session_Get_Set intro!: sessions_inv_Set [of _ s' s]) fastforce+

lemma conn_Get_Set: "conn_Get r (c_ID c) \<noteq> None \<Longrightarrow> conn_Get (conn_Set c r) (c_ID c) = Some c"
  by (auto simp: conn_Get_def conn_Set_def map_simps)

lemma peer_inv_set_conn:
  assumes "peer_inv p" "c_ID c = c_ID (pe_connection p)" "c_Sessions c = c_Sessions (pe_connection p)"
    "conn_rank (c_State (pe_connection p)) \<le> conn_rank (c_State c)"
  shows "peer_inv (set_conn c p)"
  using assms conn_Get_Set [of "sr_Connections (pe_server p)" c]
  by (auto simp: peer_inv_def session_of_def)

lemma peer_inv_transition: "peer_inv p \<Longrightarrow> peer_inv (snd (peer_transition st p))"
  using valid_transition_rank [of "c_State (pe_connection p)" st]
  by (auto simp: peer_transition_def Transition_Inr split: sum.split intro!: peer_inv_set_conn)

lemma onOpen_inv: "peer_inv p \<Longrightarrow> peer_inv (snd (onOpen perf p))"
  by (auto simp: onOpen_def Let_def intro!: peer_inv_thenE peer_inv_write peer_inv_transition peer_inv_set_conn)

lemma session_fields [simp]:
  "s_ID (Session_Flow s a b) = s_ID s" "s_ConnectionID (Session_Flow s a b) = s_ConnectionID s"
  "s_LocalChannel (Session_Flow s a b) = s_LocalChannel s" "s_State (Session_Flow s a b) = s_State s"
  "s_ID (Session_Detach s h) = s_ID s" "s_ConnectionID (Session_Detach s h) = s_ConnectionID s"
  "s_LocalChannel (Session_Detach s h) = s_LocalChannel s" "s_State (Session_Detach s h) = s_State s"
  by (simp_all add: Session_Flow_def Session_Detach_def)

lemma session_result_fields:
  "Session_Attach s h k = Inr s' \<Longrightarrow> s_ID s' = s_ID s \<and> s_ConnectionID s' = s_ConnectionID s \<and>
     s_LocalChannel s' = s_LocalChannel s \<and> s_State s' = s_State s"
  "ConsumeIncoming s = Inr s' \<Longrightarrow> s_ID s' = s_ID s \<and> s_ConnectionID s' = s_ConnectionID s \<and>
     s_LocalChannel s' = s_LocalChannel s \<and> s_State s' = s_State s"
  "Session_End s = Inr s' \<Longrightarrow> s_ID s' = s_ID s \<and> s_ConnectionID s' = s_ConnectionID s \<and>
     s_LocalChannel s' = s_LocalChannel s"
  by (auto simp: Session_Attach_def ConsumeIncoming_def Session_End_def split: if_splits)

lemma attach_consumer_inv: "peer_inv p \<Longrightarrow> peer_inv (snd (attach_consumer en lid a l p))"
  by (auto simp: attach_consumer_def Let_def split: sum.split prod.split)

lemma onAttach_inv: "peer_inv p \<Longrightarrow> peer_inv (snd (onAttach en channel perf p))"
  by (auto simp: onAttach_def Let_def session_result_fields
      intro!: peer_inv_thenE peer_inv_write attach_consumer_inv peer_inv_set_session
      split: sum.split option.split)

lemma flow_loop_inv: "peer_inv p \<Longrightarrow> peer_inv (snd (flow_loop bl en channel h l i n p))"
  by (induction n arbitrary: l i p)
    (auto simp: Let_def intro!: peer_inv_thenE peer_inv_write split: sum.split prod.split)

lemma onFlow_inv: "peer_inv p \<Longrightarrow> peer_inv (snd (onFlow bl en channel perf p))"
  by (auto simp: onFlow_def Let_def intro!: flow_loop_inv peer_inv_set_session split: option.split)

lemma onTransfer_inv: "peer_inv p \<Longrightarrow> peer_inv (snd (onTransfer bl en channel perf payload p))"
  by (auto simp: onTransfer_def Let_def session_result_fields intro!: peer_inv_write peer_inv_set_session
      split: option.split sum.split prod.split)

lemma disposition_loop_inv: "peer_inv p \<Longrightarrow> peer_inv (disposition_loop en did lst p)"
  by (induction en did lst p rule: disposition_loop.induct)
    (subst disposition_loop.simps, auto simp: settle_one_def Let_def)

lemma onDisposition_inv: "peer_inv p \<Longrightarrow> peer_inv (snd (onDisposition en perf p))"
  by (simp add: onDisposition_def Let_def disposition_loop_inv)

lemma onClose_inv: "peer_inv p \<Longrightarrow> peer_inv (snd (onClose p))"
  by (auto simp: onClose_def Let_def intro!: peer_inv_thenE peer_inv_write peer_inv_transition)

lemma onDetach_inv: "peer_inv p \<Longrightarrow> peer_inv (snd (onDetach en channel perf p))"
  by (auto simp: onDetach_def Let_def intro!: peer_inv_write peer_inv_set_session split: option.split)

text \<open>The identifiers drawn for a session or a link are not in use.\<close>

definition fresh_env :: "env \<Rightarrow> 'l peer \<Rightarrow> bool" where
  "fresh_env en p = (valid_range (e_links en) \<and> (\<forall>sid. peer_randomID ''ssn'' (e_rnd en) = Inr sid \<longrightarrow> session_Get (peer_sessions p) sid = None) \<and>
     (\<forall>lid. peer_randomID ''lnk'' (e_rnd en) = Inr lid \<longrightarrow> link_Get (peer_links p) lid = None))"

lemma begun_session:
  "Session_Begin (New_Session sid c ch ch' t) = Inr s \<Longrightarrow>
     s_ID s = sid \<and> s_ConnectionID s = c \<and> s_LocalChannel s = ch \<and> s_State s = StateMapped"
  by (auto simp: Session_Begin_def New_Session_def)

lemma session_Get_Add: "session_Add s r = Inr r' \<Longrightarrow> session_Get r' k = (if k = s_ID s then Some s else session_Get r k)"
  using sessions.add_ok [of s r r'] by (simp add: session_Get_def map_simps)

lemma peer_inv_add_session:
  assumes "peer_inv p" "session_Get (peer_sessions p) (s_ID s) = None" "session_Add s (peer_sessions p) = Inr r"
  shows "peer_inv (set_sessions r p)"
proof -
  have "session_Get (peer_sessions p) k = Some s' \<Longrightarrow> session_Get r k = Some s'" for k s'
    using assms(2) by (auto simp: session_Get_Add [OF assms(3)])
  moreover have "sessions.inv r"
    using sessions.inv_add [OF peer_invD(1) [OF assms(1)] _ assms(3)] assms(2) by (simp add: session_Get_def)
  ultimately show ?thesis
    using assms(1) by (simp add: peer_inv_def session_of_def) blast
qed

lemma peer_inv_begin:
  assumes "peer_inv p" "AddSession (pe_connection p) ch sid = Inr c" "session_Get (peer_sessions p) sid = Some s" "session_of p ch s"
  shows "peer_inv ((set_conn c p)\<lparr>pe_sessionIDs := put ch sid (pe_sessionIDs p)\<rparr>)"
proof -
  have c: "c = (pe_connection p)\<lparr>c_Sessions := put ch sid (pe_sessionIDs p)\<rparr>" "c_State (pe_connection p) = StateOpen"
    using assms(1,2) by (auto simp: AddSession_def peer_inv_def split: if_splits)
  have "conn_Get (conn_Set c (sr_Connections (pe_server p))) (c_ID c) = Some c"
    using conn_Get_Set [of "sr_Connections (pe_server p)" c] peer_invD(4) [OF assms(1)] c by simp
  with assms c show ?thesis by (auto simp: peer_inv_def session_of_def map_simps)
qed

lemma onBegin_inv:
  assumes "peer_inv p" "fresh_env en p"
  shows "peer_inv (snd (onBegin en channel p))"
proof -
  let ?begun = "\<lambda>sid s r. peer_randomID ''ssn'' (e_rnd en) = Inr sid \<and>
    Session_Begin (New_Session sid (c_ID (pe_connection p)) channel channel (e_now en)) = Inr s \<and>
    session_Add s (peer_sessions p) = Inr r"
  have reg: "peer_inv (set_sessions r p)" if "?begun sid s r" for sid s r
    using assms that begun_session [of sid _ channel channel "e_now en" s]
    by (intro peer_inv_add_session [of _ s]) (auto simp: fresh_env_def)
  have "peer_inv ((set_conn c (set_sessions r p))\<lparr>pe_sessionIDs := put channel sid (pe_sessionIDs p)\<rparr>)"
    if "?begun sid s r" "AddSession (pe_connection p) channel sid = Inr c" for sid s r c
    using peer_inv_begin [OF reg [OF that(1)], of channel sid c s] that session_Get_Add [of s "peer_sessions p" r sid]
      begun_session [of sid "c_ID (pe_connection p)" channel channel "e_now en" s]
    by (auto simp: session_of_def)
  with reg show ?thesis
    by (auto simp: onBegin_def Let_def assms(1) intro!: peer_inv_write split: sum.split)
qed

lemma onEnd_inv:
  assumes "peer_inv p"
  shows "peer_inv (snd (onEnd en channel p))"
proof -
  let ?gone = "\<lambda>r sid. (set_conn (RemoveSession (pe_connection p) channel) (set_sessions (session_Remove sid r)
      (set_links (link_RemoveSession (e_links en) sid (peer_links p)) (set_sessions r p))))
      \<lparr>pe_sessionIDs := del channel (pe_sessionIDs p)\<rparr>"
  have ended: "peer_inv (?gone r sid)"
    if "get (pe_sessionIDs p) channel = Some sid" "sessions.inv r"
      and same: "\<And>k. k \<noteq> sid \<Longrightarrow> session_Get r k = session_Get (peer_sessions p) k" for r sid
  proof -
    let ?c = "RemoveSession (pe_connection p) channel"
    have c: "c_ID ?c = c_ID (pe_connection p)" "c_Sessions ?c = del channel (pe_sessionIDs p)"
      "c_State ?c = c_State (pe_connection p)"
      using peer_invD(2) [OF assms] by (simp_all add: RemoveSession_def)
    have reg: "conn_Get (conn_Set ?c (sr_Connections (pe_server p))) (c_ID (pe_connection p)) = Some ?c"
      using conn_Get_Set [of "sr_Connections (pe_server p)" ?c] peer_invD(4) [OF assms] c(1) by simp
    have "\<exists>s. session_Get (session_Remove sid r) k = Some s \<and> session_of p ch s"
      if ch: "get (pe_sessionIDs p) ch = Some k" "ch \<noteq> channel" for ch k
    proof -
      obtain s where s: "session_Get (peer_sessions p) k = Some s" "session_of p ch s"
        using peer_invD(5) [OF assms ch(1)] by blast
      obtain t where "session_Get (peer_sessions p) sid = Some t" "session_of p channel t"
        using peer_invD(5) [OF assms \<open>get (pe_sessionIDs p) channel = Some sid\<close>] by blast
      with s ch(2) have "k \<noteq> sid" by (auto simp: session_of_def)
      with s same show ?thesis by (auto simp: session_Get_Remove)
    qed
    then show ?thesis
      using c reg peer_invD(3) [OF assms] sessions.inv_remove [OF that(2)] del_Nil_iff [of channel "pe_sessionIDs p"]
      by (auto simp: peer_inv_def session_of_def map_simps)
  qed
  have "peer_inv (snd (onEnd en channel p))" if "get (pe_sessionIDs p) channel = Some sid"
      "session_Get (peer_sessions p) sid = Some s" for sid s
  proof -
    note ident = session_ident [OF peer_invD(1) [OF assms] that(2)]
    have "peer_inv (?gone (session_Set s' (peer_sessions p)) sid)" if "Session_End s = Inr s'" for s'
      using ended [OF \<open>get (pe_sessionIDs p) channel = Some sid\<close>, of "session_Set s' (peer_sessions p)"]
        sessions_inv_Set [OF peer_invD(1) [OF assms], of s' s] session_result_fields(3) [OF that] ident
        \<open>session_Get (peer_sessions p) sid = Some s\<close>
      by (simp add: session_Get_Set)
    moreover have "peer_inv (?gone (peer_sessions p) sid)"
      using ended [OF that(1) peer_invD(1) [OF assms]] by simp
    moreover have "set_sessions (peer_sessions p) p = p" by (simp add: set_sessions_def)
    ultimately show ?thesis
      by (auto simp: onEnd_def Let_def that intro!: peer_inv_write split: sum.split)
  qed
  then show ?thesis
    by (cases "get (pe_sessionIDs p) channel"; cases "session_Get (peer_sessions p) (the (get (pe_sessionIDs p) channel))")
      (auto simp: onEnd_def assms)
qed

lemmas handlers_inv = onOpen_inv onBegin_inv onAttach_inv onFlow_inv onTransfer_inv onDisposition_inv onDetach_inv
  onEnd_inv onClose_inv

lemma process_inv: "peer_inv p \<Longrightarrow> fresh_env en p \<Longrightarrow> peer_inv (snd (process bl en frame p))"
  by (auto simp: process_def Let_def handlers_inv split: sum.split)

section \<open>The link table\<close>

text \<open>
  \<open>link_ok\<close>: the link registry is consistent, and every slot of the peer names a registered link of
  one of its sessions, filed under the channel of that session and the handle of the link.
\<close>

definition link_ok :: "link_Registry \<Rightarrow> (string, string) gomap \<Rightarrow> (16 word, string) gomap \<Rightarrow> bool" where
  "link_ok lr li si = (links.inv lr \<and> (\<forall>slot lid. get li slot = Some lid \<longrightarrow>
     (\<exists>ch l. link_Get lr lid = Some l \<and> l_ID l = lid \<and> get si ch = Some (l_SessionID l) \<and> slot = link_slot ch (l_Handle l))))"

definition link_table :: "'l peer \<Rightarrow> bool" where
  "link_table p = link_ok (peer_links p) (pe_linkIDs p) (pe_sessionIDs p)"

lemma link_okD:
  "link_ok lr li si \<Longrightarrow> get li slot = Some lid \<Longrightarrow>
     \<exists>ch l. link_Get lr lid = Some l \<and> l_ID l = lid \<and> get si ch = Some (l_SessionID l) \<and> slot = link_slot ch (l_Handle l)"
  by (auto simp: link_ok_def)

lemma link_slot_inject: "link_slot a h = link_slot b k \<longleftrightarrow> a = b \<and> h = k"
proof
  assume "link_slot a h = link_slot b k"
  then have "dec (unat a) = dec (unat b)" "dec (unat h) = dec (unat k)"
    using separator_inject [of "dec (unat a)" "CHR '':''" "dec (unat h)" "dec (unat b)" "dec (unat k)"]
    by (auto simp: link_slot_def dec_no_colon)
  then show "a = b \<and> h = k" by (simp add: word_unat_eq_iff dec_inj)
qed simp

lemma link_Get_Set: "link_Get (link_Set l r) k = (if k = l_ID l \<and> link_Get r k \<noteq> None then Some l else link_Get r k)"
  by (auto simp: link_Get_def link_Set_def map_simps)

lemma link_Get_Remove: "link_Get (link_Remove lid r) k = (if k = lid then None else link_Get r k)"
  by (simp add: link_Get_def links.get_remove)

lemma link_Get_Add: "link_Add l r = Inr r' \<Longrightarrow> link_Get r' k = (if k = l_ID l then Some l else link_Get r k)"
  using links.add_ok [of l r r'] by (simp add: link_Get_def map_simps)

lemma link_ident: "links.inv r \<Longrightarrow> link_Get r lid = Some l \<Longrightarrow> l_ID l = lid"
  by (auto simp: link_Get_def links.inv_def dest: reg_agreeD(1))

text \<open>What the peer does to the three tables.\<close>

lemma link_ok_set:
  assumes "link_ok lr li si" "link_Get lr (l_ID l) = Some l0" "l_SessionID l = l_SessionID l0" "l_Handle l = l_Handle l0"
  shows "link_ok (link_Set l lr) li si"
proof -
  have "links.inv (link_Set l lr)"
    using assms by (intro links.inv_update [of _ _ l0]) (auto simp: link_ok_def link_Get_def)
  with assms show ?thesis by (auto simp: link_ok_def link_Get_Set) fastforce
qed

lemma link_ok_add:
  assumes "link_ok lr li si" "link_Get lr (l_ID l) = None" "link_Add l lr = Inr lr'"
  shows "link_ok lr' li si"
proof -
  have "links.inv lr'" using assms by (auto simp: link_ok_def link_Get_def intro: links.inv_add)
  moreover have "link_Get lr k = Some x \<Longrightarrow> link_Get lr' k = Some x" for k x
    using assms(2) by (auto simp: link_Get_Add [OF assms(3)])
  ultimately show ?thesis using assms(1) by (simp add: link_ok_def) blast
qed

lemma link_ok_attach:
  assumes "link_ok lr li si" "link_Get lr lid = Some l" "l_ID l = lid" "get si ch = Some (l_SessionID l)"
  shows "link_ok lr (put (link_slot ch (l_Handle l)) lid li) si"
  using assms by (auto simp: link_ok_def map_simps)

lemma link_ok_begin: "link_ok lr li si \<Longrightarrow> get si ch = None \<Longrightarrow> link_ok lr li (put ch sid si)"
  by (auto simp: link_ok_def map_simps) (metis option.distinct(1))

lemma link_ok_detach:
  assumes "link_ok lr li si" "get li (link_slot ch h) = Some lid"
    and inj: "\<And>a b k. get si a = Some k \<Longrightarrow> get si b = Some k \<Longrightarrow> a = b"
  shows "link_ok (link_Remove lid lr) (del (link_slot ch h) li) si"
proof -
  have "links.inv (link_Remove lid lr)" using assms(1) by (simp add: link_ok_def links.inv_remove)
  moreover have "k \<noteq> lid" if "get li slot = Some k" "slot \<noteq> link_slot ch h" for slot k
  proof
    assume "k = lid"
    obtain c l where "link_Get lr lid = Some l" "get si c = Some (l_SessionID l)" "slot = link_slot c (l_Handle l)"
      using link_okD [OF assms(1) \<open>get li slot = Some k\<close>] \<open>k = lid\<close> by blast
    moreover obtain c' l' where "link_Get lr lid = Some l'" "get si c' = Some (l_SessionID l')"
        "link_slot ch h = link_slot c' (l_Handle l')"
      using link_okD [OF assms(1,2)] by blast
    ultimately show False using inj [of c _ c'] \<open>slot \<noteq> link_slot ch h\<close> by simp
  qed
  ultimately show ?thesis using assms(1) by (auto simp: link_ok_def map_simps link_Get_Remove)
qed

lemma link_ok_end:
  assumes "link_ok lr li si" "get si ch = Some sid" "valid_range rng"
    and inj: "\<And>a b k. get si a = Some k \<Longrightarrow> get si b = Some k \<Longrightarrow> a = b"
    and none: "\<And>h. get li (link_slot ch h) = None"
  shows "link_ok (link_RemoveSession rng sid lr) li (del ch si)"
proof -
  have inv: "links.inv lr" using assms(1) by (simp add: link_ok_def)
  have "\<exists>c l. link_Get (link_RemoveSession rng sid lr) k = Some l \<and> l_ID l = k \<and>
      get (del ch si) c = Some (l_SessionID l) \<and> slot = link_slot c (l_Handle l)" if "get li slot = Some k" for slot k
  proof -
    obtain c l where l: "link_Get lr k = Some l" "l_ID l = k" "get si c = Some (l_SessionID l)" "slot = link_slot c (l_Handle l)"
      using link_okD [OF assms(1) \<open>get li slot = Some k\<close>] by blast
    have "c \<noteq> ch" using none that l(4) by auto
    then have "l_SessionID l \<noteq> sid" using inj l(3) assms(2) by blast
    with l links.get_remove_owner [OF inv assms(3), of sid k l] \<open>c \<noteq> ch\<close> show ?thesis
      by (auto simp: link_Get_def map_simps)
  qed
  then show ?thesis using links.inv_remove_owner [OF inv assms(3)] by (simp add: link_ok_def)
qed

lemma write_fields [simp]:
  "peer_links (snd (peer_write c t f b p)) = peer_links p" "pe_linkIDs (snd (peer_write c t f b p)) = pe_linkIDs p"
  "pe_sessionIDs (snd (peer_write c t f b p)) = pe_sessionIDs p"
  "peer_sessions (snd (peer_write c t f b p)) = peer_sessions p" "peer_delivery (snd (peer_write c t f b p)) = peer_delivery p"
  "pe_connection (snd (peer_write c t f b p)) = pe_connection p"
  by (auto simp: peer_write_def split: sum.split)

lemma transition_fields [simp]:
  "peer_links (snd (peer_transition st p)) = peer_links p" "pe_linkIDs (snd (peer_transition st p)) = pe_linkIDs p"
  "pe_sessionIDs (snd (peer_transition st p)) = pe_sessionIDs p" "peer_delivery (snd (peer_transition st p)) = peer_delivery p"
  by (auto simp: peer_transition_def split: sum.split)

text \<open>
  Two tables are kept in this way. \<open>link_ok\<close> is kept as long as sessions are ended only after their
  links have been detached. \<open>own_ok\<close> is kept whatever happens: a slot may name a link that is no
  longer registered, but a registered link of a slot belongs to a session of this peer. Every handler
  but \<open>onEnd\<close> keeps them for the same reasons, the laws of \<open>link_tables\<close>.
\<close>

definition own_ok :: "link_Registry \<Rightarrow> (string, string) gomap \<Rightarrow> (16 word, string) gomap \<Rightarrow> bool" where
  "own_ok lr li si = (links.inv lr \<and> (\<forall>slot lid l. get li slot = Some lid \<longrightarrow> link_Get lr lid = Some l \<longrightarrow>
     (\<exists>ch. get si ch = Some (l_SessionID l))))"

definition table :: "(link_Registry \<Rightarrow> (string, string) gomap \<Rightarrow> (16 word, string) gomap \<Rightarrow> bool) \<Rightarrow> 'l peer \<Rightarrow> bool" where
  "table ok p = ok (peer_links p) (pe_linkIDs p) (pe_sessionIDs p)"

lemma link_table_eq: "link_table p = table link_ok p"
  by (simp add: link_table_def table_def)

lemma table_simps [simp]:
  "table ok (set_conn c p) = table ok p" "table ok (set_sessions r p) = table ok p"
  "table ok (set_delivery d p) = table ok p" "table ok (set_mem m p) = table ok p"
  "table ok (p\<lparr>pe_deliveryConsumer := dc\<rparr>) = table ok p" "table ok (p\<lparr>pe_net := n\<rparr>) = table ok p"
  "table ok (set_in b p) = table ok p"
  "table ok (snd (peer_write c' t f b' p)) = table ok p" "table ok (snd (peer_transition st p)) = table ok p"
  by (simp_all add: table_def set_in_def)

lemma table_thenE:
  "table ok (snd r) \<Longrightarrow> (\<And>q. r = (None, q) \<Longrightarrow> table ok q \<Longrightarrow> table ok (snd (g q))) \<Longrightarrow> table ok (snd (thenE r g))"
  by (auto simp: thenE_def split: prod.splits option.splits)

lemma link_table_simps [simp]:
  "link_table (set_conn c p) = link_table p" "link_table (set_in b p) = link_table p"
  "link_table (snd (peer_transition st p)) = link_table p"
  by (simp_all add: link_table_eq)

lemma link_fields [simp]:
  "l_ID (Link_Grant l n) = l_ID l" "l_SessionID (Link_Grant l n) = l_SessionID l" "l_Handle (Link_Grant l n) = l_Handle l"
  "l_Role (Link_Grant l n) = l_Role l"
  "l_ID (Link_Detach l) = l_ID l" "l_SessionID (Link_Detach l) = l_SessionID l" "l_Handle (Link_Detach l) = l_Handle l"
  by (simp_all add: Link_Grant_def Link_Detach_def)

lemma consumed_fields:
  "Link_Consume l z = Inr l' \<Longrightarrow> l_ID l' = l_ID l \<and> l_SessionID l' = l_SessionID l \<and> l_Handle l' = l_Handle l \<and>
     l_Role l' = l_Role l \<and> l_Address l' = l_Address l"
  by (auto simp: Link_Consume_def Let_def split: if_splits)

lemma attached_link:
  "tryE (New_Link lid sid nm a h ro t) Link_Attach = Inr l \<Longrightarrow> l_ID l = lid \<and> l_SessionID l = sid \<and> l_Handle l = h"
  by (auto simp: New_Link_def Link_Attach_def result_iffs split: if_splits)

lemma disposition_loop_table: "table ok (disposition_loop en did lst p) = table ok p"
  by (induction en did lst p rule: disposition_loop.induct)
    (subst disposition_loop.simps, auto simp: settle_one_def Let_def)

text \<open>Different channels have different sessions.\<close>

lemma sessions_inject:
  assumes "peer_inv p" "get (pe_sessionIDs p) a = Some k" "get (pe_sessionIDs p) b = Some k"
  shows "a = b"
  using peer_invD(5) [OF assms(1,2)] peer_invD(5) [OF assms(1,3)] by (auto simp: session_of_def)

locale link_tables =
  fixes ok :: "link_Registry \<Rightarrow> (string, string) gomap \<Rightarrow> (16 word, string) gomap \<Rightarrow> bool"
  assumes registry: "ok lr li si \<Longrightarrow> links.inv lr"
    and keep_set: "ok lr li si \<Longrightarrow> link_Get lr (l_ID l) = Some l0 \<Longrightarrow> l_SessionID l = l_SessionID l0 \<Longrightarrow>
      l_Handle l = l_Handle l0 \<Longrightarrow> ok (link_Set l lr) li si"
    and keep_add: "ok lr li si \<Longrightarrow> link_Get lr (l_ID l) = None \<Longrightarrow> link_Add l lr = Inr lr' \<Longrightarrow>
      get si ch = Some (l_SessionID l) \<Longrightarrow> ok lr' li si"
    and keep_attach: "ok lr li si \<Longrightarrow> link_Get lr lid = Some l \<Longrightarrow> l_ID l = lid \<Longrightarrow> get si ch = Some (l_SessionID l) \<Longrightarrow>
      ok lr (put (link_slot ch (l_Handle l)) lid li) si"
    and keep_begin: "ok lr li si \<Longrightarrow> get si ch = None \<Longrightarrow> ok lr li (put ch sid si)"
    and keep_detach: "ok lr li si \<Longrightarrow> get li (link_slot ch h) = Some lid \<Longrightarrow>
      (\<And>a b k. get si a = Some k \<Longrightarrow> get si b = Some k \<Longrightarrow> a = b) \<Longrightarrow> ok (link_Remove lid lr) (del (link_slot ch h) li) si"
begin

lemma table_set:
  assumes "table ok p" "link_Get (peer_links p) lid = Some l0" "l_ID l = l_ID l0" "l_SessionID l = l_SessionID l0"
    "l_Handle l = l_Handle l0"
  shows "table ok (set_links (link_Set l (peer_links p)) p)"
proof -
  have "l_ID l0 = lid" using link_ident [OF registry assms(2)] assms(1) by (simp add: table_def)
  with assms show ?thesis by (simp add: table_def keep_set [of _ _ _ l l0])
qed

lemma onOpen_table: "table ok p \<Longrightarrow> table ok (snd (onOpen perf p))"
  by (auto simp: onOpen_def Let_def intro!: table_thenE)

lemma onBegin_table:
  assumes "table ok p" "c_Sessions (pe_connection p) = pe_sessionIDs p"
  shows "table ok (snd (onBegin en channel p))"
  using assms
  by (auto simp: onBegin_def Let_def AddSession_def table_def intro!: keep_begin split: sum.split if_splits)

lemma attach_consumer_table:
  assumes "table ok p" "link_Get (peer_links p) lid = Some l"
  shows "table ok (snd (attach_consumer en lid a l p))"
proof -
  have "ok (link_Set (Link_Grant l n) (peer_links p)) (pe_linkIDs p) (pe_sessionIDs p)" for n
    using assms link_ident [of "peer_links p" lid l] registry
    by (intro keep_set [of _ _ _ _ l]) (auto simp: table_def)
  with assms(1) show ?thesis
    by (auto simp: attach_consumer_def Let_def table_def split: sum.split prod.split)
qed

lemma onAttach_table:
  assumes "table ok p" "fresh_env en p"
  shows "table ok (snd (onAttach en channel perf p))"
proof -
  have add: "ok r (pe_linkIDs p) (pe_sessionIDs p)" "link_Get r lid = Some l"
    "ok r (put (link_slot channel (Perf_Uint perf 1)) lid (pe_linkIDs p)) (pe_sessionIDs p)"
    if "get (pe_sessionIDs p) channel = Some sid" "peer_randomID ''lnk'' (e_rnd en) = Inr lid" "link_Add l (peer_links p) = Inr r"
      "tryE (New_Link lid sid nm a (Perf_Uint perf 1) ro t) Link_Attach = Inr l" for lid l r nm a ro t sid
  proof -
    note l = attached_link [OF that(4)]
    show ok: "ok r (pe_linkIDs p) (pe_sessionIDs p)" and here: "link_Get r lid = Some l"
      using assms that link_Get_Add [OF that(3)] l by (auto simp: fresh_env_def table_def intro: keep_add [of _ _ _ l _ channel])
    show "ok r (put (link_slot channel (Perf_Uint perf 1)) lid (pe_linkIDs p)) (pe_sessionIDs p)"
      using keep_attach [OF ok here, of channel] l that by auto
  qed
  show ?thesis
    using assms(1)
    by (auto simp: onAttach_def Let_def table_def [of ok "set_links _ _"] add
        intro!: table_thenE attach_consumer_table split: sum.split option.split)
      (auto simp: table_def add)
qed

lemma flow_loop_table:
  assumes "table ok p" "link_Get (peer_links p) (l_ID l) = Some l"
  shows "table ok (snd (flow_loop bl en channel h l i n p))"
  using assms
proof (induction n arbitrary: l i p)
  case (Suc n)
  have set: "table ok (set_links (link_Set l' (peer_links p)) (set_delivery d p))"
    "link_Get (link_Set l' (peer_links p)) (l_ID l') = Some l'" if "Link_Consume l z = Inr l'" for l' z d
    using Suc.prems consumed_fields [OF that] table_set [OF Suc.prems, of l']
    by (auto simp: table_def link_Get_Set)
  have keep: "table ok q' \<and> link_Get (peer_links q') k = Some l'"
    if "peer_write c t f b q = (e, q')" "table ok q" "link_Get (peer_links q) k = Some l'" for c t f b q e q' k l'
    using that write_fields(1) [of c t f b q] table_simps(8) [of ok c t f b q] by simp
  show ?case
    using Suc.prems
    by (auto simp: Let_def set intro!: table_thenE Suc.IH dest!: keep split: sum.split prod.split)
qed simp

lemma onFlow_table: "table ok p \<Longrightarrow> table ok (snd (onFlow bl en channel perf p))"
proof -
  assume p: "table ok p"
  have "table ok (snd (flow_loop bl en ch h (Link_Grant l n) 0 k (set_links (link_Set (Link_Grant l n) (peer_links p)) (set_sessions r p))))"
    "table ok (set_links (link_Set (Link_Grant l n) (peer_links p)) (set_sessions r p))"
    if "link_Get (peer_links p) lid = Some l" for l lid n ch h k r
  proof -
    have "l_ID l = lid" using link_ident [OF registry that] p by (simp add: table_def)
    moreover show *: "table ok (set_links (link_Set (Link_Grant l n) (peer_links p)) (set_sessions r p))"
      using table_set [OF p that, of "Link_Grant l n"] by (simp add: table_def)
    ultimately show "table ok (snd (flow_loop bl en ch h (Link_Grant l n) 0 k (set_links (link_Set (Link_Grant l n) (peer_links p)) (set_sessions r p))))"
      using that by (intro flow_loop_table) (auto simp: link_Get_Set)
  qed
  with p show ?thesis by (auto simp: onFlow_def Let_def split: option.split)
qed

lemma onTransfer_table: "table ok p \<Longrightarrow> table ok (snd (onTransfer bl en channel perf payload p))"
proof -
  assume p: "table ok p"
  have "table ok (set_links (link_Set l' (peer_links p)) (set_sessions r p))"
    if "link_Get (peer_links p) lid = Some l" "Link_Consume l z = Inr l'" for l l' lid r z
    using table_set [OF p that(1), of l'] consumed_fields [OF that(2)] by (simp add: table_def)
  with p show ?thesis
    by (auto simp: onTransfer_def Let_def split: option.split sum.split prod.split)
qed

lemma onDisposition_table: "table ok p \<Longrightarrow> table ok (snd (onDisposition en perf p))"
  by (simp add: onDisposition_def Let_def disposition_loop_table)

lemma onClose_table: "table ok p \<Longrightarrow> table ok (snd (onClose p))"
  by (auto simp: onClose_def Let_def intro!: table_thenE)

lemma onDetach_table:
  assumes "peer_inv p" "table ok p"
  shows "table ok (snd (onDetach en channel perf p))"
proof -
  have base: "ok (link_Remove lid lr) (del (link_slot channel (Perf_Uint perf 0)) (pe_linkIDs p)) (pe_sessionIDs p)"
    if "get (pe_linkIDs p) (link_slot channel (Perf_Uint perf 0)) = Some lid" "ok lr (pe_linkIDs p) (pe_sessionIDs p)" for lid lr
    using keep_detach [OF that(2,1)] sessions_inject [OF assms(1)] by blast
  have "ok (link_Set (Link_Detach l) (peer_links p)) (pe_linkIDs p) (pe_sessionIDs p)"
    if "link_Get (peer_links p) lid = Some l" for l lid
    using table_set [OF assms(2) that, of "Link_Detach l"] by (simp add: table_def)
  with assms(2) show ?thesis
    by (auto simp: onDetach_def Let_def table_def intro!: base split: option.split)
qed

lemma process_table:
  assumes "peer_inv p" "table ok p" "fresh_env en p"
    and "\<And>perf n. DecodePerformative (f_Body frame) = Inr (perf, n) \<Longrightarrow> p_Descriptor perf = DescriptorEnd \<Longrightarrow>
      table ok (snd (onEnd en (f_Channel frame) p))"
  shows "table ok (snd (process bl en frame p))"
  using assms peer_invD(2) [OF assms(1)]
  by (auto simp: process_def Let_def onOpen_table onBegin_table onAttach_table onFlow_table onTransfer_table
      onDisposition_table onDetach_table onClose_table split: sum.splits)

end

interpretation strict: link_tables link_ok
proof
  show "links.inv lr" if "link_ok lr li si" for lr li si using that by (simp add: link_ok_def)
qed (erule link_ok_set link_ok_add link_ok_attach link_ok_begin link_ok_detach; assumption)+

lemma own_ok_step:
  assumes "own_ok lr li si" "links.inv lr'"
    and "\<And>k l. link_Get lr' k = Some l \<Longrightarrow>
      (\<exists>l0. link_Get lr k = Some l0 \<and> l_SessionID l0 = l_SessionID l) \<or> (\<exists>ch. get si ch = Some (l_SessionID l))"
  shows "own_ok lr' li si"
  using assms unfolding own_ok_def by metis

interpretation weak: link_tables own_ok
proof
  fix lr :: link_Registry and li :: "(string, string) gomap" and si :: "(16 word, string) gomap"
  assume ok: "own_ok lr li si"
  then show inv: "links.inv lr" by (simp add: own_ok_def)
  show "own_ok (link_Set l lr) li si"
    if "link_Get lr (l_ID l) = Some l0" "l_SessionID l = l_SessionID l0" "l_Handle l = l_Handle l0" for l l0
  proof (rule own_ok_step [OF ok])
    show "links.inv (link_Set l lr)"
      using that inv by (intro links.inv_update [of _ _ l0]) (auto simp: link_Get_def)
  qed (use that in \<open>auto simp: link_Get_Set split: if_splits\<close>)
  show "own_ok lr' li si" if "link_Get lr (l_ID l) = None" "link_Add l lr = Inr lr'" "get si ch = Some (l_SessionID l)" for l lr' ch
  proof (rule own_ok_step [OF ok])
    show "links.inv lr'" using that inv by (auto simp: link_Get_def intro: links.inv_add)
  qed (use that in \<open>auto simp: link_Get_Add [OF that(2)] split: if_splits\<close>)
  show "own_ok lr (put (link_slot ch (l_Handle l)) lid li) si"
    if "link_Get lr lid = Some l" "l_ID l = lid" "get si ch = Some (l_SessionID l)" for lid l ch
    using ok that unfolding own_ok_def by (auto simp: map_simps)
  show "own_ok lr li (put ch sid si)" if "get si ch = None" for ch sid
    using ok that unfolding own_ok_def by (auto simp: map_simps) (metis option.distinct(1))
  show "own_ok (link_Remove lid lr) (del (link_slot ch h) li) si" for ch h lid
    using ok links.inv_remove [OF inv] unfolding own_ok_def by (auto simp: map_simps link_Get_Remove split: if_splits)
qed

text \<open>An end is orderly when the links of its channel have been detached before.\<close>

definition orderly :: "Frame \<Rightarrow> 'l peer \<Rightarrow> bool" where
  "orderly frame p = (case DecodePerformative (f_Body frame) of
      Inr (perf, n) \<Rightarrow> p_Descriptor perf = DescriptorEnd \<longrightarrow> (\<forall>h. get (pe_linkIDs p) (link_slot (f_Channel frame) h) = None)
    | Inl _ \<Rightarrow> True)"

lemma onEnd_keeps_table:
  assumes "table ok p" "\<And>sid. get (pe_sessionIDs p) channel = Some sid \<Longrightarrow>
      ok (link_RemoveSession (e_links en) sid (peer_links p)) (pe_linkIDs p) (del channel (pe_sessionIDs p))"
  shows "table ok (snd (onEnd en channel p))"
  using assms by (auto simp: onEnd_def Let_def table_def split: option.split sum.split)

lemma process_links:
  assumes "peer_inv p" "link_table p" "fresh_env en p" "orderly frame p"
  shows "link_table (snd (process bl en frame p))"
  unfolding link_table_eq
proof (rule strict.process_table [OF assms(1) assms(2) [unfolded link_table_eq] assms(3)])
  fix perf n
  assume "DecodePerformative (f_Body frame) = Inr (perf, n)" "p_Descriptor perf = DescriptorEnd"
  then have "get (pe_linkIDs p) (link_slot (f_Channel frame) h) = None" for h using assms(4) by (simp add: orderly_def)
  with assms(3) show "table link_ok (snd (onEnd en (f_Channel frame) p))"
    using assms(2) [unfolded link_table_def] sessions_inject [OF assms(1)]
    by (intro onEnd_keeps_table assms(2) [unfolded link_table_eq] link_ok_end) (auto simp: fresh_env_def)
qed

text \<open>The weak table, whatever the remote end sends.\<close>

definition own_links :: "'l peer \<Rightarrow> bool" where
  "own_links p = table own_ok p"

lemma own_ok_end:
  assumes "own_ok lr li si" "get si ch = Some sid" "valid_range rng"
  shows "own_ok (link_RemoveSession rng sid lr) li (del ch si)"
proof -
  have inv: "links.inv lr" using assms(1) by (simp add: own_ok_def)
  have "\<exists>c. get (del ch si) c = Some (l_SessionID l)"
    if "get li slot = Some k" "link_Get (link_RemoveSession rng sid lr) k = Some l" for slot k l
  proof -
    have l: "link_Get lr k = Some l" "l_SessionID l \<noteq> sid"
      using that(2) links.get_remove_owner [OF inv assms(3), of sid k l] by (auto simp: link_Get_def)
    then obtain c where "get si c = Some (l_SessionID l)"
      using assms(1) \<open>get li slot = Some k\<close> unfolding own_ok_def by blast
    with l(2) assms(2) show ?thesis by (intro exI [of _ c]) (auto simp: map_simps)
  qed
  then show ?thesis using links.inv_remove_owner [OF inv assms(3)] by (auto simp: own_ok_def)
qed

lemma process_own_links:
  assumes "peer_inv p" "own_links p" "fresh_env en p"
  shows "own_links (snd (process bl en frame p))"
  unfolding own_links_def
proof (rule weak.process_table [OF assms(1) assms(2) [unfolded own_links_def] assms(3)])
  show "table own_ok (snd (onEnd en (f_Channel frame) p))"
    using assms(2,3)
    by (intro onEnd_keeps_table own_ok_end) (auto simp: own_links_def table_def fresh_env_def)
qed

lemma own_links_simps [simp]:
  "own_links (set_conn c p) = own_links p" "own_links (set_in b p) = own_links p"
  "own_links (snd (peer_transition st p)) = own_links p"
  by (simp_all add: own_links_def)

lemma link_table_own: "link_table p \<Longrightarrow> own_links p"
  by (fastforce simp: own_links_def table_def own_ok_def link_table_def link_ok_def)

section \<open>New links\<close>

text \<open>A frame registers at most one link, under the identifier drawn for it.\<close>

definition adds_links :: "env \<Rightarrow> 'l peer \<Rightarrow> 'l peer \<Rightarrow> bool" where
  "adds_links en p q = (\<forall>k. link_Get (peer_links q) k \<noteq> None \<longrightarrow>
     link_Get (peer_links p) k \<noteq> None \<or> peer_randomID ''lnk'' (e_rnd en) = Inr k)"

lemma adds_links_refl [simp]: "adds_links en p p"
  by (simp add: adds_links_def)

lemma adds_links_sets [simp]:
  "adds_links en p (set_conn c q) = adds_links en p q" "adds_links en p (set_sessions r q) = adds_links en p q"
  "adds_links en p (set_delivery d q) = adds_links en p q" "adds_links en p (set_mem m q) = adds_links en p q"
  "adds_links en p (q\<lparr>pe_deliveryConsumer := dc\<rparr>) = adds_links en p q" "adds_links en p (q\<lparr>pe_linkIDs := li\<rparr>) = adds_links en p q"
  "adds_links en p (q\<lparr>pe_sessionIDs := si\<rparr>) = adds_links en p q"
  "adds_links en p (snd (peer_write c' t f b' q)) = adds_links en p q" "adds_links en p (snd (peer_transition st q)) = adds_links en p q"
  by (simp_all add: adds_links_def)

lemma adds_links_thenE:
  "adds_links en p (snd r) \<Longrightarrow> (\<And>q. r = (None, q) \<Longrightarrow> adds_links en p q \<Longrightarrow> adds_links en p (snd (g q))) \<Longrightarrow>
     adds_links en p (snd (thenE r g))"
  by (auto simp: thenE_def split: prod.splits option.splits)

lemma adds_links_add:
  "peer_randomID ''lnk'' (e_rnd en) = Inr (l_ID l) \<Longrightarrow> link_Add l (peer_links p) = Inr r \<Longrightarrow> adds_links en p (set_links r p)"
  by (auto simp: adds_links_def link_Get_Add split: if_splits)

lemma adds_links_set:
  "adds_links en p q \<Longrightarrow> peer_links q = lr \<Longrightarrow> adds_links en p (set_links (link_Set l lr) q)"
  by (auto simp: adds_links_def link_Get_Set split: if_splits)

lemma attach_consumer_adds: "adds_links en p q \<Longrightarrow> adds_links en p (snd (attach_consumer en' lid a l q))"
  by (auto simp: attach_consumer_def Let_def intro!: adds_links_set split: sum.split prod.split)

lemma onAttach_adds: "adds_links en p (snd (onAttach en channel perf p))"
  by (auto simp: onAttach_def Let_def intro!: adds_links_thenE attach_consumer_adds adds_links_add
      dest!: attached_link split: sum.split option.split)

lemma flow_loop_adds: "adds_links en p q \<Longrightarrow> adds_links en p (snd (flow_loop bl en' channel h l i n q))"
  by (induction n arbitrary: l i q)
    (auto simp: Let_def intro!: adds_links_thenE adds_links_set split: sum.split prod.split)

lemma onFlow_adds: "adds_links en p (snd (onFlow bl en channel perf p))"
  by (auto simp: onFlow_def Let_def intro!: flow_loop_adds adds_links_set split: option.split)

lemma onTransfer_adds: "adds_links en p (snd (onTransfer bl en channel perf payload p))"
  by (auto simp: onTransfer_def Let_def intro!: adds_links_set split: option.split sum.split prod.split)

lemma disposition_loop_adds: "adds_links en p (disposition_loop en' did lst q) = adds_links en p q"
  by (induction en' did lst q rule: disposition_loop.induct)
    (subst disposition_loop.simps, auto simp: settle_one_def Let_def)

lemma onDetach_adds: "adds_links en p (snd (onDetach en channel perf p))"
  by (auto simp: onDetach_def Let_def split: option.split)
    (auto simp: adds_links_def link_Get_Remove link_Get_Set)

lemma onEnd_adds:
  assumes "links.inv (peer_links p)" "valid_range (e_links en)"
  shows "adds_links en p (snd (onEnd en channel p))"
  using assms links.get_remove_owner [OF assms]
  by (auto simp: onEnd_def Let_def adds_links_def link_Get_def split: option.split sum.split)

lemma process_adds:
  assumes "links.inv (peer_links p)" "valid_range (e_links en)"
  shows "adds_links en p (snd (process bl en frame p))"
proof -
  have "adds_links en p (snd (onOpen perf p))" "adds_links en p (snd (onBegin en channel p))" "adds_links en p (snd (onClose p))"
    "adds_links en p (snd (onDisposition en perf p))" for perf channel
    by (auto simp: onOpen_def onBegin_def onClose_def onDisposition_def disposition_loop_adds Let_def
        intro!: adds_links_thenE split: sum.split)
  with assms show ?thesis
    by (auto simp: process_def Let_def onAttach_adds onFlow_adds onTransfer_adds onDetach_adds onEnd_adds split: sum.split)
qed

section \<open>When a frame crashes the broker\<close>

definition transfer_dangling :: "Frame \<Rightarrow> 'l peer \<Rightarrow> bool" where
  "transfer_dangling frame p = (\<exists>perf n. DecodePerformative (f_Body frame) = Inr (perf, n) \<and>
     p_Descriptor perf = DescriptorTransfer \<and> dangling (f_Channel frame) perf p)"

lemma process_panic_free:
  assumes "peer_inv p" "quiet z en p" "z = index_panic \<longrightarrow> limited (sv_mem (peer_delivery p))"
  shows "panic_free z (process bl en frame p) \<longleftrightarrow> \<not> (z = nil_panic \<and> transfer_dangling frame p)"
proof -
  have sess: "session_Get (peer_sessions p) sid \<noteq> None" if "get (pe_sessionIDs p) ch = Some sid" for ch sid
    using peer_invD(5) [OF assms(1) that] by auto
  show ?thesis
    using assms(2) sess
    by (auto simp: process_def transfer_dangling_def Let_def onTransfer_panic_free [OF assms(2,3)] descriptor_defs
        intro!: onOpen_panic_free onBegin_panic_free onAttach_panic_free onFlow_panic_free onDisposition_panic_free
          onDetach_panic_free onEnd_panic_free onClose_panic_free split: sum.splits)
qed

lemma process_nil_free:
  assumes "peer_inv p" "calm en p"
  shows "fst (process bl en frame p) = Some nil_deref \<longleftrightarrow> transfer_dangling frame p"
  using process_panic_free [OF assms(1), of nil_panic en bl frame] assms(2) nil_deref_panic(3)
  by (simp add: calm_quiet panic_free_def nil_deref_panic(1))

lemma link_table_not_dangling: "link_table p \<Longrightarrow> \<not> dangling channel perf p"
  by (auto simp: dangling_def link_table_def dest: link_okD)

section \<open>Writing a performative\<close>

text \<open>The bytes of a frame, and when they fit the connection.\<close>

definition wire :: "16 word \<Rightarrow> byte \<Rightarrow> byte list \<Rightarrow> Frame" where
  "wire channel typ body = \<lparr>f_Size = 0, f_DataOffset = 2, f_Type = typ, f_Channel = channel, f_Body = body\<rparr>"

definition fits :: "'l peer \<Rightarrow> nat \<Rightarrow> bool" where
  "fits p n = (nc_werr (pe_net p) = None \<and> 8 + n < 2 ^ 32 \<and>
     (c_MaxFrame (pe_connection p) = 0 \<or> 8 + n \<le> unat (c_MaxFrame (pe_connection p))))"

lemma wire_sized: "8 + length b < 2 ^ 32 \<Longrightarrow> sized_frame (wire ch t b) \<and> unat (marshal_size (wire ch t b)) = 8 + length b"
  using marshal_size_unat [of "wire ch t b"] by (simp add: sized_frame_def wire_def marshal_offset_def)

lemma peer_write_ok:
  assumes "EncodePerformative perf = Inr b" "fits p (length b + length payload)"
    "t = FrameTypeAMQP \<or> t = FrameTypeSASL"
  shows "peer_write ch t perf payload p =
    (None, p\<lparr>pe_net := (pe_net p)\<lparr>nc_out := nc_out (pe_net p) @ frame_bytes (wire ch t (b @ payload))\<rparr>\<rparr>)"
proof -
  let ?f = "wire ch t (b @ payload)"
  have f: "sized_frame ?f" "unat (marshal_size ?f) = 8 + length (b @ payload)"
    using wire_sized [of "b @ payload" ch t] assms(2) by (auto simp: fits_def)
  have "c_MaxFrame (pe_connection p) = 0 \<or> marshal_size ?f \<le> c_MaxFrame (pe_connection p)"
    using assms(2) f(2) by (auto simp: fits_def word_le_nat_alt)
  moreover have "f_Type ?f = t" by (simp add: wire_def)
  ultimately have "WriteFrame None w ?f (c_MaxFrame (pe_connection p)) = Inr (w @ frame_bytes ?f)" for w
    using assms(3) by (intro written_frame_read(1) [OF f(1)]) auto
  moreover have "FrameFor ch perf payload = Inr (?f\<lparr>f_Type := FrameTypeAMQP\<rparr>)"
    using assms(1) by (simp add: FrameFor_def wire_def)
  ultimately show ?thesis
    using assms(2) by (simp add: peer_write_def fits_def) (simp add: wire_def)
qed

lemma wire_read:
  assumes "8 + length b < 2 ^ 32" "mx = 0 \<or> 8 + length b \<le> unat mx" "t = FrameTypeAMQP \<or> t = FrameTypeSASL"
  shows "\<exists>f. ReadFrame (frame_bytes (wire ch t b) @ rest) mx = Inr (f, rest) \<and> f_Channel f = ch \<and> f_Type f = t \<and> f_Body f = b"
proof -
  note f = wire_sized [OF assms(1), of ch t]
  have "mx = 0 \<or> marshal_size (wire ch t b) \<le> mx" using assms(2) f by (auto simp: word_le_nat_alt)
  with f assms(3) have "ReadFrame (frame_bytes (wire ch t b) @ rest) mx = Inr ((wire ch t b)
      \<lparr>f_Size := marshal_size (wire ch t b), f_DataOffset := marshal_offset (wire ch t b)\<rparr>, rest)"
    by (intro written_frame_read(2)) (auto simp: wire_def)
  then show ?thesis by (simp add: wire_def)
qed

end
