(* ===== verification/PeerRun.thy ===== *)
theory PeerRun
  imports PeerProps
begin

text \<open>
  Peers over time: what one peer leaves untouched of the others, the states a served connection goes
  through while other peers work on the same server, and what is left when it has ended.
\<close>

section \<open>Isolation\<close>

text \<open>
  \<open>undisturbed cid s s'\<close>: going from server \<open>s\<close> to \<open>s'\<close>, the connection \<open>cid\<close>, its sessions and the
  links of its sessions are as they were, and the registries stay consistent.
\<close>

definition owns :: "string \<Rightarrow> 'l Server \<Rightarrow> string \<Rightarrow> bool" where
  "owns cid s sid = (\<exists>x. session_Get (sr_Sessions s) sid = Some x \<and> s_ConnectionID x = cid)"

definition undisturbed :: "string \<Rightarrow> 'l Server \<Rightarrow> 'l Server \<Rightarrow> bool" where
  "undisturbed cid s s' = (sessions.inv (sr_Sessions s') \<and> links.inv (sr_Links s') \<and>
     conn_Get (sr_Connections s') cid = conn_Get (sr_Connections s) cid \<and>
     (\<forall>k x. s_ConnectionID x = cid \<longrightarrow>
        (session_Get (sr_Sessions s') k = Some x \<longleftrightarrow> session_Get (sr_Sessions s) k = Some x)) \<and>
     (\<forall>k l. owns cid s (l_SessionID l) \<longrightarrow> (link_Get (sr_Links s') k = Some l \<longleftrightarrow> link_Get (sr_Links s) k = Some l)))"

lemma undisturbed_refl: "sessions.inv (sr_Sessions s) \<Longrightarrow> links.inv (sr_Links s) \<Longrightarrow> undisturbed cid s s"
  by (simp add: undisturbed_def)

lemma undisturbed_trans: "undisturbed cid s s' \<Longrightarrow> undisturbed cid s' s'' \<Longrightarrow> undisturbed cid s s''"
  by (simp add: undisturbed_def owns_def) metis

text \<open>A server change that touches none of the three registries.\<close>

lemma undisturbed_same:
  "undisturbed cid s q \<Longrightarrow> sr_Sessions s' = sr_Sessions q \<Longrightarrow> sr_Links s' = sr_Links q \<Longrightarrow>
     sr_Connections s' = sr_Connections q \<Longrightarrow> undisturbed cid s s'"
  by (simp add: undisturbed_def)

lemma undisturbed_sets:
  assumes "undisturbed cid s (pe_server p)"
  shows "undisturbed cid s (pe_server (set_delivery d p))" "undisturbed cid s (pe_server (set_mem m p))"
    "undisturbed cid s (pe_server (p\<lparr>pe_linkIDs := li\<rparr>))" "undisturbed cid s (pe_server (p\<lparr>pe_sessionIDs := si\<rparr>))"
    "undisturbed cid s (pe_server (p\<lparr>pe_deliveryConsumer := dc\<rparr>))" "undisturbed cid s (pe_server (set_in b p))"
    "undisturbed cid s (pe_server (snd (peer_write c t f b' p)))"
  using assms
  by (auto simp: set_delivery_def set_mem_def set_in_def peer_write_def intro: undisturbed_same split: sum.split)

lemma undisturbed_thenE:
  "undisturbed cid s (pe_server (snd r)) \<Longrightarrow>
     (\<And>q. r = (None, q) \<Longrightarrow> undisturbed cid s (pe_server q) \<Longrightarrow> undisturbed cid s (pe_server (snd (g q)))) \<Longrightarrow>
     undisturbed cid s (pe_server (snd (thenE r g)))"
  by (auto simp: thenE_def split: prod.splits option.splits)

text \<open>The elementary changes a peer makes to objects of its own.\<close>

lemma undisturbed_set_conn:
  "undisturbed cid s (pe_server p) \<Longrightarrow> c_ID c \<noteq> cid \<Longrightarrow> undisturbed cid s (pe_server (set_conn c p))"
  by (auto simp: undisturbed_def set_conn_def conn_Get_def conn_Set_def map_simps)

lemma undisturbed_sessions:
  "undisturbed cid s (pe_server p) \<Longrightarrow> sessions.inv r \<Longrightarrow>
     (\<And>k x. s_ConnectionID x = cid \<Longrightarrow> session_Get r k = Some x \<longleftrightarrow> session_Get (peer_sessions p) k = Some x) \<Longrightarrow>
     undisturbed cid s (pe_server (set_sessions r p))"
  by (simp add: undisturbed_def set_sessions_def)

lemma undisturbed_set_session:
  assumes "undisturbed cid s (pe_server p)" "session_Get (peer_sessions p) k = Some x" "s_ConnectionID x \<noteq> cid"
    "s_ID x' = s_ID x" "s_ConnectionID x' = s_ConnectionID x" "s_LocalChannel x' = s_LocalChannel x"
  shows "undisturbed cid s (pe_server (set_sessions (session_Set x' (peer_sessions p)) p))"
proof (rule undisturbed_sessions [OF assms(1)])
  have inv: "sessions.inv (peer_sessions p)" using assms(1) by (simp add: undisturbed_def)
  note ident = session_ident [OF inv assms(2)]
  show "sessions.inv (session_Set x' (peer_sessions p))"
    using sessions_inv_Set [OF inv, of x' x] ident assms by simp
  show "session_Get (session_Set x' (peer_sessions p)) j = Some y \<longleftrightarrow> session_Get (peer_sessions p) j = Some y"
    if "s_ConnectionID y = cid" for j y
    using that ident assms by (auto simp: session_Get_Set)
qed

lemma undisturbed_add_session:
  assumes "undisturbed cid s (pe_server p)" "session_Add x (peer_sessions p) = Inr r" "s_ConnectionID x \<noteq> cid"
    "session_Get (peer_sessions p) (s_ID x) = None"
  shows "undisturbed cid s (pe_server (set_sessions r p))"
proof (rule undisturbed_sessions [OF assms(1)])
  show "sessions.inv r"
    using assms(1,2,4) by (auto simp: undisturbed_def session_Get_def intro: sessions.inv_add)
qed (use assms(3,4) in \<open>auto simp: session_Get_Add [OF assms(2)]\<close>)

lemma undisturbed_remove_session:
  assumes "undisturbed cid s (pe_server p)" "session_Get (peer_sessions p) k = Some x" "s_ConnectionID x \<noteq> cid"
  shows "undisturbed cid s (pe_server (set_sessions (session_Remove k (peer_sessions p)) p))"
proof (rule undisturbed_sessions [OF assms(1)])
  show "sessions.inv (session_Remove k (peer_sessions p))"
    using assms(1) by (simp add: undisturbed_def sessions.inv_remove)
qed (use assms(2,3) in \<open>auto simp: session_Get_Remove\<close>)

text \<open>The links of a peer belong to sessions the connection \<open>cid\<close> does not own.\<close>

lemma undisturbed_links:
  "undisturbed cid s (pe_server p) \<Longrightarrow> links.inv r \<Longrightarrow>
     (\<And>k l. owns cid s (l_SessionID l) \<Longrightarrow> link_Get r k = Some l \<longleftrightarrow> link_Get (peer_links p) k = Some l) \<Longrightarrow>
     undisturbed cid s (pe_server (set_links r p))"
  by (simp add: undisturbed_def set_links_def)

lemma undisturbed_set_link:
  assumes "undisturbed cid s (pe_server p)" "link_Get (peer_links p) k = Some l" "\<not> owns cid s (l_SessionID l)"
    "l_ID l' = l_ID l" "l_SessionID l' = l_SessionID l" "l_Handle l' = l_Handle l"
  shows "undisturbed cid s (pe_server (set_links (link_Set l' (peer_links p)) p))"
proof (rule undisturbed_links [OF assms(1)])
  have inv: "links.inv (peer_links p)" using assms(1) by (simp add: undisturbed_def)
  note ident = link_ident [OF inv assms(2)]
  show "links.inv (link_Set l' (peer_links p))"
    using assms(2,4,5,6) ident by (intro links.inv_update [OF inv, of _ l]) (auto simp: link_Get_def)
  show "link_Get (link_Set l' (peer_links p)) j = Some y \<longleftrightarrow> link_Get (peer_links p) j = Some y"
    if "owns cid s (l_SessionID y)" for j y
    using that ident assms by (auto simp: link_Get_Set)
qed

lemma undisturbed_add_link:
  assumes "undisturbed cid s (pe_server p)" "link_Add l (peer_links p) = Inr r" "\<not> owns cid s (l_SessionID l)"
    "link_Get (peer_links p) (l_ID l) = None"
  shows "undisturbed cid s (pe_server (set_links r p))"
proof (rule undisturbed_links [OF assms(1)])
  show "links.inv r"
    using assms(1,2,4) by (auto simp: undisturbed_def link_Get_def intro: links.inv_add)
qed (use assms(3,4) in \<open>auto simp: link_Get_Add [OF assms(2)]\<close>)

lemma undisturbed_remove_link:
  assumes "undisturbed cid s (pe_server p)" "\<And>l. link_Get (peer_links p) k = Some l \<Longrightarrow> \<not> owns cid s (l_SessionID l)"
  shows "undisturbed cid s (pe_server (set_links (link_Remove k (peer_links p)) p))"
proof (rule undisturbed_links [OF assms(1)])
  show "links.inv (link_Remove k (peer_links p))" using assms(1) by (simp add: undisturbed_def links.inv_remove)
qed (use assms(2) in \<open>auto simp: link_Get_Remove\<close>)

lemma undisturbed_remove_links:
  assumes "undisturbed cid s (pe_server p)" "\<not> owns cid s sid" "valid_range rng"
  shows "undisturbed cid s (pe_server (set_links (link_RemoveSession rng sid (peer_links p)) p))"
proof -
  have inv: "links.inv (peer_links p)" using assms(1) by (simp add: undisturbed_def)
  note links.get_remove_owner [OF inv assms(3), of sid] links.inv_remove_owner [OF inv assms(3)]
  then show ?thesis
    using assms(2) by (intro undisturbed_links [OF assms(1)]) (auto simp: link_Get_def)
qed



lemma undisturbed_transition:
  "undisturbed cid s (pe_server p) \<Longrightarrow> c_ID (pe_connection p) \<noteq> cid \<Longrightarrow> undisturbed cid s (pe_server (snd (peer_transition st p)))"
  by (auto simp: peer_transition_def Transition_Inr split: sum.split intro!: undisturbed_set_conn)

lemma undisturbed_attach_consumer:
  assumes "undisturbed cid s (pe_server p)" "link_Get (peer_links p) k = Some l" "\<not> owns cid s (l_SessionID l)"
  shows "undisturbed cid s (pe_server (snd (attach_consumer en lid a l p)))"
proof -
  have "undisturbed cid s (pe_server (set_links (link_Set (Link_Grant l n) (peer_links p)) (set_mem m p)))" for n m
    using undisturbed_set_link [OF undisturbed_sets(2) [OF assms(1)], of m k l "Link_Grant l n"] assms by simp
  with undisturbed_sets(2) [OF assms(1)] show ?thesis
    by (auto simp: attach_consumer_def Let_def split: sum.split prod.split)
qed

lemma undisturbed_flow_loop:
  assumes "undisturbed cid s (pe_server p)" "link_Get (peer_links p) (l_ID l) = Some l" "\<not> owns cid s (l_SessionID l)"
  shows "undisturbed cid s (pe_server (snd (flow_loop bl en channel h l i n p)))"
  using assms
proof (induction n arbitrary: l i p)
  case (Suc n)
  have set: "undisturbed cid s (pe_server (set_links (link_Set l' (peer_links p)) (set_delivery d p)))"
    "link_Get (link_Set l' (peer_links p)) (l_ID l') = Some l'" "l_SessionID l' = l_SessionID l"
    if "Link_Consume l z = Inr l'" for l' z d
    using Suc.prems consumed_fields [OF that]
      undisturbed_set_link [OF undisturbed_sets(1) [OF Suc.prems(1)], of d "l_ID l" l l']
    by (auto simp: link_Get_Set)
  have keep: "link_Get (peer_links q') k = Some l'"
    if "peer_write c t f b q = (e, q')" "link_Get (peer_links q) k = Some l'" for c t f b q e q' k l'
    using that write_fields(1) [of c t f b q] by simp
  show ?case
    using Suc.prems undisturbed_sets(1) [OF Suc.prems(1)]
    by (auto simp: Let_def set intro!: undisturbed_thenE Suc.IH undisturbed_sets dest!: keep split: sum.split prod.split)
qed simp

text \<open>A peer in good order that serves another connection than \<open>cid\<close>.\<close>

definition stranger :: "string \<Rightarrow> 'l peer \<Rightarrow> bool" where
  "stranger cid p = (peer_inv p \<and> own_links p \<and> c_ID (pe_connection p) \<noteq> cid)"

lemma stranger_facts:
  assumes "stranger cid p"
  shows "undisturbed cid (pe_server p) (pe_server p)" "c_ID (pe_connection p) \<noteq> cid"
    "get (pe_sessionIDs p) ch = Some sid \<Longrightarrow> \<not> owns cid (pe_server p) sid"
    "get (pe_sessionIDs p) ch = Some sid \<Longrightarrow> session_Get (peer_sessions p) sid = Some x \<Longrightarrow> s_ConnectionID x \<noteq> cid"
    "get (pe_linkIDs p) slot = Some lid \<Longrightarrow> link_Get (peer_links p) lid = Some l \<Longrightarrow> \<not> owns cid (pe_server p) (l_SessionID l)"
proof -
  note inv = assms [unfolded stranger_def, THEN conjunct1]
  have tab: "own_ok (peer_links p) (pe_linkIDs p) (pe_sessionIDs p)" using assms by (simp add: stranger_def own_links_def table_def)
  show other: "c_ID (pe_connection p) \<noteq> cid" using assms by (simp add: stranger_def)
  show "undisturbed cid (pe_server p) (pe_server p)"
    using peer_invD(1) [OF inv] tab by (intro undisturbed_refl) (auto simp: own_ok_def)
  show own: "\<not> owns cid (pe_server p) k" if "get (pe_sessionIDs p) c = Some k" for c k
    using peer_invD(5) [OF inv that] other by (auto simp: owns_def session_of_def)
  show "s_ConnectionID x \<noteq> cid" if "get (pe_sessionIDs p) ch = Some sid" "session_Get (peer_sessions p) sid = Some x"
    using peer_invD(5) [OF inv that(1)] that(2) other by (auto simp: session_of_def)
  show "\<not> owns cid (pe_server p) (l_SessionID l)" if "get (pe_linkIDs p) slot = Some lid" "link_Get (peer_links p) lid = Some l"
    using tab that own unfolding own_ok_def by blast
qed

lemma onOpen_isolated: "stranger cid p \<Longrightarrow> undisturbed cid (pe_server p) (pe_server (snd (onOpen perf p)))"
  using stranger_facts(1,2) [of cid p]
  by (auto simp: onOpen_def Let_def intro!: undisturbed_thenE undisturbed_sets undisturbed_set_conn undisturbed_transition)

lemma AddSession_ID: "AddSession c ch sid = Inr c' \<Longrightarrow> c_ID c' = c_ID c"
  by (auto simp: AddSession_def split: if_splits)

lemma onBegin_isolated:
  assumes "stranger cid p" "fresh_env en p"
  shows "undisturbed cid (pe_server p) (pe_server (snd (onBegin en channel p)))"
proof -
  have add: "undisturbed cid (pe_server p) (pe_server (set_sessions r p))"
    if "peer_randomID ''ssn'' (e_rnd en) = Inr sid"
      "Session_Begin (New_Session sid (c_ID (pe_connection p)) channel channel (e_now en)) = Inr x"
      "session_Add x (peer_sessions p) = Inr r" for sid x r
    using undisturbed_add_session [OF stranger_facts(1) [OF assms(1)] that(3)] begun_session [OF that(2)]
      assms(2) that(1) stranger_facts(2) [OF assms(1)] by (auto simp: fresh_env_def)
  with stranger_facts(1,2) [OF assms(1)] show ?thesis
    by (auto simp: onBegin_def Let_def intro!: undisturbed_sets undisturbed_set_conn dest!: AddSession_ID split: sum.split)
qed

lemma stranger_new_link:
  assumes "stranger cid p" "fresh_env en p" "get (pe_sessionIDs p) ch = Some sid" "peer_randomID ''lnk'' (e_rnd en) = Inr lid"
    "tryE (New_Link lid sid nm a h ro t) Link_Attach = Inr l" "link_Add l (peer_links p) = Inr r"
  shows "undisturbed cid (pe_server p) (pe_server (set_links r p))" "link_Get r lid = Some l"
    "\<not> owns cid (pe_server p) (l_SessionID l)"
proof -
  note F = stranger_facts [OF assms(1)] and l = attached_link [OF assms(5)]
  show own: "\<not> owns cid (pe_server p) (l_SessionID l)" using F(3) assms(3) l by simp
  show "link_Get r lid = Some l" using l by (simp add: link_Get_Add [OF assms(6)])
  show "undisturbed cid (pe_server p) (pe_server (set_links r p))"
    using undisturbed_add_link [OF F(1) assms(6) own] assms(2,4) l by (simp add: fresh_env_def)
qed

lemma onAttach_isolated:
  assumes "stranger cid p" "fresh_env en p"
  shows "undisturbed cid (pe_server p) (pe_server (snd (onAttach en channel perf p)))"
proof -
  note F = stranger_facts [OF assms(1)] and new = stranger_new_link [OF assms]
  have set: "undisturbed cid (pe_server p) (pe_server (set_sessions (session_Set x' (peer_sessions p)) (set_links r p)))"
    if "undisturbed cid (pe_server p) (pe_server (set_links r p))" "get (pe_sessionIDs p) channel = Some sid"
      "session_Get (peer_sessions p) sid = Some x" "Session_Attach x h k = Inr x'" for sid r x h k x'
    using undisturbed_set_session [of cid "pe_server p" "set_links r p" sid x x'] that
      session_result_fields(1) [OF that(4)] F(4) by auto
  show ?thesis
    using F(1)
    by (auto simp: onAttach_def Let_def intro!: undisturbed_thenE undisturbed_sets undisturbed_attach_consumer
        intro: new set [OF new(1)] notE [OF new(3)] split: sum.split option.split)
qed

lemma onFlow_isolated:
  assumes "stranger cid p"
  shows "undisturbed cid (pe_server p) (pe_server (snd (onFlow bl en channel perf p)))"
proof -
  note F = stranger_facts [OF assms]
  have session: "undisturbed cid (pe_server p) (pe_server (set_sessions (session_Set (Session_Flow x a b) (peer_sessions p)) p))"
    if "get (pe_sessionIDs p) channel = Some sid" "session_Get (peer_sessions p) sid = Some x" for sid x a b
    using undisturbed_set_session [OF F(1) that(2) F(4) [OF that]] by simp
  have link: "undisturbed cid (pe_server p) (pe_server (set_links (link_Set (Link_Grant l n) (peer_links p)) (set_sessions r p)))"
    "undisturbed cid (pe_server p) (pe_server (snd (flow_loop bl en ch h (Link_Grant l n) 0 k
       (set_links (link_Set (Link_Grant l n) (peer_links p)) (set_sessions r p)))))"
    if "undisturbed cid (pe_server p) (pe_server (set_sessions r p))" "get (pe_linkIDs p) slot = Some lid"
      "link_Get (peer_links p) lid = Some l" for r slot lid l n ch h k
  proof -
    show *: "undisturbed cid (pe_server p) (pe_server (set_links (link_Set (Link_Grant l n) (peer_links p)) (set_sessions r p)))"
      using undisturbed_set_link [OF that(1), of lid l "Link_Grant l n"] that F(5) by simp
    have "links.inv (peer_links p)" using F(1) by (simp add: undisturbed_def)
    then have "l_ID l = lid" using that(3) by (rule link_ident)
    with that F(5) [OF that(2,3)] show "undisturbed cid (pe_server p) (pe_server (snd (flow_loop bl en ch h (Link_Grant l n) 0 k
       (set_links (link_Set (Link_Grant l n) (peer_links p)) (set_sessions r p)))))"
      by (intro undisturbed_flow_loop [OF *]) (auto simp: link_Get_Set)
  qed
  show ?thesis
    using F(1) by (auto simp: onFlow_def Let_def intro: session link [OF session] split: option.split)
qed

lemma onTransfer_isolated:
  assumes "stranger cid p"
  shows "undisturbed cid (pe_server p) (pe_server (snd (onTransfer bl en channel perf payload p)))"
proof -
  note F = stranger_facts [OF assms]
  have session: "undisturbed cid (pe_server p) (pe_server (set_sessions (session_Set x' (peer_sessions p)) p))"
    if "get (pe_sessionIDs p) channel = Some sid" "session_Get (peer_sessions p) sid = Some x" "ConsumeIncoming x = Inr x'" for sid x x'
    using undisturbed_set_session [OF F(1) that(2) F(4) [OF that(1,2)]] session_result_fields(2) [OF that(3)] by simp
  have "undisturbed cid (pe_server p) (pe_server (set_links (link_Set l' (peer_links p)) (set_sessions r p)))"
    if "undisturbed cid (pe_server p) (pe_server (set_sessions r p))" "get (pe_linkIDs p) slot = Some lid"
      "link_Get (peer_links p) lid = Some l" "Link_Consume l z = Inr l'" for r slot lid l z l'
    using undisturbed_set_link [OF that(1), of lid l l'] that F(5) consumed_fields [OF that(4)] by simp
  note link = this [OF session]
  show ?thesis
    using F(1)
    by (auto simp: onTransfer_def Let_def intro!: undisturbed_sets intro: session link split: option.split sum.split prod.split)
qed

lemma settle_one_isolated: "undisturbed cid s (pe_server p) \<Longrightarrow> undisturbed cid s (pe_server (settle_one en did p))"
  by (auto simp: settle_one_def Let_def intro: undisturbed_sets(2))

lemma disposition_loop_isolated:
  "undisturbed cid s (pe_server p) \<Longrightarrow> undisturbed cid s (pe_server (disposition_loop en did lst p))"
  by (induction en did lst p rule: disposition_loop.induct)
    (subst disposition_loop.simps, auto simp: Let_def settle_one_isolated)

lemma onDetach_isolated:
  assumes "stranger cid p"
  shows "undisturbed cid (pe_server p) (pe_server (snd (onDetach en channel perf p)))"
proof -
  note F = stranger_facts [OF assms]
  let ?drop = "\<lambda>q. undisturbed cid (pe_server p) (pe_server q)"
  have det: "?drop (set_links (link_Set (Link_Detach l) (peer_links p)) p)"
    if "get (pe_linkIDs p) slot = Some lid" "link_Get (peer_links p) lid = Some l" for slot lid l
    using undisturbed_set_link [OF F(1) that(2) F(5) [OF that], of "Link_Detach l"] by simp
  have rem: "?drop (set_links (link_Remove lid (peer_links q)) q)"
    if "?drop q" "get (pe_linkIDs p) slot = Some lid" "\<And>l'. link_Get (peer_links q) lid = Some l' \<Longrightarrow>
      \<exists>l. link_Get (peer_links p) lid = Some l \<and> l_SessionID l' = l_SessionID l" for q slot lid
    using that F(5) by (intro undisturbed_remove_link [OF that(1)]) metis
  have ses: "?drop (case session_Get (peer_sessions q) sid of None \<Rightarrow> q
      | Some x \<Rightarrow> set_sessions (session_Set (Session_Detach x h) (peer_sessions q)) q)"
    if "?drop q" "get (pe_sessionIDs p) channel = Some sid" "peer_sessions q = peer_sessions p" for q sid h
    using that undisturbed_set_session [OF that(1)] F(4) by (auto split: option.split)
  show ?thesis
  proof (cases "get (pe_sessionIDs p) channel")
    case (Some sid)
    show ?thesis
    proof (cases "get (pe_linkIDs p) (link_slot channel (Perf_Uint perf 0))")
      case lid: (Some lid)
      let ?p1 = "case link_Get (peer_links p) lid of None \<Rightarrow> p
        | Some l \<Rightarrow> let p = set_links (link_Set (Link_Detach l) (peer_links p)) p in
            if l_Role l = RoleSender
            then set_mem (snd (Disconnect (e_ranges en 0) (e_ctx en) (e_now en) lid (sv_mem (peer_delivery p)))) p else p"
      have p1: "?drop ?p1" "peer_sessions ?p1 = peer_sessions p"
        "link_Get (peer_links ?p1) lid = Some l' \<Longrightarrow> \<exists>l. link_Get (peer_links p) lid = Some l \<and> l_SessionID l' = l_SessionID l" for l'
        using F(1) det [OF lid]
        by (auto simp: Let_def link_Get_Set intro!: undisturbed_sets split: option.splits if_splits)
      have "?drop (set_links (link_Remove lid (peer_links ?p1)) ?p1)" by (rule rem [OF p1(1) lid p1(3)])
      from undisturbed_sets(3) [OF ses [OF this Some]] p1(2) show ?thesis
        by (simp add: onDetach_def Let_def Some lid undisturbed_sets)
    qed (auto simp: onDetach_def Let_def Some F(1))
  qed (simp add: onDetach_def F(1))
qed

lemma onEnd_isolated:
  assumes "stranger cid p" "valid_range (e_links en)"
  shows "undisturbed cid (pe_server p) (pe_server (snd (onEnd en channel p)))"
proof -
  note F = stranger_facts [OF assms(1)]
  let ?ok = "\<lambda>q. undisturbed cid (pe_server p) (pe_server q)"
  have "?ok (snd (onEnd en channel p))" if sid: "get (pe_sessionIDs p) channel = Some sid"
      and x: "session_Get (peer_sessions p) sid = Some x" for sid x
  proof -
    let ?p1 = "case Session_End x of Inl _ \<Rightarrow> p | Inr x' \<Rightarrow> set_sessions (session_Set x' (peer_sessions p)) p"
    have conn: "s_ConnectionID x \<noteq> cid" by (rule F(4) [OF sid x])
    have upd: "?ok (set_sessions (session_Set x' (peer_sessions p)) p)" if "Session_End x = Inr x'" for x'
      using session_result_fields(3) [OF that] by (intro undisturbed_set_session [OF F(1) x conn]) simp_all
    have p1: "?ok ?p1" "peer_links ?p1 = peer_links p" "pe_connection ?p1 = pe_connection p"
      using F(1) upd by (auto split: sum.split)
    have "\<exists>x'. session_Get (peer_sessions ?p1) sid = Some x' \<and> s_ConnectionID x' = s_ConnectionID x"
    proof (cases "Session_End x")
      case (Inr x')
      have "sessions.inv (peer_sessions p)" using F(1) by (simp add: undisturbed_def)
      with x have "s_ID x = sid" by (intro session_ident)
      with x session_result_fields(3) [OF Inr] Inr show ?thesis by (simp add: session_Get_Set)
    qed (simp add: x)
    with conn obtain x' where x': "session_Get (peer_sessions ?p1) sid = Some x'" "s_ConnectionID x' \<noteq> cid"
      by (elim exE conjE) simp
    have p2: "?ok (set_links (link_RemoveSession (e_links en) sid (peer_links ?p1)) ?p1)"
      by (rule undisturbed_remove_links [OF p1(1) F(3) [OF sid] assms(2)])
    have p3: "?ok (set_sessions (session_Remove sid (peer_sessions ?p1))
        (set_links (link_RemoveSession (e_links en) sid (peer_links ?p1)) ?p1))"
      using undisturbed_remove_session [OF p2, of sid x'] x' by simp
    show ?thesis
      using undisturbed_set_conn [OF p3, of "RemoveSession (pe_connection p) channel"] F(2)
      by (auto simp: onEnd_def Let_def sid x RemoveSession_def p1(3) intro!: undisturbed_sets split: sum.split)
  qed
  then show ?thesis
    using F(1) by (auto simp: onEnd_def Let_def split: option.split)
qed

lemma onClose_isolated: "stranger cid p \<Longrightarrow> undisturbed cid (pe_server p) (pe_server (snd (onClose p)))"
  using stranger_facts(1,2) [of cid p] steady_transition [OF steady_refl [of p], of StateClosing]
  by (auto simp: onClose_def Let_def steady_def intro!: undisturbed_thenE undisturbed_sets undisturbed_transition)
    (metis snd_conv undisturbed_transition write_fields(6))

lemma process_isolated:
  assumes "stranger cid p" "fresh_env en p"
  shows "undisturbed cid (pe_server p) (pe_server (snd (process bl en frame p)))"
proof -
  have "valid_range (e_links en)" using assms(2) by (simp add: fresh_env_def)
  with assms stranger_facts(1) [OF assms(1)] show ?thesis
    by (auto simp: process_def Let_def onOpen_isolated onBegin_isolated onAttach_isolated onFlow_isolated
        onTransfer_isolated onDetach_isolated onEnd_isolated onClose_isolated onDisposition_def disposition_loop_isolated
        split: sum.split)
qed

section \<open>The life of a connection\<close>

text \<open>What the handshake changes of the tables: nothing but the state of the connection.\<close>

definition same_tables :: "'l peer \<Rightarrow> 'l peer \<Rightarrow> bool" where
  "same_tables p q = (pe_server q = pe_server p \<and> pe_connection q = pe_connection p \<and>
     pe_sessionIDs q = pe_sessionIDs p \<and> pe_linkIDs q = pe_linkIDs p \<and> nc_werr (pe_net q) = nc_werr (pe_net p))"

lemma same_tables_refl [simp]: "same_tables p p"
  by (simp add: same_tables_def)

lemma same_tables_sets [simp]:
  "same_tables p (set_in b q) = same_tables p q" "same_tables p (q\<lparr>pe_identity := i\<rparr>) = same_tables p q"
  by (simp_all add: same_tables_def set_in_def)

lemma same_tables_write: "same_tables p q \<Longrightarrow> same_tables p (snd (peer_write c t f b q))"
  "same_tables p q \<Longrightarrow> same_tables p (snd (net_write b q))"
  by (auto simp: same_tables_def peer_write_def net_write_def split: sum.split option.split)

lemma same_tables_thenE:
  "same_tables p (snd r) \<Longrightarrow> (\<And>q. r = (None, q) \<Longrightarrow> same_tables p q \<Longrightarrow> same_tables p (snd (g q))) \<Longrightarrow>
     same_tables p (snd (thenE r g))"
  by (auto simp: thenE_def split: prod.splits option.splits)

lemma sasl_same_tables: "same_tables p q \<Longrightarrow> same_tables p (snd (sasl_handshake ctx q))"
  by (auto simp: sasl_handshake_def Let_def intro!: same_tables_thenE same_tables_write split: handler_splits)

lemma thenE_rule:
  assumes "P (snd r)" "\<And>q. r = (None, q) \<Longrightarrow> P (snd (g q))"
  shows "P (snd (thenE r g))"
  using assms by (cases r) (auto simp: thenE_def split: option.split)

lemma handshake_rule:
  assumes same: "\<And>q. same_tables p q \<Longrightarrow> P q"
    and move: "\<And>q. same_tables p q \<Longrightarrow> P (snd (peer_transition StateHeader q))"
  shows "P (snd (handshake ctx p))"
proof -
  have hdr: "P (snd (thenE (net_write AMQPHeader q) (peer_transition StateHeader)))" if "same_tables p q" for q
  proof (rule thenE_rule)
    show "P (snd (net_write AMQPHeader q))" by (rule same) (rule same_tables_write(2) [OF that])
    show "P (snd (peer_transition StateHeader q'))" if "net_write AMQPHeader q = (None, q')" for q'
      using move same_tables_write(2) [OF \<open>same_tables p q\<close>, of AMQPHeader] that by simp
  qed
  have "P (snd (thenE (if b then sasl_handshake ctx q else (None, q))
      (\<lambda>q. thenE (net_write AMQPHeader q) (peer_transition StateHeader))))" if "same_tables p q" for b q
  proof (rule thenE_rule)
    have st: "same_tables p (snd (if b then sasl_handshake ctx q else (None, q)))"
      using sasl_same_tables [OF that] that by simp
    then show "P (snd (if b then sasl_handshake ctx q else (None, q)))" by (rule same)
    show "P (snd (thenE (net_write AMQPHeader q') (peer_transition StateHeader)))"
      if "(if b then sasl_handshake ctx q else (None, q)) = (None, q')" for q'
      using hdr st that by simp
  qed
  then show ?thesis
    using same by (auto simp: handshake_def Let_def split: sum.split prod.split)
qed

lemma peer_inv_same: "same_tables p q \<Longrightarrow> peer_inv q = peer_inv p"
  by (simp add: same_tables_def peer_inv_def session_of_def)

lemma link_table_same: "same_tables p q \<Longrightarrow> link_table q = link_table p"
  by (simp add: same_tables_def link_table_def)

lemma handshake_inv: "peer_inv p \<Longrightarrow> peer_inv (snd (handshake ctx p))"
  by (rule handshake_rule) (auto simp: peer_inv_same peer_inv_transition)

lemma own_links_same: "same_tables p q \<Longrightarrow> own_links q = own_links p"
  by (simp add: same_tables_def own_links_def table_def)

lemma handshake_links:
  "link_table p \<Longrightarrow> link_table (snd (handshake ctx p))" "own_links p \<Longrightarrow> own_links (snd (handshake ctx p))"
  by (rule handshake_rule, auto simp: link_table_same own_links_same)+

text \<open>
  The states of a peer: after the handshake, after each frame that succeeds, and after steps of
  others that leave its connection undisturbed. \<open>ok\<close> says which frames the remote end sends.
\<close>

inductive peer_reach :: "'l BodyLog \<Rightarrow> (Frame \<Rightarrow> 'l peer \<Rightarrow> bool) \<Rightarrow> 'l peer \<Rightarrow> bool" for bl ok where
  start: "conn_Get (sr_Connections s) (c_ID c) = Some c \<Longrightarrow> c_Sessions c = [] \<Longrightarrow> sessions.inv (sr_Sessions s) \<Longrightarrow>
    links.inv (sr_Links s) \<Longrightarrow> handshake ctx (new_peer nc c s) = (None, p) \<Longrightarrow> peer_reach bl ok p"
| read: "peer_reach bl ok p \<Longrightarrow> peer_reach bl ok (set_conn (Touch (pe_connection p) t) (set_in rest p))"
| frame: "peer_reach bl ok p \<Longrightarrow> fresh_env en p \<Longrightarrow> ok frame p \<Longrightarrow> process bl en frame p = (None, p') \<Longrightarrow>
    peer_reach bl ok p'"
| other: "peer_reach bl ok p \<Longrightarrow> undisturbed (c_ID (pe_connection p)) (pe_server p) s' \<Longrightarrow>
    peer_reach bl ok (p\<lparr>pe_server := s'\<rparr>)"

lemma undisturbed_inv:
  assumes "peer_inv p" "undisturbed (c_ID (pe_connection p)) (pe_server p) s'"
  shows "peer_inv (p\<lparr>pe_server := s'\<rparr>)"
  using assms by (simp add: peer_inv_def undisturbed_def session_of_def) blast

lemma undisturbed_link_table:
  assumes "peer_inv p" "link_table p" "undisturbed (c_ID (pe_connection p)) (pe_server p) s'"
  shows "link_table (p\<lparr>pe_server := s'\<rparr>)"
proof -
  have own: "owns (c_ID (pe_connection p)) (pe_server p) sid" if "get (pe_sessionIDs p) ch = Some sid" for ch sid
    using peer_invD(5) [OF assms(1) that] by (auto simp: owns_def session_of_def)
  have "links.inv (sr_Links s')" using assms(3) by (simp add: undisturbed_def)
  moreover have "\<exists>ch l. link_Get (sr_Links s') lid = Some l \<and> l_ID l = lid \<and>
      get (pe_sessionIDs p) ch = Some (l_SessionID l) \<and> slot = link_slot ch (l_Handle l)"
    if "get (pe_linkIDs p) slot = Some lid" for slot lid
    using link_okD [OF assms(2) [unfolded link_table_def] that] own assms(3) unfolding undisturbed_def by blast
  ultimately show ?thesis by (simp add: link_table_def link_ok_def)
qed

text \<open>
  The weak table of a peer when others have worked: a link identifier the peer still has in a slot,
  but that is no longer registered, has not been drawn for a new link.
\<close>

lemma undisturbed_own_links:
  assumes "peer_inv p" "own_links p" "undisturbed (c_ID (pe_connection p)) (pe_server p) s'"
    and stale: "\<And>slot lid. get (pe_linkIDs p) slot = Some lid \<Longrightarrow> link_Get (sr_Links s') lid \<noteq> None \<Longrightarrow> link_Get (peer_links p) lid \<noteq> None"
  shows "own_links (p\<lparr>pe_server := s'\<rparr>)"
proof -
  have own: "owns (c_ID (pe_connection p)) (pe_server p) sid" if "get (pe_sessionIDs p) ch = Some sid" for ch sid
    using peer_invD(5) [OF assms(1) that] by (auto simp: owns_def session_of_def)
  have "\<exists>ch. get (pe_sessionIDs p) ch = Some (l_SessionID l)"
    if slot: "get (pe_linkIDs p) slot = Some lid" "link_Get (sr_Links s') lid = Some l" for slot lid l
  proof -
    obtain l0 where l0: "link_Get (peer_links p) lid = Some l0" using stale [OF slot(1)] slot(2) by auto
    then obtain ch where ch: "get (pe_sessionIDs p) ch = Some (l_SessionID l0)"
      using assms(2) slot(1) unfolding own_links_def table_def own_ok_def by blast
    have "link_Get (sr_Links s') lid = Some l0" using assms(3) own [OF ch] l0 unfolding undisturbed_def by blast
    with slot(2) ch show ?thesis by auto
  qed
  moreover have "links.inv (sr_Links s')" using assms(3) by (simp add: undisturbed_def)
  ultimately show ?thesis by (simp add: own_links_def table_def own_ok_def)
qed

lemma new_peer_inv:
  "conn_Get (sr_Connections s) (c_ID c) = Some c \<Longrightarrow> c_Sessions c = [] \<Longrightarrow> sessions.inv (sr_Sessions s) \<Longrightarrow>
     peer_inv (new_peer nc c s)"
  by (simp add: peer_inv_def new_peer_def)

lemma new_peer_links: "links.inv (sr_Links s) \<Longrightarrow> link_table (new_peer nc c s)" "links.inv (sr_Links s) \<Longrightarrow> own_links (new_peer nc c s)"
  by (simp_all add: link_table_def link_ok_def own_links_def table_def own_ok_def new_peer_def)

lemma peer_reach_inv: "peer_reach bl ok p \<Longrightarrow> peer_inv p"
proof (induction rule: peer_reach.induct)
  case (start s c ctx nc p)
  then show ?case using handshake_inv [OF new_peer_inv, of s c ctx nc] by simp
next
  case (read p t rest)
  then show ?case by (intro peer_inv_set_conn) (auto simp: Touch_def set_in_def)
next
  case (frame p en frame p')
  then show ?case using process_inv [of p en bl frame] by simp
qed (rule undisturbed_inv)

lemma peer_reach_links: "peer_reach bl orderly p \<Longrightarrow> link_table p"
proof (induction rule: peer_reach.induct)
  case (start s c ctx nc p)
  then show ?case using handshake_links(1) [OF new_peer_links(1), of s ctx nc c] by simp
next
  case (frame p en frame p')
  then show ?case using process_links [OF peer_reach_inv] by (metis snd_conv)
next
  case (other p s')
  then show ?case using undisturbed_link_table [OF peer_reach_inv] by blast
qed simp

section \<open>Ending a session with a link attached\<close>

lemma thenE_None: "thenE r g = (None, p') \<longleftrightarrow> (\<exists>q. r = (None, q) \<and> g q = (None, p'))"
  by (auto simp: thenE_def split: prod.splits option.splits)

lemma write_None: "peer_write c t f b p = (None, p') \<Longrightarrow> \<exists>out. p' = p\<lparr>pe_net := (pe_net p)\<lparr>nc_out := out\<rparr>\<rparr>"
  by (auto simp: peer_write_def split: sum.splits)

lemma onEnd_tables:
  assumes "onEnd en channel p = (None, p')" "get (pe_sessionIDs p) channel = Some sid"
  shows "peer_links p' = link_RemoveSession (e_links en) sid (peer_links p)" "pe_linkIDs p' = pe_linkIDs p"
  using assms by (auto simp: onEnd_def Let_def split: option.splits sum.splits dest!: write_None)

lemma onBegin_tables:
  assumes "onBegin en channel p = (None, p')"
  shows "peer_links p' = peer_links p" "pe_linkIDs p' = pe_linkIDs p"
    "\<exists>sid s. get (pe_sessionIDs p') channel = Some sid \<and> session_Get (peer_sessions p') sid = Some s \<and> s_IncomingWindow s = 2048"
proof -
  obtain sid s r c out where b: "Session_Begin (New_Session sid (c_ID (pe_connection p)) channel channel (e_now en)) = Inr s"
    "session_Add s (peer_sessions p) = Inr r"
    "p' = (set_conn c (set_sessions r p))\<lparr>pe_sessionIDs := put channel sid (pe_sessionIDs p),
       pe_net := (pe_net p)\<lparr>nc_out := out\<rparr>\<rparr>"
    using assms
    by (auto simp: onBegin_def Let_def failE_def split: if_splits sum.splits dest!: write_None)
  have "s_ID s = sid" "s_IncomingWindow s = 2048"
    using b(1) by (auto simp: Session_Begin_def New_Session_def)
  then show "\<exists>sid s. get (pe_sessionIDs p') channel = Some sid \<and> session_Get (peer_sessions p') sid = Some s \<and> s_IncomingWindow s = 2048"
    by (intro exI [of _ sid] exI [of _ s]) (simp add: b(3) map_simps session_Get_Add [OF b(2)])
qed (use assms in \<open>auto simp: onBegin_def Let_def failE_def split: if_splits sum.splits dest!: write_None\<close>)

section \<open>Properties\<close>

text \<open>
  The sessions of a connection, in every state a peer reaches, whatever frames its remote end
  sends and whatever the other peers do in between: the channels of the connection are those the
  peer has begun, they exist only once the connection has been opened, each leads to a mapped session
  of this connection and this channel in the registry, different channels to different sessions,
  and the connection registry shows the connection as the peer has it.
\<close>

theorem peer_session_table:
  assumes "peer_reach bl ok p"
  shows "c_Sessions (pe_connection p) = pe_sessionIDs p \<and>
    conn_Get (sr_Connections (pe_server p)) (c_ID (pe_connection p)) = Some (pe_connection p) \<and>
    (\<forall>ch sid. get (pe_sessionIDs p) ch = Some sid \<longrightarrow> c_State (pe_connection p) \<in> {StateOpen, StateClosing, StateClosed} \<and>
       (\<exists>s. session_Get (peer_sessions p) sid = Some s \<and> s_ConnectionID s = c_ID (pe_connection p) \<and>
         s_LocalChannel s = ch \<and> s_State s = StateMapped) \<and>
       (\<forall>ch'. get (pe_sessionIDs p) ch' = Some sid \<longrightarrow> ch' = ch))"
proof -
  note inv = peer_reach_inv [OF assms]
  have "c_State (pe_connection p) \<in> {StateOpen, StateClosing, StateClosed}" if "get (pe_sessionIDs p) ch = Some sid" for ch sid
  proof -
    from that have "pe_sessionIDs p \<noteq> []" by auto
    from peer_invD(3) [OF inv this] show ?thesis by (cases "c_State (pe_connection p)") auto
  qed
  with inv show ?thesis
    using sessions_inject [OF inv] peer_invD(5) [OF inv] by (auto simp: peer_inv_def session_of_def)
qed

text \<open>
  C22: exactly when a frame crashes the broker. In every state a peer reaches, processing a frame
  dereferences a nil pointer if and only if the frame is a transfer on a begun channel, within the
  session's window, to a handle whose link is no longer registered; and if the remote end never ends
  a session with a link attached, no frame ever does. (The context, the socket and the log report no
  such error of their own.)
\<close>

theorem process_crash_exact:
  assumes "peer_reach bl ok p" "calm en p" "calm_log bl"
  shows "(fst (process bl en frame p) = Some nil_deref \<longleftrightarrow> transfer_dangling frame p) \<and>
    (ok = orderly \<longrightarrow> fst (process bl en frame p) \<noteq> Some nil_deref)"
proof -
  have "ok = orderly \<Longrightarrow> link_table p" using assms(1) peer_reach_links by blast
  then show ?thesis
    using process_nil_free [OF peer_reach_inv [OF assms(1)] assms(2), of bl frame] link_table_not_dangling [of p]
    by (auto simp: transfer_dangling_def)
qed

text \<open>
  Ending a session with a link attached makes the broker crash. The end takes the link out of
  the registry but leaves its handle with the peer; once the channel is begun again, any transfer to
  that handle dereferences a nil pointer.
\<close>

theorem end_with_link_crashes:
  assumes "link_table p" "valid_range (e_links en)"
    and "get (pe_sessionIDs p) ch = Some sid" "get (pe_linkIDs p) (link_slot ch h) = Some lid"
    and "onEnd en ch p = (None, p1)" "onBegin en1 ch p1 = (None, p2)" "Perf_Uint perf 0 = h"
  shows "fst (onTransfer bl en2 ch perf payload p2) = Some nil_deref"
proof -
  have inv: "links.inv (peer_links p)" using assms(1) by (simp add: link_table_def link_ok_def)
  obtain l where l: "link_Get (peer_links p) lid = Some l" "l_SessionID l = sid"
    using link_okD [OF assms(1) [unfolded link_table_def] assms(4)] assms(3) by (auto simp: link_slot_inject)
  have "link_Get (link_RemoveSession (e_links en) sid (peer_links p)) lid = None"
    using l links.get_remove_owner [OF inv assms(2), of sid lid] by (cases "link_Get (link_RemoveSession (e_links en) sid (peer_links p)) lid")
      (auto simp: link_Get_def)
  then have gone: "link_Get (peer_links p2) lid = None" "get (pe_linkIDs p2) (link_slot ch h) = Some lid"
    using onEnd_tables [OF assms(5,3)] onBegin_tables(1,2) [OF assms(6)] assms(4) by simp_all
  with onBegin_tables(3) [OF assms(6)] assms(7) show ?thesis
    by (auto simp: onTransfer_def ConsumeIncoming_def Let_def)
qed

section \<open>Witnesses\<close>

text \<open>A server with one connection, which shakes hands, opens and begins channel 1.\<close>

definition sample_env :: env where
  "sample_env = \<lparr>e_ctx = None, e_now = 5, e_rnd = Some [1], e_clk = (\<lambda>_. 5), e_rnds = zero_ids,
     e_ranges = (\<lambda>_. id_ranges), e_sessions = id, e_links = id\<rparr>"

definition sample_conn :: Connection where
  "sample_conn = New_Connection ''conn_1'' ''remote'' 0 0 1"

definition sample_server :: "MemoryLog Server" where
  "sample_server = \<lparr>sr_MaxFrame = 0, sr_IdleTimeout = 0, sr_Auth = None,
     sr_Connections = \<lparr>cr_max = 10, cr_items = [(''conn_1'', sample_conn)]\<rparr>,
     sr_Sessions = NewSessionRegistry, sr_Links = NewLinkRegistry, sr_Delivery = NewDeliveryService NewMemory NewMemoryLog\<rparr>"

definition sample_socket :: net_Conn where
  "sample_socket = \<lparr>nc_in = AMQPHeader, nc_out = [], nc_werr = None, nc_remote = ''remote''\<rparr>"

definition sample_up :: "MemoryLog peer" where
  "sample_up = snd (handshake None (new_peer sample_socket sample_conn sample_server))"

lemma sample_handshake: "handshake None (new_peer sample_socket sample_conn sample_server) = (None, sample_up)"
proof -
  have "fst (handshake None (new_peer sample_socket sample_conn sample_server)) = None" by code_simp
  then show ?thesis by (simp add: sample_up_def prod_eq_iff)
qed

lemma sample_up_fields:
  "nc_werr (pe_net sample_up) = None" "pe_connection sample_up = sample_conn\<lparr>c_State := StateHeader\<rparr>"
  "pe_sessionIDs sample_up = []" "pe_linkIDs sample_up = []" "peer_sessions sample_up = NewSessionRegistry"
  "peer_links sample_up = NewLinkRegistry"
  by code_simp+

lemma sample_reach_up: "peer_reach bl ok sample_up"
proof (rule peer_reach.start [OF _ _ _ _ sample_handshake])
  show "sessions.inv (sr_Sessions sample_server)" "links.inv (sr_Links sample_server)"
    by (simp_all add: sample_server_def sessions.inv_empty links.inv_empty)
qed (simp_all add: sample_server_def sample_conn_def conn_Get_def New_Connection_def)

definition open_frame :: Frame where
  "open_frame = wire 0 FrameTypeAMQP [0, 0x53, 0x10, 0xc0, 4, 1, 0xa1, 1, 99]"

definition begin_frame :: Frame where
  "begin_frame = wire 1 FrameTypeAMQP [0, 0x53, 0x11, 0x45]"

lemma sample_encodings:
  "EncodePerformative \<lparr>p_Descriptor = DescriptorOpen, p_Fields = [VString ''c'']\<rparr> = Inr (f_Body open_frame)"
  "EncodePerformative (bare DescriptorBegin) = Inr (f_Body begin_frame)"
  by (simp_all add: EncodePerformative_def Validate_def min_fields_def descriptor_defs trimNulls_def list_header_def
      Perf_String_def Field_def encodeBytes_def open_frame_def begin_frame_def wire_def bare_def byte_of_char_def)

lemma sample_decodings:
  "DecodePerformative (f_Body open_frame) = Inr (\<lparr>p_Descriptor = DescriptorOpen, p_Fields = [VString ''c'']\<rparr>, 9)"
  "DecodePerformative (f_Body begin_frame) = Inr (bare DescriptorBegin, 4)"
proof -
  have "Validate \<lparr>p_Descriptor = DescriptorOpen, p_Fields = [VString ''c'']\<rparr> = None" "Validate (bare DescriptorBegin) = None"
    by (simp_all add: Validate_def min_fields_def descriptor_defs Perf_String_def Field_def bare_def)
  then show "DecodePerformative (f_Body open_frame) = Inr (\<lparr>p_Descriptor = DescriptorOpen, p_Fields = [VString ''c'']\<rparr>, 9)"
    "DecodePerformative (f_Body begin_frame) = Inr (bare DescriptorBegin, 4)"
    using encoded_decodes [OF sample_encodings(1), of "[]"] encoded_decodes [OF sample_encodings(2), of "[]"]
    by (simp_all add: trimNulls_def open_frame_def begin_frame_def wire_def bare_def)
qed

lemma begin_reply_encodes: "\<exists>b. EncodePerformative (begin_reply 1) = Inr b \<and> length b < 100"
  by (simp add: EncodePerformative_def Validate_def min_fields_def descriptor_defs trimNulls_def list_header_def
      begin_reply_def)

lemma open_reply_encodes: "c_MaxFrame c = 0 \<Longrightarrow> c_IdleTimeout c = 0 \<Longrightarrow>
    \<exists>b. EncodePerformative (open_reply c) = Inr b \<and> length b < 100"
  by (simp add: EncodePerformative_def Validate_def min_fields_def descriptor_defs trimNulls_def list_header_def
      open_reply_def Perf_String_def Field_def encodeBytes_def)

lemma fits_small: "nc_werr (pe_net q) = None \<Longrightarrow> c_MaxFrame (pe_connection q) = 0 \<Longrightarrow> n < 1000 \<Longrightarrow> fits q n"
  by (simp add: fits_def)

definition sample_opened :: "MemoryLog peer" where
  "sample_opened = snd (process memory_log_ops sample_env open_frame sample_up)"

lemma sample_opened:
  "process memory_log_ops sample_env open_frame sample_up = (None, sample_opened) \<and>
   nc_werr (pe_net sample_opened) = None \<and> c_State (pe_connection sample_opened) = StateOpen \<and>
   c_MaxFrame (pe_connection sample_opened) = 0 \<and> c_Sessions (pe_connection sample_opened) = [] \<and>
   c_ID (pe_connection sample_opened) = ''conn_1'' \<and> pe_sessionIDs sample_opened = [] \<and> pe_linkIDs sample_opened = [] \<and>
   peer_sessions sample_opened = NewSessionRegistry \<and> peer_links sample_opened = NewLinkRegistry"
proof -
  let ?c = "sample_conn\<lparr>c_ContainerID := ''c'', c_State := StateOpen\<rparr>"
  let ?q = "set_conn ?c (set_conn (sample_conn\<lparr>c_State := StateHeader, c_ContainerID := ''c''\<rparr>) sample_up)"
  obtain b where b: "EncodePerformative (open_reply ?c) = Inr b" "length b < 100"
    using open_reply_encodes [of ?c] by (auto simp: sample_conn_def New_Connection_def)
  have "fits ?q (length b + length [])"
    using b(2) by (intro fits_small) (auto simp: sample_up_fields sample_conn_def New_Connection_def)
  note sent = peer_write_ok [OF b(1) this, of FrameTypeAMQP 0, simplified]
  have "process memory_log_ops sample_env open_frame sample_up =
      onOpen \<lparr>p_Descriptor = DescriptorOpen, p_Fields = [VString ''c'']\<rparr> sample_up"
    by (simp add: process_def sample_decodings)
  also have "\<dots> = peer_write 0 FrameTypeAMQP (open_reply ?c) [] ?q"
    by (simp add: onOpen_def Let_def sample_up_fields Conn_Snapshot_def Perf_String_def Perf_Uint_def Field_def thenE_def
        peer_transition_def Transition_def valid_transition_def)
  finally show ?thesis
    by (simp add: sent sample_opened_def sample_up_fields) (simp add: sample_conn_def New_Connection_def)
qed

definition sample_begun :: "MemoryLog peer" where
  "sample_begun = snd (process memory_log_ops sample_env begin_frame sample_opened)"

lemma sample_begun:
  "process memory_log_ops sample_env begin_frame sample_opened = (None, sample_begun) \<and>
   pe_sessionIDs sample_begun = [(1, ''ssn_01'')]"
proof -
  obtain b where b: "EncodePerformative (begin_reply 1) = Inr b" "length b < 100"
    using begin_reply_encodes by blast
  have rid: "peer_randomID ''ssn'' (e_rnd sample_env) = Inr ''ssn_01''" by code_simp
  have "process memory_log_ops sample_env begin_frame sample_opened = onBegin sample_env 1 sample_opened"
    by (simp add: process_def sample_decodings descriptor_defs bare_def) (simp add: begin_frame_def wire_def)
  moreover obtain r where r: "session_Add ((New_Session ''ssn_01'' ''conn_1'' 1 1 (e_now sample_env))\<lparr>s_State := StateMapped\<rparr>)
      NewSessionRegistry = Inr r"
    by (simp add: session_Add_def NewSessionRegistry_def)
  let ?q = "(set_conn ((pe_connection sample_opened)\<lparr>c_Sessions := [(1, ''ssn_01'')]\<rparr>) (set_sessions r sample_opened))
    \<lparr>pe_sessionIDs := [(1, ''ssn_01'')]\<rparr>"
  have "onBegin sample_env 1 sample_opened = peer_write 1 FrameTypeAMQP (begin_reply 1) [] ?q"
    using sample_opened r by (simp add: onBegin_def Let_def rid Session_Begin_def New_Session_def AddSession_def)
  ultimately have q: "nc_werr (pe_net ?q) = None" "c_MaxFrame (pe_connection ?q) = 0" "pe_sessionIDs ?q = [(1, ''ssn_01'')]"
    "process memory_log_ops sample_env begin_frame sample_opened = peer_write 1 FrameTypeAMQP (begin_reply 1) [] ?q"
    using sample_opened by simp_all
  have "fits ?q (length b + length [])" using q b(2) by (intro fits_small) auto
  from peer_write_ok [OF b(1) this, of FrameTypeAMQP 1] q show ?thesis
    by (simp add: sample_begun_def)
qed

lemma sample_fresh: "link_Get (peer_links p) ''lnk_01'' = None \<Longrightarrow> session_Get (peer_sessions p) ''ssn_01'' = None \<Longrightarrow>
    fresh_env sample_env p"
proof -
  have "peer_randomID ''ssn'' (e_rnd sample_env) = Inr ''ssn_01''" "peer_randomID ''lnk'' (e_rnd sample_env) = Inr ''lnk_01''"
    by code_simp+
  moreover have "valid_range (e_links sample_env)" by (simp add: sample_env_def)
  ultimately show "link_Get (peer_links p) ''lnk_01'' = None \<Longrightarrow> session_Get (peer_sessions p) ''ssn_01'' = None \<Longrightarrow> fresh_env sample_env p"
    by (auto simp: fresh_env_def)
qed

lemma sample_orderly: "orderly open_frame p" "orderly begin_frame p"
  by (simp_all add: orderly_def sample_decodings descriptor_defs bare_def)

lemma sample_reach: "peer_reach memory_log_ops orderly sample_opened" "peer_reach memory_log_ops orderly sample_begun"
proof -
  show o: "peer_reach memory_log_ops orderly sample_opened"
    using sample_opened sample_orderly
    by (intro peer_reach.frame [where frame = open_frame, OF sample_reach_up sample_fresh])
      (auto simp: sample_up_fields NewLinkRegistry_def NewSessionRegistry_def link_Get_def session_Get_def)
  show "peer_reach memory_log_ops orderly sample_begun"
    using sample_begun sample_orderly sample_opened
    by (intro peer_reach.frame [where frame = begin_frame, OF o sample_fresh])
      (auto simp: NewLinkRegistry_def NewSessionRegistry_def link_Get_def session_Get_def)
qed

theorem peer_session_table_witness:
  "get (pe_sessionIDs sample_begun) 1 = Some ''ssn_01'' \<and>
   (\<exists>s. session_Get (peer_sessions sample_begun) ''ssn_01'' = Some s \<and> s_LocalChannel s = 1 \<and> s_State s = StateMapped)"
proof -
  have s: "get (pe_sessionIDs sample_begun) 1 = Some ''ssn_01''" using sample_begun by simp
  with peer_session_table [OF sample_reach(2), THEN conjunct2, THEN conjunct2, rule_format, OF s] show ?thesis by blast
qed

lemma calm_memory_log: "calm_log memory_log_ops"
  by (auto simp: calm_log_def memory_log_ops_def ml_Append_def ml_Read_def result_iffs Let_def split: option.splits if_splits)

theorem process_crash_exact_witness:
  "fst (process memory_log_ops sample_env begin_frame sample_up) \<noteq> Some nil_deref \<and>
   \<not> transfer_dangling begin_frame sample_up"
proof -
  have "calm sample_env sample_up" by (simp add: calm_def sample_up_fields) (simp add: sample_env_def)
  from process_crash_exact [OF sample_reach_up [of memory_log_ops orderly] this calm_memory_log, of begin_frame]
  show ?thesis by blast
qed

text \<open>A peer with a receiving link on channel 1, as an attach leaves it.\<close>

definition sample_link :: Link where
  "sample_link = \<lparr>l_ID = ''lnk_9'', l_SessionID = ''ssn_9'', l_Name = ''n'', l_Handle = 3, l_Role = RoleReceiver,
     l_Address = ''q'', l_State = StateAttached, l_Credit = 0, l_DeliveryCount = 0, l_MaxMessageSize = 16777216, l_CreatedAt = 1\<rparr>"

definition sample_attached :: "MemoryLog peer" where
  "sample_attached =
    (let s = (New_Session ''ssn_9'' ''conn_1'' 1 1 1)\<lparr>s_State := StateMapped, s_Links := [(3, ''lnk_9'')]\<rparr>;
         c = sample_conn\<lparr>c_State := StateOpen, c_Sessions := [(1, ''ssn_9'')]\<rparr> in
     (new_peer sample_socket c (sample_server\<lparr>sr_Connections := \<lparr>cr_max = 10, cr_items = [(''conn_1'', c)]\<rparr>,
        sr_Sessions := \<lparr>sr_items = [(''ssn_9'', s)], sr_channels = [(s_key s, ''ssn_9'')]\<rparr>,
        sr_Links := \<lparr>lr_items = [(''lnk_9'', sample_link)], lr_handles = [(l_key sample_link, ''lnk_9'')]\<rparr>\<rparr>))
      \<lparr>pe_sessionIDs := [(1, ''ssn_9'')], pe_linkIDs := [(link_slot 1 3, ''lnk_9'')]\<rparr>)"

lemma sample_attached_table: "link_table sample_attached"
  by (simp add: link_table_def link_ok_def sample_attached_def new_peer_def Let_def links.inv_def reg_agree_def
      wf_map_def link_Get_def) (simp add: sample_link_def)

lemma sample_end_begin:
  "fst (onEnd sample_env 1 sample_attached) = None"
  "fst (onBegin sample_env 1 (snd (onEnd sample_env 1 sample_attached))) = None"
  by code_simp+

theorem end_with_link_crashes_witness:
  "\<exists>p1 p2. onEnd sample_env 1 sample_attached = (None, p1) \<and> onBegin sample_env 1 p1 = (None, p2) \<and>
     fst (onTransfer memory_log_ops sample_env 1 \<lparr>p_Descriptor = DescriptorTransfer, p_Fields = [VUint32 3]\<rparr> [1] p2) = Some nil_deref"
proof -
  obtain p1 where p1: "onEnd sample_env 1 sample_attached = (None, p1)"
    using sample_end_begin(1) by (metis prod.collapse)
  obtain p2 where p2: "onBegin sample_env 1 p1 = (None, p2)"
    using sample_end_begin(2) p1 by (metis prod.collapse snd_conv)
  have "fst (onTransfer memory_log_ops sample_env 1 \<lparr>p_Descriptor = DescriptorTransfer, p_Fields = [VUint32 3]\<rparr> [1] p2) = Some nil_deref"
    by (rule end_with_link_crashes [OF sample_attached_table _ _ _ p1 p2, where h = 3])
      (simp_all add: sample_env_def sample_attached_def new_peer_def Let_def Perf_Uint_def Field_def)
  with p1 p2 show ?thesis by blast
qed

end
