(* ===== verification/PeerServe.thy ===== *)
theory PeerServe
  imports PeerRun
begin

text \<open>
  A whole connection, from accepting it to its end (\<open>Server.handle\<close>): whatever bytes the remote end
  sends, it comes to an end, gives its place in the registries back, and loses no message.
\<close>

section \<open>Requests to the delivery service\<close>

text \<open>The frames of a peer reach the delivery service only through its operations.\<close>

definition valid_env :: "env \<Rightarrow> bool" where
  "valid_env en = ((\<forall>i. valid_ranges (e_ranges en i)) \<and> valid_range (e_sessions en) \<and> twelve (e_rnds en))"

definition served :: "'l BodyLog \<Rightarrow> 'l peer \<Rightarrow> 'l peer \<Rightarrow> bool" where
  "served bl p q = (svc_step bl)\<^sup>*\<^sup>* (peer_delivery p) (peer_delivery q)"

lemma served_refl [simp]: "served bl p p"
  by (simp add: served_def)

lemma served_step: "served bl p q \<Longrightarrow> svc_step bl (peer_delivery q) d \<Longrightarrow> served bl p (set_delivery d q)"
  by (simp add: served_def)

lemma served_mem: "served bl p q \<Longrightarrow> svc_step bl (peer_delivery q) ((peer_delivery q)\<lparr>sv_mem := m\<rparr>) \<Longrightarrow> served bl p (set_mem m q)"
  unfolding set_mem_def by (rule served_step)

lemma served_same: "peer_delivery q' = peer_delivery q \<Longrightarrow> served bl p q' = served bl p q"
  by (simp add: served_def)

lemma served_sets [simp]:
  "served bl p (set_conn c q) = served bl p q" "served bl p (set_sessions r q) = served bl p q"
  "served bl p (set_links l q) = served bl p q" "served bl p (q\<lparr>pe_sessionIDs := si\<rparr>) = served bl p q"
  "served bl p (q\<lparr>pe_linkIDs := li\<rparr>) = served bl p q" "served bl p (q\<lparr>pe_deliveryConsumer := dc\<rparr>) = served bl p q"
  "served bl p (set_in b q) = served bl p q" "served bl p (snd (peer_write ch t f b' q)) = served bl p q"
  "served bl p (snd (peer_transition st q)) = served bl p q"
  by (simp_all add: served_def set_in_def)

lemma served_thenE:
  "served bl p (snd r) \<Longrightarrow> (\<And>q. r = (None, q) \<Longrightarrow> served bl p q \<Longrightarrow> served bl p (snd (g q))) \<Longrightarrow> served bl p (snd (thenE r g))"
  by (auto simp: thenE_def split: prod.splits option.splits)

lemma onOpen_served: "served bl p (snd (onOpen perf p))"
  by (auto simp: onOpen_def Let_def intro!: served_thenE)

lemma onBegin_served: "served bl p (snd (onBegin en channel p))"
  by (auto simp: onBegin_def Let_def split: sum.split)

lemma attach_consumer_served: "served bl p q \<Longrightarrow> served bl p (snd (attach_consumer en lid a l q))"
  by (auto simp: attach_consumer_def Let_def intro!: served_mem svc_step.register split: sum.split prod.split)

lemma onAttach_served: "served bl p (snd (onAttach en channel perf p))"
  by (auto simp: onAttach_def Let_def intro!: served_thenE attach_consumer_served split: sum.split option.split)

lemma flow_loop_served:
  "valid_env en \<Longrightarrow> served bl p q \<Longrightarrow> served bl p (snd (flow_loop bl en channel h l i n q))"
proof (induction n arbitrary: l i q)
  case (Suc n)
  have step: "served bl p (set_delivery d q)"
    if "Acquire_op bl (e_ranges en i) (e_ctx en) (e_clk en i) (l_ID l) (peer_delivery q) = (ra, d)" for ra d
    using Suc.prems that by (intro served_step svc_step.acquire) (auto simp: valid_env_def)
  show ?case
    using Suc.prems(1) by (auto simp: Let_def step intro!: served_thenE Suc.IH split: sum.split prod.split)
qed simp

lemma onFlow_served: "valid_env en \<Longrightarrow> served bl p (snd (onFlow bl en channel perf p))"
  by (auto simp: onFlow_def Let_def intro!: flow_loop_served split: option.split)

lemma onTransfer_served:
  assumes "valid_env en"
  shows "served bl p (snd (onTransfer bl en channel perf payload p))"
proof -
  have "served bl p (set_delivery d q)"
    if "Publish_op bl (e_ranges en 0) (e_ctx en) (e_clk en) (e_rnds en) inp (peer_delivery p) = (r, d)"
      "peer_delivery q = peer_delivery p" for inp r d q
    using that assms served_same [OF that(2)] by (intro served_step svc_step.publish) (auto simp: valid_env_def)
  then show ?thesis
    by (auto simp: onTransfer_def Let_def split: option.split sum.split prod.split)
qed

lemma settle_one_served: "served bl p q \<Longrightarrow> served bl p (settle_one en did q)"
  by (auto simp: settle_one_def Let_def intro!: served_mem svc_step.settle prod.collapse [symmetric])

lemma disposition_loop_served: "served bl p q \<Longrightarrow> served bl p (disposition_loop en did lst q)"
  by (induction en did lst q rule: disposition_loop.induct)
    (subst disposition_loop.simps, auto simp: Let_def settle_one_served)

lemma onDetach_served:
  assumes "valid_env en"
  shows "served bl p (snd (onDetach en channel perf p))"
proof -
  have "served bl p (set_mem (snd (Disconnect (e_ranges en 0) (e_ctx en) (e_now en) lid (sv_mem (peer_delivery p)))) (set_links r p))" for lid r
    using assms by (intro served_mem) (auto simp: valid_env_def intro!: svc_step.disconnect prod.collapse [symmetric])
  then show ?thesis
    by (auto simp: onDetach_def Let_def split: option.split)
qed

lemma onEnd_served: "served bl p (snd (onEnd en channel p))"
  by (auto simp: onEnd_def Let_def split: option.split sum.split)

lemma onClose_served: "served bl p (snd (onClose p))"
  by (auto simp: onClose_def Let_def intro!: served_thenE)

lemma process_served: "valid_env en \<Longrightarrow> served bl p (snd (process bl en frame p))"
  by (auto simp: process_def Let_def onOpen_served onBegin_served onAttach_served onFlow_served onTransfer_served
      onDisposition_def disposition_loop_served onDetach_served onEnd_served onClose_served split: sum.split)

lemma served_trans: "served bl p q \<Longrightarrow> served bl q r \<Longrightarrow> served bl p r"
  by (simp add: served_def)

section \<open>Registries\<close>

text \<open>
  \<open>lodged cid r p\<close>: the connection registry has the entries of \<open>r\<close>, all but that of \<open>cid\<close> unchanged,
  the peer still serves \<open>cid\<close>, and the session registry has distinct keys.
\<close>

definition lodged :: "string \<Rightarrow> conn_Registry \<Rightarrow> 'l peer \<Rightarrow> bool" where
  "lodged cid r p = (map fst (cr_items (sr_Connections (pe_server p))) = map fst (cr_items r) \<and>
     cr_max (sr_Connections (pe_server p)) = cr_max r \<and>
     (\<forall>k. k \<noteq> cid \<longrightarrow> conn_Get (sr_Connections (pe_server p)) k = conn_Get r k) \<and>
     c_ID (pe_connection p) = cid \<and> wf_map (sr_items (peer_sessions p)))"

lemma conn_Set_keys: "map fst (cr_items (conn_Set c r)) = map fst (cr_items r)"
  by (auto simp: conn_Set_def update_keys get_None_keys)

lemma lodged_set_conn: "lodged cid r p \<Longrightarrow> c_ID c = cid \<Longrightarrow> lodged cid r (set_conn c p)"
  by (auto simp: lodged_def conn_Set_keys) (auto simp: conn_Set_def conn_Get_def map_simps)

lemma lodged_same:
  "sr_Connections (pe_server q) = sr_Connections (pe_server p) \<Longrightarrow> peer_sessions q = peer_sessions p \<Longrightarrow>
     pe_connection q = pe_connection p \<Longrightarrow> lodged cid r q = lodged cid r p"
  by (simp add: lodged_def)

lemma lodged_sets [simp]:
  "lodged cid r (set_links l p) = lodged cid r p" "lodged cid r (set_delivery d p) = lodged cid r p"
  "lodged cid r (set_mem m p) = lodged cid r p" "lodged cid r (p\<lparr>pe_sessionIDs := si\<rparr>) = lodged cid r p"
  "lodged cid r (p\<lparr>pe_linkIDs := li\<rparr>) = lodged cid r p" "lodged cid r (p\<lparr>pe_deliveryConsumer := dc\<rparr>) = lodged cid r p"
  "lodged cid r (set_in b p) = lodged cid r p" "lodged cid r (snd (peer_write c t f b' p)) = lodged cid r p"
  by (rule lodged_same; simp add: set_in_def peer_write_def split: sum.split)+

lemma wf_session_ops:
  "wf_map (sr_items r) \<Longrightarrow> wf_map (sr_items (session_Set s r))" "wf_map (sr_items r) \<Longrightarrow> wf_map (sr_items (session_Remove k r))"
  "wf_map (sr_items r) \<Longrightarrow> session_Add s r = Inr r' \<Longrightarrow> wf_map (sr_items r')"
  by (auto simp: session_Set_def session_Remove_def session_Add_def Let_def split: option.split if_splits)

lemma lodged_sessions: "lodged cid r p \<Longrightarrow> wf_map (sr_items sr) \<Longrightarrow> lodged cid r (set_sessions sr p)"
  by (simp add: lodged_def)

lemma lodged_wf: "lodged cid r p \<Longrightarrow> wf_map (sr_items (peer_sessions p))"
  by (simp add: lodged_def)

lemma lodged_thenE:
  "lodged cid r (snd x) \<Longrightarrow> (\<And>q. x = (None, q) \<Longrightarrow> lodged cid r q \<Longrightarrow> lodged cid r (snd (g q))) \<Longrightarrow> lodged cid r (snd (thenE x g))"
  by (auto simp: thenE_def split: prod.splits option.splits)

lemma lodged_ID: "lodged cid r p \<Longrightarrow> c_ID (pe_connection p) = cid"
  by (simp add: lodged_def)

lemma lodged_transition: "lodged cid r p \<Longrightarrow> lodged cid r (snd (peer_transition st p))"
  by (auto simp: peer_transition_def Transition_Inr lodged_ID split: sum.split intro!: lodged_set_conn)

lemmas lodged_rules = lodged_thenE lodged_set_conn lodged_sessions lodged_transition wf_session_ops(1,2)

lemma handlers_lodged:
  assumes p: "lodged cid r p"
  shows "lodged cid r (snd (onOpen perf p))" "lodged cid r (snd (onBegin en channel p))"
    "lodged cid r (snd (onDetach en channel perf p))" "lodged cid r (snd (onEnd en channel p))" "lodged cid r (snd (onClose p))"
    "lodged cid r (snd (onTransfer bl en channel perf payload p))"
proof -
  note wf = lodged_wf [OF p] and ID = lodged_ID [OF p]
  show "lodged cid r (snd (onOpen perf p))"
    using p by (auto simp: onOpen_def Let_def ID intro!: lodged_rules)
  show "lodged cid r (snd (onBegin en channel p))"
    using p wf by (auto simp: onBegin_def Let_def ID intro!: lodged_set_conn lodged_sessions
        dest!: AddSession_ID dest: wf_session_ops(3) split: sum.split)
  show "lodged cid r (snd (onDetach en channel perf p))"
    using p wf by (auto simp: onDetach_def Let_def intro!: lodged_sessions wf_session_ops(1) split: option.split)
  show "lodged cid r (snd (onEnd en channel p))"
    using p wf by (auto simp: onEnd_def Let_def RemoveSession_def ID intro!: lodged_rules split: option.split sum.split)
  show "lodged cid r (snd (onClose p))"
    using p by (auto simp: onClose_def Let_def intro!: lodged_rules)
  show "lodged cid r (snd (onTransfer bl en channel perf payload p))"
    using p wf by (auto simp: onTransfer_def Let_def intro!: lodged_sessions wf_session_ops(1)
        split: option.split sum.split prod.split)
qed

lemma attach_consumer_lodged: "lodged cid r p \<Longrightarrow> lodged cid r (snd (attach_consumer en lid a l p))"
  by (auto simp: attach_consumer_def Let_def split: sum.split prod.split)

lemma onAttach_lodged:
  assumes "lodged cid r p"
  shows "lodged cid r (snd (onAttach en channel perf p))"
  using assms lodged_wf [OF assms]
  by (auto simp: onAttach_def Let_def intro!: lodged_thenE attach_consumer_lodged lodged_sessions wf_session_ops(1)
      split: sum.split option.split)

lemma flow_loop_lodged: "lodged cid r p \<Longrightarrow> lodged cid r (snd (flow_loop bl en channel h l i n p))"
  by (induction n arbitrary: l i p) (auto simp: Let_def intro!: lodged_thenE split: sum.split prod.split)

lemma onFlow_lodged:
  assumes "lodged cid r p"
  shows "lodged cid r (snd (onFlow bl en channel perf p))"
  using assms lodged_wf [OF assms]
  by (auto simp: onFlow_def Let_def intro!: flow_loop_lodged lodged_sessions wf_session_ops(1) split: option.split)

lemma settle_one_lodged [simp]: "lodged cid r (settle_one en did p) = lodged cid r p"
  by (auto simp: settle_one_def Let_def)

lemma disposition_loop_lodged: "lodged cid r p \<Longrightarrow> lodged cid r (disposition_loop en did lst p)"
  by (induction en did lst p rule: disposition_loop.induct) (subst disposition_loop.simps, auto simp: Let_def)

lemma process_lodged: "lodged cid r p \<Longrightarrow> lodged cid r (snd (process bl en frame p))"
  by (auto simp: process_def Let_def handlers_lodged onAttach_lodged onFlow_lodged onDisposition_def
      disposition_loop_lodged split: sum.split)

lemma handshake_lodged: "lodged cid r p \<Longrightarrow> lodged cid r (snd (handshake ctx p))"
proof (rule handshake_rule)
  assume p: "lodged cid r p"
  show q: "lodged cid r q" if "same_tables p q" for q
    using lodged_same [of q p cid r] that p by (simp add: same_tables_def)
  show "lodged cid r (snd (peer_transition StateHeader q))" if "same_tables p q" for q
    by (rule lodged_transition [OF q [OF that]])
qed

section \<open>The loop and the whole connection\<close>

lemma serve_rule:
  assumes read: "\<And>p t rest. P p \<Longrightarrow> P (set_conn (Touch (pe_connection p) t) (set_in rest p))"
    and frame: "\<And>p i frame. P p \<Longrightarrow> P (snd (process bl (envs i) frame p))"
  shows "P p \<Longrightarrow> P (snd (serve bl envs i p))"
proof (induction "length (nc_in (pe_net p))" arbitrary: i p rule: less_induct)
  case less
  show ?case
  proof (cases "ReadFrame (nc_in (pe_net p)) (c_MaxFrame (pe_connection p))")
    case (Inl e)
    with less.prems show ?thesis by (subst serve.simps) simp
  next
    case (Inr x)
    then obtain fr rest where x: "ReadFrame (nc_in (pe_net p)) (c_MaxFrame (pe_connection p)) = Inr (fr, rest)"
      by (cases x) auto
    let ?q = "set_conn (Touch (pe_connection p) (e_now (envs i))) (set_in rest p)"
    obtain err p' where pr: "process bl (envs i) fr ?q = (err, p')" by (cases "process bl (envs i) fr ?q")
    have p': "P p'" using frame [OF read [OF less.prems], of i fr] pr by (metis snd_conv)
    have "nc_in (pe_net p') = rest" using process_steady [of ?q bl "envs i" fr] pr by (simp add: steady_def set_in_def)
    then have "length (nc_in (pe_net p')) < length (nc_in (pe_net p))" using ReadFrame_consumes [OF x] by simp
    then have "P (snd (serve bl envs (Suc i) p'))" using less.hyps p' by blast
    with x pr p' show ?thesis by (subst serve.simps) (simp split: option.split)
  qed
qed

lemma serve_lodged: "lodged cid r p \<Longrightarrow> lodged cid r (snd (serve bl envs i p))"
  by (rule serve_rule [where P = "lodged cid r"])
    (auto simp: Touch_def lodged_ID process_lodged intro!: lodged_set_conn)

lemma serve_served: "(\<And>i. valid_env (envs i)) \<Longrightarrow> served bl p q \<Longrightarrow> served bl p (snd (serve bl envs i q))"
  by (rule serve_rule [where P = "served bl p"]) (auto intro: served_trans process_served)

lemma handshake_served: "served bl p (snd (handshake ctx p))"
  by (rule handshake_rule) (auto simp: served_def same_tables_def)

text \<open>What \<open>handle\<close> comes down to once the connection is registered.\<close>

lemma handle_cases:
  assumes "handle bl envs nc s = (err, s', nc')"
  obtains (refused) "s' = s"
  | (registered) cid c r p where "peer_randomID ''conn'' (e_rnd (envs 0)) = Inr cid" "c_ID c = cid"
      "conn_Add c (sr_Connections s) = Inr r" "s' = clean_up (envs 0) cid (pe_server p)"
      "p = snd (thenE (handshake (e_ctx (envs 0)) (new_peer nc c (s\<lparr>sr_Connections := r\<rparr>))) (serve bl envs 1))"
proof (cases "peer_randomID ''conn'' (e_rnd (envs 0))")
  case (Inl e)
  with assms show ?thesis by (intro refused) (simp add: handle_def)
next
  case (Inr cid)
  let ?c = "New_Connection cid (nc_remote nc) (sr_MaxFrame s) (sr_IdleTimeout s) (e_now (envs 0))"
  show ?thesis
  proof (cases "conn_Add ?c (sr_Connections s)")
    case (Inl e)
    with Inr assms show ?thesis by (intro refused) (simp add: handle_def)
  next
    case r: (Inr r)
    show ?thesis
      by (rule registered [OF Inr _ r]) (use assms Inr r in \<open>auto simp: handle_def New_Connection_def split: prod.splits\<close>)
  qed
qed

lemma length_del_hit: "wf_map m \<Longrightarrow> get m k \<noteq> None \<Longrightarrow> Suc (length (del k m)) = length m"
proof (induction m)
  case (Cons a m)
  have "k \<notin> fst ` set m \<Longrightarrow> del k m = m" by (rule delete_id)
  with Cons show ?case by (cases a) (auto simp: wf_map_def get_None_keys, force)
qed simp

section \<open>Properties\<close>

lemma handle_released:
  assumes "handle bl envs nc s = (err, s', nc')" "wf_map (sr_items (sr_Sessions s))" "wf_map (cr_items (sr_Connections s))"
    and "valid_range (e_sessions (envs 0))" "peer_randomID ''conn'' (e_rnd (envs 0)) = Inr cid"
    and "\<And>sid x. session_Get (sr_Sessions s) sid = Some x \<Longrightarrow> s_ConnectionID x \<noteq> cid"
  shows "(\<forall>k. conn_Get (sr_Connections s') k = conn_Get (sr_Connections s) k) \<and>
    conn_Count (sr_Connections s') = conn_Count (sr_Connections s) \<and>
    (\<forall>sid x. session_Get (sr_Sessions s') sid = Some x \<longrightarrow> s_ConnectionID x \<noteq> cid)"
  using assms(1)
proof (cases rule: handle_cases)
  case refused
  with assms(6) show ?thesis by auto
next
  case (registered cid' c r p)
  have cid: "cid' = cid" using registered(1) assms(5) by simp
  have r: "r = (sr_Connections s)\<lparr>cr_items := put cid c (cr_items (sr_Connections s))\<rparr>" "get (cr_items (sr_Connections s)) cid = None"
    using registered(2,3) cid by (auto simp: conn_Add_def split: if_splits)
  have "lodged cid r (new_peer nc c (s\<lparr>sr_Connections := r\<rparr>))"
    using registered(2) cid assms(2) by (simp add: lodged_def new_peer_def)
  then have p: "lodged cid r p"
    unfolding registered(5) by (intro lodged_thenE handshake_lodged serve_lodged)
  let ?conns = "sr_Connections (pe_server p)"
  have keys: "map fst (cr_items ?conns) = map fst (cr_items (sr_Connections s)) @ [cid]"
    using p r(2) by (simp add: lodged_def r(1) update_keys get_None_keys)
  have "wf_map (cr_items ?conns)" "get (cr_items ?conns) cid \<noteq> None"
    using assms(3) r(2) keys by (simp_all add: wf_map_def get_None_keys flip: set_map)
  then have len: "length (del cid (cr_items ?conns)) = length (cr_items (sr_Connections s))"
    using length_del_hit [of "cr_items ?conns" cid] arg_cong [OF keys, of length] by simp
  have "conn_Get (conn_Remove cid ?conns) k = conn_Get (sr_Connections s) k" for k
    using p r by (auto simp: lodged_def conn_Get_def conn_Remove_def map_simps)
  moreover have "s_ConnectionID x \<noteq> cid" if "session_Get (RemoveConnection (e_sessions (envs 0)) cid (peer_sessions p)) sid = Some x" for sid x
    using sessions.get_remove_owner_wf [OF lodged_wf [OF p] assms(4), of cid sid x] that by (simp add: session_Get_def)
  ultimately show ?thesis
    using len by (simp add: registered(4) cid clean_up_def conn_Count_def conn_Remove_def)
qed

text \<open>
  C23: A connection gives back what it took. Whatever bytes the remote end sends and however the
  connection ends, after \<open>handle\<close> with its deferred clean-up the connection registry answers every
  lookup as before and counts as many connections as before, so that no place under the limit is lost,
  and the session registry holds no session of the connection. (The registries have each key once, and
  no session yet carries the identifier the connection is given.)
\<close>

theorem handle_releases:
  assumes "handle bl envs nc s = (err, s', nc')" "wf_map (sr_items (sr_Sessions s))" "wf_map (cr_items (sr_Connections s))"
    and "valid_range (e_sessions (envs 0))" "peer_randomID ''conn'' (e_rnd (envs 0)) = Inr cid"
    and "\<And>sid x. session_Get (sr_Sessions s) sid = Some x \<Longrightarrow> s_ConnectionID x \<noteq> cid"
  shows "(\<forall>k. conn_Get (sr_Connections s') k = conn_Get (sr_Connections s) k) \<and>
    conn_Count (sr_Connections s') = conn_Count (sr_Connections s) \<and>
    (\<forall>sid x. session_Get (sr_Sessions s') sid = Some x \<longrightarrow> s_ConnectionID x \<noteq> cid)"
  by (rule handle_released [OF assms])

section \<open>Witnesses\<close>

lemma sample_valid_env: "valid_env sample_env"
  by (simp add: valid_env_def sample_env_def twelve_def zero_ids_def)

theorem handle_releases_witness:
  "\<exists>err s' nc'. handle memory_log_ops (\<lambda>_. sample_env) sample_socket sample_server = (err, s', nc') \<and> err = Some EOF \<and>
     conn_Count (sr_Connections s') = 1 \<and> conn_Get (sr_Connections s') ''conn_01'' = None"
proof -
  obtain err s' nc' where h: "handle memory_log_ops (\<lambda>_. sample_env) sample_socket sample_server = (err, s', nc')"
    by (metis prod.collapse)
  have "fst (handle memory_log_ops (\<lambda>_. sample_env) sample_socket sample_server) = Some EOF" by code_simp
  moreover have "peer_randomID ''conn'' (e_rnd sample_env) = Inr ''conn_01''" by code_simp
  with handle_releases [OF h, of "''conn_01''"]
  have "conn_Count (sr_Connections s') = 1 \<and> conn_Get (sr_Connections s') ''conn_01'' = None"
    by (simp add: sample_server_def sample_env_def NewSessionRegistry_def wf_map_def session_Get_def conn_Count_def conn_Get_def)
  ultimately show ?thesis using h by simp
qed

end
