(* ===== verification/PeerWire.thy ===== *)
theory PeerWire
  imports PeerServe
begin

text \<open>
  What a peer puts on the wire and what it makes of it: who gets through the handshake, that a flow is
  answered with transfers the remote end can read, and that a transfer is stored before it is
  acknowledged.
\<close>

section \<open>Handshake\<close>

lemma ValidateProtocolHeader_Inr:
  "ValidateProtocolHeader h = Inr b \<longleftrightarrow> h = bytes_of_string ''AMQP'' @ [b, 1, 0, 0] \<and> (b = 0 \<or> b = 3)"
proof
  assume v: "ValidateProtocolHeader h = Inr b"
  then have "length h = 8" "take 4 h = bytes_of_string ''AMQP''" "h ! 4 = b" "h ! 5 = 1" "h ! 6 = 0" "h ! 7 = 0" "b = 0 \<or> b = 3"
    by (auto simp: ValidateProtocolHeader_def split: if_splits)
  then show "h = bytes_of_string ''AMQP'' @ [b, 1, 0, 0] \<and> (b = 0 \<or> b = 3)"
    by (auto simp: numeral_eq_Suc length_Suc_conv)
qed (auto simp: ValidateProtocolHeader_def)

lemma protocol_headers:
  "ValidateProtocolHeader h = Inr 0 \<longleftrightarrow> h = AMQPHeader" "ValidateProtocolHeader h = Inr 3 \<longleftrightarrow> h = SASLHeader"
  "ValidateProtocolHeader AMQPHeader = Inr 0" "ValidateProtocolHeader SASLHeader = Inr 3"
  by (auto simp: ValidateProtocolHeader_Inr AMQPHeader_def SASLHeader_def byte_of_char_def)

lemma valid_header: "ValidateProtocolHeader h = Inr b \<Longrightarrow> h = AMQPHeader \<or> h = SASLHeader"
  by (auto simp: ValidateProtocolHeader_Inr AMQPHeader_def SASLHeader_def byte_of_char_def)

lemma header_lengths: "length AMQPHeader = 8" "length SASLHeader = 8" "AMQPHeader \<noteq> SASLHeader"
  by (simp_all add: AMQPHeader_def SASLHeader_def)

lemma ReadFull_header: "ReadFull 8 r = Inr (h, rest) \<longleftrightarrow> r = h @ rest \<and> length h = 8"
  by (auto simp: ReadFull_def)

lemma ReadFull_prefix: "length h = 8 \<Longrightarrow> ReadFull 8 (h @ rest) = Inr (h, rest)"
  by (simp add: ReadFull_def)

lemma sasl_encodings:
  "\<exists>b. EncodePerformative (sasl_mechanisms a) = Inr b \<and> length b < 64"
  "code = 0 \<or> code = 1 \<Longrightarrow> \<exists>b. EncodePerformative (sasl_outcome code) = Inr b \<and> length b < 64"
  by (cases "a_AllowAnonymous a"; simp add: sasl_mechanisms_def sasl_outcome_def Mechanisms_def EncodePerformative_def Validate_def
      min_fields_def descriptor_defs trimNulls_def list_header_def encodeBytes_def)+

text \<open>A peer before the handshake, whose socket takes what is written and whose frames have room.\<close>

definition greeting :: "'l peer \<Rightarrow> bool" where
  "greeting p = (nc_werr (pe_net p) = None \<and> c_State (pe_connection p) = StateStart \<and>
     (c_MaxFrame (pe_connection p) = 0 \<or> 512 \<le> c_MaxFrame (pe_connection p)))"

definition put_out :: "byte list \<Rightarrow> 'l peer \<Rightarrow> 'l peer" where
  "put_out bs p = p\<lparr>pe_net := (pe_net p)\<lparr>nc_out := nc_out (pe_net p) @ bs\<rparr>\<rparr>"

lemma put_out_fields [simp]:
  "nc_in (pe_net (put_out bs p)) = nc_in (pe_net p)" "pe_connection (put_out bs p) = pe_connection p"
  "pe_server (put_out bs p) = pe_server p" "pe_identity (put_out bs p) = pe_identity p"
  "nc_out (pe_net (put_out bs p)) = nc_out (pe_net p) @ bs"
  "greeting (put_out bs p) = greeting p" "greeting (set_in r p) = greeting p" "greeting (p\<lparr>pe_identity := i\<rparr>) = greeting p"
  "pe_connection (set_in r p) = pe_connection p" "pe_server (set_in r p) = pe_server p"
  "pe_identity (set_in r p) = pe_identity p" "nc_in (pe_net (set_in r p)) = r"
  by (simp_all add: put_out_def set_in_def greeting_def)

lemma greeting_net_write: "greeting p \<Longrightarrow> net_write b p = (None, put_out b p)"
  by (simp add: greeting_def net_write_def put_out_def)

lemma greeting_write:
  assumes "greeting p" "\<exists>b. EncodePerformative perf = Inr b \<and> length b < 64"
  shows "\<exists>bs. peer_write 0 FrameTypeSASL perf [] p = (None, put_out bs p)"
proof -
  obtain b where b: "EncodePerformative perf = Inr b" "length b < 64" using assms(2) by blast
  have "unat (512 :: 32 word) = 512" by simp
  then have "fits p (length b + length ([] :: byte list))"
    using assms(1) b(2) by (auto simp: fits_def greeting_def word_le_nat_alt)
  from peer_write_ok [OF b(1) this] show ?thesis by (auto simp: put_out_def)
qed

lemma greeting_transition: "greeting p \<Longrightarrow> \<exists>q. peer_transition StateHeader p = (None, q) \<and> pe_identity q = pe_identity p"
  by (auto simp: greeting_def peer_transition_def Transition_def valid_transition_def)

lemma thenE_simps [simp]: "thenE (None, p) g = g p" "thenE (Some e, p) g = (Some e, p)"
  by (simp_all add: thenE_def)

text \<open>What a client has to send to get through the SASL layer as \<open>i\<close>.\<close>

definition sasl_accepts :: "ctx \<Rightarrow> 'l peer \<Rightarrow> Identity \<Rightarrow> bool" where
  "sasl_accepts ctx p i = (\<exists>auth frame ini n rest. sr_Auth (pe_server p) = Some auth \<and>
     ReadFrame (nc_in (pe_net p)) (c_MaxFrame (pe_connection p)) = Inr (frame, AMQPHeader @ rest) \<and>
     DecodePerformative (f_Body frame) = Inr (ini, n) \<and> p_Descriptor ini = DescriptorSASLInit \<and>
     Authenticate auth ctx (Perf_String ini 0) (Perf_Binary ini 1) = Inr i)"

lemma sasl_handshake_iff:
  assumes "greeting p"
  shows "(\<exists>q. sasl_handshake ctx p = (None, q) \<and> pe_identity q = i) \<longleftrightarrow> sasl_accepts ctx p i"
    and "sasl_handshake ctx p = (None, q) \<Longrightarrow> greeting q"
proof -
  let ?mx = "c_MaxFrame (pe_connection p)"
  have main: "((\<exists>q. sasl_handshake ctx p = (None, q) \<and> pe_identity q = i) \<longleftrightarrow> sasl_accepts ctx p i) \<and>
      (\<forall>q. sasl_handshake ctx p = (None, q) \<longrightarrow> greeting q)" for i
  proof (cases "sr_Auth (pe_server p)")
    case None
    then show ?thesis by (simp add: sasl_handshake_def sasl_accepts_def failE_def)
  next
    case (Some auth)
    let ?p1 = "put_out SASLHeader p"
    obtain bs where w: "peer_write 0 FrameTypeSASL (sasl_mechanisms auth) [] ?p1 = (None, put_out bs ?p1)"
      using greeting_write [OF _ sasl_encodings(1), of ?p1] assms by auto
    let ?p2 = "put_out bs ?p1"
    have out: "\<exists>bs. peer_write 0 FrameTypeSASL (sasl_outcome code) [] (set_in r ?p2) = (None, put_out bs (set_in r ?p2))"
      if "code = 0 \<or> code = 1" for r code
      using greeting_write [OF _ sasl_encodings(2) [OF that], of "set_in r ?p2"] assms by auto
    obtain bo where bo: "peer_write 0 FrameTypeSASL (sasl_outcome 0) [] (set_in r ?p2) = (None, put_out (bo r) (set_in r ?p2))" for r
      using out [of 0] by metis
    obtain be where be: "peer_write 0 FrameTypeSASL (sasl_outcome 1) [] (set_in r ?p2) = (None, put_out (be r) (set_in r ?p2))" for r
      using out [of 1] by metis
    have rd: "ReadFull 8 (AMQPHeader @ rest) = Inr (AMQPHeader, rest)" for rest
      by (simp add: ReadFull_prefix header_lengths)
    show ?thesis
      using assms by (auto simp: rd header_lengths sasl_handshake_def sasl_accepts_def Some greeting_net_write w bo be Let_def failE_def
          ReadFull_header protocol_headers split: sum.splits prod.splits if_splits)
  qed
  show "(\<exists>q. sasl_handshake ctx p = (None, q) \<and> pe_identity q = i) \<longleftrightarrow> sasl_accepts ctx p i"
    "sasl_handshake ctx p = (None, q) \<Longrightarrow> greeting q" using main by blast+
qed

lemma handshake_iff:
  assumes "greeting p"
  shows "(\<exists>q. handshake ctx p = (None, q) \<and> pe_identity q = i) \<longleftrightarrow>
    (\<exists>rest. nc_in (pe_net p) = AMQPHeader @ rest \<and> i = pe_identity p) \<or>
    (\<exists>rest. nc_in (pe_net p) = SASLHeader @ rest \<and> sasl_accepts ctx (set_in rest p) i)"
proof -
  have finish: "\<exists>q'. thenE (net_write AMQPHeader q) (peer_transition StateHeader) = (None, q') \<and> pe_identity q' = pe_identity q"
    if "greeting q" for q :: "'a peer"
    using greeting_transition [of "put_out AMQPHeader q"] that by (simp add: greeting_net_write)
  have after: "(\<exists>q. thenE r (\<lambda>p. thenE (net_write AMQPHeader p) (peer_transition StateHeader)) = (None, q) \<and> pe_identity q = i) \<longleftrightarrow>
      (\<exists>q. r = (None, q) \<and> pe_identity q = i)" if "\<And>q. r = (None, q) \<Longrightarrow> greeting q" for r :: "error option \<times> 'a peer"
  proof (cases r)
    case (Pair e q)
    then show ?thesis using that [of q] finish [of q] by (cases e) auto
  qed
  show ?thesis
  proof (cases "\<exists>h rest. nc_in (pe_net p) = h @ rest \<and> (h = AMQPHeader \<or> h = SASLHeader)")
    case True
    then obtain h rest where h: "nc_in (pe_net p) = h @ rest" "h = AMQPHeader \<or> h = SASLHeader" by blast
    note S = sasl_handshake_iff [of "set_in rest p" ctx, simplified, OF assms]
    show ?thesis
      using h(2)
    proof
      assume a: "h = AMQPHeader"
      then show ?thesis
        using h(1) after [of "(None, set_in rest p)"] assms
        by (auto simp: handshake_def ReadFull_prefix header_lengths protocol_headers)
    next
      assume a: "h = SASLHeader"
      have "handshake ctx p = thenE (sasl_handshake ctx (set_in rest p)) (\<lambda>p. thenE (net_write AMQPHeader p) (peer_transition StateHeader))"
        using h(1) a by (simp add: handshake_def ReadFull_prefix header_lengths protocol_headers)
      with after [OF S(2)] S(1) [of i] show ?thesis
        using h(1) a header_lengths by auto
    qed
  next
    case False
    then have "handshake ctx p \<noteq> (None, q)" for q
      using valid_header by (auto simp: handshake_def ReadFull_header Let_def split: sum.split)
    with False show ?thesis by auto
  qed
qed

text \<open>
  C20: who gets through the handshake. On a socket that takes what is written, the handshake succeeds
  with identity \<open>i\<close> exactly when the client sends the AMQP header at once (and then is nobody in
  particular), or sends the SASL header, the server has an authenticator, the next frame is a SASL
  init the authenticator accepts as \<open>i\<close>, and the AMQP header follows it.
\<close>

theorem handshake_exact:
  assumes "nc_werr (pe_net p) = None" "c_State (pe_connection p) = StateStart"
    and "c_MaxFrame (pe_connection p) = 0 \<or> 512 \<le> c_MaxFrame (pe_connection p)"
  shows "(\<exists>q. handshake ctx p = (None, q) \<and> pe_identity q = i) \<longleftrightarrow>
    (\<exists>rest. nc_in (pe_net p) = AMQPHeader @ rest \<and> i = pe_identity p) \<or>
    (\<exists>rest auth frame ini n rest'. nc_in (pe_net p) = SASLHeader @ rest \<and> sr_Auth (pe_server p) = Some auth \<and>
       ReadFrame rest (c_MaxFrame (pe_connection p)) = Inr (frame, AMQPHeader @ rest') \<and>
       DecodePerformative (f_Body frame) = Inr (ini, n) \<and> p_Descriptor ini = DescriptorSASLInit \<and>
       Authenticate auth ctx (Perf_String ini 0) (Perf_Binary ini 1) = Inr i)"
proof -
  have "greeting p" using assms by (simp add: greeting_def)
  from handshake_iff [OF this, of ctx i] show ?thesis by (simp add: sasl_accepts_def)
qed

text \<open>A client that skips the SASL layer and one that asks for it without an authenticator.\<close>

theorem handshake_exact_witness:
  "(\<exists>q. handshake None (new_peer \<lparr>nc_in = AMQPHeader, nc_out = [], nc_werr = None, nc_remote = ''''\<rparr> sample_conn
       (sample_server\<lparr>sr_Auth := Some \<lparr>a_Username = ''u'', a_Password = ''p'', a_AllowAnonymous = False\<rparr>\<rparr>)) = (None, q) \<and>
     i_Subject (pe_identity q) = '''') \<and>
   \<not> (\<exists>q. handshake None (new_peer \<lparr>nc_in = SASLHeader, nc_out = [], nc_werr = None, nc_remote = ''''\<rparr> sample_conn
       (sample_server\<lparr>sr_Auth := None\<rparr>)) = (None, q))"
proof -
  let ?p = "\<lambda>b a. new_peer \<lparr>nc_in = b, nc_out = [], nc_werr = None, nc_remote = ''''\<rparr> sample_conn (sample_server\<lparr>sr_Auth := a\<rparr>)"
  have p: "nc_werr (pe_net (?p b a)) = None" "c_State (pe_connection (?p b a)) = StateStart"
    "c_MaxFrame (pe_connection (?p b a)) = 0 \<or> 512 \<le> c_MaxFrame (pe_connection (?p b a))" for b a
    by (simp_all add: new_peer_def sample_conn_def New_Connection_def)
  show ?thesis
    using handshake_exact [OF p, of None AMQPHeader] handshake_exact [OF p, of None SASLHeader None]
    by (simp add: new_peer_def AMQPHeader_def SASLHeader_def) (metis Identity.select_convs(1))
qed

section \<open>Flow\<close>

text \<open>The bytes \<open>raw\<close> are the transfer of the delivery \<open>d\<close> on a channel, for frames of at most \<open>mx\<close> bytes.\<close>

definition sent :: "16 word \<Rightarrow> 32 word \<Rightarrow> 32 word \<Rightarrow> 32 word \<times> Message \<Rightarrow> byte list \<Rightarrow> bool" where
  "sent ch mx h d raw = (\<exists>b. EncodePerformative (transfer_perf h (fst d) (snd d)) = Inr b \<and>
     Marshal (wire ch FrameTypeAMQP (b @ EncodeDataSection (m_Body (snd d)))) mx = Inr raw)"

text \<open>What the remote end makes of them.\<close>

definition received :: "16 word \<Rightarrow> 32 word \<Rightarrow> 32 word \<Rightarrow> 32 word \<times> Message \<Rightarrow> byte list \<Rightarrow> bool" where
  "received ch mx h d raw = (\<forall>rest. \<exists>f n. ReadFrame (raw @ rest) mx = Inr (f, rest) \<and> f_Channel f = ch \<and>
     DecodePerformative (f_Body f) = Inr (transfer_perf h (fst d) (snd d), n) \<and>
     DecodeDataSection (drop n (f_Body f)) = Inr (m_Body (snd d)))"

lemma write_sent:
  assumes "peer_write ch FrameTypeAMQP (transfer_perf h did msg) (EncodeDataSection (m_Body msg)) p = (None, q)"
  shows "\<exists>raw. sent ch (c_MaxFrame (pe_connection p)) h (did, msg) raw \<and> q = put_out raw p"
proof -
  have w: "\<lparr>f_Size = 0, f_DataOffset = 2, f_Type = FrameTypeAMQP, f_Channel = ch, f_Body = b\<rparr> = wire ch FrameTypeAMQP b" for b
    by (simp add: wire_def)
  show ?thesis
    using assms by (auto simp: peer_write_def FrameFor_def WriteFrame_def result_iffs sent_def put_out_def w split: sum.splits)
      (simp_all add: wire_def)
qed

lemma encodeBytes_length: "length (encodeBytes a b bs) \<le> 5 + length bs"
  by (simp add: encodeBytes_def)

lemma transfer_encoding:
  assumes "EncodePerformative (transfer_perf h did msg) = Inr b"
  shows "length b \<le> 64 + length (m_ID msg)"
proof -
  have "length (encodeBytes 0xa0 0xb0 (bytes_of_string (m_ID msg))) \<le> 5 + length (m_ID msg)"
    using encodeBytes_length [of "0xa0" "0xb0" "bytes_of_string (m_ID msg)"] by simp
  with assms show ?thesis
    by (auto simp: EncodePerformative_def transfer_perf_def trimNulls_def list_header_def Let_def result_iffs split: if_splits)
qed

lemma transfer_valid: "Validate (transfer_perf h did msg) = None"
  by (simp add: Validate_def transfer_perf_def min_fields_def descriptor_defs Field_def)

lemma transfer_trimmed:
  "trimNulls (p_Fields (transfer_perf h did msg)) = p_Fields (transfer_perf h did msg)"
  "map norm_any (p_Fields (transfer_perf h did msg)) = p_Fields (transfer_perf h did msg)"
  by (simp_all add: transfer_perf_def trimNulls_def)

lemma Marshal_max: "Marshal f mx = Inr raw \<Longrightarrow> mx = 0 \<or> marshal_size f \<le> mx"
  by (cases "mx = 0") (auto simp: Marshal_def Let_def word_gt_0 not_less split: if_splits)

lemma sent_received:
  assumes "sent ch mx h d raw" "length (m_ID (snd d)) + length (m_Body (snd d)) < 2 ^ 31"
  shows "received ch mx h d raw"
proof -
  obtain did msg where d: "d = (did, msg)" by (cases d)
  obtain b where b: "EncodePerformative (transfer_perf h did msg) = Inr b"
    "Marshal (wire ch FrameTypeAMQP (b @ EncodeDataSection (m_Body msg))) mx = Inr raw"
    using assms(1) by (auto simp: sent_def d)
  let ?pay = "EncodeDataSection (m_Body msg)"
  have len: "8 + length (b @ ?pay) < 2 ^ 32"
    using transfer_encoding [OF b(1)] encodeBytes_length [of "0xa0" "0xb0" "m_Body msg"] assms(2)
    by (simp add: d EncodeDataSection_def)
  note f = wire_sized [OF len, of ch FrameTypeAMQP]
  have mx: "mx = 0 \<or> marshal_size (wire ch FrameTypeAMQP (b @ ?pay)) \<le> mx"
    by (rule Marshal_max [OF b(2)])
  then have raw: "raw = frame_bytes (wire ch FrameTypeAMQP (b @ ?pay))"
    using Marshal_frame_bytes [of "wire ch FrameTypeAMQP (b @ ?pay)" mx] f b(2) by auto
  have "mx = 0 \<or> 8 + length (b @ ?pay) \<le> unat mx" using mx f by (auto simp: word_le_nat_alt)
  note R = wire_read [OF len this, of FrameTypeAMQP ch]
  have "DecodePerformative (b @ ?pay) = Inr (transfer_perf h did msg, length b)"
    using encoded_decodes [OF b(1), of ?pay] len transfer_valid [of h did msg] by (simp add: transfer_trimmed)
  moreover have "DecodeDataSection ?pay = Inr (m_Body msg)"
    using assms(2) by (intro DataSection_roundtrip) (simp add: d)
  ultimately show ?thesis
    using R by (fastforce simp: received_def d raw)
qed

abbreviation peer_mem :: "'l peer \<Rightarrow> Memory" where
  "peer_mem p \<equiv> sv_mem (peer_delivery p)"

text \<open>
  \<open>in_stock bl s cid msg\<close>: a message with this identifier waits at the address of the consumer, and its
  body in the log is the body of \<open>msg\<close>.
\<close>

definition in_stock :: "'l BodyLog \<Rightarrow> 'l Service \<Rightarrow> string \<Rightarrow> Message \<Rightarrow> bool" where
  "in_stock bl s cid msg = (\<exists>c first. consumer_view (sv_mem s) cid = Some c \<and>
     message_view (sv_mem s) (m_ID msg) = Some first \<and> is_ready (co_Address c) first \<and>
     bl_Read bl None (m_LogOffset first) (sv_log s) = Inr (m_Body msg))"

lemma Acquire_in_stock:
  assumes "Acquire_op bl rs ctx now cid s = (Inr (msg, did), s')" "mem_wf (sv_mem s)" "valid_ranges rs"
  shows "in_stock bl s cid msg" and "in_stock bl s' cid x \<Longrightarrow> in_stock bl s cid x"
proof -
  from Acquire_success [OF assms(1)] obtain c first rest body m where
    a: "consumer_view (sv_mem s) cid = Some c" "ListReady rs None (co_Address c) 1 (sv_mem s) = Inr (first # rest)"
      "bl_Read bl None (m_LogOffset first) (sv_log s) = Inr body" "msg = (acquired c first)\<lparr>m_Body := body\<rparr>"
      "mem_Update None (acquired c first) (sv_mem s) = Inr m" "SaveConsumer None c m = Inr (sv_mem s')" by blast
  have f: "message_view (sv_mem s) (m_ID first) = Some first" "is_ready (co_Address c) first"
    using ready_offs(1) [OF a(2) assms(2,3)] by auto
  have cid: "co_ID c = cid" using keyed_get [OF mem_wfD(4) [OF assms(2)] a(1)] by simp
  have log: "sv_log s' = sv_log s"
    using Acquire_op_cases [OF assms(1)] acquire_tail_cases by fastforce
  show "in_stock bl s cid msg" using a f by (auto simp: in_stock_def)
  have c: "consumer_view (sv_mem s') cid = Some c" 
  proof -
    have "sv_mem s' = m\<lparr>mm_consumers := put cid c (mm_consumers m)\<rparr>"
      using a(6) cid by (auto simp: SaveConsumer_def guardE_Inr_iff)
    then show ?thesis by (simp add: map_simps)
  qed
  have msgs: "message_view (sv_mem s') k = Some y \<and> is_ready (co_Address c) y \<Longrightarrow> message_view (sv_mem s) k = Some y" for k y
    using a(5) message_view_Save [OF a(6)]
    by (auto simp: mem_Update_def acquired_def is_ready_def map_simps split: if_splits)
  show "in_stock bl s cid x" if "in_stock bl s' cid x"
    using that c a(1) msgs by (fastforce simp: in_stock_def log)
qed

lemma Link_Consume_ID: "Link_Consume l n = Inr l' \<Longrightarrow> l_ID l' = l_ID l"
  by (auto simp: Link_Consume_def Let_def split: if_splits)

text \<open>
  \<open>passed bl cid ch h n p q\<close>: between \<open>p\<close> and \<open>q\<close> the peer wrote at most \<open>n\<close> transfers and nothing else,
  of different messages that waited for the consumer \<open>cid\<close>, none handed out at \<open>p\<close> and all handed out
  at \<open>q\<close>, each with its body from the log.
\<close>

definition passed :: "'l BodyLog \<Rightarrow> string \<Rightarrow> 16 word \<Rightarrow> 32 word \<Rightarrow> nat \<Rightarrow> 'l peer \<Rightarrow> 'l peer \<Rightarrow> (32 word \<times> Message) list \<Rightarrow> byte list list \<Rightarrow> bool" where
  "passed bl cid ch h n p q ds raws = (length ds \<le> n \<and> nc_out (pe_net q) = nc_out (pe_net p) @ concat raws \<and>
     list_all2 (sent ch (c_MaxFrame (pe_connection p)) h) ds raws \<and> distinct (map (m_ID \<circ> snd) ds) \<and>
     (\<forall>d\<in>set ds. \<not> busy (peer_mem p) (m_ID (snd d)) \<and> busy (peer_mem q) (m_ID (snd d)) \<and>
        in_stock bl (peer_delivery p) cid (snd d)) \<and>
     (\<forall>k. busy (peer_mem p) k \<longrightarrow> busy (peer_mem q) k))"

lemma passed_none: "nc_out (pe_net q) = nc_out (pe_net p) \<Longrightarrow> (\<And>k. busy (peer_mem p) k \<Longrightarrow> busy (peer_mem q) k) \<Longrightarrow>
    \<exists>ds raws. passed bl cid ch h n p q ds raws"
  by (intro exI [of _ "[]"]) (simp add: passed_def)

lemma passed_Cons:
  assumes "passed bl cid ch h n p1 q ds raws" "sent ch (c_MaxFrame (pe_connection p)) h (did, msg) raw"
    and "nc_out (pe_net p1) = nc_out (pe_net p) @ raw" "pe_connection p1 = pe_connection p"
    and "\<And>k. busy (peer_mem p) k \<Longrightarrow> busy (peer_mem p1) k"
    and "\<not> busy (peer_mem p) (m_ID msg)" "busy (peer_mem p1) (m_ID msg)"
    and "in_stock bl (peer_delivery p) cid msg"
    and "\<And>x. in_stock bl (peer_delivery p1) cid x \<Longrightarrow> in_stock bl (peer_delivery p) cid x"
  shows "passed bl cid ch h (Suc n) p q ((did, msg) # ds) (raw # raws)"
  using assms by (auto simp: passed_def)

lemma flow_loop_passed:
  assumes "flow_loop bl en ch h l i n p = (r, q)" "mem_wf (peer_mem p)" "\<And>i. valid_ranges (e_ranges en i)"
  shows "\<exists>ds raws. passed bl (l_ID l) ch h n p q ds raws"
  using assms(1,2)
proof (induction n arbitrary: i l p)
  case 0
  then show ?case by (intro passed_none) auto
next
  case (Suc n)
  obtain a d where a: "Acquire_op bl (e_ranges en i) (e_ctx en) (e_clk en i) (l_ID l) (peer_delivery p) = (a, d)" by fastforce
  note B = Acquire_busy [OF a Suc.prems(2) assms(3)]
  have wf: "mem_wf (sv_mem d)" using Acquire_same [OF a assms(3)] Suc.prems(2) by (simp add: same_def)
  have quiet: ?case if "nc_out (pe_net q) = nc_out (pe_net p)" "peer_mem q = sv_mem d"
    using that B(1) by (intro passed_none) auto
  show ?case
  proof (cases a)
    case (Inl e)
    with a Suc.prems(1) have "q = set_delivery d p" by auto
    then show ?thesis by (intro quiet) simp_all
  next
    case (Inr x)
    obtain msg did where x: "a = Inr (msg, did)" using Inr by (cases x) auto
    show ?thesis
    proof (cases "Link_Consume l (word_of_nat (length (m_Body msg)))")
      case (Inl e)
      with a x Suc.prems(1) have "q = set_delivery d p" by (auto simp: Let_def)
      then show ?thesis by (intro quiet) simp_all
    next
      case (Inr l')
      let ?p1 = "set_links (link_Set l' (peer_links p)) (set_delivery d p)"
      obtain w p2 where w: "peer_write ch FrameTypeAMQP (transfer_perf h did msg) (EncodeDataSection (m_Body msg)) ?p1 = (w, p2)"
        by fastforce
      show ?thesis
      proof (cases w)
        case (Some e)
        with w have "p2 = ?p1" by (auto simp: peer_write_def split: sum.splits)
        with a x Inr Suc.prems(1) w Some have "q = ?p1" by (auto simp: Let_def)
        then show ?thesis by (intro quiet) simp_all
      next
        case None
        from write_sent [OF w [unfolded None]] obtain raw where raw: "sent ch (c_MaxFrame (pe_connection ?p1)) h (did, msg) raw"
          "p2 = put_out raw ?p1" by blast
        let ?p3 = "p2\<lparr>pe_deliveryConsumer := put did (l_ID l') (pe_deliveryConsumer p2)\<rparr>"
        have "flow_loop bl en ch h l' (Suc i) n ?p3 = (r, q)"
          using a x Inr Suc.prems(1) w None by (simp add: Let_def)
        moreover have "mem_wf (peer_mem ?p3)" using wf raw(2) by simp
        ultimately obtain ds raws where "passed bl (l_ID l') ch h n ?p3 q ds raws" using Suc.IH by blast
        then have "passed bl (l_ID l) ch h n ?p3 q ds raws" by (simp add: Link_Consume_ID [OF Inr])
        note P = passed_Cons [OF this, of p did msg raw]
        note S = Acquire_in_stock [OF a [unfolded x] Suc.prems(2) assms(3)]
        have "passed bl (l_ID l) ch h (Suc n) p q ((did, msg) # ds) (raw # raws)"
          by (rule P) (use raw B(1) B(2) [OF x] S in auto)
        then show ?thesis by blast
      qed
    qed
  qed
qed

lemma onFlow_cases:
  assumes "onFlow bl en ch perf p = (r, q)"
  obtains (none) "nc_out (pe_net q) = nc_out (pe_net p)" "peer_delivery q = peer_delivery p"
  | (loop) l p' lid l0 where "flow_loop bl en ch (Perf_Uint perf 4) l 0 (unat (Perf_Uint perf 6)) p' = (r, q)"
      "peer_delivery p' = peer_delivery p" "pe_net p' = pe_net p" "pe_connection p' = pe_connection p"
      "get (pe_linkIDs p) (link_slot ch (Perf_Uint perf 4)) = Some lid" "link_Get (peer_links p) lid = Some l0" "l_ID l0 = l_ID l"
proof -
  show ?thesis
    using assms by (auto simp: onFlow_def Let_def failE_def Link_Grant_def intro: that split: option.splits if_splits)
qed

lemma onFlow_passed:
  assumes "onFlow bl en ch perf p = (r, q)" "mem_wf (peer_mem p)" "\<And>i. valid_ranges (e_ranges en i)"
  shows "\<exists>cid ds raws. passed bl cid ch (Perf_Uint perf 4) (unat (Perf_Uint perf 6)) p q ds raws \<and>
    (ds \<noteq> [] \<longrightarrow> (\<exists>lid l. get (pe_linkIDs p) (link_slot ch (Perf_Uint perf 4)) = Some lid \<and>
       link_Get (peer_links p) lid = Some l \<and> l_ID l = cid))"
    (is "\<exists>cid ds raws. ?P cid ds raws \<and> ?Q cid ds")
proof -
  have none: ?thesis if "nc_out (pe_net q) = nc_out (pe_net p)" "peer_delivery q = peer_delivery p"
    using that by (intro exI [of _ "[]"]) (simp add: passed_def)
  have loop: ?thesis if run: "flow_loop bl en ch (Perf_Uint perf 4) l 0 (unat (Perf_Uint perf 6)) p' = (r, q)"
    and same: "peer_delivery p' = peer_delivery p" "pe_net p' = pe_net p" "pe_connection p' = pe_connection p"
    and link: "get (pe_linkIDs p) (link_slot ch (Perf_Uint perf 4)) = Some lid" "link_Get (peer_links p) lid = Some l0" "l_ID l0 = l_ID l"
    for l p' lid l0
  proof -
    have "mem_wf (peer_mem p')" using assms(2) same by simp
    from flow_loop_passed [OF run this assms(3)] obtain ds raws where "?P (l_ID l) ds raws"
      using same by (auto simp: passed_def)
    with link show ?thesis by blast
  qed
  from assms(1) show ?thesis by (rule onFlow_cases) (rule none loop; assumption)+
qed

text \<open>
  C18: a flow is answered with transfers and nothing else. Whatever the flow says, and whether its
  handler succeeds, what it writes is at most as many transfers as the flow grants credit, of
  different messages. Each of these messages was waiting at the address of the link's consumer when
  the flow arrived and is handed out afterwards; the body it is sent with is the one the log holds at
  the place of the stored message; and the remote end reads each transfer back, with the handle, the
  delivery, the identifier and that body, if identifier and body have less than 2 GiB. (The maps of
  the store are keyed by identifier.)
\<close>

theorem flow_transfers:
  assumes "onFlow bl en ch perf p = (r, q)" "mem_wf (peer_mem p)" "\<And>i. valid_ranges (e_ranges en i)"
  shows "\<exists>ds raws. length ds \<le> unat (Perf_Uint perf 6) \<and> nc_out (pe_net q) = nc_out (pe_net p) @ concat raws \<and>
    list_all2 (\<lambda>d raw. length (m_ID (snd d)) + length (m_Body (snd d)) < 2 ^ 31 \<longrightarrow>
      received ch (c_MaxFrame (pe_connection p)) (Perf_Uint perf 4) d raw) ds raws \<and>
    distinct (map (m_ID \<circ> snd) ds) \<and>
    (\<forall>(did, msg)\<in>set ds. busy (peer_mem q) (m_ID msg) \<and>
       (\<exists>lid l c first. get (pe_linkIDs p) (link_slot ch (Perf_Uint perf 4)) = Some lid \<and> link_Get (peer_links p) lid = Some l \<and>
          consumer_view (peer_mem p) (l_ID l) = Some c \<and> message_view (peer_mem p) (m_ID msg) = Some first \<and>
          is_ready (co_Address c) first \<and> bl_Read bl None (m_LogOffset first) (sv_log (peer_delivery p)) = Inr (m_Body msg)))"
proof -
  obtain cid ds raws where P: "passed bl cid ch (Perf_Uint perf 4) (unat (Perf_Uint perf 6)) p q ds raws"
    "ds \<noteq> [] \<Longrightarrow> \<exists>lid l. get (pe_linkIDs p) (link_slot ch (Perf_Uint perf 4)) = Some lid \<and>
       link_Get (peer_links p) lid = Some l \<and> l_ID l = cid"
    using onFlow_passed [OF assms] by blast
  have "list_all2 (\<lambda>d raw. length (m_ID (snd d)) + length (m_Body (snd d)) < 2 ^ 31 \<longrightarrow>
      received ch (c_MaxFrame (pe_connection p)) (Perf_Uint perf 4) d raw) ds raws"
    using P(1) by (auto simp: passed_def intro: sent_received elim!: list_all2_mono)
  moreover have "busy (peer_mem q) (m_ID msg) \<and>
       (\<exists>lid l c first. get (pe_linkIDs p) (link_slot ch (Perf_Uint perf 4)) = Some lid \<and> link_Get (peer_links p) lid = Some l \<and>
          consumer_view (peer_mem p) (l_ID l) = Some c \<and> message_view (peer_mem p) (m_ID msg) = Some first \<and>
          is_ready (co_Address c) first \<and> bl_Read bl None (m_LogOffset first) (sv_log (peer_delivery p)) = Inr (m_Body msg))"
    if d: "(did, msg) \<in> set ds" for did msg
  proof -
    have "busy (peer_mem q) (m_ID msg)" "in_stock bl (peer_delivery p) cid msg"
      using P(1) d by (auto simp: passed_def)
    moreover have "ds \<noteq> []" using d by auto
    ultimately show ?thesis using P(2) by (auto simp: in_stock_def)
  qed
  ultimately show ?thesis
    using P(1) by (intro exI [of _ ds] exI [of _ raws]) (auto simp: passed_def)
qed

text \<open>The messages waiting at an address, and a consumer that can have them all.\<close>

definition waiting :: "Memory \<Rightarrow> string \<Rightarrow> string set" where
  "waiting m a = {k. \<exists>msg. message_view m k = Some msg \<and> is_ready a msg}"

lemma finite_waiting: "finite (waiting m a)"
proof (rule finite_subset)
  show "waiting m a \<subseteq> fst ` set (mm_messages m)"
    by (auto simp: waiting_def dest: map_of_SomeD intro: rev_image_eqI)
qed simp

definition stocked :: "'l BodyLog \<Rightarrow> env \<Rightarrow> nat \<Rightarrow> string \<Rightarrow> Consumer \<Rightarrow> 'l Service \<Rightarrow> bool" where
  "stocked bl en bound cid c s = (e_ctx en = None \<and> mem_wf (sv_mem s) \<and> consumer_view (sv_mem s) cid = Some c \<and>
     co_Credit c \<noteq> 0 \<and> co_Connected c \<and> co_Unsettled c = [] \<and>
     (\<forall>msg. message_view (sv_mem s) (m_ID msg) = Some msg \<and> is_ready (co_Address c) msg \<longrightarrow>
        (\<forall>i. \<not> Message_Expired msg (e_clk en i)) \<and>
        (\<exists>body. bl_Read bl None (m_LogOffset msg) (sv_log s) = Inr body \<and> length (m_ID msg) + length body \<le> bound)))"

lemma stocked_size:
  assumes "stocked bl en bound cid c s" "in_stock bl s cid msg"
  shows "length (m_ID msg) + length (m_Body msg) \<le> bound"
proof -
  obtain first where f: "message_view (sv_mem s) (m_ID msg) = Some first" "is_ready (co_Address c) first"
    "bl_Read bl None (m_LogOffset first) (sv_log s) = Inr (m_Body msg)"
    using assms by (auto simp: stocked_def in_stock_def)
  moreover have "mem_wf (sv_mem s)" using assms(1) by (simp add: stocked_def)
  from keyed_get [OF mem_wfD(3) [OF this] f(1)] have "m_ID first = m_ID msg" by simp
  ultimately have "message_view (sv_mem s) (m_ID first) = Some first \<and> is_ready (co_Address c) first" by simp
  with assms(1) obtain body where "bl_Read bl None (m_LogOffset first) (sv_log s) = Inr body" "length (m_ID first) + length body \<le> bound"
    unfolding stocked_def by blast
  with f(3) \<open>m_ID first = m_ID msg\<close> show ?thesis by simp
qed

lemma ListReady_waiting:
  assumes "mem_wf m" "valid_ranges rs"
  shows "waiting m a = {} \<Longrightarrow> ListReady rs None a 1 m = Inr []"
    and "waiting m a \<noteq> {} \<Longrightarrow> \<exists>first rest. ListReady rs None a 1 m = Inr (first # rest)"
proof -
  obtain all where all: "ListReady rs None a 0 m = Inr all" by (simp add: ListReady_def)
  then have one: "ListReady rs None a 1 m = Inr (take 1 all)" by (simp add: ListReady_eq limit_to_take)
  have "waiting m a = m_ID ` set all"
    using ListReady_all(3) [OF assms all] keyed_get [OF mem_wfD(3) [OF assms(1)]] by (force simp: waiting_def)
  then show "waiting m a = {} \<Longrightarrow> ListReady rs None a 1 m = Inr []"
    "waiting m a \<noteq> {} \<Longrightarrow> \<exists>first rest. ListReady rs None a 1 m = Inr (first # rest)"
    by (auto simp: one) (cases all; simp)
qed

lemma acquire_stocked:
  assumes "stocked bl en bound cid c s" "valid_ranges rs"
  shows "waiting (sv_mem s) (co_Address c) = {} \<Longrightarrow>
      Acquire_op bl rs None now cid s = (Inl (New ''no message available''), s)"
    and "waiting (sv_mem s) (co_Address c) \<noteq> {} \<Longrightarrow> \<exists>msg did s'.
      Acquire_op bl rs None (e_clk en i) cid s = (Inr (msg, did), s') \<and> stocked bl en bound cid c s' \<and>
      m_ID msg \<in> waiting (sv_mem s) (co_Address c) \<and>
      waiting (sv_mem s') (co_Address c) = waiting (sv_mem s) (co_Address c) - {m_ID msg} \<and>
      length (m_ID msg) + length (m_Body msg) \<le> bound"
proof -
  let ?a = "co_Address c" and ?m = "sv_mem s"
  have c: "mem_wf ?m" "consumer_view ?m cid = Some c" "co_Credit c \<noteq> 0" "co_Connected c" "co_Unsettled c = []"
    using assms(1) by (auto simp: stocked_def)
  have get: "GetConsumer None cid ?m = Inr c" using c(2) by (simp add: consumers.fetch_Inr)
  show "Acquire_op bl rs None now cid s = (Inl (New ''no message available''), s)" if "waiting ?m ?a = {}"
    using ListReady_waiting(1) [OF c(1) assms(2) that] c get by (simp add: Acquire_op_def)
  assume "waiting ?m ?a \<noteq> {}"
  from ListReady_waiting(2) [OF c(1) assms(2) this] obtain x rest where x: "ListReady rs None ?a 1 ?m = Inr (x # rest)" by blast
  have r: "message_view ?m (m_ID x) = Some x" "is_ready ?a x" using ready_offs(1) [OF x c(1) assms(2)] by auto
  obtain body where body: "bl_Read bl None (m_LogOffset x) (sv_log s) = Inr body" "length (m_ID x) + length body \<le> bound"
    "\<not> Message_Expired x (e_clk en i)" using assms(1) r by (auto simp: stocked_def)
  have cid: "co_ID c = cid" using keyed_get [OF mem_wfD(4) [OF c(1)] c(2)] by simp
  let ?x = "acquired c x"
  let ?s' = "s\<lparr>sv_seq := sv_seq s + 1, sv_mem := ?m\<lparr>mm_messages := put (m_ID x) ?x (mm_messages ?m),
      mm_consumers := put cid c (mm_consumers ?m)\<rparr>\<rparr>"
  have a: "Acquire_op bl rs None (e_clk en i) cid s = (Inr (?x\<lparr>m_Body := body\<rparr>, sv_seq s + 1), ?s')"
    using Acquire_op_live [OF get c(3) x body(3)] c r body(1) cid
    by (simp add: Consumer_Acquire_def acquire_tail_def mem_Update_def SaveConsumer_def)
  have ready: "message_view (sv_mem ?s') k = Some y \<and> is_ready ?a y \<longleftrightarrow> k \<noteq> m_ID x \<and> message_view ?m k = Some y \<and> is_ready ?a y" for k y
    by (auto simp: map_simps acquired_def is_ready_def)
  have "mem_wf (sv_mem ?s')" using Acquire_same [OF a assms(2)] c(1) by (simp add: same_def)
  moreover have "consumer_view (sv_mem ?s') cid = Some c" by (simp add: map_simps)
  moreover have "sv_log ?s' = sv_log s" by simp
  ultimately have "stocked bl en bound cid c ?s'"
    using assms(1) c unfolding stocked_def ready by auto
  moreover have "waiting (sv_mem ?s') ?a = waiting ?m ?a - {m_ID x}" unfolding waiting_def ready by blast
  moreover have "m_ID x \<in> waiting ?m ?a" using r by (auto simp: waiting_def)
  ultimately show "\<exists>msg did s'. Acquire_op bl rs None (e_clk en i) cid s = (Inr (msg, did), s') \<and> stocked bl en bound cid c s' \<and>
      m_ID msg \<in> waiting ?m ?a \<and> waiting (sv_mem s') ?a = waiting ?m ?a - {m_ID msg} \<and>
      length (m_ID msg) + length (m_Body msg) \<le> bound"
    using a body(2) by (intro exI [of _ "?x\<lparr>m_Body := body\<rparr>"] exI [of _ "sv_seq s + 1"] exI [of _ ?s']) simp
qed

lemma fits_le: "fits p n \<Longrightarrow> m \<le> n \<Longrightarrow> fits p m"
  by (auto simp: fits_def)

lemma transfer_encodes:
  assumes "length (m_ID msg) + length (m_Body msg) < 2 ^ 31"
  shows "\<exists>b. EncodePerformative (transfer_perf h did msg) = Inr b"
  using transfer_valid [of h did msg]
  by (simp add: EncodePerformative_def) (simp add: transfer_perf_def trimNulls_def list_header_def Let_def)

lemma transfer_write:
  assumes "length (m_ID msg) + length (m_Body msg) \<le> bound" "bound < 2 ^ 31" "fits p (72 + bound)"
  shows "\<exists>raw. peer_write ch FrameTypeAMQP (transfer_perf h did msg) (EncodeDataSection (m_Body msg)) p = (None, put_out raw p) \<and>
    sent ch (c_MaxFrame (pe_connection p)) h (did, msg) raw"
proof -
  obtain b where b: "EncodePerformative (transfer_perf h did msg) = Inr b"
    using transfer_encodes [of msg] assms(1,2) by fastforce
  have "fits p (length b + length (EncodeDataSection (m_Body msg)))"
    using transfer_encoding [OF b] encodeBytes_length [of "0xa0" "0xb0" "m_Body msg"] assms(1)
    by (intro fits_le [OF assms(3)]) (simp add: EncodeDataSection_def)
  from peer_write_ok [OF b this] obtain q where
    q: "peer_write ch FrameTypeAMQP (transfer_perf h did msg) (EncodeDataSection (m_Body msg)) p = (None, q)" by blast
  from write_sent [OF this] q show ?thesis by auto
qed

lemma Link_Consume_ok:
  assumes "l_State l = StateAttached" "l_Role l = RoleSender" "Suc n \<le> unat (l_Credit l)" "k \<le> unat (l_MaxMessageSize l)"
  shows "\<exists>l'. Link_Consume l (word_of_nat k) = Inr l' \<and> l_ID l' = l_ID l \<and> l_State l' = StateAttached \<and>
    l_Role l' = RoleSender \<and> n \<le> unat (l_Credit l') \<and> l_MaxMessageSize l' = l_MaxMessageSize l"
proof -
  have "k < 2 ^ 64" using assms(4) unsigned_less [of "l_MaxMessageSize l", where ?'a = nat] by simp
  then have "\<not> l_MaxMessageSize l < word_of_nat k" using assms(4) by (simp add: word_less_nat_alt unat_of_nat)
  moreover have "l_Credit l \<noteq> 0" using assms(3) by auto
  moreover from this have "unat (l_Credit l - 1) = unat (l_Credit l) - 1" by (rule unat_pred)
  ultimately show ?thesis using assms by (simp add: Link_Consume_def Let_def)
qed

lemma flow_loop_drains:
  assumes "stocked bl en bound (l_ID l) c (peer_delivery p)" "\<And>i. valid_ranges (e_ranges en i)"
    and "l_State l = StateAttached" "l_Role l = RoleSender" "n \<le> unat (l_Credit l)" "bound \<le> unat (l_MaxMessageSize l)"
    and "fits p (72 + bound)" "bound < 2 ^ 31"
  shows "\<exists>q ds raws. flow_loop bl en ch h l i n p = (None, q) \<and> passed bl (l_ID l) ch h n p q ds raws \<and>
    length ds = min n (card (waiting (peer_mem p) (co_Address c)))"
  using assms(1,3-7)
proof (induction n arbitrary: i l p)
  case 0
  then show ?case using passed_none [of p p bl "l_ID l" ch h 0] by (auto simp: passed_def)
next
  case (Suc n)
  let ?w = "waiting (peer_mem p) (co_Address c)"
  have ctx: "e_ctx en = None" and wf: "mem_wf (peer_mem p)" using Suc.prems(1) by (auto simp: stocked_def)
  note A = acquire_stocked [OF Suc.prems(1) assms(2) [of i]]
  show ?case
  proof (cases "?w = {}")
    case True
    have "flow_loop bl en ch h l i (Suc n) p = (None, set_delivery (peer_delivery p) p)"
      using A(1) [OF True, of "e_clk en i"] by (simp add: ctx)
    moreover have "passed bl (l_ID l) ch h (Suc n) p (set_delivery (peer_delivery p) p) [] []" by (simp add: passed_def)
    ultimately show ?thesis using True by (intro exI [of _ "set_delivery (peer_delivery p) p"] exI [of _ "[]"]) simp
  next
    case False
    then obtain msg did d where a: "Acquire_op bl (e_ranges en i) None (e_clk en i) (l_ID l) (peer_delivery p) = (Inr (msg, did), d)"
      "stocked bl en bound (l_ID l) c d" "m_ID msg \<in> ?w" "waiting (sv_mem d) (co_Address c) = ?w - {m_ID msg}"
      "length (m_ID msg) + length (m_Body msg) \<le> bound" using A(2) [of i] by blast
    have "length (m_Body msg) \<le> unat (l_MaxMessageSize l)" using a(5) Suc.prems(5) by simp
    from Link_Consume_ok [OF Suc.prems(2-4) this] obtain l' where
      l': "Link_Consume l (word_of_nat (length (m_Body msg))) = Inr l'" "l_ID l' = l_ID l" "l_State l' = StateAttached"
        "l_Role l' = RoleSender" "n \<le> unat (l_Credit l')" "l_MaxMessageSize l' = l_MaxMessageSize l" by blast
    let ?p1 = "set_links (link_Set l' (peer_links p)) (set_delivery d p)"
    have "fits ?p1 (72 + bound)" using Suc.prems(6) by (simp add: fits_def)
    from transfer_write [OF a(5) assms(8) this] obtain raw where
      w: "peer_write ch FrameTypeAMQP (transfer_perf h did msg) (EncodeDataSection (m_Body msg)) ?p1 = (None, put_out raw ?p1)"
        "sent ch (c_MaxFrame (pe_connection ?p1)) h (did, msg) raw" by blast
    let ?p2 = "put_out raw ?p1\<lparr>pe_deliveryConsumer := put did (l_ID l') (pe_deliveryConsumer (put_out raw ?p1))\<rparr>"
    have step: "flow_loop bl en ch h l i (Suc n) p = flow_loop bl en ch h l' (Suc i) n ?p2"
      using a(1) l'(1) w(1) by (simp add: ctx Let_def)
    have "stocked bl en bound (l_ID l') c (peer_delivery ?p2)" "fits ?p2 (72 + bound)" "bound \<le> unat (l_MaxMessageSize l')"
      using a(2) l' Suc.prems(5,6) by (simp_all add: fits_def put_out_def)
    with Suc.IH [of l' ?p2 "Suc i"] l' obtain q ds raws where
      q: "flow_loop bl en ch h l' (Suc i) n ?p2 = (None, q)" "passed bl (l_ID l) ch h n ?p2 q ds raws"
        "length ds = min n (card (waiting (peer_mem ?p2) (co_Address c)))" by auto
    note B = Acquire_busy [OF a(1) wf assms(2)] and S = Acquire_in_stock [OF a(1) wf assms(2)]
    have "passed bl (l_ID l) ch h (Suc n) p q ((did, msg) # ds) (raw # raws)"
      by (rule passed_Cons [OF q(2)]) (use w(2) B(1) B(2) [OF refl] S in simp_all)
    moreover have "card ?w = Suc (card (?w - {m_ID msg}))"
      using finite_waiting a(3) by (rule card.remove)
    then have "card ?w = Suc (card (waiting (peer_mem ?p2) (co_Address c)))"
      using a(4) by simp
    ultimately show ?thesis using step q by (intro exI [of _ q] exI [of _ "(did, msg) # ds"] exI [of _ "raw # raws"]) simp
  qed
qed

lemma onFlow_drains:
  assumes "get (pe_sessionIDs p) ch = Some sid" "session_Get (peer_sessions p) sid = Some s"
    and "get (pe_linkIDs p) (link_slot ch (Perf_Uint perf 4)) = Some lid" "link_Get (peer_links p) lid = Some l" "l_ID l = lid"
    and "l_State l = StateAttached" "l_Role l = RoleSender" "bound \<le> unat (l_MaxMessageSize l)"
    and "stocked bl en bound lid c (peer_delivery p)" "\<And>i. valid_ranges (e_ranges en i)"
    and "fits p (72 + bound)" "bound < 2 ^ 31" "mem_Depth None (co_Address c) (peer_mem p) = Inr depth"
  shows "\<exists>q ds raws. onFlow bl en ch perf p = (None, q) \<and> length ds = min (unat (Perf_Uint perf 6)) depth \<and>
    passed bl lid ch (Perf_Uint perf 4) (unat (Perf_Uint perf 6)) p q ds raws"
proof -
  let ?l = "Link_Grant l (Perf_Uint perf 6)"
  let ?p = "set_links (link_Set ?l (peer_links p)) (set_sessions
      (session_Set (Session_Flow s (Perf_Uint perf 1) (Perf_Uint perf 3)) (peer_sessions p)) p)"
  have l: "l_ID ?l = lid" "l_State ?l = StateAttached" "l_Role ?l = RoleSender" "l_Credit ?l = Perf_Uint perf 6"
    "l_MaxMessageSize ?l = l_MaxMessageSize l" using assms(5-7) by (simp_all add: Link_Grant_def)
  have "onFlow bl en ch perf p = flow_loop bl en ch (Perf_Uint perf 4) ?l 0 (unat (Perf_Uint perf 6)) ?p"
    using assms(1-4) l by (simp add: onFlow_def Let_def)
  moreover have "fits ?p (72 + bound)" using assms(11) by (simp add: fits_def)
  moreover have "mem_wf (peer_mem p)" using assms(9) by (simp add: stocked_def)
  then have "depth = card (waiting (peer_mem p) (co_Address c))"
    using mem_Depth_card [OF mem_wfD(3)] assms(13) by (simp add: waiting_def)
  ultimately show ?thesis
    using flow_loop_drains [of bl en bound ?l c ?p "unat (Perf_Uint perf 6)" ch "Perf_Uint perf 4" 0] l assms(8-10,12)
    by (auto simp: passed_def)
qed

text \<open>
  C19: a flow drains the queue. On a sending link whose consumer is connected and has credit, when no
  waiting message has expired and every body can be read and fits a frame, a flow that grants
  \<open>n\<close> credit succeeds and delivers exactly \<open>n\<close> messages, or all that are waiting if there are fewer.
\<close>

theorem flow_drains:
  assumes "get (pe_sessionIDs p) ch = Some sid" "session_Get (peer_sessions p) sid = Some s"
    and "get (pe_linkIDs p) (link_slot ch (Perf_Uint perf 4)) = Some lid" "link_Get (peer_links p) lid = Some l" "l_ID l = lid"
    and "l_State l = StateAttached" "l_Role l = RoleSender" "bound \<le> unat (l_MaxMessageSize l)"
    and "stocked bl en bound lid c (peer_delivery p)" "\<And>i. valid_ranges (e_ranges en i)"
    and "fits p (72 + bound)" "bound < 2 ^ 31" "mem_Depth None (co_Address c) (peer_mem p) = Inr depth"
  shows "\<exists>q ds raws. onFlow bl en ch perf p = (None, q) \<and> length ds = min (unat (Perf_Uint perf 6)) depth \<and>
    nc_out (pe_net q) = nc_out (pe_net p) @ concat raws \<and> distinct (map (m_ID \<circ> snd) ds) \<and>
    list_all2 (sent ch (c_MaxFrame (pe_connection p)) (Perf_Uint perf 4)) ds raws"
  using onFlow_drains [OF assms] by (auto simp: passed_def)

section \<open>Transfer\<close>

lemma accepted_encodes: "\<exists>b. EncodePerformative (accepted_reply did) = Inr b \<and> length b < 64"
  by (simp add: accepted_reply_def EncodePerformative_def Validate_def min_fields_def descriptor_defs trimNulls_def list_header_def Field_def)

lemma Link_Consume_receiver:
  assumes "l_State l = StateAttached" "l_Role l = RoleReceiver" "k \<le> unat (l_MaxMessageSize l)"
  shows "\<exists>l'. Link_Consume l (word_of_nat k) = Inr l' \<and> l_Address l' = l_Address l"
proof -
  have "k < 2 ^ 64" using assms(3) unsigned_less [of "l_MaxMessageSize l", where ?'a = nat] by simp
  then have "\<not> l_MaxMessageSize l < word_of_nat k" using assms(3) by (simp add: word_less_nat_alt unat_of_nat)
  then show ?thesis using assms by (simp add: Link_Consume_def Let_def)
qed

text \<open>What such a transfer does to the server, before the answer.\<close>

lemma transfer_accepted:
  fixes p :: "FileLog peer"
  assumes "get (pe_sessionIDs p) ch = Some sid" "session_Get (peer_sessions p) sid = Some s" "s_IncomingWindow s \<noteq> 0"
    and "get (pe_linkIDs p) (link_slot ch (Perf_Uint perf 0)) = Some lid" "link_Get (peer_links p) lid = Some l"
    and "l_State l = StateAttached" "l_Role l = RoleReceiver" "length body \<le> unat (l_MaxMessageSize l)"
    and "DecodeDataSection payload = Inr body" "body \<noteq> []" "length body \<le> 67108864"
    and "e_ctx en = None" "valid_ranges (e_ranges en 0)" "topology_ok (peer_mem p)" "fl_inv (sv_log (peer_delivery p))"
    and "address_view (peer_mem p) (l_Address l) = Some a" "\<not> ad_Paused a"
    and "Resolve (e_ranges en 0) None (l_Address l) '''' [] (peer_mem p) = Inr routes" "routes \<noteq> []"
    and "fresh_ids (e_rnds en) 0 (length routes) (peer_mem p)"
  shows "\<exists>s' l' d (nw :: Message list). ConsumeIncoming s = Inr s' \<and>
    onTransfer file_log_ops en ch perf payload p =
      (let p' = set_delivery d (set_links (link_Set l' (peer_links p)) (set_sessions (session_Set s' (peer_sessions p)) p)) in
       if \<not> Perf_Bool perf 4 then peer_write ch FrameTypeAMQP (accepted_reply (Perf_Uint perf 1)) [] p' else (None, p')) \<and>
    copies_stored routes body (peer_delivery p) d nw"
proof -
  obtain l' where l': "Link_Consume l (word_of_nat (length body)) = Inr l'" "l_Address l' = l_Address l"
    using Link_Consume_receiver [OF assms(6-8)] by blast
  let ?inp = "transfer_publish l' body (Perf_Bool perf 4)"
  have "\<exists>nw d. Publish_op file_log_ops (e_ranges en 0) None (e_clk en) (e_rnds en) ?inp (peer_delivery p) = ((None, nw), d) \<and>
      copies_stored routes (p_Body ?inp) (peer_delivery p) d nw"
    by (rule published_file [OF assms(14,15,13) _ assms(17)])
      (use assms(10,11,16,18-20) in \<open>simp_all add: transfer_publish_def l'(2) good_input_def\<close>)
  then obtain nw d where d: "Publish_op file_log_ops (e_ranges en 0) None (e_clk en) (e_rnds en) ?inp (peer_delivery p) = ((None, nw), d)"
    "copies_stored routes body (peer_delivery p) d nw"
    by (auto simp: transfer_publish_def)
  obtain s' where s': "ConsumeIncoming s = Inr s'" using assms(3) by (simp add: ConsumeIncoming_def Let_def)
  let ?p = "set_delivery d (set_links (link_Set l' (peer_links p)) (set_sessions (session_Set s' (peer_sessions p)) p))"
  have "onTransfer file_log_ops en ch perf payload p =
      (if \<not> Perf_Bool perf 4 then peer_write ch FrameTypeAMQP (accepted_reply (Perf_Uint perf 1)) [] ?p else (None, ?p))"
    using assms(1,2,4,5,7,9) s' l'(1) d(1) by (simp add: onTransfer_def Let_def assms(12))
  with s' d(2) show ?thesis unfolding Let_def by blast
qed

text \<open>
  C17: a transfer is stored and acknowledged. On an attached receiving link of a session with room, a
  transfer whose body the file log takes and whose address exists, is not paused and has routes is
  accepted: one message per route is stored, under identifiers that differ from each other and are new
  to the store, each with a place in the log where the body of the transfer is read back, and with the
  destination of its route as its address (unless a length limit has evicted it already), and no other
  message is; and the peer answers with an accepting disposition exactly when the sender has not settled the transfer. (The
  store and the log are in good order, and the random source yields new identifiers.)
\<close>

theorem transfer_stores:
  fixes p :: "FileLog peer"
  assumes "get (pe_sessionIDs p) ch = Some sid" "session_Get (peer_sessions p) sid = Some s" "s_IncomingWindow s \<noteq> 0"
    and "get (pe_linkIDs p) (link_slot ch (Perf_Uint perf 0)) = Some lid" "link_Get (peer_links p) lid = Some l"
    and "l_State l = StateAttached" "l_Role l = RoleReceiver" "length body \<le> unat (l_MaxMessageSize l)"
    and "DecodeDataSection payload = Inr body" "body \<noteq> []" "length body \<le> 67108864" "fits p 64"
    and "e_ctx en = None" "valid_ranges (e_ranges en 0)" "topology_ok (peer_mem p)" "fl_inv (sv_log (peer_delivery p))"
    and "address_view (peer_mem p) (l_Address l) = Some a" "\<not> ad_Paused a"
    and "Resolve (e_ranges en 0) None (l_Address l) '''' [] (peer_mem p) = Inr routes" "routes \<noteq> []"
    and "fresh_ids (e_rnds en) 0 (length routes) (peer_mem p)"
  shows "\<exists>q (nw :: Message list) ack. onTransfer file_log_ops en ch perf payload p = (None, q) \<and>
    map m_Address nw = map rt_Destination routes \<and> distinct (map m_ID nw) \<and>
    (\<forall>msg\<in>set nw. mem_message None (m_ID msg) (peer_mem p) = Inl ErrMessageNotFound \<and>
       fl_Read None (m_LogOffset msg) (sv_log (peer_delivery q)) = Inr body \<and>
       (\<exists>msg'. mem_message None (m_ID msg) (peer_mem q) = Inr msg' \<and> m_LogOffset msg' = m_LogOffset msg \<and>
          (msg' = msg \<or> get (m_Headers msg') ''x-death-reason'' = Some ''max-length''))) \<and>
    (\<forall>k. message_view (peer_mem q) k \<noteq> None \<longrightarrow> k \<in> m_ID ` set nw \<or> message_view (peer_mem p) k \<noteq> None) \<and>
    EncodePerformative (accepted_reply (Perf_Uint perf 1)) = Inr ack \<and>
    nc_out (pe_net q) = nc_out (pe_net p) @ (if Perf_Bool perf 4 then [] else frame_bytes (wire ch FrameTypeAMQP ack))"
proof -
  obtain s' l' d nw where r: "onTransfer file_log_ops en ch perf payload p =
      (let p' = set_delivery d (set_links (link_Set l' (peer_links p)) (set_sessions (session_Set s' (peer_sessions p)) p)) in
       if \<not> Perf_Bool perf 4 then peer_write ch FrameTypeAMQP (accepted_reply (Perf_Uint perf 1)) [] p' else (None, p'))"
    "copies_stored routes body (peer_delivery p) d nw"
    using transfer_accepted [OF assms(1-11,13-21)] by blast
  obtain ack where ack: "EncodePerformative (accepted_reply (Perf_Uint perf 1)) = Inr ack" "length ack < 64"
    using accepted_encodes by blast
  let ?p = "set_delivery d (set_links (link_Set l' (peer_links p)) (set_sessions (session_Set s' (peer_sessions p)) p))"
  have "fits ?p (length ack + length ([] :: byte list))" using fits_le [OF assms(12), of "length ack"] ack(2) by (simp add: fits_def)
  note w = peer_write_ok [OF ack(1) this, of FrameTypeAMQP ch]
  obtain q where q: "onTransfer file_log_ops en ch perf payload p = (None, q)" "peer_delivery q = d"
      "nc_out (pe_net q) = nc_out (pe_net p) @ (if Perf_Bool perf 4 then [] else frame_bytes (wire ch FrameTypeAMQP ack))"
    using r(1) w by (cases "Perf_Bool perf 4") (auto simp: Let_def)
  show ?thesis
    by (rule exI [of _ q], rule exI [of _ nw], rule exI [of _ ack])
      (use copies_stored_report [OF r(2)] ack(1) q in simp)
qed

section \<open>Witnesses\<close>

text \<open>A peer with an attached link: to the consumer of a stocked queue, or from a publisher to a queue.\<close>

definition sample_linked :: "Link \<Rightarrow> 'l Service \<Rightarrow> 'l peer" where
  "sample_linked l d =
    (let s = (New_Session ''ssn_9'' ''conn_1'' 1 1 1)\<lparr>s_State := StateMapped, s_Links := [(3, l_ID l)]\<rparr>;
         c = sample_conn\<lparr>c_State := StateOpen, c_Sessions := [(1, ''ssn_9'')]\<rparr> in
     (new_peer sample_socket c \<lparr>sr_MaxFrame = 0, sr_IdleTimeout = 0, sr_Auth = None,
        sr_Connections = \<lparr>cr_max = 10, cr_items = [(''conn_1'', c)]\<rparr>,
        sr_Sessions = \<lparr>sr_items = [(''ssn_9'', s)], sr_channels = [(s_key s, ''ssn_9'')]\<rparr>,
        sr_Links = \<lparr>lr_items = [(l_ID l, l)], lr_handles = [(l_key l, l_ID l)]\<rparr>, sr_Delivery = d\<rparr>)
      \<lparr>pe_sessionIDs := [(1, ''ssn_9'')], pe_linkIDs := [(link_slot 1 3, l_ID l)]\<rparr>)"

lemma sample_linked_fields:
  "get (pe_sessionIDs (sample_linked l d)) 1 = Some ''ssn_9''"
  "\<exists>s. session_Get (peer_sessions (sample_linked l d)) ''ssn_9'' = Some s \<and> s_IncomingWindow s \<noteq> 0"
  "get (pe_linkIDs (sample_linked l d)) (link_slot 1 3) = Some (l_ID l)"
  "link_Get (peer_links (sample_linked l d)) (l_ID l) = Some l"
  "peer_delivery (sample_linked l d) = d" "fits (sample_linked l d) n \<longleftrightarrow> 8 + n < 2 ^ 32"
  "c_MaxFrame (pe_connection (sample_linked l d)) = 0" "nc_out (pe_net (sample_linked l d)) = []"
  by (simp_all add: sample_linked_def Let_def new_peer_def session_Get_def link_Get_def New_Session_def fits_def sample_socket_def
      sample_conn_def New_Connection_def)

definition sample_clock :: env where
  "sample_clock = sample_env\<lparr>e_clk := \<lambda>i. 10, e_rnds := zero_ids, e_ctx := None, e_ranges := \<lambda>i. id_ranges\<rparr>"

definition flow_perf :: Performative where
  "flow_perf = \<lparr>p_Descriptor = DescriptorFlow,
     p_Fields = [VUint32 0, VUint32 9, VUint32 0, VUint32 9, VUint32 3, VUint32 0, VUint32 5]\<rparr>"

lemma flow_perf_fields: "Perf_Uint flow_perf 4 = 3" "Perf_Uint flow_perf 6 = 5"
  by (simp_all add: flow_perf_def Perf_Uint_def Field_def)

definition sample_out :: "MemoryLog peer" where
  "sample_out = sample_linked (sample_link\<lparr>l_ID := ''c1'', l_Role := RoleSender\<rparr>) sample_svc"

lemma sample_stock: "stocked memory_log_ops sample_clock 3 ''c1'' sample_consumer sample_svc"
  using mem_wf_sample_svc
  by (auto simp: stocked_def sample_clock_def sample_svc_def sample_consumer_def sample_queue_def sample_message_def is_ready_def
      Message_Expired_def memory_log_ops_def ml_Read_def split: if_splits)

text \<open>The sample flow hands out the only message there is, so it does write something.\<close>

lemma sample_flow:
  "\<exists>q. onFlow memory_log_ops sample_clock 1 flow_perf sample_out = (None, q) \<and> nc_out (pe_net q) \<noteq> []"
proof -
  let ?l = "sample_link\<lparr>l_ID := ''c1'', l_Role := RoleSender\<rparr>"
  obtain s where s: "session_Get (peer_sessions sample_out) ''ssn_9'' = Some s"
    using sample_linked_fields(2) [of ?l sample_svc] by (auto simp: sample_out_def)
  have depth: "mem_Depth None (co_Address sample_consumer) (peer_mem sample_out) = Inr 1"
    by (simp add: sample_out_def sample_linked_fields sample_svc_def mem_Depth_def sample_consumer_def sample_message_def is_ready_def)
  have "valid_ranges (e_ranges sample_clock i)" for i by (simp add: sample_clock_def valid_id_ranges)
  then have "\<exists>q ds raws. onFlow memory_log_ops sample_clock 1 flow_perf sample_out = (None, q) \<and>
      length ds = min (unat (Perf_Uint flow_perf 6)) 1 \<and>
      passed memory_log_ops ''c1'' 1 (Perf_Uint flow_perf 4) (unat (Perf_Uint flow_perf 6)) sample_out q ds raws"
    using sample_stock sample_linked_fields [of ?l sample_svc]
    by (intro onFlow_drains [OF _ s _ _ _ _ _ _ _ _ _ _ depth, where l = ?l and bound = 3 and lid = "''c1''"])
      (simp_all add: sample_out_def flow_perf_fields, simp_all add: sample_link_def)
  then obtain q d raw where q: "onFlow memory_log_ops sample_clock 1 flow_perf sample_out = (None, q)"
      "nc_out (pe_net q) = nc_out (pe_net sample_out) @ raw" "sent 1 (c_MaxFrame (pe_connection sample_out)) (Perf_Uint flow_perf 4) d raw"
      "in_stock memory_log_ops (peer_delivery sample_out) ''c1'' (snd d)"
    by (auto simp: flow_perf_fields passed_def length_Suc_conv list_all2_Cons1)
  have "peer_delivery sample_out = sample_svc" by (simp add: sample_out_def sample_linked_fields)
  then have "length (m_ID (snd d)) + length (m_Body (snd d)) \<le> 3" using stocked_size [OF sample_stock] q(4) by simp
  then have "received 1 (c_MaxFrame (pe_connection sample_out)) (Perf_Uint flow_perf 4) d raw" by (intro sent_received [OF q(3)]) simp
  then obtain f where "ReadFrame (raw @ []) (c_MaxFrame (pe_connection sample_out)) = Inr (f, [])" unfolding received_def by blast
  then have "raw \<noteq> []" by (auto simp: ReadFrame_def ReadFull_def)
  with q(1,2) show ?thesis by auto
qed

theorem flow_transfers_witness:
  "\<exists>r q. onFlow memory_log_ops sample_clock 1 flow_perf sample_out = (r, q) \<and>
     (\<exists>(ds :: (32 word \<times> Message) list) raws. ds \<noteq> [] \<and> length ds \<le> 5 \<and> nc_out (pe_net q) = concat raws \<and>
        (\<forall>(did, msg)\<in>set ds. busy (peer_mem q) (m_ID msg) \<and> (\<exists>first. message_view (peer_mem sample_out) (m_ID msg) = Some first \<and>
           ml_Read None (m_LogOffset first) (sv_log (peer_delivery sample_out)) = Inr (m_Body msg))))"
proof -
  obtain r q where f: "onFlow memory_log_ops sample_clock 1 flow_perf sample_out = (r, q)" "nc_out (pe_net q) \<noteq> []"
    using sample_flow by blast
  have "mem_wf (peer_mem sample_out)" by (simp add: sample_out_def sample_linked_fields mem_wf_sample_svc)
  moreover have "valid_ranges (e_ranges sample_clock i)" for i by (simp add: sample_clock_def valid_id_ranges)
  ultimately obtain ds :: "(32 word \<times> Message) list" and raws where ds: "length ds \<le> unat (Perf_Uint flow_perf 6)"
    "nc_out (pe_net q) = nc_out (pe_net sample_out) @ concat raws" "length ds = length raws"
    "\<forall>(did, msg)\<in>set ds. busy (peer_mem q) (m_ID msg) \<and> (\<exists>first. message_view (peer_mem sample_out) (m_ID msg) = Some first \<and>
       bl_Read memory_log_ops None (m_LogOffset first) (sv_log (peer_delivery sample_out)) = Inr (m_Body msg))"
    using flow_transfers [OF f(1)] by (auto dest!: list_all2_lengthD) fast
  moreover have "nc_out (pe_net sample_out) = []" by (simp add: sample_out_def sample_linked_fields)
  moreover from this have "ds \<noteq> []" using f(2) ds(2,3) by auto
  ultimately show ?thesis
    using f(1) by (intro exI [of _ r] exI [of _ q] conjI exI [of _ ds] exI [of _ raws])
      (simp_all add: flow_perf_fields memory_log_ops_def)
qed

theorem flow_drains_witness:
  "\<exists>q ds raws. onFlow memory_log_ops sample_clock 1 flow_perf sample_out = (None, q) \<and>
     nc_out (pe_net q) = concat raws \<and> length ds = 1 \<and> list_all2 (sent 1 0 3) ds raws"
proof -
  let ?l = "sample_link\<lparr>l_ID := ''c1'', l_Role := RoleSender\<rparr>"
  obtain s where s: "session_Get (peer_sessions sample_out) ''ssn_9'' = Some s"
    using sample_linked_fields(2) [of ?l sample_svc] by (auto simp: sample_out_def)
  have depth: "mem_Depth None (co_Address sample_consumer) (peer_mem sample_out) = Inr 1"
    by (simp add: sample_out_def sample_linked_fields sample_svc_def mem_Depth_def sample_consumer_def sample_message_def is_ready_def)
  have "valid_ranges (e_ranges sample_clock i)" for i by (simp add: sample_clock_def valid_id_ranges)
  then have "\<exists>q ds raws. onFlow memory_log_ops sample_clock 1 flow_perf sample_out = (None, q) \<and>
      length ds = min (unat (Perf_Uint flow_perf 6)) 1 \<and> nc_out (pe_net q) = nc_out (pe_net sample_out) @ concat raws \<and>
      distinct (map (m_ID \<circ> snd) ds) \<and> list_all2 (sent 1 (c_MaxFrame (pe_connection sample_out)) (Perf_Uint flow_perf 4)) ds raws"
    using sample_stock sample_linked_fields [of ?l sample_svc]
    by (intro flow_drains [OF _ s _ _ _ _ _ _ _ _ _ _ depth, where l = ?l and bound = 3 and lid = "''c1''"])
      (simp_all add: sample_out_def flow_perf_fields, simp_all add: sample_link_def)
  then show ?thesis
    using sample_linked_fields(7,8) [of ?l sample_svc] by (auto simp: flow_perf_fields sample_out_def)
qed

definition sample_in :: "FileLog peer" where
  "sample_in = sample_linked (sample_link\<lparr>l_Address := ''jobs''\<rparr>) (NewDeliveryService sample_queue \<lparr>fl_data = [], fl_offsets = []\<rparr>)"

theorem transfer_stores_witness:
  "\<exists>q (nw :: Message list). onTransfer file_log_ops sample_clock 1 \<lparr>p_Descriptor = DescriptorTransfer, p_Fields = [VUint32 3, VUint32 7]\<rparr>
      (EncodeDataSection [1, 2, 3]) sample_in = (None, q) \<and> map m_Address nw = [''jobs''] \<and>
    (\<forall>msg\<in>set nw. mem_message None (m_ID msg) (peer_mem sample_in) = Inl ErrMessageNotFound \<and>
       fl_Read None (m_LogOffset msg) (sv_log (peer_delivery q)) = Inr [1, 2, 3]) \<and> nc_out (pe_net q) \<noteq> []"
proof -
  let ?l = "sample_link\<lparr>l_Address := ''jobs''\<rparr>" and ?d = "NewDeliveryService sample_queue \<lparr>fl_data = [], fl_offsets = []\<rparr>"
  let ?perf = "\<lparr>p_Descriptor = DescriptorTransfer, p_Fields = [VUint32 3, VUint32 7]\<rparr>"
  let ?a = "sample_address ''jobs'' KindQueue" and ?r = "[\<lparr>rt_Destination = ''jobs'', rt_Priority = 0\<rparr>]"
  note F = sample_linked_fields [of ?l ?d, folded sample_in_def]
  have m: "peer_mem sample_in = sample_queue" "sv_log (peer_delivery sample_in) = \<lparr>fl_data = [], fl_offsets = []\<rparr>"
    by (simp_all add: F NewDeliveryService_def)
  have log: "fl_inv (sv_log (peer_delivery sample_in))" unfolding fl_inv_def m by (rule exI [of _ "[]"]) (simp add: log_rep_def)
  have a: "address_view (peer_mem sample_in) ''jobs'' = Some ?a" by (simp add: m sample_queue_def)
  have r: "Resolve id_ranges None ''jobs'' '''' [] (peer_mem sample_in) = Inr ?r"
    using a by (simp add: Resolve_def addresses.fetch_live) (simp add: sample_address_def)
  have f: "fresh_ids zero_ids 0 (Suc 0) (peer_mem sample_in)"
    unfolding m using fresh_zero_ids [of sample_queue] by (simp add: sample_queue_def NewMemory_def)
  have body: "DecodeDataSection (EncodeDataSection [1, 2, 3]) = Inr [1, 2, 3]" by (rule DataSection_roundtrip) simp
  obtain s where s: "session_Get (peer_sessions sample_in) ''ssn_9'' = Some s" "s_IncomingWindow s \<noteq> 0" using F(2) by blast
  have perf: "Perf_Uint ?perf 0 = 3" "\<not> Perf_Bool ?perf 4" by (simp_all add: Perf_Uint_def Perf_Bool_def Field_def)
  have l: "l_State ?l = StateAttached" "l_Role ?l = RoleReceiver" "l_Address ?l = ''jobs''" "l_MaxMessageSize ?l = 16777216"
    by (simp_all add: sample_link_def)
  have en: "e_ctx sample_clock = None" "e_ranges sample_clock 0 = id_ranges" "e_rnds sample_clock = zero_ids"
    by (simp_all add: sample_clock_def)
  have "\<exists>q (nw :: Message list) ack. onTransfer file_log_ops sample_clock 1 ?perf (EncodeDataSection [1, 2, 3]) sample_in = (None, q) \<and>
      map m_Address nw = map rt_Destination ?r \<and> distinct (map m_ID nw) \<and>
    (\<forall>msg\<in>set nw. mem_message None (m_ID msg) (peer_mem sample_in) = Inl ErrMessageNotFound \<and>
       fl_Read None (m_LogOffset msg) (sv_log (peer_delivery q)) = Inr [1, 2, 3] \<and>
       (\<exists>msg'. mem_message None (m_ID msg) (peer_mem q) = Inr msg' \<and> m_LogOffset msg' = m_LogOffset msg \<and>
          (msg' = msg \<or> get (m_Headers msg') ''x-death-reason'' = Some ''max-length''))) \<and>
    (\<forall>k. message_view (peer_mem q) k \<noteq> None \<longrightarrow> k \<in> m_ID ` set nw \<or> message_view (peer_mem sample_in) k \<noteq> None) \<and>
    EncodePerformative (accepted_reply (Perf_Uint ?perf 1)) = Inr ack \<and>
    nc_out (pe_net q) = nc_out (pe_net sample_in) @ (if Perf_Bool ?perf 4 then [] else frame_bytes (wire 1 FrameTypeAMQP ack))"
    by (rule transfer_stores [where l = ?l and a = ?a, OF F(1) s _ _ l(1,2) _ body])
      (use F(3,4,6) log a r f topology_sample_queue valid_id_ranges in \<open>simp_all add: perf l en m\<close>, simp add: sample_address_def)
  then show ?thesis using perf by (fastforce simp: frame_bytes_def)
qed

end
