(* ===== verification/TxService.thy ===== *)
theory TxService
  imports ConsumeProps
begin

text \<open>
  The transaction service (\<open>internal/transaction/application/service.go\<close>): declaring a transaction,
  staging publications in it, committing, rolling back and sweeping expired transactions.
\<close>

section \<open>Operations\<close>

definition tx_ttl :: "duration \<Rightarrow> duration" where
  "tx_ttl ttl = (if ttl \<le> 0 then 30000000000 else ttl)"

definition txID :: "byte list option \<Rightarrow> error + string" where
  "txID rnd = random_id ''txn'' rnd"

definition Declare :: "ctx \<Rightarrow> duration \<Rightarrow> time \<Rightarrow> byte list option \<Rightarrow> string \<Rightarrow> Memory \<Rightarrow> (error + Transaction) \<times> Memory" where
  "Declare ctx ttl now rnd connection m =
    (case txID rnd of
       Inl e \<Rightarrow> (Inl e, m)
     | Inr tid \<Rightarrow>
       (case New_Transaction tid connection now ttl of
          Inl e \<Rightarrow> (Inl e, m)
        | Inr tx \<Rightarrow>
          (case txm_Create ctx tx m of
             Inl e \<Rightarrow> (Inl (Wrap ''save transaction'' e), m)
           | Inr m' \<Rightarrow> (Inr tx, m'))))"

text \<open>The loop that records the staged messages in the transaction.\<close>

fun add_ops :: "Message list \<Rightarrow> Transaction \<Rightarrow> error + Transaction" where
  "add_ops [] tx = Inr tx"
| "add_ops (msg # msgs) tx =
     tryE (tx_Add \<lparr>op_Kind = OpPublish, op_MessageID = m_ID msg, op_Address = m_Address msg, op_DeliveryID = 0\<rparr> tx)
       (add_ops msgs)"

definition StagePublish ::
  "'l BodyLog \<Rightarrow> ranges \<Rightarrow> ctx \<Rightarrow> time \<Rightarrow> (nat \<Rightarrow> time) \<Rightarrow> (nat \<Rightarrow> byte list option) \<Rightarrow> string \<Rightarrow> Publish \<Rightarrow>
    'l Service \<Rightarrow> (error + Message list) \<times> 'l Service" where
  "StagePublish bl rs ctx now clk rnd tid inp s =
    (case txm_Get ctx tid (sv_mem s) of
       Inl e \<Rightarrow> (Inl e, s)
     | Inr tx \<Rightarrow>
         if tx_Expired tx now then (Inl (New ''transaction expired''), s)
         else case Stage bl rs ctx clk rnd (inp\<lparr>p_TransactionID := tid\<rparr>) s of
           ((Some e, _), s') \<Rightarrow> (Inl e, s')
         | ((None, msgs), s') \<Rightarrow>
             (case add_ops msgs tx of
                Inl e \<Rightarrow> (Inl e, s')
              | Inr tx' \<Rightarrow>
                (case txm_Update ctx tx' (sv_mem s') of
                   Inl e \<Rightarrow> (Inl (Wrap ''update transaction'' e), s')
                 | Inr m \<Rightarrow> (Inr msgs, s'\<lparr>sv_mem := m\<rparr>))))"

fun rollback_loop :: "ctx \<Rightarrow> Operation list \<Rightarrow> Memory \<Rightarrow> error option \<times> Memory" where
  "rollback_loop ctx [] m = (None, m)"
| "rollback_loop ctx (op # ops) m =
     (if op_Kind op = OpPublish then
        (case RollbackStaged ctx (op_MessageID op) m of
           Inl e \<Rightarrow> if errors_Is e ErrMessageNotFound then rollback_loop ctx ops m else (Some e, m)
         | Inr m' \<Rightarrow> rollback_loop ctx ops m')
      else rollback_loop ctx ops m)"

definition tx_rollback :: "ctx \<Rightarrow> time \<Rightarrow> Transaction \<Rightarrow> tx_State \<Rightarrow> Memory \<Rightarrow> (error + Transaction) \<times> Memory" where
  "tx_rollback ctx now tx st m =
    (case rollback_loop ctx (t_Operations tx) m of
       (Some e, m) \<Rightarrow> (Inl e, m)
     | (None, m) \<Rightarrow>
       (case Complete st now tx of
          Inl e \<Rightarrow> (Inl e, m)
        | Inr tx' \<Rightarrow>
          (case txm_Update ctx tx' m of
             Inl e \<Rightarrow> (Inl e, m)
           | Inr m' \<Rightarrow> (Inr tx', m'))))"

fun commit_loop :: "ranges \<Rightarrow> ctx \<Rightarrow> Operation list \<Rightarrow> Memory \<Rightarrow> error option \<times> Memory" where
  "commit_loop rs ctx [] m = (None, m)"
| "commit_loop rs ctx (op # ops) m =
     (if op_Kind op = OpPublish then
        (case CommitStaged rs ctx (op_MessageID op) m of
           (Some e, m') \<Rightarrow> (Some (Wrap (''commit message '' @ op_MessageID op) e), m')
         | (None, m') \<Rightarrow> commit_loop rs ctx ops m')
      else commit_loop rs ctx ops m)"

text \<open>\<open>now\<close> is the reading for the expiry check, \<open>fin\<close> the one for the completion.\<close>

definition Commit :: "ranges \<Rightarrow> ctx \<Rightarrow> time \<Rightarrow> time \<Rightarrow> string \<Rightarrow> Memory \<Rightarrow> (error + Transaction) \<times> Memory" where
  "Commit rs ctx now fin tid m =
    (case txm_Get ctx tid m of
       Inl e \<Rightarrow> (Inl e, m)
     | Inr tx \<Rightarrow>
         if tx_Expired tx now then
           (Inl (New ''transaction expired''), snd (tx_rollback ctx fin tx StateTimedOut m))
         else case commit_loop rs ctx (t_Operations tx) m of
           (Some e, m) \<Rightarrow> (Inl e, m)
         | (None, m) \<Rightarrow>
             (case Complete StateCommitted fin tx of
                Inl e \<Rightarrow> (Inl e, m)
              | Inr tx' \<Rightarrow>
                (case txm_Update ctx tx' m of
                   Inl e \<Rightarrow> (Inl e, m)
                 | Inr m' \<Rightarrow> (Inr tx', m'))))"

definition Rollback :: "ctx \<Rightarrow> time \<Rightarrow> string \<Rightarrow> Memory \<Rightarrow> (error + Transaction) \<times> Memory" where
  "Rollback ctx now tid m =
    (case txm_Get ctx tid m of
       Inl e \<Rightarrow> (Inl e, m)
     | Inr tx \<Rightarrow> tx_rollback ctx now tx StateRolledBack m)"

text \<open>Round \<open>i\<close> reads the clock for the expiry check and again for the completion.\<close>

fun tx_sweep_loop :: "ctx \<Rightarrow> (nat \<Rightarrow> time) \<Rightarrow> nat \<Rightarrow> Transaction list \<Rightarrow> nat \<Rightarrow> Memory \<Rightarrow> (error option \<times> nat) \<times> Memory" where
  "tx_sweep_loop ctx clk i [] n m = ((None, n), m)"
| "tx_sweep_loop ctx clk i (tx # rest) n m =
     (if tx_Expired tx (clk (2 * i)) then
        (case tx_rollback ctx (clk (2 * i + 1)) tx StateTimedOut m of
           (Inl e, m') \<Rightarrow> ((Some e, n), m')
         | (Inr _, m') \<Rightarrow> tx_sweep_loop ctx clk (Suc i) rest (n + 1) m')
      else tx_sweep_loop ctx clk (Suc i) rest n m)"

definition tx_Sweep :: "ranges \<Rightarrow> ctx \<Rightarrow> (nat \<Rightarrow> time) \<Rightarrow> Memory \<Rightarrow> (error option \<times> nat) \<times> Memory" where
  "tx_Sweep rs ctx clk m =
    (case ListActive rs ctx m of
       Inl e \<Rightarrow> ((Some e, 0), m)
     | Inr active \<Rightarrow> tx_sweep_loop ctx clk 0 active 0 m)"

definition tx_Get :: "ctx \<Rightarrow> string \<Rightarrow> Memory \<Rightarrow> error + Transaction" where
  "tx_Get ctx tid m = txm_Get ctx tid m"

section \<open>Rolling back\<close>

definition op_ids :: "Operation list \<Rightarrow> string set" where
  "op_ids ops = op_MessageID ` {op \<in> set ops. op_Kind op = OpPublish}"

lemma op_ids_simps [simp]:
  "op_ids [] = {}"
  "op_ids (op # ops) = (if op_Kind op = OpPublish then insert (op_MessageID op) (op_ids ops) else op_ids ops)"
  by (auto simp: op_ids_def)

lemma RollbackStaged_live:
  "RollbackStaged None mid m =
    (case message_view m mid of
       None \<Rightarrow> Inl ErrMessageNotFound
     | Some msg \<Rightarrow> if m_TransactionID msg = '''' then Inl (New ''message is not transaction-staged'')
         else Inr (m\<lparr>mm_messages := del mid (mm_messages m)\<rparr>))"
  by (auto simp: RollbackStaged_def messages.fetch_live deleteMessage_def split: option.split)

lemma rollback_loop_ok:
  assumes "\<And>k msg. k \<in> op_ids ops \<Longrightarrow> message_view m k = Some msg \<Longrightarrow> m_TransactionID msg \<noteq> ''''"
  shows "\<exists>m'. rollback_loop None ops m = (None, m') \<and> only_messages m m' \<and>
    (keyed m_ID (mm_messages m) \<longrightarrow> keyed m_ID (mm_messages m')) \<and>
    (\<forall>k. message_view m' k = (if k \<in> op_ids ops then None else message_view m k))"
  using assms
proof (induction ops arbitrary: m)
  case (Cons op ops)
  let ?k = "op_MessageID op"
  have tail: "m_TransactionID msg \<noteq> ''''" if "k \<in> op_ids ops" "message_view m k = Some msg" for k msg
    using Cons.prems [OF _ that(2)] that(1) by (simp split: if_splits)
  show ?case
  proof (cases "op_Kind op = OpPublish \<and> message_view m ?k \<noteq> None")
    case True
    then obtain msg where msg: "message_view m ?k = Some msg" "m_TransactionID msg \<noteq> ''''"
      using Cons.prems [of ?k] by auto
    let ?m = "m\<lparr>mm_messages := del ?k (mm_messages m)\<rparr>"
    have "\<exists>m'. rollback_loop None ops ?m = (None, m') \<and> only_messages ?m m' \<and>
      (keyed m_ID (mm_messages ?m) \<longrightarrow> keyed m_ID (mm_messages m')) \<and>
      (\<forall>k. message_view m' k = (if k \<in> op_ids ops then None else message_view ?m k))"
      by (rule Cons.IH) (use tail in \<open>auto simp: map_simps split: if_splits\<close>)
    moreover have "rollback_loop None (op # ops) m = rollback_loop None ops ?m"
      using True msg by (simp add: RollbackStaged_live)
    ultimately show ?thesis
      using True only_messages_trans [of m ?m] by (auto simp: map_simps)
  next
    case False
    have "\<exists>m'. rollback_loop None ops m = (None, m') \<and> only_messages m m' \<and>
      (keyed m_ID (mm_messages m) \<longrightarrow> keyed m_ID (mm_messages m')) \<and>
      (\<forall>k. message_view m' k = (if k \<in> op_ids ops then None else message_view m k))"
      by (rule Cons.IH) (rule tail)
    moreover have "rollback_loop None (op # ops) m = rollback_loop None ops m"
      using False by (auto simp: RollbackStaged_live)
    ultimately show ?thesis using False by auto
  qed
qed simp

text \<open>However a roll-back ends, it removes only messages that belong to a transaction.\<close>

lemma rollback_loop_safe:
  "rollback_loop ctx ops m = (r, m') \<Longrightarrow> message_view m k = Some msg \<Longrightarrow> m_TransactionID msg = '''' \<Longrightarrow>
     message_view m' k = Some msg"
proof (induction ops arbitrary: m)
  case (Cons op ops)
  show ?case
  proof (cases "op_Kind op = OpPublish")
    case True
    show ?thesis
    proof (cases "RollbackStaged ctx (op_MessageID op) m")
      case (Inl e)
      then show ?thesis using Cons True by (auto split: if_splits)
    next
      case (Inr m1)
      have "ctx = None" using Inr by (cases ctx) (auto simp: RollbackStaged_def messages.fetch_dead)
      then have "message_view m1 k = Some msg"
        using Inr Cons.prems(2,3) by (auto simp: RollbackStaged_live map_simps split: option.splits if_splits)
      then show ?thesis using Cons Inr True by simp
    qed
  qed (use Cons in simp)
qed simp

section \<open>Committing\<close>

definition staged :: "Memory \<Rightarrow> string \<Rightarrow> bool" where
  "staged m k = (\<exists>msg. message_view m k = Some msg \<and> m_State msg = StateAcquired \<and> m_TransactionID msg \<noteq> '''' \<and>
     address_view m (m_Address msg) \<noteq> None)"

text \<open>Out of its transaction: available, or dead-lettered by a length limit.\<close>

definition settled_out :: "Memory \<Rightarrow> string \<Rightarrow> bool" where
  "settled_out m k = (\<exists>msg. message_view m k = Some msg \<and> m_TransactionID msg = '''' \<and>
     m_State msg \<in> {StateAvailable, StateDeadLettered})"

lemma dead_form_out:
  "m_TransactionID (dead_form m reason msg) = m_TransactionID msg"
  "m_State (dead_form m reason msg) \<in> {StateAvailable, StateDeadLettered}"
  by (simp_all add: dead_form_def Let_def split: option.split)

lemma enforce_commit:
  assumes "topology_ok m" "valid_ranges rs" "address_view m name \<noteq> None"
  shows "\<exists>m'. enforceMaxLength rs None name m = (None, m') \<and> topology_ok m' \<and> only_messages m m' \<and>
    (\<forall>k. staged m k \<longrightarrow> message_view m' k = message_view m k) \<and> (\<forall>k. settled_out m k \<longrightarrow> settled_out m' k)"
proof -
  obtain a where a: "address_view m name = Some a" using assms(3) by auto
  have wf: "mem_wf m" "0 \<le> ad_MaxLength a"
    using assms(1) a by (auto simp: topology_ok_def address_wf_def)
  from enforceMaxLength_ok [OF wf(1) assms(2) a wf(2)] obtain ready m' where
    r: "ListReady rs None name 0 m = Inr ready" and m': "enforceMaxLength rs None name m = (None, m')"
    "only_messages m m'" "mem_wf m'" and view: "\<forall>k. message_view m' k =
      (if ad_MaxLength a \<noteq> 0 \<and> k \<in> m_ID ` set (drop (nat (ad_MaxLength a)) ready)
       then map_option (dead_form m ''max-length'') (message_view m k) else message_view m k)" by (elim exE conjE)
  have "\<not> staged m k" if "k \<in> m_ID ` set (drop (nat (ad_MaxLength a)) ready)" for k
    using that ListReady_all(3) [OF wf(1) assms(2) r] by (auto simp: staged_def is_ready_def dest: in_set_dropD)
  then have "staged m k \<Longrightarrow> message_view m' k = message_view m k" for k using view by auto
  moreover have "settled_out m k \<Longrightarrow> settled_out m' k" for k
    using view dead_form_out by (auto simp: settled_out_def)
  moreover have "topology_ok m'"
    by (rule topology_only_messages [OF assms(1) m'(2) mem_wfD(3) [OF m'(3)]])
  ultimately show ?thesis using m' by blast
qed

lemma CommitStaged_ok:
  assumes "topology_ok m" "valid_ranges rs" "staged m k"
  shows "\<exists>m'. CommitStaged rs None k m = (None, m') \<and> topology_ok m' \<and> only_messages m m' \<and> settled_out m' k \<and>
    (\<forall>j. j \<noteq> k \<longrightarrow> staged m j \<longrightarrow> staged m' j) \<and> (\<forall>j. settled_out m j \<longrightarrow> settled_out m' j)"
proof -
  obtain msg where msg: "message_view m k = Some msg" "m_State msg = StateAcquired" "m_TransactionID msg \<noteq> ''''"
    "address_view m (m_Address msg) \<noteq> None" using assms(3) by (auto simp: staged_def)
  have k: "m_ID msg = k" using keyed_get [OF mem_wfD(3) msg(1)] assms(1) by (simp add: topology_ok_def)
  let ?msg = "msg\<lparr>m_State := StateAvailable, m_TransactionID := ''''\<rparr>"
  let ?m = "m\<lparr>mm_messages := put k ?msg (mm_messages m)\<rparr>"
  have upd: "mem_Update None ?msg m = Inr ?m" using msg(1) k by (simp add: mem_Update_def)
  have top: "topology_ok ?m"
    by (rule topology_only_messages [OF assms(1)])
      (use assms(1) k in \<open>auto simp: topology_ok_def dest: mem_wfD\<close>)
  obtain m' where m': "enforceMaxLength rs None (m_Address msg) ?m = (None, m')" "topology_ok m'" "only_messages ?m m'"
      "\<forall>k. staged ?m k \<longrightarrow> message_view m' k = message_view ?m k" "\<forall>k. settled_out ?m k \<longrightarrow> settled_out m' k"
    using enforce_commit [OF top assms(2), of "m_Address msg"] msg(4) by auto
  have "CommitStaged rs None k m = (None, m')"
    using msg upd m'(1) by (simp add: CommitStaged_def messages.fetch_live Let_def)
  moreover have out: "only_messages m m'" by (rule only_messages_trans [OF _ m'(3)]) simp
  moreover have "settled_out m' k" using m'(5) by (simp add: settled_out_def map_simps)
  moreover have "staged m' j" if "j \<noteq> k" "staged m j" for j
  proof -
    have "staged ?m j" using that by (simp add: staged_def map_simps)
    then show ?thesis using m'(4) only_messagesD(1) [OF m'(3)] unfolding staged_def by auto
  qed
  moreover have "settled_out m' j" if "settled_out m j" for j
    using that m'(5) by (cases "j = k") (auto simp: settled_out_def map_simps)
  ultimately show ?thesis using m'(2) by blast
qed

lemma commit_loop_ok:
  assumes "topology_ok m" "valid_ranges rs" "list_all (\<lambda>op. op_Kind op = OpPublish \<and> staged m (op_MessageID op)) ops"
    and "distinct (map op_MessageID ops)"
  shows "\<exists>m'. commit_loop rs None ops m = (None, m') \<and> topology_ok m' \<and> only_messages m m' \<and>
    (\<forall>op\<in>set ops. settled_out m' (op_MessageID op)) \<and> (\<forall>k. settled_out m k \<longrightarrow> settled_out m' k)"
  using assms(1,3,4)
proof (induction ops arbitrary: m)
  case (Cons op ops)
  let ?k = "op_MessageID op"
  obtain m1 where m1: "CommitStaged rs None ?k m = (None, m1)" "topology_ok m1" "only_messages m m1" "settled_out m1 ?k"
    "\<forall>j. j \<noteq> ?k \<longrightarrow> staged m j \<longrightarrow> staged m1 j" "\<forall>j. settled_out m j \<longrightarrow> settled_out m1 j"
    using CommitStaged_ok [OF Cons.prems(1) assms(2), of ?k] Cons.prems(2) by auto
  have "\<exists>m'. commit_loop rs None ops m1 = (None, m') \<and> topology_ok m' \<and> only_messages m1 m' \<and>
    (\<forall>op\<in>set ops. settled_out m' (op_MessageID op)) \<and> (\<forall>k. settled_out m1 k \<longrightarrow> settled_out m' k)"
    by (rule Cons.IH [OF m1(2)]) (use Cons.prems(2,3) m1(5) in \<open>auto simp: list_all_iff image_iff\<close>)
  then show ?case
    using Cons.prems(2) m1 only_messages_trans [OF m1(3)] by auto
qed simp

section \<open>Only messages change\<close>

lemma enforce_loop_only: "enforce_loop ctx mx ready m = (r, m') \<Longrightarrow> only_messages m m'"
proof (induction ready arbitrary: m rule: rev_induct)
  case Nil
  then show ?case by (auto simp: enforce_loop.simps [of ctx mx "[]"] split: if_splits)
next
  case (snoc v ready)
  show ?case
  proof (cases "int (length (ready @ [v])) > mx")
    case True
    note step = snoc.prems [unfolded enforce_loop.simps [of ctx mx "ready @ [v]"] if_P [OF True]]
    show ?thesis
    proof (cases "deadLetter ctx v ''max-length'' m")
      case (Inl e)
      then show ?thesis using step by simp
    next
      case (Inr x)
      obtain v' m1 where x: "x = (v', m1)" by (cases x)
      have "only_messages m m1" using Inr x by (simp add: deadLetter_Inr)
      moreover have "only_messages m1 m'" by (rule snoc.IH) (use step Inr x in simp)
      ultimately show ?thesis by (rule only_messages_trans)
    qed
  qed (use snoc.prems in \<open>simp add: enforce_loop.simps [of ctx mx "ready @ [v]"]\<close>)
qed

lemma CommitStaged_only: "CommitStaged rs ctx k m = (r, m') \<Longrightarrow> only_messages m m'"
proof -
  assume a: "CommitStaged rs ctx k m = (r, m')"
  have enf: "enforceMaxLength rs ctx n m1 = (e, m2) \<Longrightarrow> only_messages m1 m2" for n m1 e m2
    using enforce_loop_only by (auto simp: enforceMaxLength_def split: sum.splits if_splits)
  have upd: "mem_Update ctx msg m = Inr m1 \<Longrightarrow> only_messages m m1" for msg m1
    by (auto simp: mem_Update_def guardE_Inr_iff split: if_splits)
  show ?thesis
    using a enf upd only_messages_trans
    by (auto simp: CommitStaged_def Let_def split: sum.splits if_splits) blast
qed

lemma commit_loop_only: "commit_loop rs ctx ops m = (r, m') \<Longrightarrow> only_messages m m'"
proof (induction ops arbitrary: m)
  case (Cons op ops)
  show ?case
  proof (cases "op_Kind op = OpPublish")
    case True
    obtain e m1 where c: "CommitStaged rs ctx (op_MessageID op) m = (e, m1)" by fastforce
    with True Cons.prems Cons.IH [of m1] only_messages_trans [OF CommitStaged_only [OF c]] CommitStaged_only [OF c]
    show ?thesis by (cases e) auto
  qed (use Cons in simp)
qed simp

lemma rollback_loop_only: "rollback_loop ctx ops m = (r, m') \<Longrightarrow> only_messages m m'"
proof (induction ops arbitrary: m)
  case (Cons op ops)
  show ?case
  proof (cases "op_Kind op = OpPublish")
    case True
    show ?thesis
    proof (cases "RollbackStaged ctx (op_MessageID op) m")
      case (Inl e)
      then show ?thesis using Cons True by (auto split: if_splits)
    next
      case (Inr m1)
      then have "only_messages m m1"
        by (auto simp: RollbackStaged_def deleteMessage_def result_iffs split: if_splits)
      then show ?thesis using Cons True Inr only_messages_trans by auto
    qed
  qed (use Cons in simp)
qed simp

section \<open>Staging\<close>

lemma stage_loop_ready:
  assumes "stage_loop bl ctx clk rnd inp i routes out s = (r, s')"
  shows "message_view (sv_mem s') k = Some msg \<and> is_ready a msg \<longleftrightarrow> message_view (sv_mem s) k = Some msg \<and> is_ready a msg"
  using assms
proof (induction routes arbitrary: i out s inp)
  case (Cons route routes)
  let ?inp = "inp\<lparr>p_Address := rt_Destination route\<rparr>"
  show ?case
  proof (cases "\<exists>mid x off l m. randomID ''msg'' (rnd i) = Inr mid \<and> NewMessage mid ?inp (clk i) = Inr x \<and>
      bl_Append bl ctx (m_ID x) (m_Body x) (sv_log s) = Inr (off, l) \<and>
      mem_Put ctx (x\<lparr>m_State := StateAcquired, m_LogOffset := off\<rparr>) (sv_mem s) = Inr m")
    case False
    then have "sv_mem s' = sv_mem s"
      using Cons.prems by (auto simp: Let_def split: sum.splits prod.splits)
    then show ?thesis by simp
  next
    case True
    then obtain mid x off l m where a: "randomID ''msg'' (rnd i) = Inr mid" "NewMessage mid ?inp (clk i) = Inr x"
      "bl_Append bl ctx (m_ID x) (m_Body x) (sv_log s) = Inr (off, l)"
      "mem_Put ctx (x\<lparr>m_State := StateAcquired, m_LogOffset := off\<rparr>) (sv_mem s) = Inr m" by blast
    let ?x = "x\<lparr>m_State := StateAcquired, m_LogOffset := off\<rparr>"
    have "stage_loop bl ctx clk rnd ?inp (Suc i) routes (out @ [?x]) (s\<lparr>sv_log := l, sv_mem := m\<rparr>) = (r, s')"
      using Cons.prems a by (simp add: Let_def)
    from Cons.IH [OF this]
    have "message_view (sv_mem s') k = Some msg \<and> is_ready a msg \<longleftrightarrow> message_view m k = Some msg \<and> is_ready a msg"
      by simp
    also have "\<dots> \<longleftrightarrow> message_view (sv_mem s) k = Some msg \<and> is_ready a msg"
      using messages.create_Inr [OF a(4)] by (auto simp: is_ready_def)
    finally show ?thesis .
  qed
qed simp

lemma Stage_cases:
  "Stage bl rs ctx clk rnd inp s = (r, s') \<Longrightarrow>
     s' = s \<or> (\<exists>inp' routes. stage_loop bl ctx clk rnd inp' 0 routes [] s = (r, s'))"
  by (auto simp: Stage_def Let_def split: sum.splits option.splits if_splits)

lemma Stage_ready:
  assumes "Stage bl rs ctx clk rnd inp s = (r, s')"
  shows "message_view (sv_mem s') k = Some msg \<and> is_ready a msg \<longleftrightarrow> message_view (sv_mem s) k = Some msg \<and> is_ready a msg"
  using Stage_cases [OF assms] stage_loop_ready by blast

lemma StagePublish_cases:
  assumes "StagePublish bl rs ctx now clk rnd tid inp s = (r, s')"
  shows "s' = s \<or> (\<exists>x s1. Stage bl rs ctx clk rnd (inp\<lparr>p_TransactionID := tid\<rparr>) s = (x, s1) \<and>
    mm_messages (sv_mem s') = mm_messages (sv_mem s1))"
proof -
  obtain e msgs s1 where st: "Stage bl rs ctx clk rnd (inp\<lparr>p_TransactionID := tid\<rparr>) s = ((e, msgs), s1)" by (metis surj_pair)
  have "s' = s \<or> mm_messages (sv_mem s') = mm_messages (sv_mem s1)"
    using assms st by (cases e)
      (auto simp: StagePublish_def txm_Update_def guardE_def split: sum.splits option.splits if_splits)
  with st show ?thesis by blast
qed

section \<open>Properties\<close>

text \<open>
  C10: a commit publishes the whole transaction. For an active transaction that has not expired
  and whose operations name staged messages, \<open>Commit\<close> succeeds; afterwards every one of these messages is out
  of the transaction, available (or dead-lettered by a length limit), and the stored transaction is
  committed.
\<close>

theorem Commit_publishes:
  assumes "topology_ok m" "valid_ranges rs" "txm_Get None tid m = Inr tx"
    and "t_State tx = StateActive" "\<not> tx_Expired tx now" "t_Version tx \<noteq> 0xFFFFFFFFFFFFFFFF"
    and "list_all (\<lambda>op. op_Kind op = OpPublish \<and> staged m (op_MessageID op)) (t_Operations tx)"
    and "distinct (map op_MessageID (t_Operations tx))"
  shows "\<exists>tx' m'. Commit rs None now fin tid m = (Inr tx', m') \<and> t_State tx' = StateCommitted \<and>
    txm_Get None tid m' = Inr tx' \<and> (\<forall>op\<in>set (t_Operations tx). settled_out m' (op_MessageID op))"
proof -
  obtain m1 where m1: "commit_loop rs None (t_Operations tx) m = (None, m1)" "only_messages m m1"
    "\<forall>op\<in>set (t_Operations tx). settled_out m1 (op_MessageID op)"
    using commit_loop_ok [OF assms(1,2,7,8)] by blast
  obtain tx' where tx': "Complete StateCommitted fin tx = Inr tx'" "t_State tx' = StateCommitted"
    "t_ID tx' = t_ID tx" "t_Version tx' = t_Version tx + 1"
    using assms(4) by (simp add: Complete_def)
  have tx: "tx_view m tid = Some tx" using assms(3) by (simp add: transactions.fetch_Inr)
  have tid: "t_ID tx = tid" using keyed_get [OF mem_wfD(5) tx] assms(1) by (simp add: topology_ok_def)
  have "tx_view m1 (t_ID tx') = Some tx" using tx tid tx'(3) only_messagesD(4) [OF m1(2)] by simp
  moreover have "\<not> t_Version tx' \<le> t_Version tx" using word_next_greater [OF assms(6)] tx'(4) by (simp add: not_le)
  ultimately obtain m' where m': "txm_Update None tx' m1 = Inr m'" "mm_messages m' = mm_messages m1"
    by (simp add: txm_Update_def)
  have "txm_Get None tid m' = Inr tx'" using transactions.update_fetch(1) [OF m'(1)] tid tx'(3) by simp
  moreover have "Commit rs None now fin tid m = (Inr tx', m')"
    using assms(3,5) m1(1) tx'(1) m'(1) by (simp add: Commit_def)
  moreover have "\<forall>op\<in>set (t_Operations tx). settled_out m' (op_MessageID op)"
    using m1(3) m'(2) by (simp add: settled_out_def)
  ultimately show ?thesis using tx'(2) by blast
qed

text \<open>
  C11: a roll-back discards the whole transaction. For an active transaction whose messages are
  still staged (or gone), \<open>Rollback\<close> succeeds, removes exactly the messages of its operations, leaves every
  other message as it was and stores the transaction as rolled back.
\<close>

theorem Rollback_discards:
  assumes "mem_wf m" "txm_Get None tid m = Inr tx" "t_State tx = StateActive" "t_Version tx \<noteq> 0xFFFFFFFFFFFFFFFF"
    and "\<And>k msg. k \<in> op_ids (t_Operations tx) \<Longrightarrow> message_view m k = Some msg \<Longrightarrow> m_TransactionID msg \<noteq> ''''"
  shows "\<exists>tx' m'. Rollback None now tid m = (Inr tx', m') \<and> t_State tx' = StateRolledBack \<and> txm_Get None tid m' = Inr tx' \<and>
    (\<forall>k. message_view m' k = (if k \<in> op_ids (t_Operations tx) then None else message_view m k))"
proof -
  obtain m1 where m1: "rollback_loop None (t_Operations tx) m = (None, m1)" "only_messages m m1"
    "\<forall>k. message_view m1 k = (if k \<in> op_ids (t_Operations tx) then None else message_view m k)"
    using rollback_loop_ok [of "t_Operations tx" m] assms(5) by blast
  obtain tx' where tx': "Complete StateRolledBack now tx = Inr tx'" "t_State tx' = StateRolledBack"
    "t_ID tx' = t_ID tx" "t_Version tx' = t_Version tx + 1"
    using assms(3) by (simp add: Complete_def)
  have tx: "tx_view m tid = Some tx" using assms(2) by (simp add: transactions.fetch_Inr)
  have tid: "t_ID tx = tid" by (rule keyed_get [OF mem_wfD(5) [OF assms(1)] tx])
  have "tx_view m1 (t_ID tx') = Some tx" using tx tid tx'(3) only_messagesD(4) [OF m1(2)] by simp
  moreover have "\<not> t_Version tx' \<le> t_Version tx" using word_next_greater [OF assms(4)] tx'(4) by (simp add: not_le)
  ultimately obtain m' where m': "txm_Update None tx' m1 = Inr m'" "mm_messages m' = mm_messages m1"
    by (simp add: txm_Update_def)
  have "txm_Get None tid m' = Inr tx'" using transactions.update_fetch(1) [OF m'(1)] tid tx'(3) by simp
  moreover have "Rollback None now tid m = (Inr tx', m')"
    using assms(2) m1(1) tx'(1) m'(1) by (simp add: Rollback_def tx_rollback_def)
  ultimately show ?thesis using tx'(2) m1(3) m'(2) by auto
qed

text \<open>
  A completed transaction is final. Committing or rolling back a transaction that is no longer
  active always fails, leaves the stored transaction as it is, and the roll-back removes no message
  that is outside a transaction, so committed messages stay.
\<close>

theorem completed_transaction_final:
  assumes "txm_Get None tid m = Inr tx" "t_State tx \<noteq> StateActive"
    and "Commit rs None now fin tid m = (rc, mc)" "Rollback None now' tid m = (rr, mr)"
  shows "(\<exists>e. rc = Inl e) \<and> txm_Get None tid mc = Inr tx \<and> (\<exists>e. rr = Inl e) \<and> txm_Get None tid mr = Inr tx \<and>
    (\<forall>k msg. mem_message None k m = Inr msg \<and> m_TransactionID msg = '''' \<longrightarrow> mem_message None k mr = Inr msg)"
proof -
  have no: "Complete st t tx = Inl (New ''transaction already completed'')" for st t
    using assms(2) by (simp add: Complete_def)
  obtain ec m1 where c: "commit_loop rs None (t_Operations tx) m = (ec, m1)" by fastforce
  obtain er m2 where r: "rollback_loop None (t_Operations tx) m = (er, m2)" by fastforce
  have cm: "(\<exists>e. rc = Inl e) \<and> mc = m1"
    using assms(1-3) c by (cases ec) (auto simp: Commit_def tx_Expired_def no)
  have rb: "(\<exists>e. rr = Inl e) \<and> mr = m2"
    using assms(1,4) r by (cases er) (auto simp: Rollback_def tx_rollback_def no)
  have "mm_transactions m1 = mm_transactions m" "mm_transactions m2 = mm_transactions m"
    using only_messagesD(4) commit_loop_only [OF c] rollback_loop_only [OF r] by blast+
  then have "txm_Get None tid m1 = Inr tx" "txm_Get None tid m2 = Inr tx"
    using assms(1) by (simp_all add: txm_Get_def)
  moreover have "mem_message None k m2 = Inr msg" if "mem_message None k m = Inr msg" "m_TransactionID msg = ''''" for k msg
    using that rollback_loop_safe [OF r] by (simp add: messages.fetch_Inr)
  ultimately show ?thesis using cm rb by blast
qed

text \<open>
  Staged messages are invisible. Whether staging a publication in a transaction succeeds or fails,
  in a store keyed by identifier the messages ready at any address are the same before and after it,
  each as it was, and no depth changes: a staged message is not among those a consumer can acquire.
\<close>

theorem staging_invisible:
  assumes "StagePublish bl rs ctx now clk rnd tid inp s = (r, s')" "mem_wf (sv_mem s)"
  shows "(\<forall>k msg. mem_message None k (sv_mem s') = Inr msg \<and> is_ready a msg \<longleftrightarrow>
      mem_message None k (sv_mem s) = Inr msg \<and> is_ready a msg) \<and>
    mem_Depth None a (sv_mem s') = mem_Depth None a (sv_mem s)"
proof -
  have ready: "message_view (sv_mem s') k = Some msg \<and> is_ready a msg \<longleftrightarrow>
      message_view (sv_mem s) k = Some msg \<and> is_ready a msg" for k msg
    using StagePublish_cases [OF assms(1)] Stage_ready by fastforce
  have "keyed m_ID (mm_messages (sv_mem s'))"
    using StagePublish_cases [OF assms(1)] Stage_grows assms(2) mem_wfD(3) by (fastforce simp: grows_def)
  then have "mem_Depth None a (sv_mem s') = mem_Depth None a (sv_mem s)"
    using mem_Depth_card mem_wfD(3) [OF assms(2)] ready by simp
  with ready show ?thesis by (simp add: messages.fetch_Inr)
qed

text \<open>A transaction with one staged message, for the witnesses.\<close>

definition sample_op :: Operation where
  "sample_op = \<lparr>op_Kind = OpPublish, op_MessageID = ''m9'', op_Address = ''jobs'', op_DeliveryID = 0\<rparr>"

definition sample_tx :: "tx_State \<Rightarrow> Transaction" where
  "sample_tx st = \<lparr>t_ID = ''t1'', t_ConnectionID = ''c'', t_State = st, t_CreatedAt = 1, t_ExpiresAt = 50,
     t_CompletedAt = 0, t_Operations = [sample_op], t_Version = 2\<rparr>"

definition sample_staged :: "tx_State \<Rightarrow> string \<Rightarrow> Memory" where
  "sample_staged st tid = sample_queue\<lparr>
     mm_messages := [(''m9'', (sample_message ''m9'' 1 5)\<lparr>m_State := StateAcquired, m_TransactionID := tid\<rparr>)],
     mm_transactions := [(''t1'', sample_tx st)]\<rparr>"

lemma topology_sample_staged: "topology_ok (sample_staged st tid)"
proof -
  have "mem_wf (sample_staged st tid)"
    using topology_sample_queue
    by (simp add: topology_ok_def sample_staged_def mem_wf_def keyed_def wf_map_def sample_message_def sample_tx_def)
  then show ?thesis using topology_sample_queue by (simp add: topology_ok_def sample_staged_def)
qed

lemma sample_tx_get: "txm_Get None ''t1'' (sample_staged st tid) = Inr (sample_tx st)"
  by (simp add: txm_Get_def sample_staged_def)

lemma sample_is_staged: "tid \<noteq> '''' \<Longrightarrow> staged (sample_staged st tid) ''m9''"
  by (simp add: staged_def sample_staged_def sample_queue_def sample_message_def)

theorem Commit_publishes_witness:
  "\<exists>tx' m'. Commit id_ranges None 10 11 ''t1'' (sample_staged StateActive ''t1'') = (Inr tx', m') \<and>
     t_State tx' = StateCommitted \<and> settled_out m' ''m9''"
proof -
  let ?tx = "sample_tx StateActive"
  have "t_State ?tx = StateActive" "\<not> tx_Expired ?tx 10" "t_Version ?tx \<noteq> 0xFFFFFFFFFFFFFFFF"
    "list_all (\<lambda>op. op_Kind op = OpPublish \<and> staged (sample_staged StateActive ''t1'') (op_MessageID op)) (t_Operations ?tx)"
    "distinct (map op_MessageID (t_Operations ?tx))"
    by (simp_all add: sample_tx_def sample_op_def sample_is_staged tx_Expired_def)
  from Commit_publishes [OF topology_sample_staged valid_id_ranges sample_tx_get this, of 11]
  show ?thesis by (auto simp: sample_tx_def sample_op_def)
qed

theorem Rollback_discards_witness:
  "\<exists>tx' m'. Rollback None 10 ''t1'' (sample_staged StateActive ''t1'') = (Inr tx', m') \<and>
     t_State tx' = StateRolledBack \<and> message_view m' ''m9'' = None"
proof -
  let ?tx = "sample_tx StateActive"
  let ?m = "sample_staged StateActive ''t1''"
  have wf: "mem_wf ?m" using topology_sample_staged by (simp add: topology_ok_def)
  have st: "t_State ?tx = StateActive" "t_Version ?tx \<noteq> 0xFFFFFFFFFFFFFFFF" by (simp_all add: sample_tx_def)
  have "m_TransactionID msg \<noteq> ''''" if "message_view ?m k = Some msg" for k msg
    using that by (auto simp: sample_staged_def split: if_splits)
  with Rollback_discards [OF wf sample_tx_get st, of 10] show ?thesis
    by (auto simp: sample_tx_def sample_op_def)
qed

theorem completed_transaction_final_witness:
  "\<exists>e m'. Rollback None 10 ''t1'' (sample_staged StateCommitted '''') = (Inl e, m') \<and>
     mem_message None ''m9'' m' = mem_message None ''m9'' (sample_staged StateCommitted '''')"
proof -
  let ?m = "sample_staged StateCommitted ''''"
  have st: "t_State (sample_tx StateCommitted) \<noteq> StateActive" by (simp add: sample_tx_def)
  obtain rc mc where c: "Commit id_ranges None 10 11 ''t1'' ?m = (rc, mc)" by fastforce
  obtain rr mr where r: "Rollback None 10 ''t1'' ?m = (rr, mr)" by fastforce
  obtain msg where msg: "mem_message None ''m9'' ?m = Inr msg" "m_TransactionID msg = ''''"
    by (simp add: mem_message_def sample_staged_def)
  from completed_transaction_final [OF sample_tx_get st c r] msg r show ?thesis by auto
qed

theorem staging_invisible_witness:
  "\<exists>r s'. StagePublish memory_log_ops id_ranges None 10 (\<lambda>i. 10) zero_ids ''t1'' sample_publish
      (NewDeliveryService (sample_staged StateActive ''t1'') NewMemoryLog) = (r, s') \<and>
    mem_Depth None ''jobs'' (sv_mem s') = Inr 0"
proof -
  let ?s = "NewDeliveryService (sample_staged StateActive ''t1'') NewMemoryLog"
  obtain r s' where a: "StagePublish memory_log_ops id_ranges None 10 (\<lambda>i. 10) zero_ids ''t1'' sample_publish ?s = (r, s')"
    by fastforce
  have wf: "mem_wf (sv_mem ?s)" using topology_sample_staged by (simp add: topology_ok_def NewDeliveryService_def)
  have "mem_Depth None ''jobs'' (sv_mem ?s) = Inr 0"
    by (simp add: NewDeliveryService_def mem_Depth_def sample_staged_def is_ready_def sample_message_def)
  with staging_invisible [OF a wf, of "''jobs''"] a show ?thesis by auto
qed

end
