(* ===== verification/Cluster.thy ===== *)
theory Cluster
  imports Prelude
begin

unbundle bit_operations_syntax

text \<open>
  Shard leases (\<open>internal/cluster\<close>): leases and nodes, the in-memory coordinator with its fencing
  epochs, and the service of a node that maps addresses to shards and keeps the leases it owns.
\<close>

section \<open>Leases\<close>

record Lease =
  le_Shard :: "32 word"
  le_NodeID :: string
  le_Epoch :: "64 word"
  le_AcquiredAt :: time
  le_ExpiresAt :: time
  le_Draining :: bool

record Node =
  n_ID :: string
  n_Capacity :: int
  n_Healthy :: bool
  n_LastSeen :: time
  n_Draining :: bool

definition NewLease :: "32 word \<Rightarrow> string \<Rightarrow> 64 word \<Rightarrow> time \<Rightarrow> duration \<Rightarrow> error + Lease" where
  "NewLease shard node epoch now ttl =
    (if node = '''' then Inl (New ''node id required'')
     else if ttl \<le> 0 then Inl (New ''lease ttl must be positive'')
     else Inr \<lparr>le_Shard = shard, le_NodeID = node, le_Epoch = epoch, le_AcquiredAt = now,
       le_ExpiresAt = now + ttl, le_Draining = False\<rparr>)"

definition OwnedBy :: "Lease \<Rightarrow> string \<Rightarrow> time \<Rightarrow> bool" where
  "OwnedBy l node now = (le_NodeID l = node \<and> now < le_ExpiresAt l \<and> \<not> le_Draining l)"

definition Lease_Expired :: "Lease \<Rightarrow> time \<Rightarrow> bool" where
  "Lease_Expired l now = (\<not> now < le_ExpiresAt l)"

section \<open>Coordinator\<close>

record Coordinator =
  cd_leases :: "(32 word, Lease) gomap"
  cd_epochs :: "(32 word, 64 word) gomap"
  cd_nodes :: "(string, Node) gomap"

definition NewCoordinator :: Coordinator where
  "NewCoordinator = \<lparr>cd_leases = [], cd_epochs = [], cd_nodes = []\<rparr>"

definition epoch_of :: "Coordinator \<Rightarrow> 32 word \<Rightarrow> 64 word" where
  "epoch_of c shard = (case get (cd_epochs c) shard of Some e \<Rightarrow> e | None \<Rightarrow> 0)"

definition cd_Acquire ::
  "ctx \<Rightarrow> time \<Rightarrow> 32 word \<Rightarrow> string \<Rightarrow> duration \<Rightarrow> Coordinator \<Rightarrow> error + (Lease \<times> Coordinator)" where
  "cd_Acquire ctx now shard node ttl c = guardE ctx
    (let taken = (case get (cd_leases c) shard of
         None \<Rightarrow> False | Some old \<Rightarrow> \<not> Lease_Expired old now \<and> le_NodeID old \<noteq> node) in
     if taken then Inl (New ''shard already leased'')
     else
       let epoch = epoch_of c shard + 1 in
       tryE (NewLease shard node epoch now ttl) (\<lambda>lease.
         Inr (lease, c\<lparr>cd_leases := put shard lease (cd_leases c), cd_epochs := put shard epoch (cd_epochs c)\<rparr>)))"

text \<open>\<open>now\<close> is the reading of the expiry check, \<open>now'\<close> the one the new expiry counts from.\<close>

definition cd_Renew :: "ctx \<Rightarrow> time \<Rightarrow> time \<Rightarrow> Lease \<Rightarrow> duration \<Rightarrow> Coordinator \<Rightarrow> error + (Lease \<times> Coordinator)" where
  "cd_Renew ctx now now' l ttl c = guardE ctx
    (case get (cd_leases c) (le_Shard l) of
       None \<Rightarrow> Inl (New ''lease fencing token rejected'')
     | Some cur_lease \<Rightarrow>
         if le_NodeID cur_lease \<noteq> le_NodeID l \<or> le_Epoch cur_lease \<noteq> le_Epoch l
         then Inl (New ''lease fencing token rejected'')
         else if Lease_Expired cur_lease now then Inl (New ''lease expired'')
         else
           let nxt = cur_lease\<lparr>le_ExpiresAt := now' + ttl\<rparr> in
           Inr (nxt, c\<lparr>cd_leases := put (le_Shard l) nxt (cd_leases c)\<rparr>))"

definition cd_Release :: "ctx \<Rightarrow> Lease \<Rightarrow> Coordinator \<Rightarrow> error + Coordinator" where
  "cd_Release ctx l c = guardE ctx
    (case get (cd_leases c) (le_Shard l) of
       None \<Rightarrow> Inr c
     | Some cur_lease \<Rightarrow>
         if le_NodeID cur_lease \<noteq> le_NodeID l \<or> le_Epoch cur_lease \<noteq> le_Epoch l
         then Inl (New ''lease fencing token rejected'')
         else Inr (c\<lparr>cd_leases := del (le_Shard l) (cd_leases c)\<rparr>))"

definition cd_List :: "(32 word, Lease) order \<Rightarrow> ctx \<Rightarrow> Coordinator \<Rightarrow> error + Lease list" where
  "cd_List rng ctx c = guardE ctx (Inr (sort_key le_Shard (map snd (rng (cd_leases c)))))"

definition RegisterNode :: "ctx \<Rightarrow> time \<Rightarrow> Node \<Rightarrow> Coordinator \<Rightarrow> error + Coordinator" where
  "RegisterNode ctx now n c = guardE ctx
    (if n_ID n = '''' \<or> n_Capacity n < 1 then Inl (New ''valid node id and capacity required'')
     else Inr (c\<lparr>cd_nodes := put (n_ID n) (n\<lparr>n_LastSeen := now, n_Healthy := True\<rparr>) (cd_nodes c)\<rparr>))"

definition ListNodes :: "(string, Node) order \<Rightarrow> ctx \<Rightarrow> Coordinator \<Rightarrow> error + Node list" where
  "ListNodes rng ctx c = guardE ctx (Inr (sort_key n_ID (map snd (rng (cd_nodes c)))))"

section \<open>Service of a node\<close>

record ClusterService =
  cl_nodeID :: string
  cl_shards :: "32 word"
  cl_ttl :: duration
  cl_owned :: "(32 word, Lease) gomap"

definition NewClusterService :: "string \<Rightarrow> 32 word \<Rightarrow> duration \<Rightarrow> ClusterService" where
  "NewClusterService node shards ttl = \<lparr>cl_nodeID = node, cl_shards = shards, cl_ttl = ttl, cl_owned = []\<rparr>"

text \<open>\<open>hash/fnv.New32a\<close>\<close>

definition fnv32a :: "string \<Rightarrow> 32 word" where
  "fnv32a s = fold (\<lambda>b h. (h XOR ucast b) * 16777619) (bytes_of_string s) 2166136261"

definition Shard :: "ClusterService \<Rightarrow> string \<Rightarrow> error + 32 word" where
  "Shard s address =
    (if cl_shards s = 0 then Inl (Panic ''integer divide by zero'') else Inr (fnv32a address mod cl_shards s))"

definition Ensure ::
  "ctx \<Rightarrow> time \<Rightarrow> time \<Rightarrow> string \<Rightarrow> ClusterService \<times> Coordinator \<Rightarrow> (error + Lease) \<times> ClusterService \<times> Coordinator" where
  "Ensure ctx now cnow address = (\<lambda>(s, c).
    case Shard s address of
      Inl e \<Rightarrow> (Inl e, s, c)
    | Inr shard \<Rightarrow>
        (case (case get (cl_owned s) shard of
             Some lease \<Rightarrow> if OwnedBy lease (cl_nodeID s) now then Some lease else None | None \<Rightarrow> None) of
           Some lease \<Rightarrow> (Inr lease, s, c)
         | None \<Rightarrow>
             (case cd_Acquire ctx cnow shard (cl_nodeID s) (cl_ttl s) c of
                Inl e \<Rightarrow> (Inl (Wrap (''acquire shard '' @ dec (unat shard)) e), s, c)
              | Inr (lease, c') \<Rightarrow> (Inr lease, s\<lparr>cl_owned := put shard lease (cl_owned s)\<rparr>, c'))))"

text \<open>\<open>clk i\<close> are the two clock readings of \<open>cd_Renew\<close> for the \<open>i\<close>-th lease of the loop.\<close>

fun renew_loop ::
  "ctx \<Rightarrow> (nat \<Rightarrow> time \<times> time) \<Rightarrow> nat \<Rightarrow> (32 word \<times> Lease) list \<Rightarrow> ClusterService \<times> Coordinator \<Rightarrow> error option \<times> ClusterService \<times> Coordinator" where
  "renew_loop ctx clk i [] (s, c) = (None, s, c)"
| "renew_loop ctx clk i ((shard, lease) # rest) (s, c) =
     (case cd_Renew ctx (fst (clk i)) (snd (clk i)) lease (cl_ttl s) c of
        Inl e \<Rightarrow> (Some (Wrap (''renew shard '' @ dec (unat shard)) e), s\<lparr>cl_owned := del shard (cl_owned s)\<rparr>, c)
      | Inr (nxt, c') \<Rightarrow> renew_loop ctx clk (Suc i) rest (s\<lparr>cl_owned := put shard nxt (cl_owned s)\<rparr>, c'))"

definition cl_Renew ::
  "(32 word, Lease) order \<Rightarrow> ctx \<Rightarrow> (nat \<Rightarrow> time \<times> time) \<Rightarrow> ClusterService \<times> Coordinator \<Rightarrow> error option \<times> ClusterService \<times> Coordinator" where
  "cl_Renew rng ctx clk = (\<lambda>(s, c). renew_loop ctx clk 0 (rng (cl_owned s)) (s, c))"

fun release_loop ::
  "ctx \<Rightarrow> (32 word \<times> Lease) list \<Rightarrow> error option \<Rightarrow> ClusterService \<times> Coordinator \<Rightarrow> error option \<times> ClusterService \<times> Coordinator" where
  "release_loop ctx [] first (s, c) = (first, s, c)"
| "release_loop ctx ((shard, lease) # rest) first (s, c) =
     (let s' = s\<lparr>cl_owned := del shard (cl_owned s)\<rparr> in
      case cd_Release ctx lease c of
        Inl e \<Rightarrow> release_loop ctx rest (if first = None then Some e else first) (s', c)
      | Inr c' \<Rightarrow> release_loop ctx rest first (s', c'))"

definition ReleaseAll ::
  "(32 word, Lease) order \<Rightarrow> ctx \<Rightarrow> ClusterService \<times> Coordinator \<Rightarrow> error option \<times> ClusterService \<times> Coordinator" where
  "ReleaseAll rng ctx = (\<lambda>(s, c). release_loop ctx (rng (cl_owned s)) None (s, c))"

definition Leases :: "(32 word, Lease) order \<Rightarrow> ctx \<Rightarrow> Coordinator \<Rightarrow> error + Lease list" where
  "Leases rng ctx c = cd_List rng ctx c"

section \<open>Runs of the coordinator\<close>

text \<open>Requests to the coordinator, with the time at which it serves them.\<close>

datatype coord_op =
    CAcquire time "32 word" string duration
  | CRenew time time Lease duration
  | CRelease Lease
  | CRegister time Node

fun coord_apply :: "coord_op \<Rightarrow> Coordinator \<Rightarrow> Coordinator" where
  "coord_apply (CAcquire now sh n ttl) c = (case cd_Acquire None now sh n ttl c of Inl e \<Rightarrow> c | Inr (l, c') \<Rightarrow> c')"
| "coord_apply (CRenew now now' l ttl) c = (case cd_Renew None now now' l ttl c of Inl e \<Rightarrow> c | Inr (l', c') \<Rightarrow> c')"
| "coord_apply (CRelease l) c = (case cd_Release None l c of Inl e \<Rightarrow> c | Inr c' \<Rightarrow> c')"
| "coord_apply (CRegister now n) c = (case RegisterNode None now n c of Inl e \<Rightarrow> c | Inr c' \<Rightarrow> c')"

abbreviation coord_run :: "coord_op list \<Rightarrow> Coordinator \<Rightarrow> Coordinator" where
  "coord_run evs c \<equiv> fold coord_apply evs c"

text \<open>A stored lease is filed under its shard and has the epoch of the shard.\<close>

definition coord_inv :: "Coordinator \<Rightarrow> bool" where
  "coord_inv c = (\<forall>sh l. get (cd_leases c) sh = Some l \<longrightarrow> le_Shard l = sh \<and> le_Epoch l = epoch_of c sh)"

lemma cd_Acquire_Inr:
  "cd_Acquire ctx now sh n ttl c = Inr (l, c') \<longleftrightarrow>
     ctx = None \<and> n \<noteq> '''' \<and> 0 < ttl \<and>
     (\<forall>old. get (cd_leases c) sh = Some old \<longrightarrow> Lease_Expired old now \<or> le_NodeID old = n) \<and>
     l = \<lparr>le_Shard = sh, le_NodeID = n, le_Epoch = epoch_of c sh + 1, le_AcquiredAt = now,
       le_ExpiresAt = now + ttl, le_Draining = False\<rparr> \<and>
     c' = c\<lparr>cd_leases := put sh l (cd_leases c), cd_epochs := put sh (epoch_of c sh + 1) (cd_epochs c)\<rparr>"
  by (auto simp: cd_Acquire_def NewLease_def result_iffs Let_def split: option.splits if_splits)

lemma cd_Renew_Inr:
  "cd_Renew ctx now now' l ttl c = Inr (l', c') \<longleftrightarrow>
     ctx = None \<and> (\<exists>cu. get (cd_leases c) (le_Shard l) = Some cu \<and> le_NodeID cu = le_NodeID l \<and>
       le_Epoch cu = le_Epoch l \<and> \<not> Lease_Expired cu now \<and> l' = cu\<lparr>le_ExpiresAt := now' + ttl\<rparr> \<and>
       c' = c\<lparr>cd_leases := put (le_Shard l) l' (cd_leases c)\<rparr>)"
  by (auto simp: cd_Renew_def guardE_Inr_iff Let_def split: option.splits if_splits)

lemma epoch_of_put [simp]:
  "epoch_of (c\<lparr>cd_leases := ls, cd_epochs := put sh e (cd_epochs c)\<rparr>) k = (if k = sh then e else epoch_of c k)"
  "epoch_of (c\<lparr>cd_leases := ls\<rparr>) k = epoch_of c k" "epoch_of (c\<lparr>cd_nodes := ns\<rparr>) k = epoch_of c k"
  by (auto simp: epoch_of_def map_simps)

lemma coord_apply_inv: "coord_inv c \<Longrightarrow> coord_inv (coord_apply ev c)"
proof (cases ev)
  case (CAcquire now sh n ttl)
  assume "coord_inv c"
  then show ?thesis using CAcquire
    by (auto simp: coord_inv_def map_simps cd_Acquire_Inr split: sum.splits)
next
  case (CRenew now now' l ttl)
  assume "coord_inv c"
  then show ?thesis using CRenew
    by (auto simp: coord_inv_def map_simps cd_Renew_Inr split: sum.splits if_splits)
next
  case (CRelease l)
  assume "coord_inv c"
  then show ?thesis using CRelease
    by (auto simp: coord_inv_def map_simps cd_Release_def split: sum.splits option.splits if_splits)
next
  case (CRegister now n)
  assume "coord_inv c"
  then show ?thesis using CRegister
    by (auto simp: coord_inv_def RegisterNode_def split: sum.splits if_splits)
qed

lemma coord_run_inv: "coord_inv c \<Longrightarrow> coord_inv (coord_run evs c)"
  by (induction evs arbitrary: c) (auto simp: coord_apply_inv)

lemma coord_inv_New: "coord_inv NewCoordinator"
  by (simp add: coord_inv_def NewCoordinator_def)

text \<open>The epoch of a shard grows by at most one with each request.\<close>

lemma coord_apply_epoch: "\<exists>k \<le> 1. epoch_of (coord_apply ev c) sh = epoch_of c sh + of_nat k"
proof (cases ev)
  case (CAcquire now s n ttl)
  show ?thesis
  proof (cases "cd_Acquire None now s n ttl c")
    case (Inl e)
    then show ?thesis using CAcquire by (intro exI [of _ 0]) simp
  next
    case (Inr x)
    obtain l c' where x: "x = (l, c')" by (cases x)
    have "epoch_of c' sh = epoch_of c sh + of_nat (if sh = s then 1 else 0)"
      using Inr x by (auto simp: cd_Acquire_Inr)
    then show ?thesis using CAcquire Inr x by (intro exI [of _ "if sh = s then 1 else 0"]) simp
  qed
qed (auto simp: cd_Renew_Inr cd_Release_def RegisterNode_def split: sum.splits option.splits if_splits intro: exI [of _ 0])

lemma coord_run_epoch: "\<exists>k \<le> length evs. epoch_of (coord_run evs c) sh = epoch_of c sh + of_nat k"
proof (induction evs arbitrary: c)
  case (Cons ev evs)
  obtain j where j: "j \<le> 1" "epoch_of (coord_apply ev c) sh = epoch_of c sh + of_nat j"
    using coord_apply_epoch by blast
  obtain k where k: "k \<le> length evs" "epoch_of (coord_run evs (coord_apply ev c)) sh = epoch_of (coord_apply ev c) sh + of_nat k"
    using Cons.IH by blast
  show ?case using j k by (intro exI [of _ "j + k"]) simp
qed (simp add: exI [of _ 0])

section \<open>Requests of others\<close>

text \<open>A request that does not come from node \<open>a\<close>, served while a lease expiring at \<open>t\<close> is running.\<close>

fun foreign :: "string \<Rightarrow> time \<Rightarrow> coord_op \<Rightarrow> bool" where
  "foreign a t (CAcquire now sh n ttl) = (n \<noteq> a \<and> now < t)"
| "foreign a t (CRenew now now' l ttl) = (le_NodeID l \<noteq> a)"
| "foreign a t (CRelease l) = (le_NodeID l \<noteq> a)"
| "foreign a t (CRegister now n) = True"

lemma foreign_keeps:
  assumes "get (cd_leases c) sh = Some l" "foreign (le_NodeID l) (le_ExpiresAt l) ev"
  shows "get (cd_leases (coord_apply ev c)) sh = Some l"
proof (cases ev)
  case (CAcquire now s n ttl)
  then show ?thesis using assms
    by (auto simp: cd_Acquire_Inr map_simps Lease_Expired_def split: sum.splits)
next
  case (CRenew now now' l' ttl)
  then show ?thesis using assms by (auto simp: cd_Renew_Inr map_simps split: sum.splits)
next
  case (CRelease l')
  then show ?thesis using assms
    by (auto simp: cd_Release_def map_simps split: sum.splits option.splits if_splits)
next
  case (CRegister now n)
  then show ?thesis using assms by (auto simp: RegisterNode_def split: sum.splits if_splits)
qed

lemma foreign_run_keeps:
  "get (cd_leases c) sh = Some l \<Longrightarrow> list_all (foreign (le_NodeID l) (le_ExpiresAt l)) evs \<Longrightarrow>
     get (cd_leases (coord_run evs c)) sh = Some l"
  by (induction evs arbitrary: c) (auto simp: foreign_keeps)

section \<open>Properties\<close>

text \<open>
  C16: fencing. Once a shard has been leased again, in whatever state the coordinator has got to
  and whatever requests come before and after (fewer than 2 to the 64), the older lease is refused
  for good: it cannot be renewed, and releasing it changes nothing.
\<close>

theorem lease_fencing:
  assumes "coord_inv c" "cd_Acquire None now sh node ttl c = Inr (l1, c1)"
    and "cd_Acquire None now2 sh node2 ttl2 (coord_run evs c1) = Inr (l2, c2)"
    and "length evs + length evs2 + 1 < 2 ^ 64"
  defines "c3 \<equiv> coord_run evs2 c2"
  shows "le_Epoch l2 \<noteq> le_Epoch l1 \<and>
    cd_Renew None t t' l1 ttl' c3 = Inl (New ''lease fencing token rejected'') \<and>
    (cd_Release None l1 c3 = Inl (New ''lease fencing token rejected'') \<or> cd_Release None l1 c3 = Inr c3)"
proof -
  have e1: "le_Epoch l1 = epoch_of c1 sh" "le_Shard l1 = sh" using assms(2) by (auto simp: cd_Acquire_Inr)
  obtain j where j: "j \<le> length evs" "epoch_of (coord_run evs c1) sh = epoch_of c1 sh + of_nat j"
    using coord_run_epoch by blast
  have e2: "epoch_of c2 sh = epoch_of c1 sh + of_nat (j + 1)" "le_Epoch l2 = epoch_of c2 sh"
    using assms(3) j by (auto simp: cd_Acquire_Inr)
  obtain k where k: "k \<le> length evs2" "epoch_of c3 sh = epoch_of c2 sh + of_nat k"
    using coord_run_epoch [of evs2 c2 sh] by (auto simp: c3_def)
  have e3: "epoch_of c3 sh = le_Epoch l1 + of_nat (j + 1 + k)" using e1 e2 k by simp
  have ne: "x + of_nat n \<noteq> x" if "0 < n" "n < 2 ^ 64" for n and x :: "64 word"
  proof
    assume "x + of_nat n = x"
    then have "unat (of_nat n :: 64 word) = 0" by simp
    with that show False by (simp add: unat_of_nat)
  qed
  have "coord_inv c1" using coord_apply_inv [OF assms(1), of "CAcquire now sh node ttl"] assms(2) by simp
  then have "coord_inv c2"
    using coord_apply_inv [OF coord_run_inv, of c1 "CAcquire now2 sh node2 ttl2" evs] assms(3) by simp
  then have "coord_inv c3" unfolding c3_def by (rule coord_run_inv)
  moreover have "le_Epoch l1 \<noteq> epoch_of c3 sh" using ne [of "j + 1 + k" "le_Epoch l1"] e3 j k assms(4) by auto
  moreover have "le_Epoch l2 \<noteq> le_Epoch l1" using ne [of "j + 1" "le_Epoch l1"] e1 e2 j assms(4) by auto
  ultimately show ?thesis
    by (auto simp: cd_Renew_def cd_Release_def coord_inv_def e1 split: option.split)
qed

text \<open>
  Exclusive leases. While a lease runs, nothing that other nodes ask of the coordinator, in
  any number and order, changes it, and an attempt of another node to lease the shard is refused.
\<close>

theorem lease_exclusive:
  assumes "cd_Acquire None now sh node ttl c = Inr (l, c1)" "list_all (foreign node (now + ttl)) evs"
    and "other \<noteq> node" "t < now + ttl"
  shows "get (cd_leases (coord_run evs c1)) sh = Some l \<and> OwnedBy l node t \<and>
    cd_Acquire None t sh other ttl' (coord_run evs c1) = Inl (New ''shard already leased'')"
proof -
  have l: "le_NodeID l = node" "le_ExpiresAt l = now + ttl" "\<not> le_Draining l" "get (cd_leases c1) sh = Some l"
    using assms(1) by (auto simp: cd_Acquire_Inr map_simps)
  have "get (cd_leases (coord_run evs c1)) sh = Some l"
    using foreign_run_keeps [OF l(4)] assms(2) l by simp
  then show ?thesis
    using assms(3,4) l by (simp add: OwnedBy_def cd_Acquire_def Lease_Expired_def)
qed

theorem lease_fencing_witness:
  "\<exists>l1 c1 l2 c2. cd_Acquire None 0 7 ''a'' 10 NewCoordinator = Inr (l1, c1) \<and>
     cd_Acquire None 20 7 ''b'' 10 c1 = Inr (l2, c2) \<and>
     cd_Renew None 21 21 l1 10 c2 = Inl (New ''lease fencing token rejected'')"
proof -
  obtain l1 c1 where a: "cd_Acquire None 0 7 ''a'' 10 NewCoordinator = Inr (l1, c1)"
    by (simp add: cd_Acquire_def NewLease_def NewCoordinator_def Let_def)
  then have c1: "get (cd_leases c1) 7 = Some l1" "le_ExpiresAt l1 = 10" by (auto simp: cd_Acquire_Inr map_simps)
  then obtain l2 c2 where b: "cd_Acquire None 20 7 ''b'' 10 (coord_run [] c1) = Inr (l2, c2)"
    by (simp add: cd_Acquire_def NewLease_def Lease_Expired_def Let_def)
  from lease_fencing [OF coord_inv_New a b, of "[]" 21 21 10] a b show ?thesis by simp
qed

theorem lease_exclusive_witness:
  "\<exists>l c1. cd_Acquire None 0 7 ''a'' 10 NewCoordinator = Inr (l, c1) \<and>
     cd_Acquire None 5 7 ''b'' 10 (coord_run [CAcquire 3 7 ''b'' 99] c1) = Inl (New ''shard already leased'')"
proof -
  obtain l c1 where a: "cd_Acquire None 0 7 ''a'' 10 NewCoordinator = Inr (l, c1)"
    by (simp add: cd_Acquire_def NewLease_def NewCoordinator_def Let_def)
  from lease_exclusive [OF a, of "[CAcquire 3 7 ''b'' 99]" "''b''" 5 10] a show ?thesis by simp
qed

section \<open>Ownership in the node\<close>

text \<open>A successful \<open>Ensure\<close> returns a lease of this node for the shard of the address.\<close>

lemma Ensure_owner:
  assumes "Ensure ctx now cnow address (s, c) = (Inr l, s', c')"
    and "\<And>sh l. get (cl_owned s) sh = Some l \<Longrightarrow> le_Shard l = sh"
  shows "le_NodeID l = cl_nodeID s \<and> Shard s address = Inr (le_Shard l) \<and> get (cl_owned s') (le_Shard l) = Some l"
  using assms
  by (auto simp: Ensure_def cd_Acquire_Inr map_simps OwnedBy_def split: sum.splits option.splits if_splits prod.splits)

lemma Shard_range: "cl_shards s \<noteq> 0 \<Longrightarrow> \<exists>sh. Shard s a = Inr sh \<and> sh < cl_shards s"
  by (simp add: Shard_def word_mod_less_divisor word_gt_0)

end
