(* ===== verification/Config.thy ===== *)
theory Config
  imports Address
begin

text \<open>
  The configuration of the broker (\<open>internal/config/config.go\<close>): defaults, the YAML file, textual
  durations, environment overrides and validation.

  The file (\<open>os.ReadFile\<close>), the YAML library (\<open>yaml.Unmarshal\<close>, which fills the fields the file
  names and leaves the others), \<open>time.ParseDuration\<close> and the environment (\<open>os.Getenv\<close>) are parameters.
  \<open>strconv.ParseBool\<close>, \<open>Atoi\<close> and \<open>ParseUint\<close> are modelled.
\<close>

section \<open>Numbers and booleans in text\<close>

definition ParseBool :: "string \<Rightarrow> bool option" where
  "ParseBool s =
    (if s \<in> set [''1'', ''t'', ''T'', ''TRUE'', ''true'', ''True''] then Some True
     else if s \<in> set [''0'', ''f'', ''F'', ''FALSE'', ''false'', ''False''] then Some False
     else None)"

definition is_digit :: "char \<Rightarrow> bool" where
  "is_digit c = (48 \<le> (of_char c :: nat) \<and> (of_char c :: nat) \<le> 57)"

definition digits_value :: "string \<Rightarrow> nat" where
  "digits_value s = fold (\<lambda>c n. 10 * n + (of_char c - 48)) s 0"

text \<open>\<open>strconv.ParseUint(s, 10, bits)\<close>: decimal digits only, within the range.\<close>

definition ParseUint :: "nat \<Rightarrow> string \<Rightarrow> nat option" where
  "ParseUint bits s =
    (if s = [] \<or> \<not> list_all is_digit s then None
     else let n = digits_value s in if n < 2 ^ bits then Some n else None)"

text \<open>\<open>strconv.Atoi\<close>: an optional sign and decimal digits, within the range of a 64-bit integer.\<close>

definition Atoi :: "string \<Rightarrow> int option" where
  "Atoi s =
    (let neg = (s \<noteq> [] \<and> hd s = CHR ''-'');
         ds = (if s \<noteq> [] \<and> (hd s = CHR ''-'' \<or> hd s = CHR ''+'') then tl s else s) in
     if ds = [] \<or> \<not> list_all is_digit ds then None
     else
       let n = int (digits_value ds); v = (if neg then - n else n) in
       if - (2 ^ 63) \<le> v \<and> v < 2 ^ 63 then Some v else None)"

section \<open>The configuration\<close>

record Listener = li_Address :: string

record AMQP =
  aq_Address :: string
  aq_MaxFrameSize :: "32 word"
  aq_IdleTimeout :: duration
  aq_IdleTimeoutRaw :: string
  aq_MaxConnections :: int

record Auth =
  au_Token :: string
  au_AllowAnonymous :: bool

record Storage =
  st_Driver :: string
  st_DataDir :: string
  st_DSN :: string

record Limits =
  lm_BodyBytes :: int
  lm_RequestsPerSecond :: int

record Workers =
  wk_SweepInterval :: duration
  wk_SweepIntervalRaw :: string
  wk_LeaseTTL :: duration
  wk_LeaseTTLRaw :: string

record Config =
  cf_NodeID :: string
  cf_HTTP :: Listener
  cf_GRPC :: Listener
  cf_AMQP :: AMQP
  cf_Auth :: Auth
  cf_Storage :: Storage
  cf_Limits :: Limits
  cf_Workers :: Workers
  cf_Shutdown :: duration

abbreviation second :: duration where
  "second \<equiv> 1000000000"

definition Default :: Config where
  "Default = \<lparr>cf_NodeID = ''node-1'', cf_HTTP = \<lparr>li_Address = '':8080''\<rparr>, cf_GRPC = \<lparr>li_Address = '':9090''\<rparr>,
     cf_AMQP = \<lparr>aq_Address = '':5672'', aq_MaxFrameSize = 1048576, aq_IdleTimeout = 30 * second,
       aq_IdleTimeoutRaw = '''', aq_MaxConnections = 1024\<rparr>,
     cf_Auth = \<lparr>au_Token = '''', au_AllowAnonymous = True\<rparr>,
     cf_Storage = \<lparr>st_Driver = ''file'', st_DataDir = ''./data'', st_DSN = ''''\<rparr>,
     cf_Limits = \<lparr>lm_BodyBytes = 1048576, lm_RequestsPerSecond = 200\<rparr>,
     cf_Workers = \<lparr>wk_SweepInterval = second, wk_SweepIntervalRaw = '''', wk_LeaseTTL = 15 * second, wk_LeaseTTLRaw = ''''\<rparr>,
     cf_Shutdown = 10 * second\<rparr>"

section \<open>Environment\<close>

definition stringEnv :: "(string \<Rightarrow> string) \<Rightarrow> string \<Rightarrow> string \<Rightarrow> string" where
  "stringEnv env key dst = (if env key \<noteq> '''' then env key else dst)"

text \<open>\<open>stringEnv(key, &c.F)\<close> is the update of the field with \<open>stringEnv env key\<close>.\<close>

definition boolEnv :: "(string \<Rightarrow> string) \<Rightarrow> string \<Rightarrow> bool \<Rightarrow> bool" where
  "boolEnv env key dst = (if env key \<noteq> '''' then (case ParseBool (env key) of None \<Rightarrow> dst | Some b \<Rightarrow> b) else dst)"

definition intEnv :: "(string \<Rightarrow> string) \<Rightarrow> string \<Rightarrow> int \<Rightarrow> int" where
  "intEnv env key dst = (if env key \<noteq> '''' then (case Atoi (env key) of None \<Rightarrow> dst | Some n \<Rightarrow> n) else dst)"

definition uint32Env :: "(string \<Rightarrow> string) \<Rightarrow> string \<Rightarrow> 32 word \<Rightarrow> 32 word" where
  "uint32Env env key dst =
    (if env key \<noteq> '''' then (case ParseUint 32 (env key) of None \<Rightarrow> dst | Some n \<Rightarrow> word_of_nat n) else dst)"

definition override :: "(string \<Rightarrow> string) \<Rightarrow> Config \<Rightarrow> Config" where
  "override env c =
    (let c = cf_NodeID_update (stringEnv env ''BROKER_NODE_ID'') c;
         c = cf_HTTP_update (li_Address_update (stringEnv env ''BROKER_HTTP_ADDRESS'')) c;
         c = cf_GRPC_update (li_Address_update (stringEnv env ''BROKER_GRPC_ADDRESS'')) c;
         c = cf_AMQP_update (aq_Address_update (stringEnv env ''BROKER_AMQP_ADDRESS'')) c;
         c = cf_Auth_update (au_Token_update (stringEnv env ''BROKER_AUTH_TOKEN'')) c;
         c = cf_Storage_update (st_Driver_update (stringEnv env ''BROKER_STORAGE_DRIVER'')) c;
         c = cf_Storage_update (st_DataDir_update (stringEnv env ''BROKER_DATA_DIR'')) c;
         c = cf_Storage_update (st_DSN_update (stringEnv env ''BROKER_POSTGRES_DSN'')) c;
         c = cf_Auth_update (au_AllowAnonymous_update (boolEnv env ''BROKER_ALLOW_ANONYMOUS'')) c;
         c = cf_AMQP_update (aq_MaxConnections_update (intEnv env ''BROKER_MAX_CONNECTIONS'')) c in
     cf_AMQP_update (aq_MaxFrameSize_update (uint32Env env ''BROKER_MAX_FRAME_SIZE'')) c)"

section \<open>Validation\<close>

text \<open>\<open>errors.Join\<close> of errors with these texts: nil when there are none, else one text per line.\<close>

definition errors_Join :: "string list \<Rightarrow> error option" where
  "errors_Join all = (if all = [] then None else Some (New (join_with CHR 0x0A all)))"

definition Config_Validate :: "Config \<Rightarrow> error option" where
  "Config_Validate c =
    (let all = [];
         all = (if TrimSpace (cf_NodeID c) = '''' then all @ [''node_id is required''] else all);
         all = (if li_Address (cf_HTTP c) = '''' \<or> li_Address (cf_GRPC c) = '''' \<or> aq_Address (cf_AMQP c) = ''''
                then all @ [''all listener addresses are required''] else all);
         all = (if aq_MaxFrameSize (cf_AMQP c) < 512 then all @ [''max_frame_size must be at least 512''] else all);
         all = (if aq_MaxConnections (cf_AMQP c) < 1 then all @ [''max_connections must be positive''] else all);
         all = (if st_Driver (cf_Storage c) \<noteq> ''memory'' \<and> st_Driver (cf_Storage c) \<noteq> ''file'' \<and> st_Driver (cf_Storage c) \<noteq> ''postgres''
                then all @ [''storage driver must be memory, file, or postgres''] else all);
         all = (if st_Driver (cf_Storage c) = ''postgres'' \<and> st_DSN (cf_Storage c) = ''''
                then all @ [''postgres dsn is required''] else all) in
     errors_Join all)"

section \<open>Loading\<close>

text \<open>A textual duration, when there is one; the error names the setting.\<close>

definition raw_duration :: "(string \<Rightarrow> error + duration) \<Rightarrow> string \<Rightarrow> string \<Rightarrow> duration \<Rightarrow> error + duration" where
  "raw_duration parse what raw d =
    (if raw \<noteq> '''' then (case parse raw of Inl e \<Rightarrow> Inl (Wrap what e) | Inr d \<Rightarrow> Inr d) else Inr d)"

definition read_config ::
  "(string \<Rightarrow> error + byte list) \<Rightarrow> (byte list \<Rightarrow> Config \<Rightarrow> error option \<times> Config) \<Rightarrow> string \<Rightarrow> Config \<Rightarrow> error option \<times> Config" where
  "read_config readFile unmarshal path c =
    (if path \<noteq> '''' then
       (case readFile path of
          Inl e \<Rightarrow> (Some (Wrap ''read config'' e), c)
        | Inr b \<Rightarrow>
          (case unmarshal b c of
             (Some e, c) \<Rightarrow> (Some (Wrap ''parse yaml'' e), c)
           | (None, c) \<Rightarrow> (None, c)))
     else (None, c))"

definition Load ::
  "(string \<Rightarrow> error + byte list) \<Rightarrow> (byte list \<Rightarrow> Config \<Rightarrow> error option \<times> Config) \<Rightarrow> (string \<Rightarrow> error + duration) \<Rightarrow>
    (string \<Rightarrow> string) \<Rightarrow> string \<Rightarrow> error option \<times> Config" where
  "Load readFile unmarshal parseDuration env path =
    (case read_config readFile unmarshal path Default of
       (Some e, c) \<Rightarrow> (Some e, c)
     | (None, c) \<Rightarrow>
       (case raw_duration parseDuration ''amqp idle timeout'' (aq_IdleTimeoutRaw (cf_AMQP c)) (aq_IdleTimeout (cf_AMQP c)) of
          Inl e \<Rightarrow> (Some e, c)
        | Inr d \<Rightarrow>
          (let c = c\<lparr>cf_AMQP := (cf_AMQP c)\<lparr>aq_IdleTimeout := d\<rparr>\<rparr> in
           case raw_duration parseDuration ''sweep interval'' (wk_SweepIntervalRaw (cf_Workers c)) (wk_SweepInterval (cf_Workers c)) of
             Inl e \<Rightarrow> (Some e, c)
           | Inr d \<Rightarrow>
             (let c = c\<lparr>cf_Workers := (cf_Workers c)\<lparr>wk_SweepInterval := d\<rparr>\<rparr> in
              case raw_duration parseDuration ''lease ttl'' (wk_LeaseTTLRaw (cf_Workers c)) (wk_LeaseTTL (cf_Workers c)) of
                Inl e \<Rightarrow> (Some e, c)
              | Inr d \<Rightarrow>
                (let c = c\<lparr>cf_Workers := (cf_Workers c)\<lparr>wk_LeaseTTL := d\<rparr>\<rparr>; c = override env c in
                 (Config_Validate c, c))))))"

section \<open>Lemmas\<close>

lemma digits_value_snoc: "digits_value (s @ [c]) = 10 * digits_value s + (of_char c - 48)"
  by (simp add: digits_value_def)

lemma dec_value: "digits_value (dec n) = n \<and> list_all is_digit (dec n)"
proof (induction n rule: dec.induct)
  case (1 n)
  have d: "of_char (char_of (48 + k) :: char) = 48 + k" "is_digit (char_of (48 + k))" if "k < 10" for k :: nat
    using that by (simp_all add: is_digit_def)
  show ?case
  proof (cases "n < 10")
    case True
    with d [of n] show ?thesis by (simp add: dec.simps [of n] digits_value_def)
  next
    case False
    with 1 d [of "n mod 10"] show ?thesis
      by (simp add: dec.simps [of n] digits_value_snoc)
  qed
qed

lemma dec_not_Nil: "dec n \<noteq> []"
  using dec_nonempty by auto

lemma ParseUint_dec: "n < 2 ^ bits \<Longrightarrow> ParseUint bits (dec n) = Some n"
  using dec_value [of n] dec_not_Nil [of n] by (simp add: ParseUint_def)

lemma ParseUint_bound: "ParseUint bits s = Some n \<Longrightarrow> n < 2 ^ bits"
  by (auto simp: ParseUint_def Let_def split: if_splits)

lemma dec_sign: "hd (dec n) \<noteq> CHR ''-'' \<and> hd (dec n) \<noteq> CHR ''+''"
proof -
  have "hd (dec n) \<in> set (dec n)" using dec_not_Nil by simp
  then have "is_digit (hd (dec n))" using dec_value [of n] by (simp add: list_all_iff)
  then show ?thesis by (auto simp: is_digit_def)
qed

lemma Atoi_dec: "n < 2 ^ 63 \<Longrightarrow> Atoi (dec n) = Some (int n)"
  using dec_value [of n] dec_not_Nil [of n] dec_sign [of n] by (simp add: Atoi_def Let_def)

text \<open>What a configuration must have to be used.\<close>

definition usable :: "Config \<Rightarrow> bool" where
  "usable c = (TrimSpace (cf_NodeID c) \<noteq> '''' \<and> li_Address (cf_HTTP c) \<noteq> '''' \<and> li_Address (cf_GRPC c) \<noteq> '''' \<and>
     aq_Address (cf_AMQP c) \<noteq> '''' \<and> 512 \<le> aq_MaxFrameSize (cf_AMQP c) \<and> 1 \<le> aq_MaxConnections (cf_AMQP c) \<and>
     st_Driver (cf_Storage c) \<in> {''memory'', ''file'', ''postgres''} \<and>
     (st_Driver (cf_Storage c) = ''postgres'' \<longrightarrow> st_DSN (cf_Storage c) \<noteq> ''''))"

lemma errors_Join_None: "errors_Join all = None \<longleftrightarrow> all = []"
  by (simp add: errors_Join_def)

lemma Validate_usable: "Config_Validate c = None \<longleftrightarrow> usable c"
  unfolding Config_Validate_def Let_def errors_Join_None usable_def by (auto simp: not_less dest: leD)

lemma override_fields [simp]:
  "cf_NodeID (override env c) = stringEnv env ''BROKER_NODE_ID'' (cf_NodeID c)"
  "cf_HTTP (override env c) = li_Address_update (stringEnv env ''BROKER_HTTP_ADDRESS'') (cf_HTTP c)"
  "cf_GRPC (override env c) = li_Address_update (stringEnv env ''BROKER_GRPC_ADDRESS'') (cf_GRPC c)"
  "aq_Address (cf_AMQP (override env c)) = stringEnv env ''BROKER_AMQP_ADDRESS'' (aq_Address (cf_AMQP c))"
  "aq_MaxConnections (cf_AMQP (override env c)) = intEnv env ''BROKER_MAX_CONNECTIONS'' (aq_MaxConnections (cf_AMQP c))"
  "aq_MaxFrameSize (cf_AMQP (override env c)) = uint32Env env ''BROKER_MAX_FRAME_SIZE'' (aq_MaxFrameSize (cf_AMQP c))"
  "au_Token (cf_Auth (override env c)) = stringEnv env ''BROKER_AUTH_TOKEN'' (au_Token (cf_Auth c))"
  "au_AllowAnonymous (cf_Auth (override env c)) = boolEnv env ''BROKER_ALLOW_ANONYMOUS'' (au_AllowAnonymous (cf_Auth c))"
  "st_Driver (cf_Storage (override env c)) = stringEnv env ''BROKER_STORAGE_DRIVER'' (st_Driver (cf_Storage c))"
  "st_DataDir (cf_Storage (override env c)) = stringEnv env ''BROKER_DATA_DIR'' (st_DataDir (cf_Storage c))"
  "st_DSN (cf_Storage (override env c)) = stringEnv env ''BROKER_POSTGRES_DSN'' (st_DSN (cf_Storage c))"
  by (simp_all add: override_def Let_def)

lemma parse_empty: "ParseBool '''' = None" "Atoi '''' = None" "ParseUint bits '''' = None"
  by (simp_all add: ParseBool_def Atoi_def ParseUint_def)

lemma env_parsed: "ParseUint 32 (env key) = Some k \<Longrightarrow> uint32Env env key w = word_of_nat k"
  by (cases "env key = ''''") (simp_all add: uint32Env_def parse_empty)

lemma override_empty: "override (\<lambda>_. '''') c = c"
  by (simp add: override_def Let_def stringEnv_def boolEnv_def intEnv_def uint32Env_def)

lemma boolEnv_eq: "boolEnv env key d = (case ParseBool (env key) of None \<Rightarrow> d | Some b \<Rightarrow> b)"
  by (simp add: boolEnv_def parse_empty)

lemma intEnv_eq: "intEnv env key d = (case Atoi (env key) of None \<Rightarrow> d | Some n \<Rightarrow> n)"
  by (simp add: intEnv_def parse_empty)

text \<open>Two configurations that agree in every setting the environment can override.\<close>

definition same_settings :: "Config \<Rightarrow> Config \<Rightarrow> bool" where
  "same_settings f g = (cf_NodeID g = cf_NodeID f \<and> cf_HTTP g = cf_HTTP f \<and> cf_GRPC g = cf_GRPC f \<and> cf_Auth g = cf_Auth f \<and>
     cf_Storage g = cf_Storage f \<and> aq_Address (cf_AMQP g) = aq_Address (cf_AMQP f) \<and>
     aq_MaxFrameSize (cf_AMQP g) = aq_MaxFrameSize (cf_AMQP f) \<and> aq_MaxConnections (cf_AMQP g) = aq_MaxConnections (cf_AMQP f))"

lemma Load_cases:
  assumes "Load rf um pd env path = (None, c)"
  shows "\<exists>f g. read_config rf um path Default = (None, f) \<and> same_settings f g \<and> c = override env g \<and> Config_Validate c = None"
proof -
  obtain f where f: "read_config rf um path Default = (None, f)"
    using assms by (auto simp: Load_def split: prod.splits option.splits)
  let ?g = "\<lambda>d1 d2 d3. f\<lparr>cf_AMQP := (cf_AMQP f)\<lparr>aq_IdleTimeout := d1\<rparr>,
      cf_Workers := (cf_Workers f)\<lparr>wk_SweepInterval := d2, wk_LeaseTTL := d3\<rparr>\<rparr>"
  obtain d1 d2 d3 where "c = override env (?g d1 d2 d3)" "Config_Validate c = None"
    using assms by (auto simp: Load_def f Let_def split: sum.splits)
  moreover have "same_settings f (?g d1 d2 d3)" by (simp add: same_settings_def)
  ultimately show ?thesis using f by blast
qed

section \<open>Properties\<close>

text \<open>
  C25: a configuration that loads can be used. Whatever the file, the YAML library and the environment
  say, when \<open>Load\<close> succeeds the node has a name, every listener an address, frames are at least 512
  bytes, some connection is allowed, the storage driver is one of the three and PostgreSQL has a DSN;
  and each of the eleven settings the environment can override is the one of the environment where
  that is set (texts as they are; the boolean and the two numbers when they can be read), and the one
  of the file, or the default, everywhere else.
\<close>

theorem Load_usable:
  assumes "Load rf um pd env path = (None, c)"
  shows "usable c \<and> (\<exists>f. read_config rf um path Default = (None, f) \<and>
    cf_NodeID c = (if env ''BROKER_NODE_ID'' = '''' then cf_NodeID f else env ''BROKER_NODE_ID'') \<and>
    li_Address (cf_HTTP c) = (if env ''BROKER_HTTP_ADDRESS'' = '''' then li_Address (cf_HTTP f) else env ''BROKER_HTTP_ADDRESS'') \<and>
    li_Address (cf_GRPC c) = (if env ''BROKER_GRPC_ADDRESS'' = '''' then li_Address (cf_GRPC f) else env ''BROKER_GRPC_ADDRESS'') \<and>
    aq_Address (cf_AMQP c) = (if env ''BROKER_AMQP_ADDRESS'' = '''' then aq_Address (cf_AMQP f) else env ''BROKER_AMQP_ADDRESS'') \<and>
    au_Token (cf_Auth c) = (if env ''BROKER_AUTH_TOKEN'' = '''' then au_Token (cf_Auth f) else env ''BROKER_AUTH_TOKEN'') \<and>
    st_Driver (cf_Storage c) = (if env ''BROKER_STORAGE_DRIVER'' = '''' then st_Driver (cf_Storage f) else env ''BROKER_STORAGE_DRIVER'') \<and>
    st_DataDir (cf_Storage c) = (if env ''BROKER_DATA_DIR'' = '''' then st_DataDir (cf_Storage f) else env ''BROKER_DATA_DIR'') \<and>
    st_DSN (cf_Storage c) = (if env ''BROKER_POSTGRES_DSN'' = '''' then st_DSN (cf_Storage f) else env ''BROKER_POSTGRES_DSN'') \<and>
    au_AllowAnonymous (cf_Auth c) = (case ParseBool (env ''BROKER_ALLOW_ANONYMOUS'') of None \<Rightarrow> au_AllowAnonymous (cf_Auth f) | Some b \<Rightarrow> b) \<and>
    (case ParseUint 32 (env ''BROKER_MAX_FRAME_SIZE'') of None \<Rightarrow> aq_MaxFrameSize (cf_AMQP c) = aq_MaxFrameSize (cf_AMQP f)
       | Some n \<Rightarrow> unat (aq_MaxFrameSize (cf_AMQP c)) = n) \<and>
    aq_MaxConnections (cf_AMQP c) = (case Atoi (env ''BROKER_MAX_CONNECTIONS'') of None \<Rightarrow> aq_MaxConnections (cf_AMQP f) | Some n \<Rightarrow> n)) \<and>
    (\<forall>n<2 ^ 32. env ''BROKER_MAX_FRAME_SIZE'' = dec n \<longrightarrow> unat (aq_MaxFrameSize (cf_AMQP c)) = n) \<and>
    (\<forall>n<2 ^ 63. env ''BROKER_MAX_CONNECTIONS'' = dec n \<longrightarrow> aq_MaxConnections (cf_AMQP c) = int n)"
proof -
  obtain f g where l: "read_config rf um path Default = (None, f)" "same_settings f g" "c = override env g" "usable c"
    using Load_cases [OF assms] by (auto simp: Validate_usable)
  have "uint32Env env key w = w" if "ParseUint 32 (env key) = None" for key w
    using that by (simp add: uint32Env_def)
  moreover have read: "unat (uint32Env env key w) = n" if "ParseUint 32 (env key) = Some n" for key w n
    using env_parsed [of env, OF that] ParseUint_bound [OF that] by (simp add: unat_of_nat)
  ultimately have "case ParseUint 32 (env ''BROKER_MAX_FRAME_SIZE'') of None \<Rightarrow> aq_MaxFrameSize (cf_AMQP c) = aq_MaxFrameSize (cf_AMQP f)
       | Some n \<Rightarrow> unat (aq_MaxFrameSize (cf_AMQP c)) = n"
    using l(2) by (auto simp: l(3) same_settings_def split: option.split)
  moreover note l(4)
  moreover have "\<forall>n<2 ^ 32. env ''BROKER_MAX_FRAME_SIZE'' = dec n \<longrightarrow> unat (aq_MaxFrameSize (cf_AMQP c)) = n"
    using read ParseUint_dec [of _ 32] by (simp add: l(3))
  moreover have "\<forall>n<2 ^ 63. env ''BROKER_MAX_CONNECTIONS'' = dec n \<longrightarrow> aq_MaxConnections (cf_AMQP c) = int n"
    using Atoi_dec by (simp add: l(3) intEnv_eq)
  ultimately show ?thesis
    using l(1,2) by (intro conjI exI [of _ f]) (assumption | simp add: l(3) same_settings_def stringEnv_def boolEnv_eq intEnv_eq)+
qed

text \<open>Without a file and an environment the defaults are used.\<close>

lemma node_1_trimmed: "TrimSpace ''node-1'' \<noteq> ''''"
  using TrimSpace_name [of "''node-1''"] by (simp add: name_start_def name_char_def)

lemma Default_usable: "usable Default"
  using node_1_trimmed by (simp add: usable_def Default_def)

lemma Load_default: "Load rf um pd (\<lambda>_. '''') '''' = (None, Default)"
proof -
  have "Config_Validate Default = None" using Default_usable by (simp add: Validate_usable)
  then show ?thesis
    by (simp add: Load_def read_config_def raw_duration_def override_empty Default_def)
qed

definition sample_file :: "byte list \<Rightarrow> Config \<Rightarrow> error option \<times> Config" where
  "sample_file b c = (None, cf_AMQP_update (aq_IdleTimeoutRaw_update (\<lambda>_. ''5s'')) c)"

theorem Load_usable_witness:
  "\<exists>c. Load (\<lambda>_. Inr []) sample_file (\<lambda>_. Inr (5 * second)) (\<lambda>k. if k = ''BROKER_MAX_FRAME_SIZE'' then dec 4096 else '''') ''broker.yaml'' = (None, c) \<and>
     unat (aq_MaxFrameSize (cf_AMQP c)) = 4096 \<and> aq_IdleTimeout (cf_AMQP c) = 5 * second"
proof -
  let ?env = "\<lambda>k. if k = ''BROKER_MAX_FRAME_SIZE'' then dec 4096 else ''''"
  let ?c = "Default\<lparr>cf_AMQP := (cf_AMQP Default)\<lparr>aq_IdleTimeoutRaw := ''5s'', aq_IdleTimeout := 5 * second\<rparr>\<rparr>"
  have "uint32Env ?env ''BROKER_MAX_FRAME_SIZE'' d = 4096" for d
    using ParseUint_dec [of 4096 32] env_parsed [of ?env] by simp
  then have "usable (override ?env ?c)"
    using Default_usable by (simp add: usable_def stringEnv_def intEnv_def)
  then have l: "Load (\<lambda>_. Inr []) sample_file (\<lambda>_. Inr (5 * second)) ?env ''broker.yaml'' = (None, override ?env ?c)"
    by (simp add: Load_def read_config_def raw_duration_def sample_file_def Validate_usable [symmetric] Let_def) (simp add: Default_def)
  have "aq_IdleTimeout (cf_AMQP (override ?env ?c)) = 5 * second" by (simp add: override_def Let_def)
  then show ?thesis using l Load_usable [OF l] ParseUint_dec [of 4096 32] by auto
qed

end
