(* ===== verification/Broker.thy ===== *)
theory Broker
  imports PeerServe TxService Cluster Config
begin

text \<open>
  The composition of the broker: the snapshot file (\<open>SnapshotFile\<close> of
  \<open>storage/infrastructure/snapshot.go\<close>), the runtime that wires the services (\<open>broker/runtime.go\<close>), the
  sweeping worker (\<open>worker/service.go\<close>) and the settings the executable takes from its configuration
  (\<open>cmd/broker/main.go\<close>).

  The data directory is a \<open>disk\<close>: the metadata file, the temporary file of a running save and the
  message log. JSON (\<open>json.MarshalIndent\<close>, \<open>json.Unmarshal\<close>) is a parameter; so is the error each
  file-system call returns. The services of the runtime share one memory store and one log, which the
  model keeps once, in the delivery service of the AMQP server.
\<close>

section \<open>Snapshot file\<close>

record disk =
  dk_meta :: "byte list option"
  dk_temp :: "byte list option"
  dk_log :: "byte list"

datatype file_call = ReadFile | MkdirAll | CreateTemp | Chmod | TempWrite | TempSync | TempClose | Rename | Remove

type_synonym faults = "file_call \<Rightarrow> error option"

definition SnapshotFile_Load ::
  "(byte list \<Rightarrow> error + Snapshot) \<Rightarrow> faults \<Rightarrow> ranges \<Rightarrow> ctx \<Rightarrow> disk \<Rightarrow> Memory \<Rightarrow> error option \<times> Memory" where
  "SnapshotFile_Load unmarshal io rs ctx d m =
    (case io ReadFile of
       Some e \<Rightarrow> (Some (Wrap ''read metadata snapshot'' e), m)
     | None \<Rightarrow>
       (case dk_meta d of
          None \<Rightarrow> (None, m)
        | Some b \<Rightarrow>
          (case unmarshal b of
             Inl e \<Rightarrow> (Some (Wrap ''decode metadata snapshot'' e), m)
           | Inr s \<Rightarrow>
             (case Restore rs ctx s m of
                Inl e \<Rightarrow> (Some e, m)
              | Inr m' \<Rightarrow> (None, m')))))"

text \<open>
  The calls on the temporary file, up to the rename. A failing write may leave some bytes; the rename
  replaces the metadata file at once. \<open>part\<close> is how many bytes a failing write has written.
\<close>

definition write_temp :: "faults \<Rightarrow> nat \<Rightarrow> byte list \<Rightarrow> disk \<Rightarrow> error option \<times> disk" where
  "write_temp io part b d =
    (case io Chmod of
       Some e \<Rightarrow> (Some e, d)
     | None \<Rightarrow>
       (case io TempWrite of
          Some e \<Rightarrow> (Some e, d\<lparr>dk_temp := Some (take part b)\<rparr>)
        | None \<Rightarrow>
          let d = d\<lparr>dk_temp := Some b\<rparr> in
          case io TempSync of
            Some e \<Rightarrow> (Some e, d)
          | None \<Rightarrow>
            (case io TempClose of
               Some e \<Rightarrow> (Some e, d)
             | None \<Rightarrow>
               (case io Rename of
                  Some e \<Rightarrow> (Some e, d)
                | None \<Rightarrow> (None, d\<lparr>dk_meta := dk_temp d, dk_temp := None\<rparr>)))))"

text \<open>The temporary file is removed when the function returns; the error of that is ignored, and the file stays.\<close>

definition SnapshotFile_Save ::
  "(Snapshot \<Rightarrow> error + byte list) \<Rightarrow> faults \<Rightarrow> nat \<Rightarrow> ranges \<Rightarrow> ctx \<Rightarrow> Memory \<Rightarrow> disk \<Rightarrow> error option \<times> disk" where
  "SnapshotFile_Save marshal io part rs ctx m d =
    (case mem_Snapshot rs ctx m of
       Inl e \<Rightarrow> (Some e, d)
     | Inr s \<Rightarrow>
       (case marshal s of
          Inl e \<Rightarrow> (Some e, d)
        | Inr b \<Rightarrow>
          (case io MkdirAll of
             Some e \<Rightarrow> (Some e, d)
           | None \<Rightarrow>
             (case io CreateTemp of
                Some e \<Rightarrow> (Some e, d)
              | None \<Rightarrow>
                (case write_temp io part b (d\<lparr>dk_temp := Some []\<rparr>) of
                   (err, d') \<Rightarrow> (err, if io Remove = None then d'\<lparr>dk_temp := None\<rparr> else d'))))))"

section \<open>Runtime\<close>

record Settings =
  se_NodeID :: string
  se_MaxFrame :: "32 word"
  se_IdleTimeout :: duration
  se_MaxConnections :: int
  se_LeaseTTL :: duration
  se_Shards :: "32 word"
  se_AuthToken :: string
  se_AllowAnonymous :: bool

record Runtime =
  rt_NodeID :: string
  rt_AMQP :: "FileLog Server"
  rt_txTTL :: duration
  rt_Cluster :: ClusterService
  rt_Coordinator :: Coordinator

abbreviation rt_Delivery :: "Runtime \<Rightarrow> FileLog Service" where
  "rt_Delivery r \<equiv> sr_Delivery (rt_AMQP r)"

abbreviation rt_Memory :: "Runtime \<Rightarrow> Memory" where
  "rt_Memory r \<equiv> sv_mem (rt_Delivery r)"

abbreviation rt_BodyLog :: "Runtime \<Rightarrow> FileLog" where
  "rt_BodyLog r \<equiv> sv_log (rt_Delivery r)"

definition rt_set_delivery :: "FileLog Service \<Rightarrow> Runtime \<Rightarrow> Runtime" where
  "rt_set_delivery s r = r\<lparr>rt_AMQP := (rt_AMQP r)\<lparr>sr_Delivery := s\<rparr>\<rparr>"

definition rt_set_mem :: "Memory \<Rightarrow> Runtime \<Rightarrow> Runtime" where
  "rt_set_mem m r = rt_set_delivery ((rt_Delivery r)\<lparr>sv_mem := m\<rparr>) r"

text \<open>The defaults \<open>Build\<close> puts in.\<close>

definition with_defaults :: "Settings \<Rightarrow> Settings" where
  "with_defaults s =
    (let s = (if se_Shards s = 0 then s\<lparr>se_Shards := 32\<rparr> else s);
         s = (if se_MaxConnections s = 0 then s\<lparr>se_MaxConnections := 1024\<rparr> else s);
         s = (if se_MaxFrame s = 0 then s\<lparr>se_MaxFrame := 1048576\<rparr> else s) in
     if se_LeaseTTL s \<le> 0 then s\<lparr>se_LeaseTTL := 15 * second\<rparr> else s)"

text \<open>
  \<open>Build\<close> on a data directory. \<open>ctx\<close> is the context with its time limit, \<open>now\<close> the clock of the
  coordinator; opening the log may fail on its own (\<open>logerr\<close>).
\<close>

definition Build ::
  "(byte list \<Rightarrow> error + Snapshot) \<Rightarrow> faults \<Rightarrow> error option \<Rightarrow> ranges \<Rightarrow> ctx \<Rightarrow> time \<Rightarrow> Settings \<Rightarrow> disk \<Rightarrow> error + Runtime" where
  "Build unmarshal io logerr rs ctx now settings d =
    (let settings = with_defaults settings in
     case SnapshotFile_Load unmarshal io rs ctx d NewMemory of
       (Some e, _) \<Rightarrow> Inl e
     | (None, mem) \<Rightarrow>
       (case guardE logerr (OpenFileLog (dk_log d)) of
          Inl e \<Rightarrow> Inl e
        | Inr logStore \<Rightarrow>
          let deliveries = NewDeliveryService mem logStore;
              coord = (case RegisterNode ctx now \<lparr>n_ID = se_NodeID settings, n_Capacity = int (unat (se_Shards settings)),
                         n_Healthy = False, n_LastSeen = 0, n_Draining = False\<rparr> NewCoordinator of
                 Inl _ \<Rightarrow> NewCoordinator | Inr c \<Rightarrow> c);
              server = \<lparr>sr_MaxFrame = se_MaxFrame settings, sr_IdleTimeout = se_IdleTimeout settings,
                sr_Auth = Some \<lparr>a_Username = '''', a_Password = '''', a_AllowAnonymous = se_AllowAnonymous settings\<rparr>,
                sr_Connections = New_conn_Registry (se_MaxConnections settings), sr_Sessions = NewSessionRegistry,
                sr_Links = NewLinkRegistry, sr_Delivery = deliveries\<rparr> in
          Inr \<lparr>rt_NodeID = se_NodeID settings, rt_AMQP = server, rt_txTTL = tx_ttl (30 * second),
            rt_Cluster = NewClusterService (se_NodeID settings) (se_Shards settings) (se_LeaseTTL settings),
            rt_Coordinator = coord\<rparr>))"

text \<open>\<open>Close\<close>: stop the server (\<open>amqp\<close> is its error), save the metadata, close the log. The log file has every record already.\<close>

definition Runtime_Close ::
  "(Snapshot \<Rightarrow> error + byte list) \<Rightarrow> faults \<Rightarrow> nat \<Rightarrow> ranges \<Rightarrow> error option \<Rightarrow> error option \<Rightarrow> ctx \<Rightarrow> Runtime \<Rightarrow> disk \<Rightarrow> error option \<times> disk" where
  "Runtime_Close marshal io part rs amqp logclose ctx r d =
    (let d = d\<lparr>dk_log := fl_data (rt_BodyLog r)\<rparr> in
     case amqp of
       Some e \<Rightarrow> (Some e, d)
     | None \<Rightarrow>
       (case SnapshotFile_Save marshal io part rs ctx (rt_Memory r) d of
          (Some e, d) \<Rightarrow> (Some e, d)
        | (None, d) \<Rightarrow> (logclose, d)))"

definition Runtime_Sweep :: "ranges \<Rightarrow> ctx \<Rightarrow> (nat \<Rightarrow> time) \<Rightarrow> (nat \<Rightarrow> time) \<Rightarrow> Runtime \<Rightarrow> (error option \<times> nat) \<times> Runtime" where
  "Runtime_Sweep rs ctx clk clk' r =
    (case SweepExpired rs ctx clk (rt_Memory r) of
       ((Some e, a), m) \<Rightarrow> ((Some e, a), rt_set_mem m r)
     | ((None, a), m) \<Rightarrow>
       (case tx_Sweep rs ctx clk' m of
          ((err, t), m') \<Rightarrow> ((err, a + t), rt_set_mem m' r)))"

record Status =
  ss_node_id :: string
  ss_addresses :: nat
  ss_connections :: nat
  ss_leases :: nat
  ss_storage :: string

text \<open>A failing list counts as empty.\<close>

definition len_or_0 :: "error + 'a list \<Rightarrow> nat" where
  "len_or_0 r = (case r of Inl _ \<Rightarrow> 0 | Inr xs \<Rightarrow> length xs)"

definition Runtime_Status :: "ranges \<Rightarrow> (32 word, Lease) order \<Rightarrow> ctx \<Rightarrow> Runtime \<Rightarrow> Status" where
  "Runtime_Status rs lrng ctx r =
    \<lparr>ss_node_id = rt_NodeID r, ss_addresses = len_or_0 (as_List rs ctx (rt_Memory r)),
     ss_connections = conn_Count (sr_Connections (rt_AMQP r)), ss_leases = len_or_0 (Leases lrng ctx (rt_Coordinator r)),
     ss_storage = ''memory+filelog''\<rparr>"

section \<open>Executable and worker\<close>

text \<open>The settings \<open>run\<close> passes to \<open>Build\<close>.\<close>

definition settings_of :: "Config \<Rightarrow> Settings" where
  "settings_of cfg = \<lparr>se_NodeID = cf_NodeID cfg, se_MaxFrame = aq_MaxFrameSize (cf_AMQP cfg),
     se_IdleTimeout = aq_IdleTimeout (cf_AMQP cfg), se_MaxConnections = aq_MaxConnections (cf_AMQP cfg),
     se_LeaseTTL = wk_LeaseTTL (cf_Workers cfg), se_Shards = 32, se_AuthToken = au_Token (cf_Auth cfg),
     se_AllowAnonymous = au_AllowAnonymous (cf_Auth cfg)\<rparr>"

definition worker_interval :: "duration \<Rightarrow> duration" where
  "worker_interval interval = (if interval \<le> 0 then second else interval)"

text \<open>The worker sweeps at every tick until it is stopped; an error of a sweep is logged and the next tick sweeps again.\<close>

fun worker_ticks :: "(ranges \<times> ctx \<times> (nat \<Rightarrow> time) \<times> (nat \<Rightarrow> time)) list \<Rightarrow> Runtime \<Rightarrow> Runtime" where
  "worker_ticks [] r = r"
| "worker_ticks ((rs, ctx, clk, clk') # ticks) r = worker_ticks ticks (snd (Runtime_Sweep rs ctx clk clk' r))"

section \<open>Saving\<close>

lemma write_temp_cases:
  assumes "write_temp io part b d = (err, d')"
  shows "dk_log d' = dk_log d \<and> (err = None \<and> dk_meta d' = Some b \<and> dk_temp d' = None \<or>
    err \<noteq> None \<and> dk_meta d' = dk_meta d \<and> (dk_temp d \<noteq> None \<longrightarrow> dk_temp d' \<noteq> None))"
  using assms by (auto simp: write_temp_def Let_def split: option.splits)

lemma Save_cases:
  assumes "SnapshotFile_Save marshal io part rs ctx m d = (err, d')"
  shows "dk_log d' = dk_log d" "err \<noteq> None \<Longrightarrow> dk_meta d' = dk_meta d"
    "err = None \<Longrightarrow> \<exists>s b. mem_Snapshot rs ctx m = Inr s \<and> marshal s = Inr b \<and> dk_meta d' = Some b \<and> dk_temp d' = None"
  using assms by (auto simp: SnapshotFile_Save_def split: sum.splits option.splits prod.splits if_splits dest!: write_temp_cases)

text \<open>
  C9: a snapshot is saved as a whole or not at all. Whichever calls to the file system fail, and
  however many bytes a failing write leaves, after a save the metadata file is either the one that was
  there before, and the save reports an error, or the complete encoding of the store, and it reports
  none; the message log is not touched. A temporary file is left exactly when one was created, the
  save then failed, and removing the file failed as well.
\<close>

theorem Save_atomic:
  assumes "SnapshotFile_Save marshal io part rs ctx m d = (err, d')"
  shows "dk_log d' = dk_log d \<and> (err \<noteq> None \<longrightarrow> dk_meta d' = dk_meta d) \<and>
    (err = None \<longrightarrow> (\<exists>s b. mem_Snapshot rs ctx m = Inr s \<and> marshal s = Inr b \<and> dk_meta d' = Some b)) \<and>
    (dk_temp d = None \<longrightarrow> (dk_temp d' \<noteq> None \<longleftrightarrow> err \<noteq> None \<and> io Remove \<noteq> None \<and> io MkdirAll = None \<and> io CreateTemp = None \<and>
       (\<exists>s b. mem_Snapshot rs ctx m = Inr s \<and> marshal s = Inr b)))"
proof -
  have "dk_temp d' \<noteq> None \<longleftrightarrow> err \<noteq> None \<and> io Remove \<noteq> None \<and> io MkdirAll = None \<and> io CreateTemp = None \<and>
      (\<exists>s b. mem_Snapshot rs ctx m = Inr s \<and> marshal s = Inr b)" if "dk_temp d = None"
    using assms that
    by (auto simp: SnapshotFile_Save_def split: sum.splits option.splits prod.splits if_splits dest!: write_temp_cases)
  with Save_cases [OF assms] show ?thesis by blast
qed

theorem Save_atomic_witness:
  "\<exists>d'. SnapshotFile_Save (\<lambda>s. Inr [1, 2, 3]) ((\<lambda>_. None)(TempWrite := Some (New ''disk full''), Remove := Some EOF)) 2
      id_ranges None NewMemory \<lparr>dk_meta = Some [9], dk_temp = None, dk_log = []\<rparr> = (Some (New ''disk full''), d') \<and>
    dk_meta d' = Some [9] \<and> dk_temp d' \<noteq> None"
proof -
  let ?d = "\<lparr>dk_meta = Some [9], dk_temp = None, dk_log = []\<rparr>"
  let ?io = "(\<lambda>_. None)(TempWrite := Some (New ''disk full''), Remove := Some EOF)"
  obtain err d' where s: "SnapshotFile_Save (\<lambda>s. Inr [1, 2, 3]) ?io 2 id_ranges None NewMemory ?d = (err, d')" by fastforce
  have "err = Some (New ''disk full'')"
    using s by (auto simp: SnapshotFile_Save_def mem_Snapshot_def write_temp_def)
  with s Save_atomic [OF s] show ?thesis by (auto simp: mem_Snapshot_def)
qed

section \<open>Restoring\<close>

lemma keyed_fold_put: "keyed f m \<Longrightarrow> (\<And>x. f (g x) = f x) \<Longrightarrow> keyed f (fold (\<lambda>x m. put (f x) (g x) m) xs m)"
proof (induction xs arbitrary: m)
  case (Cons x xs)
  then show ?case using keyed_put [of f m "g x"] by simp
qed simp

lemma keyed_release: "keyed m_ID ms \<Longrightarrow> keyed m_ID (release_message mid ms)"
  using keyed_get [of m_ID ms mid] keyed_put [of m_ID ms] by (auto simp: release_message_def split: option.splits)

lemma keyed_fold_release: "keyed m_ID ms \<Longrightarrow> keyed m_ID (fold (\<lambda>(d, mid) ms. release_message mid ms) us ms)"
  by (induction us arbitrary: ms) (auto simp: keyed_release)

lemma restore_consumers_wf:
  "keyed m_ID ms \<Longrightarrow> keyed co_ID cs \<Longrightarrow> (\<And>k c. get cs k = Some c \<Longrightarrow> co_Unsettled c = [] \<and> \<not> co_Connected c) \<Longrightarrow>
    fold (restore_consumer rs) xs (ms, cs) = (ms', cs') \<Longrightarrow>
    keyed m_ID ms' \<and> keyed co_ID cs' \<and> (\<forall>k c. get cs' k = Some c \<longrightarrow> co_Unsettled c = [] \<and> \<not> co_Connected c)"
proof (induction xs arbitrary: ms cs)
  case (Cons c xs)
  let ?ms = "fold (\<lambda>(d, mid) ms. release_message mid ms) (r_unsettled rs (co_Unsettled c)) ms"
  let ?cs = "put (co_ID c) (c\<lparr>co_Connected := False, co_Credit := 0, co_Unsettled := []\<rparr>) cs"
  have "fold (restore_consumer rs) xs (?ms, ?cs) = (ms', cs')" using Cons.prems(4) by (simp add: restore_consumer_def [of rs c])
  with Cons.prems keyed_fold_release [OF Cons.prems(1)] show ?case
    by (intro Cons.IH [of ?ms ?cs]) (auto simp: map_simps split: if_splits)
qed auto

lemma Restore_wf:
  assumes "Restore rs ctx s m0 = Inr m"
  shows "mem_wf m" "get (mm_consumers m) k = Some c \<Longrightarrow> co_Unsettled c = [] \<and> \<not> co_Connected c"
proof -
  let ?ms = "fold (\<lambda>msg ms. put (m_ID msg) (restore_message msg) ms) (sn_Messages s) []"
  obtain ms cs where f: "fold (restore_consumer rs) (sn_Consumers s) (?ms, []) = (ms, cs)" by fastforce
  have m: "m = \<lparr>mm_addresses = fold (\<lambda>a as. put (ad_Name a) a as) (sn_Addresses s) [],
      mm_bindings = fold (\<lambda>b bs. put (b_ID b) b bs) (sn_Bindings s) [], mm_messages = ms, mm_consumers = cs,
      mm_transactions = fold (\<lambda>t ts. put (t_ID t) t ts) (sn_Transactions s) []\<rparr>"
    using assms f by (auto simp: Restore_def guardE_Inr_iff Let_def split: if_splits)
  have "keyed m_ID ?ms" by (intro keyed_fold_put) (auto simp: restore_message_def)
  with restore_consumers_wf [OF _ _ _ f] have w: "keyed m_ID ms" "keyed co_ID cs"
    "\<And>k c. get cs k = Some c \<Longrightarrow> co_Unsettled c = [] \<and> \<not> co_Connected c" by auto
  show "mem_wf m" using w keyed_fold_put [of "ad_Name :: Address \<Rightarrow> string" "[]" "\<lambda>x. x"]
      keyed_fold_put [of "b_ID :: Binding \<Rightarrow> string" "[]" "\<lambda>x. x"] keyed_fold_put [of "t_ID :: Transaction \<Rightarrow> string" "[]" "\<lambda>x. x"]
    by (simp add: m mem_wf_def)
  show "get (mm_consumers m) k = Some c \<Longrightarrow> co_Unsettled c = [] \<and> \<not> co_Connected c" using w(3) by (simp add: m)
qed

lemma Load_wf:
  assumes "SnapshotFile_Load unmarshal io rs ctx d NewMemory = (None, m)"
  shows "mem_wf m" "get (mm_consumers m) k = Some c \<Longrightarrow> co_Unsettled c = [] \<and> \<not> co_Connected c"
  using assms Restore_wf by (auto simp: SnapshotFile_Load_def mem_wf_New split: option.splits sum.splits) (auto simp: NewMemory_def)

lemma with_defaults_fields:
  "se_Shards (with_defaults s) \<noteq> 0" "0 < se_LeaseTTL (with_defaults s)" "se_MaxFrame (with_defaults s) \<noteq> 0"
  "se_MaxConnections (with_defaults s) \<noteq> 0" "se_NodeID (with_defaults s) = se_NodeID s"
  "se_MaxFrame s \<noteq> 0 \<Longrightarrow> se_MaxFrame (with_defaults s) = se_MaxFrame s"
  "se_MaxConnections s \<noteq> 0 \<Longrightarrow> se_MaxConnections (with_defaults s) = se_MaxConnections s"
  by (simp_all add: with_defaults_def Let_def)

lemma Build_Inr:
  assumes "Build unmarshal io logerr rs ctx now settings d = Inr r"
  shows "\<exists>m l. SnapshotFile_Load unmarshal io rs ctx d NewMemory = (None, m) \<and> OpenFileLog (dk_log d) = Inr l \<and>
    rt_Delivery r = NewDeliveryService m l \<and> sr_MaxFrame (rt_AMQP r) = se_MaxFrame (with_defaults settings) \<and>
    sr_Connections (rt_AMQP r) = New_conn_Registry (se_MaxConnections (with_defaults settings)) \<and>
    sr_Sessions (rt_AMQP r) = NewSessionRegistry \<and> sr_Links (rt_AMQP r) = NewLinkRegistry \<and>
    rt_Cluster r = NewClusterService (se_NodeID settings) (se_Shards (with_defaults settings)) (se_LeaseTTL (with_defaults settings))"
  using assms
  by (auto simp: Build_def Let_def guardE_Inr_iff with_defaults_fields split: prod.splits option.splits sum.splits)

text \<open>
  A runtime that builds is ready. Whatever the settings, the snapshot file and its contents, a
  built runtime has a store whose maps file every object under its own identifier, no consumer is
  connected or has anything unsettled, the three registries are empty and consistent, and frames,
  connections, shards and leases have non-zero limits (so no shard is computed modulo zero); with the
  settings of a configuration that has loaded, frames are at least 512 bytes and a connection is allowed.
\<close>

theorem Build_ready:
  assumes "Build unmarshal io logerr rs ctx now settings d = Inr r"
  shows "mem_wf (rt_Memory r) \<and>
    (\<forall>k c. get (mm_consumers (rt_Memory r)) k = Some c \<longrightarrow> co_Unsettled c = [] \<and> \<not> co_Connected c) \<and>
    sessions.inv (sr_Sessions (rt_AMQP r)) \<and> links.inv (sr_Links (rt_AMQP r)) \<and> conn_Count (sr_Connections (rt_AMQP r)) = 0 \<and>
    sr_MaxFrame (rt_AMQP r) \<noteq> 0 \<and> cr_max (sr_Connections (rt_AMQP r)) \<noteq> 0 \<and> 0 < cl_ttl (rt_Cluster r) \<and>
    (\<forall>a. \<exists>shard. Shard (rt_Cluster r) a = Inr shard \<and> shard < cl_shards (rt_Cluster r)) \<and>
    (\<forall>cfg. usable cfg \<and> settings = settings_of cfg \<longrightarrow>
       512 \<le> sr_MaxFrame (rt_AMQP r) \<and> 1 \<le> cr_max (sr_Connections (rt_AMQP r)))"
proof -
  from Build_Inr [OF assms] obtain m l where
    l: "SnapshotFile_Load unmarshal io rs ctx d NewMemory = (None, m)"
    and r: "rt_Delivery r = NewDeliveryService m l" "sr_MaxFrame (rt_AMQP r) = se_MaxFrame (with_defaults settings)"
      "sr_Connections (rt_AMQP r) = New_conn_Registry (se_MaxConnections (with_defaults settings))"
      "sr_Sessions (rt_AMQP r) = NewSessionRegistry" "sr_Links (rt_AMQP r) = NewLinkRegistry"
      "rt_Cluster r = NewClusterService (se_NodeID settings) (se_Shards (with_defaults settings)) (se_LeaseTTL (with_defaults settings))"
    by blast
  have "rt_Memory r = m" by (simp add: r NewDeliveryService_def)
  moreover have "\<exists>shard. Shard (rt_Cluster r) a = Inr shard \<and> shard < cl_shards (rt_Cluster r)" for a
    by (rule Shard_range) (simp add: r NewClusterService_def with_defaults_fields)
  moreover have "512 \<le> sr_MaxFrame (rt_AMQP r) \<and> 1 \<le> cr_max (sr_Connections (rt_AMQP r))" if "usable cfg" "settings = settings_of cfg" for cfg
  proof -
    have "se_MaxFrame settings \<noteq> 0" "se_MaxConnections settings \<noteq> 0" using that by (auto simp: usable_def settings_of_def)
    with that show ?thesis by (simp add: r with_defaults_fields New_conn_Registry_def) (simp add: settings_of_def usable_def)
  qed
  ultimately show ?thesis
    using Load_wf [OF l] with_defaults_fields [of settings]
    by (simp add: r sessions.inv_empty links.inv_empty conn_Count_def New_conn_Registry_def NewClusterService_def)
qed

lemma Close_saved:
  assumes "Runtime_Close marshal io part rs amqp logclose ctx r d = (None, d')"
  shows "\<exists>s b. mem_Snapshot rs ctx (rt_Memory r) = Inr s \<and> marshal s = Inr b \<and> dk_meta d' = Some b \<and>
    dk_log d' = fl_data (rt_BodyLog r)"
proof -
  let ?d = "d\<lparr>dk_log := fl_data (rt_BodyLog r)\<rparr>"
  have s: "SnapshotFile_Save marshal io part rs ctx (rt_Memory r) ?d = (None, d')"
    using assms by (auto simp: Runtime_Close_def Let_def split: option.splits prod.splits)
  from Save_cases(1) [OF s] Save_cases(3) [OF s] show ?thesis by auto
qed

lemma restart_recovered:
  assumes "mem_wf (rt_Memory r)" "log_rep (rt_BodyLog r) recs" "list_all (\<lambda>x. length (record_bytes x) \<le> 67108864) recs"
    and "valid_ranges rs" "valid_ranges rs'" "io' ReadFile = None"
    and "\<And>s b. mem_Snapshot rs None (rt_Memory r) = Inr s \<Longrightarrow> marshal s = Inr b \<Longrightarrow> unmarshal b = Inr s"
    and "Runtime_Close marshal io part rs amqp logclose None r d = (None, d')"
  shows "\<exists>r'. Build unmarshal io' None rs' None now settings d' = Inr r' \<and> rt_BodyLog r' = rt_BodyLog r \<and>
    (\<forall>k. get (mm_addresses (rt_Memory r')) k = get (mm_addresses (rt_Memory r)) k) \<and>
    (\<forall>k. get (mm_bindings (rt_Memory r')) k = get (mm_bindings (rt_Memory r)) k) \<and>
    (\<forall>k. get (mm_transactions (rt_Memory r')) k = get (mm_transactions (rt_Memory r)) k) \<and>
    (\<forall>k. mem_message None k (rt_Memory r') = map_sum id (recovered (rt_Memory r)) (mem_message None k (rt_Memory r))) \<and>
    (\<forall>k c. get (mm_consumers (rt_Memory r')) k = Some c \<longrightarrow> \<not> co_Connected c \<and> co_Unsettled c = [])"
proof -
  from Close_saved [OF assms(8)] obtain s b where
    s: "mem_Snapshot rs None (rt_Memory r) = Inr s" "marshal s = Inr b" "dk_meta d' = Some b" "dk_log d' = fl_data (rt_BodyLog r)" by blast
  from snapshot_restored [OF assms(1,4,5), of NewMemory] s(1) obtain m' where
    m': "Restore rs' None s NewMemory = Inr m'" "get (mm_addresses m') = get (mm_addresses (rt_Memory r))"
      "get (mm_bindings m') = get (mm_bindings (rt_Memory r))" "get (mm_transactions m') = get (mm_transactions (rt_Memory r))"
      "\<And>k. get (mm_messages m') k = map_option (recovered (rt_Memory r)) (get (mm_messages (rt_Memory r)) k)"
    by auto
  have load: "SnapshotFile_Load unmarshal io' rs' None d' NewMemory = (None, m')"
    using assms(6,7) s m'(1) by (simp add: SnapshotFile_Load_def)
  have "OpenFileLog (dk_log d') = Inr (rt_BodyLog r)"
    using OpenFileLog_rep [OF assms(2)] assms(3) s(4) by simp
  then obtain r' where b: "Build unmarshal io' None rs' None now settings d' = Inr r'" "rt_Delivery r' = NewDeliveryService m' (rt_BodyLog r)"
    using load by (auto simp: Build_def Let_def)
  have "mem_message None k m' = map_sum id (recovered (rt_Memory r)) (mem_message None k (rt_Memory r))" for k
    by (cases "get (mm_messages (rt_Memory r)) k") (simp_all add: mem_message_def m'(5))
  with b m' Load_wf(2) [OF load] show ?thesis by (auto simp: NewDeliveryService_def)
qed

text \<open>
  C8: a graceful restart loses nothing. When a runtime with a well-formed store and a log in good
  order, of records of at most 64 MiB, closes without an error, a runtime built on the same directory
  has the same log, so every body is read back where it was; every address, binding and transaction is
  back, every message is back under its identifier, released if it had been handed out, and every
  consumer is back disconnected. (The JSON library decodes what it has encoded.)
\<close>

theorem restart_recovers:
  assumes "mem_wf (rt_Memory r)" "log_rep (rt_BodyLog r) recs" "list_all (\<lambda>x. length (record_bytes x) \<le> 67108864) recs"
    and "valid_ranges rs" "valid_ranges rs'" "io' ReadFile = None"
    and "\<And>s b. mem_Snapshot rs None (rt_Memory r) = Inr s \<Longrightarrow> marshal s = Inr b \<Longrightarrow> unmarshal b = Inr s"
    and "Runtime_Close marshal io part rs amqp logclose None r d = (None, d')"
  shows "\<exists>r'. Build unmarshal io' None rs' None now settings d' = Inr r' \<and> rt_BodyLog r' = rt_BodyLog r \<and>
    (\<forall>k. get (mm_addresses (rt_Memory r')) k = get (mm_addresses (rt_Memory r)) k) \<and>
    (\<forall>k. get (mm_bindings (rt_Memory r')) k = get (mm_bindings (rt_Memory r)) k) \<and>
    (\<forall>k. get (mm_transactions (rt_Memory r')) k = get (mm_transactions (rt_Memory r)) k) \<and>
    (\<forall>k. mem_message None k (rt_Memory r') = map_sum id (recovered (rt_Memory r)) (mem_message None k (rt_Memory r))) \<and>
    (\<forall>k c. get (mm_consumers (rt_Memory r')) k = Some c \<longrightarrow> \<not> co_Connected c \<and> co_Unsettled c = [])"
  by (rule restart_recovered [where marshal = marshal and unmarshal = unmarshal and r = r and rs = rs and io' = io', OF assms])

section \<open>Sweeping\<close>

lemma tx_rollback_keeps:
  assumes "tx_rollback ctx now tx st m = (r, m')" "message_view m k = Some msg" "m_TransactionID msg = ''''"
  shows "message_view m' k = Some msg"
proof -
  obtain e m1 where r: "rollback_loop ctx (t_Operations tx) m = (e, m1)" by fastforce
  have "message_view m1 k = Some msg" by (rule rollback_loop_safe [OF r assms(2,3)])
  with assms(1) r show ?thesis
    by (auto simp: tx_rollback_def txm_Update_def guardE_Inr_iff split: option.splits sum.splits if_splits)
qed

lemma tx_sweep_loop_keeps:
  assumes "tx_sweep_loop ctx clk i txs n m = (r, m')" "message_view m k = Some msg" "m_TransactionID msg = ''''"
  shows "message_view m' k = Some msg"
  using assms(1,2)
proof (induction ctx clk i txs n m rule: tx_sweep_loop.induct)
  case (2 ctx clk i tx rest n m)
  obtain x m1 where x: "tx_rollback ctx (clk (2 * i + 1)) tx StateTimedOut m = (x, m1)" by fastforce
  have m1: "message_view m1 k = Some msg" by (rule tx_rollback_keeps [OF x 2(4) assms(3)])
  show ?case using 2 x m1 by (auto split: if_splits sum.splits)
qed simp

definition settled_at :: "Memory \<Rightarrow> string \<Rightarrow> int \<Rightarrow> bool" where
  "settled_at m k off = (\<exists>msg. message_view m k = Some msg \<and> m_TransactionID msg = '''' \<and> m_LogOffset msg = off)"

lemma deadLetter_settled:
  assumes "deadLetter ctx x reason m = Inr (d, m')" "settled_at m k off"
    and "m_ID x = k \<Longrightarrow> m_TransactionID x = '''' \<and> m_LogOffset x = off"
  shows "settled_at m' k off"
  using assms by (auto simp: deadLetter_def result_iffs mem_Update_def Let_def settled_at_def map_simps
      split: if_splits sum.splits)

lemma sweep_loop_settled:
  "sweep_loop ctx clk i all n m = (r, m') \<Longrightarrow> settled_at m k off \<Longrightarrow>
    (\<And>x. x \<in> set all \<Longrightarrow> m_ID x = k \<Longrightarrow> m_TransactionID x = '''' \<and> m_LogOffset x = off) \<Longrightarrow> settled_at m' k off"
proof (induction ctx clk i all n m rule: sweep_loop.induct)
  case (2 ctx clk i msg rest n m)
  show ?case
  proof (cases "deadLetter ctx msg ''ttl-expired'' m")
    case (Inl e)
    with 2 show ?thesis by (auto split: if_splits)
  next
    case (Inr x)
    obtain d m1 where x: "x = (d, m1)" by (cases x)
    have "settled_at m1 k off" using deadLetter_settled [OF Inr [unfolded x] 2(4)] 2(5) by simp
    with 2 Inr x show ?thesis by (auto split: if_splits)
  qed
qed simp

lemma Sweep_settled:
  assumes "Runtime_Sweep rs ctx clk clk' r = (res, r')" "valid_ranges rs" "mem_wf (rt_Memory r)" "settled_at (rt_Memory r) k off"
  shows "settled_at (rt_Memory r') k off"
proof -
  obtain e a m1 where s: "SweepExpired rs ctx clk (rt_Memory r) = ((e, a), m1)" by (metis prod.collapse)
  obtain e' t m2 where t: "tx_Sweep rs ctx clk' m1 = ((e', t), m2)" by (metis prod.collapse)
  have "m_TransactionID x = '''' \<and> m_LogOffset x = off" if "mem_All rs ctx (rt_Memory r) = Inr all" "x \<in> set all" "m_ID x = k" for all x
    using that assms(4) keyed_values [OF mem_wfD(3) [OF assms(3)] valid_rangesD(3) [OF assms(2)], of x]
    by (auto simp: mem_All_def guardE_Inr_iff settled_at_def)
  then have m1: "settled_at m1 k off"
    using s assms(4) by (auto simp: SweepExpired_def split: sum.splits intro: sweep_loop_settled)
  then have "settled_at m2 k off"
    using t tx_sweep_loop_keeps by (fastforce simp: tx_Sweep_def settled_at_def split: sum.splits)
  with m1 assms(1) s t show ?thesis
    by (auto simp: Runtime_Sweep_def rt_set_mem_def rt_set_delivery_def split: option.splits)
qed

lemma tx_rollback_wf: "tx_rollback ctx now tx st m = (r, m') \<Longrightarrow> mem_wf m \<Longrightarrow> mem_wf m'"
proof -
  assume t: "tx_rollback ctx now tx st m = (r, m')" and m: "mem_wf m"
  have loop: "rollback_loop ctx ops m = (e, m1) \<Longrightarrow> mem_wf m \<Longrightarrow> mem_wf m1" for ops e m m1
  proof (induction ctx ops m rule: rollback_loop.induct)
    case (2 ctx op ops m)
    then show ?case
      using RollbackStaged_inv [of ctx "op_MessageID op" m] by (auto split: if_splits sum.splits)
  qed simp
  obtain e m1 where l: "rollback_loop ctx (t_Operations tx) m = (e, m1)" by fastforce
  from t l loop [OF l m] show ?thesis
    by (auto simp: tx_rollback_def split: option.splits sum.splits intro: mem_wf_steps)
qed

lemma tx_rollback_addresses:
  assumes "tx_rollback ctx now tx st m = (r, m')"
  shows "mm_addresses m' = mm_addresses m"
proof -
  have loop: "rollback_loop ctx ops m = (e, m1) \<Longrightarrow> mm_addresses m1 = mm_addresses m" for ops e m m1
  proof (induction ctx ops m rule: rollback_loop.induct)
    case (2 ctx op ops m)
    have "mm_addresses m2 = mm_addresses m" if "RollbackStaged ctx k m = Inr m2" for k m2
      using that by (auto simp: RollbackStaged_def deleteMessage_def result_iffs split: if_splits)
    with 2 show ?case by (auto split: if_splits sum.splits)
  qed simp
  obtain e m1 where r: "rollback_loop ctx (t_Operations tx) m = (e, m1)" by fastforce
  from loop [OF r] assms r show ?thesis
    by (auto simp: tx_rollback_def txm_Update_def guardE_Inr_iff split: option.splits sum.splits if_splits)
qed

lemma tx_sweep_loop_addresses: "tx_sweep_loop ctx clk i txs n m = (r, m') \<Longrightarrow> mm_addresses m' = mm_addresses m"
proof (induction ctx clk i txs n m rule: tx_sweep_loop.induct)
  case (2 ctx clk i tx rest n m)
  obtain x m1 where x: "tx_rollback ctx (clk (2 * i + 1)) tx StateTimedOut m = (x, m1)" by fastforce
  show ?case using 2 x tx_rollback_addresses [OF x] by (auto split: if_splits sum.splits)
qed simp

lemma tx_sweep_loop_wf: "tx_sweep_loop ctx clk i txs n m = (r, m') \<Longrightarrow> mem_wf m \<Longrightarrow> mem_wf m'"
proof (induction ctx clk i txs n m rule: tx_sweep_loop.induct)
  case (2 ctx clk i tx rest n m)
  obtain x m1 where x: "tx_rollback ctx (clk (2 * i + 1)) tx StateTimedOut m = (x, m1)" by fastforce
  show ?case using 2 x tx_rollback_wf [OF x] by (auto split: if_splits sum.splits)
qed simp

lemma Sweep_wf:
  assumes "Runtime_Sweep rs ctx clk clk' r = (res, r')" "valid_ranges rs" "mem_wf (rt_Memory r)"
  shows "mem_wf (rt_Memory r')"
proof -
  obtain e a m1 where s: "SweepExpired rs ctx clk (rt_Memory r) = ((e, a), m1)" by (metis prod.collapse)
  have "mem_wf m1" using maintenance_same(1) [OF assms(2) s] assms(3) by (simp add: same_def)
  with assms(1) s show ?thesis
    by (auto simp: Runtime_Sweep_def rt_set_mem_def rt_set_delivery_def tx_Sweep_def
        split: option.splits prod.splits sum.splits intro: tx_sweep_loop_wf)
qed

lemma Sweep_limited:
  assumes "Runtime_Sweep rs ctx clk clk' r = (res, r')" "valid_ranges rs" "mem_wf (rt_Memory r)" "limited (rt_Memory r)"
  shows "limited (rt_Memory r')"
proof -
  obtain e a m1 where s: "SweepExpired rs ctx clk (rt_Memory r) = ((e, a), m1)" by (metis prod.collapse)
  have "limited m1" using maintenance_same(1) [OF assms(2) s] assms(3,4) by (simp add: same_def)
  moreover obtain e' t m2 where t: "tx_Sweep rs ctx clk' m1 = ((e', t), m2)" by (metis prod.collapse)
  moreover have "mm_addresses m2 = mm_addresses m1"
    using t by (auto simp: tx_Sweep_def split: sum.splits dest: tx_sweep_loop_addresses)
  ultimately show ?thesis using assms(1) s limited_cong [of m2 m1]
    by (auto simp: Runtime_Sweep_def rt_set_mem_def rt_set_delivery_def split: option.splits)
qed

lemma ticks_settled:
  "mem_wf (rt_Memory r) \<Longrightarrow> \<forall>(rs, ctx, clk, clk')\<in>set ticks. valid_ranges rs \<Longrightarrow> settled_at (rt_Memory r) k off \<Longrightarrow>
    settled_at (rt_Memory (worker_ticks ticks r)) k off"
proof (induction ticks r rule: worker_ticks.induct)
  case (2 rs ctx clk clk' ticks r)
  obtain res r' where s: "Runtime_Sweep rs ctx clk clk' r = (res, r')" by fastforce
  with 2 Sweep_wf [OF s] Sweep_settled [OF s] show ?case by simp
qed simp

text \<open>
  The worker loses nothing but what belongs to a transaction. However often it sweeps, at whatever
  times and with whatever errors in between, a message outside a transaction keeps its identifier and
  its place in the log.
\<close>

theorem worker_keeps:
  assumes "mem_wf (rt_Memory r)" "\<forall>(rs, ctx, clk, clk')\<in>set ticks. valid_ranges rs"
    and "mem_message None k (rt_Memory r) = Inr msg" "m_TransactionID msg = ''''"
  shows "\<exists>msg'. mem_message None k (rt_Memory (worker_ticks ticks r)) = Inr msg' \<and> m_LogOffset msg' = m_LogOffset msg"
proof -
  have "settled_at (rt_Memory r) k (m_LogOffset msg)" using assms(3,4) by (simp add: settled_at_def messages.fetch_Inr)
  from ticks_settled [OF assms(1,2) this] show ?thesis by (auto simp: settled_at_def messages.fetch_Inr)
qed

section \<open>Witnesses\<close>

definition sample_settings :: Settings where
  "sample_settings = settings_of Default"

definition empty_disk :: disk where
  "empty_disk = \<lparr>dk_meta = None, dk_temp = None, dk_log = []\<rparr>"

lemma empty_log: "log_rep \<lparr>fl_data = [], fl_offsets = []\<rparr> []" "OpenFileLog [] = Inr \<lparr>fl_data = [], fl_offsets = []\<rparr>"
proof -
  show l: "log_rep \<lparr>fl_data = [], fl_offsets = []\<rparr> []" by (simp add: log_rep_def)
  show "OpenFileLog [] = Inr \<lparr>fl_data = [], fl_offsets = []\<rparr>" using OpenFileLog_rep [OF l] by simp
qed

lemma sample_build:
  "\<exists>r. Build (\<lambda>_. Inl EOF) (\<lambda>_. None) None id_ranges None 1 sample_settings empty_disk = Inr r \<and>
     rt_Delivery r = NewDeliveryService NewMemory \<lparr>fl_data = [], fl_offsets = []\<rparr>"
  by (simp add: Build_def SnapshotFile_Load_def empty_disk_def empty_log Let_def)

theorem Build_ready_witness:
  "\<exists>r. Build (\<lambda>_. Inl EOF) (\<lambda>_. None) None id_ranges None 1 sample_settings empty_disk = Inr r \<and>
     512 \<le> sr_MaxFrame (rt_AMQP r) \<and> (\<exists>shard. Shard (rt_Cluster r) ''jobs'' = Inr shard)"
proof -
  obtain r where r: "Build (\<lambda>_. Inl EOF) (\<lambda>_. None) None id_ranges None 1 sample_settings empty_disk = Inr r"
    using sample_build by blast
  have "usable Default \<and> sample_settings = settings_of Default" by (simp add: Default_usable sample_settings_def)
  with Build_ready [OF r] r show ?thesis by blast
qed

definition sample_runtime :: Runtime where
  "sample_runtime = rt_set_delivery (NewDeliveryService sample_store \<lparr>fl_data = [], fl_offsets = []\<rparr>)
     (projr (Build (\<lambda>_. Inl EOF) (\<lambda>_. None) None id_ranges None 1 sample_settings empty_disk))"

lemma sample_runtime_fields: "rt_Memory sample_runtime = sample_store" "rt_BodyLog sample_runtime = \<lparr>fl_data = [], fl_offsets = []\<rparr>"
  by (simp_all add: sample_runtime_def rt_set_delivery_def NewDeliveryService_def)

theorem restart_recovers_witness:
  "\<exists>d' r'. Runtime_Close (\<lambda>_. Inr [1]) (\<lambda>_. None) 0 id_ranges None None None sample_runtime empty_disk = (None, d') \<and>
     Build (\<lambda>_. mem_Snapshot id_ranges None sample_store) (\<lambda>_. None) None id_ranges None 2 sample_settings d' = Inr r' \<and>
     mem_message None ''m3'' (rt_Memory r') = Inr ((sample_message ''m3'' 7 8)\<lparr>m_Body := [], m_State := StateReleased, m_Redelivered := True\<rparr>)"
proof -
  note F = sample_runtime_fields
  obtain s where s: "mem_Snapshot id_ranges None sample_store = Inr s" by (simp add: mem_Snapshot_def)
  obtain d' where d': "Runtime_Close (\<lambda>_. Inr [1]) (\<lambda>_. None) 0 id_ranges None None None sample_runtime empty_disk = (None, d')"
    by (simp add: Runtime_Close_def SnapshotFile_Save_def F s write_temp_def)
  have wf: "mem_wf (rt_Memory sample_runtime)" "log_rep (rt_BodyLog sample_runtime) []" by (simp_all add: F mem_wf_sample empty_log)
  obtain r' where r': "Build (\<lambda>_. mem_Snapshot id_ranges None sample_store) (\<lambda>_. None) None id_ranges None 2 sample_settings d' = Inr r'"
    "mem_message None ''m3'' (rt_Memory r') = map_sum id (recovered sample_store) (mem_message None ''m3'' sample_store)"
    using restart_recovers [OF wf _ valid_id_ranges valid_id_ranges _ _ d', of "\<lambda>_. None" "\<lambda>_. mem_Snapshot id_ranges None sample_store" 2 sample_settings]
    by (auto simp: F)
  have "recovered sample_store ((sample_message ''m3'' 7 8)\<lparr>m_State := StateAcquired\<rparr>) =
      (sample_message ''m3'' 7 8)\<lparr>m_Body := [], m_State := StateReleased, m_Redelivered := True\<rparr>"
    by (simp add: recovered_def sample_message_def)
  then have "mem_message None ''m3'' (rt_Memory r') = Inr ((sample_message ''m3'' 7 8)\<lparr>m_Body := [], m_State := StateReleased, m_Redelivered := True\<rparr>)"
    using r'(2) by (simp add: sample_store_def mem_message_def)
  with d' r'(1) show ?thesis by blast
qed

theorem worker_keeps_witness:
  "\<exists>msg'. mem_message None ''m1'' (rt_Memory (worker_ticks [(id_ranges, None, \<lambda>_. 100, \<lambda>_. 100)] sample_runtime)) = Inr msg' \<and> m_LogOffset msg' = 0"
proof -
  have m: "mem_message None ''m1'' (rt_Memory sample_runtime) = Inr (sample_message ''m1'' 1 5)"
    by (simp add: sample_runtime_fields sample_store_def mem_message_def)
  have wf: "mem_wf (rt_Memory sample_runtime)" by (simp add: sample_runtime_fields mem_wf_sample)
  from worker_keeps [OF wf _ m, of "[(id_ranges, None, \<lambda>_. 100, \<lambda>_. 100)]"] show ?thesis
    by (simp add: valid_id_ranges) (simp add: sample_message_def)
qed

end
