(* ===== verification/Http.thy ===== *)
theory Http
  imports Broker
begin

text \<open>
  The HTTP interface (\<open>internal/platform/httpx\<close>): the middleware (rate limit, token check, recovery from
  panics, time limit), the handlers of the management API over the runtime, and the metrics.

  A request arrives with the endpoint the router has chosen for it, its path values and the result of
  decoding its JSON body (a text when decoding fails); a response is a status and the value that is
  encoded as JSON. The router of \<open>net/http\<close>, its file server and JSON are outside code: what the file
  server answers for a file of the console, and what the router answers when no route fits, are
  parameters.
\<close>

section \<open>Metrics\<close>

record Metrics =
  mt_Requests :: "64 word"
  mt_Failures :: "64 word"
  mt_Published :: "64 word"
  mt_Delivered :: "64 word"
  mt_Expired :: "64 word"

abbreviation nl :: string where
  "nl \<equiv> [CHR 0x0A]"

definition Metrics_Write :: "Metrics \<Rightarrow> nat \<Rightarrow> string" where
  "Metrics_Write m connections =
    ''# HELP broker_http_requests_total Total HTTP requests.'' @ nl @
    ''# TYPE broker_http_requests_total counter'' @ nl @
    ''broker_http_requests_total '' @ dec (unat (mt_Requests m)) @ nl @
    ''# HELP broker_http_failures_total Failed HTTP operations.'' @ nl @
    ''# TYPE broker_http_failures_total counter'' @ nl @
    ''broker_http_failures_total '' @ dec (unat (mt_Failures m)) @ nl @
    ''# HELP broker_messages_published_total Routed message copies.'' @ nl @
    ''# TYPE broker_messages_published_total counter'' @ nl @
    ''broker_messages_published_total '' @ dec (unat (mt_Published m)) @ nl @
    ''# HELP broker_messages_delivered_total Acquired deliveries.'' @ nl @
    ''# TYPE broker_messages_delivered_total counter'' @ nl @
    ''broker_messages_delivered_total '' @ dec (unat (mt_Delivered m)) @ nl @
    ''# HELP broker_connections Current AMQP connections.'' @ nl @
    ''# TYPE broker_connections gauge'' @ nl @
    ''broker_connections '' @ dec connections @ nl"

section \<open>Responses\<close>

datatype payload =
    PStatus string
  | PReady string
  | PText string
  | PRedirect string                    \<comment> \<open>the location\<close>
  | PRuntime Status
  | PAddress Address | PAddresses "Address list"
  | PBinding Binding | PBindings "Binding list"
  | PDepth string nat
  | PReplayed nat
  | PConnections "conn_Snapshot list"
  | PTransaction Transaction
  | PRouted "Message list" | PStaged "Message list"
  | PConsumer Consumer
  | PDelivery "32 word" Message
  | PSettled
  | PLease Lease | PLeases "Lease list"
  | PError string error                 \<comment> \<open>the code, and the error whose text is the message\<close>

record response =
  re_Status :: nat
  re_Body :: payload
  re_RetryAfter :: bool

definition JSON :: "nat \<Rightarrow> payload \<Rightarrow> response" where
  "JSON st v = \<lparr>re_Status = st, re_Body = v, re_RetryAfter = False\<rparr>"

definition http_Error :: "nat \<Rightarrow> string \<Rightarrow> error \<Rightarrow> response" where
  "http_Error st code e = JSON st (PError code e)"

text \<open>An error that stands for a panic of the Go code, also when it has been wrapped.\<close>

fun panics :: "error \<Rightarrow> bool" where
  "panics (Wrap s e) = panics e"
| "panics e = is_panic e"

section \<open>The API\<close>

record Api =
  ap_Runtime :: Runtime
  ap_Metrics :: Metrics

text \<open>What a request takes from its surroundings.\<close>

record henv =
  he_ctx :: ctx
  he_arrival :: time
  he_now :: time
  he_fin :: time
  he_clk :: "nat \<Rightarrow> time"
  he_rnd :: "byte list option"
  he_rnds :: "nat \<Rightarrow> byte list option"
  he_ranges :: ranges
  he_conns :: "(string, Connection) order"
  he_leases :: "(32 word, Lease) order"
  he_parse :: "string \<Rightarrow> error + duration"
  he_files :: "string \<Rightarrow> nat \<times> string"  \<comment> \<open>status and text of the file server, by file\<close>
  he_unrouted :: "nat \<times> string"        \<comment> \<open>what the router answers when no route fits\<close>

definition on_mem :: "Api \<Rightarrow> Memory \<Rightarrow> Api" where
  "on_mem a m = a\<lparr>ap_Runtime := rt_set_mem m (ap_Runtime a)\<rparr>"

definition on_delivery :: "Api \<Rightarrow> FileLog Service \<Rightarrow> Api" where
  "on_delivery a s = a\<lparr>ap_Runtime := rt_set_delivery s (ap_Runtime a)\<rparr>"

abbreviation api_mem :: "Api \<Rightarrow> Memory" where
  "api_mem a \<equiv> rt_Memory (ap_Runtime a)"

text \<open>
  \<open>s.fail\<close> counts the failure and answers with the error. An error that is a panic never gets there:
  the recovery handler answers.
\<close>

definition recovered_panic :: response where
  "recovered_panic = http_Error 500 ''internal'' (New ''internal server error'')"

definition api_fail :: "nat \<Rightarrow> string \<Rightarrow> error \<Rightarrow> Api \<Rightarrow> response \<times> Api" where
  "api_fail st code e a =
    (if panics e then (recovered_panic, a)
     else (http_Error st code e, a\<lparr>ap_Metrics := mt_Failures_update (\<lambda>n. n + 1) (ap_Metrics a)\<rparr>))"

definition Contains :: "string \<Rightarrow> string \<Rightarrow> bool" where
  "Contains s sub = list_ex (\<lambda>n. prefix sub (drop n s)) [0..<Suc (length s)]"

definition decode :: "string + 'a \<Rightarrow> ('a \<Rightarrow> Api \<Rightarrow> response \<times> Api) \<Rightarrow> Api \<Rightarrow> response \<times> Api" where
  "decode inp k a =
    (case inp of
       Inl text \<Rightarrow>
         (http_Error (if Contains text ''request body too large'' then 413 else 400) ''invalid_json'' (New text), a)
     | Inr x \<Rightarrow> k x a)"

text \<open>Answer with the result of a service call, or fail.\<close>

definition answer :: "nat \<Rightarrow> ('a \<Rightarrow> payload) \<Rightarrow> nat \<Rightarrow> string \<Rightarrow> error + 'a \<Rightarrow> Api \<Rightarrow> response \<times> Api" where
  "answer st f bad code r a = (case r of Inl e \<Rightarrow> api_fail bad code e a | Inr x \<Rightarrow> (JSON st (f x), a))"

text \<open>\<open>GET /console\<close> and the files below it; \<open>http.StripPrefix\<close> leaves the file.\<close>

definition console_redirect :: "Api \<Rightarrow> response \<times> Api" where
  "console_redirect a = (JSON 307 (PRedirect ''/console/''), a)"

definition console_file :: "henv \<Rightarrow> string \<Rightarrow> Api \<Rightarrow> response \<times> Api" where
  "console_file en file a = (case he_files en file of (st, text) \<Rightarrow> (JSON st (PText text), a))"

definition unrouted :: "henv \<Rightarrow> Api \<Rightarrow> response \<times> Api" where
  "unrouted en a = (case he_unrouted en of (st, text) \<Rightarrow> (JSON st (PText text), a))"

definition health :: "Api \<Rightarrow> response \<times> Api" where
  "health a = (JSON 200 (PStatus ''ok''), a)"

text \<open>The runtime of the model is always there, with its log.\<close>

definition ready :: "Api \<Rightarrow> response \<times> Api" where
  "ready a = (JSON 200 (PReady (rt_NodeID (ap_Runtime a))), a)"

definition http_metrics :: "Api \<Rightarrow> response \<times> Api" where
  "http_metrics a =
    (JSON 200 (PText (Metrics_Write (ap_Metrics a) (conn_Count (sr_Connections (rt_AMQP (ap_Runtime a)))))), a)"

definition http_status :: "henv \<Rightarrow> Api \<Rightarrow> response \<times> Api" where
  "http_status en a = (JSON 200 (PRuntime (Runtime_Status (he_ranges en) (he_leases en) (he_ctx en) (ap_Runtime a))), a)"

definition duration_option :: "(string \<Rightarrow> error + duration) \<Rightarrow> string \<Rightarrow> duration option" where
  "duration_option parse s = (case parse s of Inl _ \<Rightarrow> None | Inr d \<Rightarrow> Some d)"

definition createAddress :: "henv \<Rightarrow> string + Create \<Rightarrow> Api \<Rightarrow> response \<times> Api" where
  "createAddress en inp = decode inp (\<lambda>c a.
     case as_Create (duration_option (he_parse en)) (he_ctx en) (he_now en) c (api_mem a) of
       (r, m) \<Rightarrow> answer 201 PAddress 422 ''invalid_address'' r (on_mem a m))"

definition listAddresses :: "henv \<Rightarrow> Api \<Rightarrow> response \<times> Api" where
  "listAddresses en a = answer 200 PAddresses 500 ''list_failed'' (as_List (he_ranges en) (he_ctx en) (api_mem a)) a"

definition createBinding :: "henv \<Rightarrow> string + Bind \<Rightarrow> Api \<Rightarrow> response \<times> Api" where
  "createBinding en inp = decode inp (\<lambda>b a.
     case as_Bind (he_ctx en) (he_now en) (he_rnd en) b (api_mem a) of
       (r, m) \<Rightarrow> answer 201 PBinding 422 ''invalid_binding'' r (on_mem a m))"

definition http_listBindings :: "henv \<Rightarrow> string \<Rightarrow> Api \<Rightarrow> response \<times> Api" where
  "http_listBindings en source a =
    answer 200 PBindings 500 ''list_failed'' (as_ListBindings (he_ranges en) (he_ctx en) source (api_mem a)) a"

definition depth :: "henv \<Rightarrow> string \<Rightarrow> Api \<Rightarrow> response \<times> Api" where
  "depth en name a = answer 200 (PDepth name) 404 ''address_not_found'' (Depth_op (he_ctx en) name (api_mem a)) a"

definition pause :: "henv \<Rightarrow> string \<Rightarrow> string + bool option \<Rightarrow> Api \<Rightarrow> response \<times> Api" where
  "pause en name inp = decode inp (\<lambda>paused a.
     let p = (case paused of None \<Rightarrow> True | Some b \<Rightarrow> b) in
     case as_Pause (he_ctx en) name p (api_mem a) of
       (r, m) \<Rightarrow> answer 200 PAddress 404 ''address_not_found'' r (on_mem a m))"

text \<open>The body is decoded only when there is one.\<close>

definition replay :: "henv \<Rightarrow> int \<Rightarrow> string + int \<Rightarrow> Api \<Rightarrow> response \<times> Api" where
  "replay en contentLength inp = decode (if contentLength > 0 then inp else Inr 0) (\<lambda>limit a.
     let n = (if limit \<le> 0 then 100 else limit) in
     case ReplayDead (he_ranges en) (he_ctx en) n (api_mem a) of
       ((Some e, _), m) \<Rightarrow> api_fail 500 ''replay_failed'' e (on_mem a m)
     | ((None, k), m) \<Rightarrow> (JSON 200 (PReplayed k), on_mem a m))"

definition connections :: "henv \<Rightarrow> Api \<Rightarrow> response \<times> Api" where
  "connections en a = (JSON 200 (PConnections (conn_List (he_conns en) (sr_Connections (rt_AMQP (ap_Runtime a))))), a)"

definition transaction :: "henv \<Rightarrow> string \<Rightarrow> Api \<Rightarrow> response \<times> Api" where
  "transaction en tid a = answer 200 PTransaction 404 ''transaction_not_found'' (tx_Get (he_ctx en) tid (api_mem a)) a"

definition declareTransaction :: "henv \<Rightarrow> string + string \<Rightarrow> Api \<Rightarrow> response \<times> Api" where
  "declareTransaction en inp = decode inp (\<lambda>connection a.
     case Declare (he_ctx en) (rt_txTTL (ap_Runtime a)) (he_now en) (he_rnd en) connection (api_mem a) of
       (r, m) \<Rightarrow> answer 201 PTransaction 422 ''declare_failed'' r (on_mem a m))"

definition commitTransaction :: "henv \<Rightarrow> string \<Rightarrow> Api \<Rightarrow> response \<times> Api" where
  "commitTransaction en tid a =
    (case Commit (he_ranges en) (he_ctx en) (he_now en) (he_fin en) tid (api_mem a) of
       (r, m) \<Rightarrow> answer 200 PTransaction 409 ''commit_failed'' r (on_mem a m))"

definition rollbackTransaction :: "henv \<Rightarrow> string \<Rightarrow> Api \<Rightarrow> response \<times> Api" where
  "rollbackTransaction en tid a =
    (case Rollback (he_ctx en) (he_now en) tid (api_mem a) of
       (r, m) \<Rightarrow> answer 200 PTransaction 409 ''rollback_failed'' r (on_mem a m))"

record publishRequest =
  pr_Address :: string
  pr_RoutingKey :: string
  pr_Headers :: "(string, string) gomap"
  pr_Body :: string
  pr_Priority :: int
  pr_TTL :: string
  pr_Settled :: bool

definition publishRequest_domain :: "(string \<Rightarrow> error + duration) \<Rightarrow> publishRequest \<Rightarrow> error + Publish" where
  "publishRequest_domain parse p =
    tryE (raw_duration parse ''invalid ttl'' (pr_TTL p) 0) (\<lambda>ttl.
      Inr \<lparr>p_Address = pr_Address p, p_RoutingKey = pr_RoutingKey p, p_Headers = pr_Headers p,
        p_Body = bytes_of_string (pr_Body p), p_Priority = pr_Priority p, p_TTL = ttl, p_Settled = pr_Settled p,
        p_TransactionID = ''''\<rparr>)"

definition publish :: "henv \<Rightarrow> string + publishRequest \<Rightarrow> Api \<Rightarrow> response \<times> Api" where
  "publish en inp = decode inp (\<lambda>p a.
     case publishRequest_domain (he_parse en) p of
       Inl e \<Rightarrow> api_fail 422 ''invalid_message'' e a
     | Inr q \<Rightarrow>
       (case Publish_op file_log_ops (he_ranges en) (he_ctx en) (he_clk en) (he_rnds en) q (rt_Delivery (ap_Runtime a)) of
          ((Some e, _), s) \<Rightarrow> api_fail 422 ''publish_failed'' e (on_delivery a s)
        | ((None, items), s) \<Rightarrow>
            let a = on_delivery a s in
            (JSON 201 (PRouted items),
             a\<lparr>ap_Metrics := mt_Published_update (\<lambda>n. n + word_of_nat (length items)) (ap_Metrics a)\<rparr>)))"

definition stagePublish :: "henv \<Rightarrow> string \<Rightarrow> string + publishRequest \<Rightarrow> Api \<Rightarrow> response \<times> Api" where
  "stagePublish en tid inp = decode inp (\<lambda>p a.
     case publishRequest_domain (he_parse en) p of
       Inl e \<Rightarrow> api_fail 422 ''invalid_message'' e a
     | Inr q \<Rightarrow>
       (case StagePublish file_log_ops (he_ranges en) (he_ctx en) (he_now en) (he_clk en) (he_rnds en) tid q
             (rt_Delivery (ap_Runtime a)) of
          (r, s) \<Rightarrow> answer 202 PStaged 409 ''stage_failed'' r (on_delivery a s)))"

record consumerRequest =
  cq_ID :: string
  cq_Address :: string
  cq_Prefetch :: "32 word"
  cq_Semantics :: Semantics

definition createConsumer :: "henv \<Rightarrow> string + consumerRequest \<Rightarrow> Api \<Rightarrow> response \<times> Api" where
  "createConsumer en inp = decode inp (\<lambda>c a.
     case Register (he_ctx en) (he_now en) (cq_ID c) (cq_Address c) (cq_Prefetch c) (cq_Semantics c) (api_mem a) of
       (r, m) \<Rightarrow> answer 201 PConsumer 422 ''consumer_failed'' r (on_mem a m))"

definition acquire :: "henv \<Rightarrow> string \<Rightarrow> Api \<Rightarrow> response \<times> Api" where
  "acquire en cid a =
    (case Acquire_op file_log_ops (he_ranges en) (he_ctx en) (he_now en) cid (rt_Delivery (ap_Runtime a)) of
       (Inl e, s) \<Rightarrow> api_fail 409 ''acquire_failed'' e (on_delivery a s)
     | (Inr (msg, did), s) \<Rightarrow>
         let a = on_delivery a s in
         (JSON 200 (PDelivery did msg), a\<lparr>ap_Metrics := mt_Delivered_update (\<lambda>n. n + 1) (ap_Metrics a)\<rparr>))"

definition settle :: "henv \<Rightarrow> string \<Rightarrow> string + 32 word \<times> State \<Rightarrow> Api \<Rightarrow> response \<times> Api" where
  "settle en cid inp = decode inp (\<lambda>(did, st) a.
     case Settle_op (he_ctx en) cid did st (api_mem a) of
       (Some e, m) \<Rightarrow> api_fail 409 ''settlement_failed'' e (on_mem a m)
     | (None, m) \<Rightarrow> (JSON 200 PSettled, on_mem a m))"

definition ensureLease :: "henv \<Rightarrow> string \<Rightarrow> Api \<Rightarrow> response \<times> Api" where
  "ensureLease en address a =
    (case Ensure (he_ctx en) (he_now en) (he_fin en) address (rt_Cluster (ap_Runtime a), rt_Coordinator (ap_Runtime a)) of
       (r, s, c) \<Rightarrow> answer 201 PLease 409 ''lease_failed'' r
         (a\<lparr>ap_Runtime := (ap_Runtime a)\<lparr>rt_Cluster := s, rt_Coordinator := c\<rparr>\<rparr>))"

definition http_leases :: "henv \<Rightarrow> Api \<Rightarrow> response \<times> Api" where
  "http_leases en a =
    answer 200 PLeases 500 ''lease_list_failed'' (Leases (he_leases en) (he_ctx en) (rt_Coordinator (ap_Runtime a))) a"

text \<open>\<open>parseLimit\<close> of the query value.\<close>

definition parseLimit :: "string \<Rightarrow> int" where
  "parseLimit limit = (let n = (case Atoi limit of None \<Rightarrow> 0 | Some n \<Rightarrow> n) in if n < 1 \<or> n > 1000 then 100 else n)"

section \<open>Routes\<close>

text \<open>The endpoints of \<open>Server.Handler\<close>, with their path values and decoded bodies, and the requests it has no route for.\<close>

datatype endpoint =
    GetConsoleFile string | GetConsole | Unrouted
  | GetHealthz | GetReadyz | GetMetrics | GetStatus
  | PostAddresses "string + Create" | GetAddresses
  | PostBindings "string + Bind" | GetBindings string
  | GetDepth string | PostPause string "string + bool option"
  | PostReplay int "string + int"
  | GetConnections
  | GetTransaction string | PostTransactions "string + string"
  | PostCommit string | PostRollback string
  | PostMessages "string + publishRequest" | PostStage string "string + publishRequest"
  | PostConsumers "string + consumerRequest" | PostAcquire string | PostSettle string "string + 32 word \<times> State"
  | PostLease string | GetLeases

fun mux :: "henv \<Rightarrow> endpoint \<Rightarrow> Api \<Rightarrow> response \<times> Api" where
  "mux en (GetConsoleFile file) a = console_file en file a"
| "mux en GetConsole a = console_redirect a"
| "mux en Unrouted a = unrouted en a"
| "mux en GetHealthz a = health a"
| "mux en GetReadyz a = ready a"
| "mux en GetMetrics a = http_metrics a"
| "mux en GetStatus a = http_status en a"
| "mux en (PostAddresses c) a = createAddress en c a"
| "mux en GetAddresses a = listAddresses en a"
| "mux en (PostBindings b) a = createBinding en b a"
| "mux en (GetBindings source) a = http_listBindings en source a"
| "mux en (GetDepth name) a = depth en name a"
| "mux en (PostPause name p) a = pause en name p a"
| "mux en (PostReplay len n) a = replay en len n a"
| "mux en GetConnections a = connections en a"
| "mux en (GetTransaction tid) a = transaction en tid a"
| "mux en (PostTransactions c) a = declareTransaction en c a"
| "mux en (PostCommit tid) a = commitTransaction en tid a"
| "mux en (PostRollback tid) a = rollbackTransaction en tid a"
| "mux en (PostMessages p) a = publish en p a"
| "mux en (PostStage tid p) a = stagePublish en tid p a"
| "mux en (PostConsumers c) a = createConsumer en c a"
| "mux en (PostAcquire cid) a = acquire en cid a"
| "mux en (PostSettle cid d) a = settle en cid d a"
| "mux en (PostLease address) a = ensureLease en address a"
| "mux en GetLeases a = http_leases en a"

definition instrument :: "(Api \<Rightarrow> response \<times> Api) \<Rightarrow> Api \<Rightarrow> response \<times> Api" where
  "instrument nxt a = nxt (a\<lparr>ap_Metrics := mt_Requests_update (\<lambda>n. n + 1) (ap_Metrics a)\<rparr>)"

section \<open>Middleware\<close>

record Middleware =
  mw_Token :: string
  mw_AllowAnonymous :: bool
  mw_Timeout :: duration
  mw_BodyLimit :: int
  mw_Rate :: int
  mw_window :: time
  mw_count :: int

text \<open>The defaults \<open>Wrap\<close> puts in.\<close>

definition Wrap_defaults :: "Middleware \<Rightarrow> Middleware" where
  "Wrap_defaults m =
    (let m = (if mw_Timeout m \<le> 0 then m\<lparr>mw_Timeout := 15 * second\<rparr> else m) in
     if mw_BodyLimit m \<le> 0 then m\<lparr>mw_BodyLimit := 1048576\<rparr> else m)"

text \<open>The fixed window of one second; a zero time is a window that was never opened.\<close>

definition allow :: "time \<Rightarrow> Middleware \<Rightarrow> bool \<times> Middleware" where
  "allow now m =
    (let m = (if mw_window m = 0 \<or> time_Sub now (mw_window m) \<ge> second then m\<lparr>mw_window := now, mw_count := 0\<rparr> else m) in
     if mw_count m \<ge> mw_Rate m then (False, m) else (True, m\<lparr>mw_count := mw_count m + 1\<rparr>))"

text \<open>A request: its path, its \<open>Authorization\<close> header, its own request identifier, and where the router sends it.\<close>

record request =
  rq_Path :: string
  rq_Authorization :: string
  rq_ID :: string
  rq_Endpoint :: endpoint

definition open_path :: "string \<Rightarrow> bool" where
  "open_path p = (p = ''/healthz'' \<or> p = ''/readyz'' \<or> p = ''/metrics'')"

definition authorized :: "Middleware \<Rightarrow> request \<Rightarrow> bool" where
  "authorized m r = (mw_AllowAnonymous m \<or> open_path (rq_Path r) \<or>
     (let v = TrimPrefix (rq_Authorization r) ''Bearer '' in v \<noteq> '''' \<and> v = mw_Token m))"

definition authenticate :: "Middleware \<Rightarrow> request \<Rightarrow> (Api \<Rightarrow> response \<times> Api) \<Rightarrow> Api \<Rightarrow> response \<times> Api" where
  "authenticate m r nxt a =
    (if authorized m r then nxt a
     else (http_Error 401 ''unauthorized'' (New ''valid bearer token required''), a))"

text \<open>\<open>http.TimeoutHandler\<close>: the handler runs to its end, but a late answer is replaced.\<close>

definition time_limit :: "bool \<Rightarrow> (Api \<Rightarrow> response \<times> Api) \<Rightarrow> Api \<Rightarrow> response \<times> Api" where
  "time_limit late nxt a =
    (case nxt a of (re, a') \<Rightarrow> (if late then http_Error 503 ''timeout'' (New ''request timed out'') else re, a'))"

text \<open>\<open>rnd\<close> is what the random source gave for the identifier (zeroes when it failed).\<close>

definition request_id :: "byte list option \<Rightarrow> request \<Rightarrow> string" where
  "request_id rnd r = (if rq_ID r = '''' then hex (case rnd of Some b \<Rightarrow> b | None \<Rightarrow> replicate 8 0) else rq_ID r)"

text \<open>A request through the whole chain; the middleware keeps the window of the rate limit.\<close>

definition serve_http :: "henv \<Rightarrow> bool \<Rightarrow> request \<Rightarrow> Middleware \<times> Api \<Rightarrow> (string \<times> response) \<times> Middleware \<times> Api" where
  "serve_http en late r = (\<lambda>(m, a).
    let rid = request_id (he_rnd en) r;
        (ok, m) = (if mw_Rate m > 0 then allow (he_arrival en) m else (True, m)) in
    if ok then
      (case authenticate m r (time_limit late (instrument (mux en (rq_Endpoint r)))) a of
         (re, a') \<Rightarrow> ((rid, re), m, a'))
    else ((rid, (http_Error 429 ''rate_limited'' (New ''request rate exceeded''))\<lparr>re_RetryAfter := True\<rparr>), m, a))"

end
