(* ===== verification/HttpProps.thy ===== *)
theory HttpProps
  imports Http
begin

text \<open>
  Properties of the HTTP interface: who is let through, how many requests a second, and that no
  request loses a message.
\<close>

section \<open>Token\<close>

lemma TrimPrefix_eq: "TrimPrefix s p = v \<Longrightarrow> s = v \<or> s = p @ v"
  by (auto simp: TrimPrefix_def prefix_def split: if_splits)

lemma allow_keeps: "allow t m = (ok, m') \<Longrightarrow> mw_AllowAnonymous m' = mw_AllowAnonymous m \<and> mw_Token m' = mw_Token m"
  by (auto simp: allow_def Let_def split: if_splits)

lemma refused:
  assumes "\<not> authorized m r" "serve_http en late r (m, a) = ((req, re), m', a')"
  shows "(re_Status re = 401 \<or> re_Status re = 429) \<and> a' = a"
proof -
  obtain ok m1 where m1: "(if mw_Rate m > 0 then allow (he_arrival en) m else (True, m)) = (ok, m1)" by fastforce
  then have "mw_AllowAnonymous m1 = mw_AllowAnonymous m \<and> mw_Token m1 = mw_Token m"
    using allow_keeps by (auto split: if_splits)
  then have "\<not> authorized m1 r" using assms(1) by (simp add: authorized_def)
  with assms(2) show ?thesis
    by (cases ok) (auto simp: serve_http_def m1 authenticate_def http_Error_def JSON_def Let_def)
qed

text \<open>
  C26: without the token nothing happens. When anonymous access is off, a request to a path other than
  the three open ones, whose authorization is neither the token nor the token after \<open>Bearer\<close>, or any
  such request when no token is configured, is answered with 401 (or 429 when the rate limit is
  reached first) and leaves the runtime and the metrics as they were, whatever the endpoint.
\<close>

theorem http_token_required:
  assumes "\<not> mw_AllowAnonymous m" "rq_Path r \<notin> {''/healthz'', ''/readyz'', ''/metrics''}"
    and "mw_Token m = '''' \<or> rq_Authorization r \<notin> {mw_Token m, ''Bearer '' @ mw_Token m}"
    and "serve_http en late r (m, a) = ((req, re), m', a')"
  shows "(re_Status re = 401 \<or> re_Status re = 429) \<and> a' = a"
proof -
  have "\<not> authorized m r"
    using assms(1-3) TrimPrefix_eq [of "rq_Authorization r" "''Bearer ''" "mw_Token m"]
    by (auto simp: authorized_def open_path_def Let_def)
  then show ?thesis by (rule refused [OF _ assms(4)])
qed

section \<open>Rate limit\<close>

text \<open>Requests at the given times; how many of them are let through.\<close>

fun allowed :: "time list \<Rightarrow> Middleware \<Rightarrow> nat" where
  "allowed [] m = 0"
| "allowed (t # ts) m = (case allow t m of (ok, m') \<Rightarrow> (if ok then 1 else 0) + allowed ts m')"

lemma time_Sub_second: "time_Sub t u \<ge> second \<longleftrightarrow> t - u \<ge> second"
  by (auto simp: time_Sub_def)

lemma allow_reset:
  "mw_window m = 0 \<or> t - mw_window m \<ge> second \<Longrightarrow> 0 < mw_Rate m \<Longrightarrow>
     allow t m = (True, m\<lparr>mw_window := t, mw_count := 1\<rparr>)"
  by (auto simp: allow_def time_Sub_second)

lemma allow_within:
  "mw_window m \<noteq> 0 \<Longrightarrow> t - mw_window m < second \<Longrightarrow>
     allow t m = (if mw_count m \<ge> mw_Rate m then (False, m) else (True, m\<lparr>mw_count := mw_count m + 1\<rparr>))"
  by (auto simp: allow_def time_Sub_second)

lemma allowed_within:
  "mw_window m \<noteq> 0 \<Longrightarrow> (\<And>t. t \<in> set ts \<Longrightarrow> t - mw_window m < second) \<Longrightarrow>
     allowed ts m = min (nat (mw_Rate m - mw_count m)) (length ts)"
proof (induction ts arbitrary: m)
  case (Cons t ts)
  have t: "t - mw_window m < second" using Cons.prems(2) by simp
  show ?case
  proof (cases "mw_count m \<ge> mw_Rate m")
    case True
    then show ?thesis using Cons.prems Cons.IH [of m] by (simp add: allow_within [OF Cons.prems(1) t])
  next
    case False
    then show ?thesis
      using Cons.prems Cons.IH [of "m\<lparr>mw_count := mw_count m + 1\<rparr>"] by (simp add: allow_within [OF Cons.prems(1) t])
  qed
qed simp

lemma allowed_reset:
  assumes "mw_window m = 0 \<or> t - mw_window m \<ge> second" "0 < mw_Rate m" "0 < t" "\<And>u. u \<in> set ts \<Longrightarrow> u - t < second"
  shows "allowed (t # ts) m = min (nat (mw_Rate m)) (length (t # ts))"
proof -
  have "allowed ts (m\<lparr>mw_window := t, mw_count := 1\<rparr>) = min (nat (mw_Rate m - 1)) (length ts)"
    using allowed_within [of "m\<lparr>mw_window := t, mw_count := 1\<rparr>" ts] assms(3,4) by simp
  then show ?thesis using assms(2) by (simp add: allow_reset [OF assms(1,2)])
qed

lemma allowed_bound:
  assumes "0 < mw_Rate m" "0 \<le> mw_count m" "sorted ts" "\<And>t u. t \<in> set ts \<Longrightarrow> u \<in> set ts \<Longrightarrow> 0 < t \<and> u - t < second"
  shows "int (allowed ts m) \<le> 2 * mw_Rate m - min (mw_Rate m) (mw_count m)"
  using assms
proof (induction ts arbitrary: m)
  case (Cons t ts)
  show ?case
  proof (cases "mw_window m = 0 \<or> t - mw_window m \<ge> second")
    case True
    have "0 < t" "\<And>u. u \<in> set ts \<Longrightarrow> u - t < second" using Cons.prems(4) [of t] by auto
    from allowed_reset [OF True Cons.prems(1) this] have "allowed (t # ts) m \<le> nat (mw_Rate m)" by simp
    then show ?thesis using Cons.prems(1) by linarith
  next
    case False
    have IH: "int (allowed ts m') \<le> 2 * mw_Rate m' - min (mw_Rate m') (mw_count m')"
      if "0 < mw_Rate m'" "0 \<le> mw_count m'" for m'
      using Cons.IH [OF that] Cons.prems by auto
    show ?thesis
      using False Cons.prems(1,2) IH [of m] IH [of "m\<lparr>mw_count := mw_count m + 1\<rparr>"]
      by (auto simp: allow_within)
  qed
qed simp

text \<open>
  C27: the rate limit. Of requests that arrive, in order, within less than a second, at most twice the
  configured rate is let through; and when the first of them opens a new window, exactly the rate, or
  all of them if there are fewer.
\<close>

theorem rate_limit:
  assumes "0 < mw_Rate m" "0 \<le> mw_count m" "sorted ts" "\<And>t u. t \<in> set ts \<Longrightarrow> u \<in> set ts \<Longrightarrow> 0 < t \<and> u - t < second"
  shows "int (allowed ts m) \<le> 2 * mw_Rate m \<and>
    (ts \<noteq> [] \<and> (mw_window m = 0 \<or> hd ts - mw_window m \<ge> second) \<longrightarrow> allowed ts m = min (nat (mw_Rate m)) (length ts))"
proof -
  have "allowed ts m = min (nat (mw_Rate m)) (length ts)" if "ts \<noteq> []" "mw_window m = 0 \<or> hd ts - mw_window m \<ge> second"
  proof (cases ts)
    case (Cons t us)
    have "0 < t" "\<And>u. u \<in> set us \<Longrightarrow> u - t < second" using assms(4) [of t] Cons by auto
    from allowed_reset [OF _ assms(1) this] that(2) show ?thesis by (simp add: Cons)
  qed (use that in simp)
  with allowed_bound [OF assms] assms(1,2) show ?thesis by auto
qed

definition sample_middleware :: Middleware where
  "sample_middleware = \<lparr>mw_Token = ''t'', mw_AllowAnonymous = False, mw_Timeout = second, mw_BodyLimit = 1, mw_Rate = 2,
     mw_window = 0, mw_count = 0\<rparr>"

theorem rate_limit_witness: "allowed [10, 11, 12] sample_middleware = 2"
proof -
  have "0 < mw_Rate sample_middleware" "0 \<le> mw_count sample_middleware" "mw_window sample_middleware = 0" "nat (mw_Rate sample_middleware) = 2"
    by (simp_all add: sample_middleware_def)
  moreover have "0 < t \<and> u - t < second" if "t \<in> set [10, 11, 12]" "u \<in> set [10, 11, 12]" for t u :: int
    using that by auto
  ultimately show ?thesis using rate_limit [of sample_middleware "[10, 11, 12]"] by (simp del: allowed.simps)
qed

lemmas handler_defs = console_redirect_def console_file_def unrouted_def health_def ready_def http_metrics_def http_status_def createAddress_def listAddresses_def
  createBinding_def http_listBindings_def depth_def pause_def replay_def connections_def transaction_def
  declareTransaction_def commitTransaction_def rollbackTransaction_def publish_def stagePublish_def createConsumer_def
  acquire_def settle_def ensureLease_def http_leases_def

section \<open>No request loses a message\<close>

text \<open>Every message outside a transaction is still there, at its place in the log, and no length limit has become negative.\<close>

definition keeps :: "Memory \<Rightarrow> Memory \<Rightarrow> bool" where
  "keeps m m' = (mem_wf m \<longrightarrow> mem_wf m' \<and> (\<forall>k off. settled_at m k off \<longrightarrow> settled_at m' k off) \<and> (limited m \<longrightarrow> limited m'))"

lemma settled_offs: "settled_at m k off \<longleftrightarrow> offs m k = Some (off, '''')"
  by (auto simp: settled_at_def offs_def)

lemma keeps_grows: "grows m m' \<Longrightarrow> keeps m m'"
  unfolding keeps_def grows_def settled_offs by blast

lemma keeps_same: "same m m' \<Longrightarrow> keeps m m'"
  by (intro keeps_grows same_grows)

lemma keeps_refl [simp]: "keeps m m"
  by (simp add: keeps_same)

lemma keeps_trans: "keeps m m1 \<Longrightarrow> keeps m1 m2 \<Longrightarrow> keeps m m2"
  by (simp add: keeps_def)

lemma keeps_messages:
  "mm_messages m' = mm_messages m \<Longrightarrow> mm_addresses m' = mm_addresses m \<Longrightarrow> (mem_wf m \<Longrightarrow> mem_wf m') \<Longrightarrow> keeps m m'"
  by (simp add: keeps_def settled_at_def limited_def)

lemma keeps_txm_Update:
  assumes "txm_Update ctx tx m = Inr m'"
  shows "keeps m m'"
proof (rule keeps_messages)
  show "mm_messages m' = mm_messages m" "mm_addresses m' = mm_addresses m" using assms by (auto simp: txm_Update_def guardE_Inr_iff split: option.splits if_splits)
qed (rule mem_wf_steps(12) [OF _ assms])

lemma keeps_Publish: "valid_ranges rs \<Longrightarrow> Publish_op bl rs ctx clk rnd inp s = (r, s') \<Longrightarrow> keeps (sv_mem s) (sv_mem s')"
  by (intro keeps_grows Publish_grows)

lemma keeps_StagePublish:
  assumes "StagePublish bl rs ctx now clk rnd tid inp s = (r, s')"
  shows "keeps (sv_mem s) (sv_mem s')"
proof -
  obtain e msgs s1 where st: "Stage bl rs ctx clk rnd (inp\<lparr>p_TransactionID := tid\<rparr>) s = ((e, msgs), s1)" by (metis surj_pair)
  have "s' = s \<or> s' = s1 \<or> (\<exists>tx. txm_Update ctx tx (sv_mem s1) = Inr (sv_mem s'))"
    using assms st by (cases e) (auto simp: StagePublish_def split: sum.splits if_splits)
  then show ?thesis using keeps_trans [OF keeps_grows [OF Stage_grows [OF st]] keeps_txm_Update] keeps_grows [OF Stage_grows [OF st]] by auto
qed

lemma keeps_Declare: "Declare ctx ttl now rnd conn m = (r, m') \<Longrightarrow> keeps m m'"
  by (rule keeps_messages)
    (auto simp: Declare_def txm_Create_def guardE_Inr_iff split: sum.splits if_splits intro: mem_wf_steps)

lemma keeps_rollback: "tx_rollback ctx now tx st m = (r, m') \<Longrightarrow> keeps m m'"
  by (auto simp: keeps_def settled_at_def limited_cong [OF tx_rollback_addresses] dest: tx_rollback_keeps tx_rollback_wf)

lemma keeps_Rollback: "Rollback ctx now tid m = (r, m') \<Longrightarrow> keeps m m'"
  using keeps_rollback by (auto simp: Rollback_def split: sum.splits)

lemma commit_loop_grows: "commit_loop rs ctx ops m = (r, m') \<Longrightarrow> valid_ranges rs \<Longrightarrow> grows m m'"
proof (induction rs ctx ops m rule: commit_loop.induct)
  case (2 rs ctx op ops m)
  obtain e m1 where c: "CommitStaged rs ctx (op_MessageID op) m = (e, m1)" by fastforce
  from 2 c CommitStaged_grows [OF c 2(4)] show ?case by (cases e) (auto split: if_splits intro: grows_trans)
qed simp

lemma keeps_Commit:
  assumes "Commit rs ctx now fin tid m = (r, m')" "valid_ranges rs"
  shows "keeps m m'"
proof (cases "txm_Get ctx tid m")
  case (Inr tx)
  obtain e m1 where c: "commit_loop rs ctx (t_Operations tx) m = (e, m1)" by fastforce
  have m1: "keeps m m1" by (rule keeps_grows [OF commit_loop_grows [OF c assms(2)]])
  obtain x m2 where t: "tx_rollback ctx fin tx StateTimedOut m = (x, m2)" by fastforce
  have "m' = m \<or> m' = m2 \<or> m' = m1 \<or> (\<exists>tx'. txm_Update ctx tx' m1 = Inr m')"
    using assms(1) Inr c t by (auto simp: Commit_def split: if_splits option.splits sum.splits)
  with keeps_rollback [OF t] m1 keeps_trans [OF m1 keeps_txm_Update] show ?thesis by auto
qed (use assms in \<open>simp add: Commit_def\<close>)

lemma api_mem_simps [simp]:
  "api_mem (on_mem a m) = m" "rt_Delivery (ap_Runtime (on_delivery a s)) = s"
  "api_mem (snd (answer st f bad code r a)) = api_mem a" "api_mem (snd (api_fail st code e a)) = api_mem a"
  by (simp_all add: on_mem_def rt_set_mem_def rt_set_delivery_def on_delivery_def answer_def api_fail_def split: sum.split)

lemma keeps_decode: "(\<And>x. keeps m (api_mem (snd (k x a)))) \<Longrightarrow> keeps m (api_mem a) \<Longrightarrow> keeps m (api_mem (snd (decode inp k a)))"
  by (cases inp) (simp_all add: decode_def)

lemma keeps_admin:
  "as_Create pd ctx now c m = (r, m') \<Longrightarrow> keeps m m'" "as_Bind ctx now rnd b m = (rb, m') \<Longrightarrow> keeps m m'"
  "as_Pause ctx n p m = (r, m') \<Longrightarrow> keeps m m'"
  using admin_same [of m "ACreate pd ctx now c"] admin_same [of m "ABind ctx now rnd b"] admin_same [of m "APause ctx n p"]
  by (auto intro: keeps_same)

lemma keeps_mux:
  assumes "valid_ranges (he_ranges en)"
  shows "keeps (api_mem a) (api_mem (snd (mux en ep a)))"
  using assms
  by (cases ep) (auto simp: handler_defs Let_def intro!: keeps_decode split: prod.split sum.split option.split
      intro: keeps_admin keeps_same [OF Register_same] keeps_same [OF Settle_same] keeps_same [OF maintenance_same(2)]
        keeps_Publish keeps_StagePublish keeps_Declare keeps_Commit keeps_Rollback keeps_same [OF Acquire_same])

lemma serve_http_mux:
  assumes "serve_http en late r (m, a) = ((req, re), m', a')"
  shows "a' = a \<or> a' = snd (mux en (rq_Endpoint r) (a\<lparr>ap_Metrics := mt_Requests_update (\<lambda>n. n + 1) (ap_Metrics a)\<rparr>))"
proof -
  obtain ok m1 where m1: "(if mw_Rate m > 0 then allow (he_arrival en) m else (True, m)) = (ok, m1)" by fastforce
  show ?thesis
    using assms by (cases ok) (auto simp: serve_http_def m1 Let_def authenticate_def time_limit_def instrument_def
        split: prod.splits if_splits)
qed

lemma serve_http_keeps:
  assumes "valid_ranges (he_ranges en)" "serve_http en late r (m, a) = ((req, re), m', a')"
  shows "keeps (api_mem a) (api_mem a')"
  using serve_http_mux [OF assms(2)] keeps_mux [OF assms(1)] by (auto, metis Api.select_convs(1) Api.surjective Api.update_convs(2))

section \<open>Witnesses\<close>

definition sample_api :: Api where
  "sample_api = \<lparr>ap_Runtime = sample_runtime,
     ap_Metrics = \<lparr>mt_Requests = 0, mt_Failures = 0, mt_Published = 0, mt_Delivered = 0, mt_Expired = 0\<rparr>\<rparr>"

definition sample_henv :: henv where
  "sample_henv = \<lparr>he_ctx = None, he_arrival = 10, he_now = 10, he_fin = 10, he_clk = \<lambda>_. 10, he_rnd = Some [1], he_rnds = zero_ids,
     he_ranges = id_ranges, he_conns = id, he_leases = id, he_parse = \<lambda>_. Inr 5,
     he_files = \<lambda>_. (404, ''404 page not found''), he_unrouted = (404, ''404 page not found'')\<rparr>"

definition sample_request :: "string \<Rightarrow> endpoint \<Rightarrow> request" where
  "sample_request auth ep = \<lparr>rq_Path = ''/v1/transactions/t/rollback'', rq_Authorization = auth, rq_ID = '''', rq_Endpoint = ep\<rparr>"

theorem http_token_required_witness:
  "\<exists>q re m'. serve_http sample_henv False (sample_request ''Bearer x'' (PostRollback ''t'')) (sample_middleware, sample_api) =
     ((q, re), m', sample_api) \<and> (re_Status re = 401 \<or> re_Status re = 429)"
proof -
  let ?r = "sample_request ''Bearer x'' (PostRollback ''t'')"
  obtain q re m' a' where s: "serve_http sample_henv False ?r (sample_middleware, sample_api) = ((q, re), m', a')" by (metis prod.collapse)
  from http_token_required [OF _ _ _ s] have "(re_Status re = 401 \<or> re_Status re = 429) \<and> a' = sample_api"
    by (simp add: sample_middleware_def sample_request_def)
  with s show ?thesis by blast
qed

end
