(* ===== verification/Grpc.thy ===== *)
theory Grpc
  imports Http
begin

text \<open>
  The gRPC management interface (\<open>internal/platform/grpcx/server.go\<close>): the interceptor that checks the
  token, the dispatch of the six methods and their handlers over the runtime.

  A request is a protobuf struct; its conversion into an address request and the conversion of results
  (both through JSON) are parameters, as is the decoding of the request from the wire. The listener and
  the gRPC library are not modelled.
\<close>

section \<open>Requests\<close>

datatype pvalue = PNull | PNumber "64 word" | PString string | PBool bool | PStruct "(string \<times> pvalue) list" | PList "pvalue list"

type_synonym pstruct = "(string, pvalue) gomap"

datatype grpc_code = Unauthenticated | InvalidArgument | NotFound | Internal

type_synonym grpc_error = "grpc_code \<times> error"

fun GetStringValue :: "pvalue option \<Rightarrow> string" where
  "GetStringValue (Some (PString s)) = s"
| "GetStringValue v = ''''"

fun GetBoolValue :: "pvalue \<Rightarrow> bool" where
  "GetBoolValue (PBool b) = b"
| "GetBoolValue v = False"

text \<open>A nil struct is \<open>None\<close>.\<close>

definition stringField :: "pstruct option \<Rightarrow> string \<Rightarrow> string" where
  "stringField inp name = (case inp of None \<Rightarrow> '''' | Some s \<Rightarrow> GetStringValue (get s name))"

definition fromStruct :: "(pstruct \<Rightarrow> error + 'a) \<Rightarrow> pstruct option \<Rightarrow> error + 'a" where
  "fromStruct conv inp = (case inp of None \<Rightarrow> Inl (New ''request required'') | Some s \<Rightarrow> conv s)"

text \<open>\<open>toStruct\<close>: \<open>bad v\<close> is the error of the conversion of \<open>v\<close>, if it fails.\<close>

definition toStruct :: "(payload \<Rightarrow> error option) \<Rightarrow> payload \<Rightarrow> grpc_error + payload" where
  "toStruct bad v = (case bad v of Some e \<Rightarrow> Inl (Internal, e) | None \<Rightarrow> Inr v)"

section \<open>Handlers\<close>

record genv =
  ge_http :: henv
  ge_create :: "pstruct \<Rightarrow> error + Create"
  ge_bad :: "payload \<Rightarrow> error option"

abbreviation ge_ctx :: "genv \<Rightarrow> ctx" where
  "ge_ctx en \<equiv> he_ctx (ge_http en)"

definition grpc_Health :: "genv \<Rightarrow> Runtime \<Rightarrow> (grpc_error + payload) \<times> Runtime" where
  "grpc_Health en rt = (toStruct (ge_bad en) (PReady (rt_NodeID rt)), rt)"

definition CreateAddress :: "genv \<Rightarrow> pstruct option \<Rightarrow> Runtime \<Rightarrow> (grpc_error + payload) \<times> Runtime" where
  "CreateAddress en inp rt =
    (case fromStruct (ge_create en) inp of
       Inl e \<Rightarrow> (Inl (InvalidArgument, e), rt)
     | Inr req \<Rightarrow>
       (case as_Create (duration_option (he_parse (ge_http en))) (ge_ctx en) (he_now (ge_http en)) req (rt_Memory rt) of
          (Inl e, m) \<Rightarrow> (Inl (InvalidArgument, e), rt_set_mem m rt)
        | (Inr a, m) \<Rightarrow> (toStruct (ge_bad en) (PAddress a), rt_set_mem m rt)))"

definition grpc_GetDepth :: "genv \<Rightarrow> pstruct option \<Rightarrow> Runtime \<Rightarrow> (grpc_error + payload) \<times> Runtime" where
  "grpc_GetDepth en inp rt =
    (let name = stringField inp ''name'' in
     if name = '''' then (Inl (InvalidArgument, New ''name required''), rt)
     else case Depth_op (ge_ctx en) name (rt_Memory rt) of
       Inl e \<Rightarrow> (Inl (NotFound, e), rt)
     | Inr n \<Rightarrow> (toStruct (ge_bad en) (PDepth name n), rt))"

text \<open>\<open>in.GetFields()\<close> of a nil struct is empty.\<close>

definition PauseAddress :: "genv \<Rightarrow> pstruct option \<Rightarrow> Runtime \<Rightarrow> (grpc_error + payload) \<times> Runtime" where
  "PauseAddress en inp rt =
    (let name = stringField inp ''name'';
         paused = (case inp of None \<Rightarrow> True | Some s \<Rightarrow> (case get s ''paused'' of None \<Rightarrow> True | Some v \<Rightarrow> GetBoolValue v)) in
     case as_Pause (ge_ctx en) name paused (rt_Memory rt) of
       (Inl e, m) \<Rightarrow> (Inl (NotFound, e), rt_set_mem m rt)
     | (Inr a, m) \<Rightarrow> (toStruct (ge_bad en) (PAddress a), rt_set_mem m rt))"

definition ListConnections :: "genv \<Rightarrow> Runtime \<Rightarrow> (grpc_error + payload) \<times> Runtime" where
  "ListConnections en rt =
    (toStruct (ge_bad en) (PConnections (conn_List (he_conns (ge_http en)) (sr_Connections (rt_AMQP rt)))), rt)"

definition grpc_GetTransaction :: "genv \<Rightarrow> pstruct option \<Rightarrow> Runtime \<Rightarrow> (grpc_error + payload) \<times> Runtime" where
  "grpc_GetTransaction en inp rt =
    (case tx_Get (ge_ctx en) (stringField inp ''id'') (rt_Memory rt) of
       Inl e \<Rightarrow> (Inl (NotFound, e), rt)
     | Inr tx \<Rightarrow> (toStruct (ge_bad en) (PTransaction tx), rt))"

section \<open>Dispatch\<close>

text \<open>
  The methods of the management service. The interceptor is a unary one: the streaming methods that
  \<open>reflection.Register\<close> adds in \<open>Start\<close> do not pass through it and are not modelled.
\<close>

datatype grpc_method = MHealth | MCreateAddress | MGetDepth | MPauseAddress | MListConnections | MGetTransaction

definition FullMethod :: "grpc_method \<Rightarrow> string" where
  "FullMethod m = ''/broker.v1.Management/'' @
    (case m of MHealth \<Rightarrow> ''Health'' | MCreateAddress \<Rightarrow> ''CreateAddress'' | MGetDepth \<Rightarrow> ''GetDepth''
     | MPauseAddress \<Rightarrow> ''PauseAddress'' | MListConnections \<Rightarrow> ''ListConnections'' | MGetTransaction \<Rightarrow> ''GetTransaction'')"

fun unary :: "genv \<Rightarrow> grpc_method \<Rightarrow> pstruct option \<Rightarrow> Runtime \<Rightarrow> (grpc_error + payload) \<times> Runtime" where
  "unary en MHealth inp rt = grpc_Health en rt"
| "unary en MCreateAddress inp rt = CreateAddress en inp rt"
| "unary en MGetDepth inp rt = grpc_GetDepth en inp rt"
| "unary en MPauseAddress inp rt = PauseAddress en inp rt"
| "unary en MListConnections inp rt = ListConnections en rt"
| "unary en MGetTransaction inp rt = grpc_GetTransaction en inp rt"

record grpc_Server =
  gs_Token :: string
  gs_AllowAnonymous :: bool

text \<open>\<open>vals\<close> are the values of the \<open>authorization\<close> metadata. The call's time limit is part of its context.\<close>

definition interceptor ::
  "grpc_Server \<Rightarrow> string list \<Rightarrow> string \<Rightarrow> (Runtime \<Rightarrow> (grpc_error + payload) \<times> Runtime) \<Rightarrow> Runtime \<Rightarrow> (grpc_error + payload) \<times> Runtime" where
  "interceptor s vals method handler rt =
    (if gs_AllowAnonymous s \<or> HasSuffix method ''/Health'' then handler rt
     else if length vals \<noteq> 1 \<or> TrimPrefix (vals ! 0) ''Bearer '' \<noteq> gs_Token s
       then (Inl (Unauthenticated, New ''valid bearer token required''), rt)
     else handler rt)"

text \<open>\<open>dec\<close> is the result of decoding the request; its error is returned as it is.\<close>

definition dispatch ::
  "genv \<Rightarrow> grpc_Server \<Rightarrow> string list \<Rightarrow> grpc_error + pstruct \<Rightarrow> grpc_method \<Rightarrow> Runtime \<Rightarrow> (grpc_error + payload) \<times> Runtime" where
  "dispatch en s vals dc method rt =
    (case dc of
       Inl e \<Rightarrow> (Inl e, rt)
     | Inr inp \<Rightarrow> interceptor s vals (FullMethod method) (unary en method (Some inp)) rt)"

section \<open>Properties\<close>

lemma health_suffix: "HasSuffix (FullMethod m) ''/Health'' \<longleftrightarrow> m = MHealth"
  by (cases m) (simp_all add: HasSuffix_def FullMethod_def suffix_def append_eq_Cons_conv)

lemma unary_code: "unary en m inp rt = (Inl (Unauthenticated, e), rt') \<Longrightarrow> False"
  by (cases m) (auto simp: grpc_Health_def CreateAddress_def grpc_GetDepth_def PauseAddress_def ListConnections_def
      grpc_GetTransaction_def toStruct_def Let_def split: sum.splits option.splits if_splits prod.splits)

lemma TrimPrefix_iff: "TrimPrefix s p = v \<longleftrightarrow> s = p @ v \<or> s = v \<and> \<not> prefix p s"
  by (auto simp: TrimPrefix_def prefix_def)

text \<open>
  C28: who may call what over gRPC. With anonymous access off, a call of any method of the
  management service but the health check that decodes is refused as unauthenticated, and changes nothing, exactly unless it carries
  one authorization value that is the configured token, after \<open>Bearer\<close> or on its own. So with no
  token configured an empty authorization is enough.
\<close>

theorem grpc_auth_exact:
  assumes "\<not> gs_AllowAnonymous s" "method \<noteq> MHealth"
  shows "((\<exists>e rt'. dispatch en s vals (Inr inp) method rt = (Inl (Unauthenticated, e), rt')) \<longleftrightarrow>
      \<not> (vals = [''Bearer '' @ gs_Token s] \<or> vals = [gs_Token s] \<and> \<not> prefix ''Bearer '' (gs_Token s))) \<and>
    (\<forall>e rt'. dispatch en s vals (Inr inp) method rt = (Inl (Unauthenticated, e), rt') \<longrightarrow> rt' = rt)"
proof -
  let ?ok = "vals = [''Bearer '' @ gs_Token s] \<or> vals = [gs_Token s] \<and> \<not> prefix ''Bearer '' (gs_Token s)"
  have refuse: "length vals \<noteq> 1 \<or> TrimPrefix (vals ! 0) ''Bearer '' \<noteq> gs_Token s \<longleftrightarrow> \<not> ?ok"
    by (cases vals) (auto simp: TrimPrefix_iff)
  have "dispatch en s vals (Inr inp) method rt =
      (if \<not> ?ok then (Inl (Unauthenticated, New ''valid bearer token required''), rt) else unary en method (Some inp) rt)"
    unfolding dispatch_def interceptor_def refuse [symmetric] health_suffix using assms by simp
  then show ?thesis using unary_code by (cases ?ok) (simp_all, blast+)
qed

text \<open>With no token configured, an empty authorization pauses an address.\<close>

theorem grpc_auth_exact_witness:
  "\<forall>en. \<not> (\<exists>e rt'. dispatch en \<lparr>gs_Token = '''', gs_AllowAnonymous = False\<rparr> [''''] (Inr [(''name'', PString ''jobs'')])
     MPauseAddress sample_runtime = (Inl (Unauthenticated, e), rt'))"
proof
  fix en
  show "\<not> (\<exists>e rt'. dispatch en \<lparr>gs_Token = '''', gs_AllowAnonymous = False\<rparr> [''''] (Inr [(''name'', PString ''jobs'')])
     MPauseAddress sample_runtime = (Inl (Unauthenticated, e), rt'))"
    using grpc_auth_exact [of "\<lparr>gs_Token = '''', gs_AllowAnonymous = False\<rparr>" MPauseAddress en "['''']"
      "[(''name'', PString ''jobs'')]" sample_runtime] by simp
qed

end
