(* ===== verification/LogProps.thy ===== *)
theory LogProps
  imports ConsumeProps
begin

text \<open>
  What requests do to the file log of the bodies: they add records and leave the others, so a body
  that can be read at a place of the log stays readable there.
\<close>

definition extends :: "FileLog \<Rightarrow> FileLog \<Rightarrow> bool" where
  "extends l l' = (\<forall>recs. log_rep l recs \<longrightarrow> (\<exists>more. log_rep l' (recs @ more)))"

lemma extends_refl [simp]: "extends l l"
  by (auto simp: extends_def intro: exI [of _ "[]"])

lemma extends_trans: "extends l l' \<Longrightarrow> extends l' l'' \<Longrightarrow> extends l l''"
  unfolding extends_def by (metis append_assoc)

lemma extends_inv: "extends l l' \<Longrightarrow> fl_inv l \<Longrightarrow> fl_inv l'"
  by (auto simp: extends_def fl_inv_def)

lemma extends_view: "extends l l' \<Longrightarrow> fl_inv l \<Longrightarrow> fl_view l off = Some b \<Longrightarrow> fl_view l' off = Some b"
proof -
  assume e: "extends l l'" and v: "fl_view l off = Some b" and "fl_inv l"
  then obtain recs where recs: "log_rep l recs" by (auto simp: fl_inv_def)
  then obtain more where more: "log_rep l' (recs @ more)" using e by (auto simp: extends_def)
  have "0 \<le> off \<and> off < int (length recs) \<and> b = snd (recs ! nat off)"
    using v by (simp add: fl_view_rep [OF recs] split: if_splits)
  then show ?thesis by (simp add: fl_view_rep [OF more] nth_append nat_less_iff)
qed

lemma Append_extends:
  assumes "fl_Append ctx mid b l = Inr (off, l')" "log_id mid"
  shows "extends l l'"
  unfolding extends_def
proof (intro allI impI)
  fix recs
  assume recs: "log_rep l recs"
  have "ctx = None" "length b \<le> 67108864" using assms(1) by (auto simp: fl_Append_def guardE_Inr_iff split: if_splits)
  with fl_Append_rep [OF recs assms(2), of b] assms(1) show "\<exists>more. log_rep l' (recs @ more)" by auto
qed

text \<open>One message is appended under a new identifier.\<close>

lemma new_message_log_id:
  assumes "randomID ''msg'' (rnd i) = Inr mid" "NewMessage mid inp now = Inr msg" "twelve rnd"
  shows "log_id (m_ID msg)"
proof -
  obtain b where "rnd i = Some b" "mid = ''msg_'' @ hex b"
    using assms(1) by (auto simp: randomID_def random_id_def split: option.splits)
  moreover have "m_ID msg = mid" using assms(2) by (auto simp: NewMessage_def Let_def split: if_splits)
  ultimately show ?thesis using msg_log_id assms(3) by (simp add: twelve_def)
qed

lemma publish_loop_extends:
  "publish_loop file_log_ops rs ctx clk rnd inp i routes created s = (r, s') \<Longrightarrow> twelve rnd \<Longrightarrow> extends (sv_log s) (sv_log s')"
proof (induction routes arbitrary: i created s)
  case (Cons route routes)
  let ?inp = "inp\<lparr>p_Address := rt_Destination route\<rparr>"
  show ?case
  proof (cases "\<exists>mid msg off l. randomID ''msg'' (rnd i) = Inr mid \<and> NewMessage mid ?inp (clk i) = Inr msg \<and>
      fl_Append ctx (m_ID msg) (m_Body msg) (sv_log s) = Inr (off, l)")
    case False
    then have "sv_log s' = sv_log s"
      using Cons.prems(1) by (auto simp: file_log_ops_def split: sum.splits)
    then show ?thesis by simp
  next
    case True
    then obtain mid msg off l where a: "randomID ''msg'' (rnd i) = Inr mid" "NewMessage mid ?inp (clk i) = Inr msg"
      "fl_Append ctx (m_ID msg) (m_Body msg) (sv_log s) = Inr (off, l)" by blast
    have l: "extends (sv_log s) l" by (rule Append_extends [OF a(3) new_message_log_id [OF a(1,2) Cons.prems(2)]])
    have "sv_log s' = l \<or> (\<exists>created m. publish_loop file_log_ops rs ctx clk rnd inp (Suc i) routes created
        (s\<lparr>sv_log := l, sv_mem := m\<rparr>) = (r, s'))"
      using Cons.prems(1) a by (auto simp: file_log_ops_def Let_def split: sum.splits prod.splits option.splits)
    then show ?thesis using l Cons.IH [OF _ Cons.prems(2)] extends_trans by fastforce
  qed
qed simp

lemma stage_loop_extends:
  "stage_loop file_log_ops ctx clk rnd inp i routes out s = (r, s') \<Longrightarrow> twelve rnd \<Longrightarrow> extends (sv_log s) (sv_log s')"
proof (induction routes arbitrary: i out s inp)
  case (Cons route routes)
  let ?inp = "inp\<lparr>p_Address := rt_Destination route\<rparr>"
  show ?case
  proof (cases "\<exists>mid msg off l. randomID ''msg'' (rnd i) = Inr mid \<and> NewMessage mid ?inp (clk i) = Inr msg \<and>
      fl_Append ctx (m_ID msg) (m_Body msg) (sv_log s) = Inr (off, l)")
    case False
    then have "sv_log s' = sv_log s"
      using Cons.prems(1) by (auto simp: file_log_ops_def Let_def split: sum.splits)
    then show ?thesis by simp
  next
    case True
    then obtain mid msg off l where a: "randomID ''msg'' (rnd i) = Inr mid" "NewMessage mid ?inp (clk i) = Inr msg"
      "fl_Append ctx (m_ID msg) (m_Body msg) (sv_log s) = Inr (off, l)" by blast
    have l: "extends (sv_log s) l" by (rule Append_extends [OF a(3) new_message_log_id [OF a(1,2) Cons.prems(2)]])
    have "sv_log s' = l \<or> (\<exists>out m. stage_loop file_log_ops ctx clk rnd ?inp (Suc i) routes out
        (s\<lparr>sv_log := l, sv_mem := m\<rparr>) = (r, s'))"
      using Cons.prems(1) a by (auto simp: file_log_ops_def Let_def split: sum.splits prod.splits)
    then show ?thesis using l Cons.IH [OF _ Cons.prems(2)] extends_trans by fastforce
  qed
qed simp

lemma Publish_extends:
  "Publish_op file_log_ops rs ctx clk rnd inp s = (r, s') \<Longrightarrow> twelve rnd \<Longrightarrow> extends (sv_log s) (sv_log s')"
  by (auto simp: Publish_op_def Let_def split: sum.splits option.splits if_splits dest: publish_loop_extends)

lemma Stage_extends:
  "Stage file_log_ops rs ctx clk rnd inp s = (r, s') \<Longrightarrow> twelve rnd \<Longrightarrow> extends (sv_log s) (sv_log s')"
  by (auto simp: Stage_def Let_def split: sum.splits option.splits if_splits dest: stage_loop_extends)

lemma Acquire_log: "Acquire_op bl rs ctx now cid s = (r, s') \<Longrightarrow> sv_log s' = sv_log s"
  using Acquire_op_cases [of bl rs ctx now cid s r s'] acquire_tail_cases by fastforce

lemma svc_step_extends: "svc_step file_log_ops s s' \<Longrightarrow> extends (sv_log s) (sv_log s')"
  by (induction rule: svc_step.induct) (auto dest: Publish_extends Stage_extends Acquire_log)

lemma svc_steps_extend: "(svc_step file_log_ops)\<^sup>*\<^sup>* s s' \<Longrightarrow> extends (sv_log s) (sv_log s')"
  by (induction rule: rtranclp_induct) (auto intro: extends_trans svc_step_extends)

end
