(* ===== verification/System.thy ===== *)
theory System
  imports PeerWire HttpProps Grpc LogProps
begin

text \<open>
  The running broker: the runtime, and the goroutines that work on it at the same time. The accept
  loop of the AMQP server starts one goroutine per connection (\<open>Server.accept\<close>, \<open>Server.handle\<close>), the
  HTTP and the gRPC server answer requests, the worker sweeps. A connection keeps its own state (its
  \<open>peer\<close>) and works on the shared server whenever it is scheduled: for its handshake, and then for one
  frame at a time. An event is one such turn; the events of all goroutines come in any order.

  The locks of the stores and registries order single operations; that a whole frame, request or
  sweep is one event is the granularity of the model.
\<close>

section \<open>State\<close>

datatype phase = Greeting | Serving

record system =
  sy_Runtime :: Runtime
  sy_Peers :: "(string, phase \<times> FileLog peer) gomap"   \<comment> \<open>the connections, by identifier\<close>
  sy_Middleware :: Middleware
  sy_Metrics :: Metrics
  sy_Grpc :: grpc_Server
  sy_Crashed :: bool

abbreviation sy_server :: "system \<Rightarrow> FileLog Server" where
  "sy_server s \<equiv> rt_AMQP (sy_Runtime s)"

abbreviation sy_mem :: "system \<Rightarrow> Memory" where
  "sy_mem s \<equiv> rt_Memory (sy_Runtime s)"

abbreviation sy_log :: "system \<Rightarrow> FileLog" where
  "sy_log s \<equiv> rt_BodyLog (sy_Runtime s)"

definition set_server :: "FileLog Server \<Rightarrow> system \<Rightarrow> system" where
  "set_server sv s = s\<lparr>sy_Runtime := (sy_Runtime s)\<lparr>rt_AMQP := sv\<rparr>\<rparr>"

text \<open>A peer that is scheduled sees the server as it is now; it leaves it to the others as it has changed it.\<close>

definition resume :: "system \<Rightarrow> FileLog peer \<Rightarrow> FileLog peer" where
  "resume s p = p\<lparr>pe_server := sy_server s\<rparr>"

definition suspend :: "string \<Rightarrow> phase \<Rightarrow> FileLog peer \<Rightarrow> system \<Rightarrow> system" where
  "suspend cid ph p s = (set_server (pe_server p) s)\<lparr>sy_Peers := put cid (ph, p) (sy_Peers s)\<rparr>"

text \<open>\<open>handle\<close> returns: its deferred clean-up runs and the goroutine is gone.\<close>

definition leave :: "env \<Rightarrow> string \<Rightarrow> FileLog peer \<Rightarrow> system \<Rightarrow> system" where
  "leave en cid p s = (set_server (clean_up en cid (pe_server p)) s)\<lparr>sy_Peers := del cid (sy_Peers s)\<rparr>"

section \<open>Events\<close>

text \<open>The listener has accepted a socket; \<open>handle\<close> registers the connection or gives up.\<close>

definition accept :: "env \<Rightarrow> net_Conn \<Rightarrow> system \<Rightarrow> system" where
  "accept en nc s =
    (case peer_randomID ''conn'' (e_rnd en) of
       Inl e \<Rightarrow> s
     | Inr cid \<Rightarrow>
         let c = New_Connection cid (nc_remote nc) (sr_MaxFrame (sy_server s)) (sr_IdleTimeout (sy_server s)) (e_now en) in
         case conn_Add c (sr_Connections (sy_server s)) of
           Inl e \<Rightarrow> s
         | Inr r \<Rightarrow> suspend cid Greeting (new_peer nc c ((sy_server s)\<lparr>sr_Connections := r\<rparr>)) s)"

text \<open>
  The next turn of a connection: the handshake, or one round of the loop of \<open>handle\<close>. A panic ends the
  process there and then: nothing is cleaned up, what the handler has done so far has been done.
\<close>

definition panicked :: "error option \<Rightarrow> bool" where
  "panicked err = (case err of None \<Rightarrow> False | Some e \<Rightarrow> is_panic e)"

definition turn :: "env \<Rightarrow> string \<Rightarrow> system \<Rightarrow> system" where
  "turn en cid s =
    (case get (sy_Peers s) cid of
       None \<Rightarrow> s
     | Some (Greeting, p) \<Rightarrow>
         (case handshake (e_ctx en) (resume s p) of
            (Some e, p') \<Rightarrow> leave en cid p' s
          | (None, p') \<Rightarrow> suspend cid Serving p' s)
     | Some (Serving, p) \<Rightarrow>
         let p = resume s p in
         case ReadFrame (nc_in (pe_net p)) (c_MaxFrame (pe_connection p)) of
           Inl e \<Rightarrow> leave en cid p s
         | Inr (frame, rest) \<Rightarrow>
             (case process file_log_ops en frame (set_conn (Touch (pe_connection p) (e_now en)) (set_in rest p)) of
                (Some e, p') \<Rightarrow> if panicked (Some e) then (set_server (pe_server p') s)\<lparr>sy_Crashed := True\<rparr> else leave en cid p' s
              | (None, p') \<Rightarrow> if peer_state p' = StateClosed then leave en cid p' s else suspend cid Serving p' s))"

definition http_event :: "henv \<Rightarrow> bool \<Rightarrow> request \<Rightarrow> system \<Rightarrow> system" where
  "http_event en late r s =
    (case serve_http en late r (sy_Middleware s, \<lparr>ap_Runtime = sy_Runtime s, ap_Metrics = sy_Metrics s\<rparr>) of
       (_, m, a) \<Rightarrow> s\<lparr>sy_Middleware := m, sy_Runtime := ap_Runtime a, sy_Metrics := ap_Metrics a\<rparr>)"

definition grpc_event :: "genv \<Rightarrow> string list \<Rightarrow> grpc_error + pstruct \<Rightarrow> grpc_method \<Rightarrow> system \<Rightarrow> system" where
  "grpc_event en vals dc meth s = s\<lparr>sy_Runtime := snd (dispatch en (sy_Grpc s) vals dc meth (sy_Runtime s))\<rparr>"

definition sweep_event :: "ranges \<Rightarrow> ctx \<Rightarrow> (nat \<Rightarrow> time) \<Rightarrow> (nat \<Rightarrow> time) \<Rightarrow> system \<Rightarrow> system" where
  "sweep_event rs ctx clk clk' s = s\<lparr>sy_Runtime := snd (Runtime_Sweep rs ctx clk clk' (sy_Runtime s))\<rparr>"

datatype event =
    EvAccept env net_Conn
  | EvTurn env string
  | EvHttp henv bool request
  | EvGrpc genv "string list" "grpc_error + pstruct" grpc_method
  | EvSweep ranges ctx "nat \<Rightarrow> time" "nat \<Rightarrow> time"

fun sys_step :: "event \<Rightarrow> system \<Rightarrow> system" where
  "sys_step (EvAccept en nc) s = accept en nc s"
| "sys_step (EvTurn en cid) s = turn en cid s"
| "sys_step (EvHttp en late r) s = http_event en late r s"
| "sys_step (EvGrpc en vals dc meth) s = grpc_event en vals dc meth s"
| "sys_step (EvSweep rs ctx clk clk') s = sweep_event rs ctx clk clk' s"

text \<open>The system \<open>run\<close> starts: no connection yet, fresh metrics, the interfaces with the configured token.\<close>

definition booted :: "Config \<Rightarrow> Runtime \<Rightarrow> system" where
  "booted cfg r = \<lparr>sy_Runtime = r, sy_Peers = [],
     sy_Middleware = Wrap_defaults \<lparr>mw_Token = au_Token (cf_Auth cfg), mw_AllowAnonymous = au_AllowAnonymous (cf_Auth cfg),
       mw_Timeout = 15 * second, mw_BodyLimit = lm_BodyBytes (cf_Limits cfg), mw_Rate = lm_RequestsPerSecond (cf_Limits cfg),
       mw_window = 0, mw_count = 0\<rparr>,
     sy_Metrics = \<lparr>mt_Requests = 0, mt_Failures = 0, mt_Published = 0, mt_Delivered = 0, mt_Expired = 0\<rparr>,
     sy_Grpc = \<lparr>gs_Token = au_Token (cf_Auth cfg), gs_AllowAnonymous = au_AllowAnonymous (cf_Auth cfg)\<rparr>,
     sy_Crashed = False\<rparr>"

text \<open>
  What an event may rely on: map orders are orders, the random source fills its buffers. \<open>tame\<close>
  adds what the structural invariant needs: the identifiers drawn are new (no registered session or
  link has them, and no peer has the one of a link in a slot), and no context or socket reports a
  panic as its error. \<open>ok\<close> says which frames the remote ends send.
\<close>

fun lawful :: "event \<Rightarrow> bool" where
  "lawful (EvAccept en nc) = valid_env en"
| "lawful (EvTurn en cid) = valid_env en"
| "lawful (EvHttp en late r) = (valid_ranges (he_ranges en) \<and> twelve (he_rnds en))"
| "lawful (EvGrpc en vals dc meth) = True"
| "lawful (EvSweep rs ctx clk clk') = valid_ranges rs"

definition next_frame :: "(Frame \<Rightarrow> FileLog peer \<Rightarrow> bool) \<Rightarrow> FileLog peer \<Rightarrow> bool" where
  "next_frame ok p = (\<forall>frame rest. ReadFrame (nc_in (pe_net p)) (c_MaxFrame (pe_connection p)) = Inr (frame, rest) \<longrightarrow> ok frame p)"

definition new_slot :: "env \<Rightarrow> system \<Rightarrow> bool" where
  "new_slot en s = (\<forall>lid k ph q slot. peer_randomID ''lnk'' (e_rnd en) = Inr lid \<longrightarrow> get (sy_Peers s) k = Some (ph, q) \<longrightarrow>
     get (pe_linkIDs q) slot \<noteq> Some lid)"

fun tame :: "(Frame \<Rightarrow> FileLog peer \<Rightarrow> bool) \<Rightarrow> system \<Rightarrow> event \<Rightarrow> bool" where
  "tame ok s (EvTurn en cid) = (new_slot en s \<and> (\<forall>ph p. get (sy_Peers s) cid = Some (ph, p) \<longrightarrow>
     fresh_env en (resume s p) \<and> (\<forall>z. quiet z en p) \<and> next_frame ok p))"
| "tame ok s ev = True"

inductive sys_reach :: "system \<Rightarrow> system \<Rightarrow> bool" for s0 where
  start: "sys_reach s0 s0"
| step: "sys_reach s0 s \<Longrightarrow> \<not> sy_Crashed s \<Longrightarrow> lawful ev \<Longrightarrow> sys_reach s0 (sys_step ev s)"

inductive tame_reach :: "(Frame \<Rightarrow> FileLog peer \<Rightarrow> bool) \<Rightarrow> system \<Rightarrow> system \<Rightarrow> bool" for ok s0 where
  start: "tame_reach ok s0 s0"
| step: "tame_reach ok s0 s \<Longrightarrow> \<not> sy_Crashed s \<Longrightarrow> lawful ev \<Longrightarrow> tame ok s ev \<Longrightarrow> tame_reach ok s0 (sys_step ev s)"

section \<open>No event loses a message or its body\<close>

definition secures :: "system \<Rightarrow> system \<Rightarrow> bool" where
  "secures s s' = (keeps (sy_mem s) (sy_mem s') \<and> extends (sy_log s) (sy_log s'))"

lemma secures_refl [simp]: "secures s s"
  by (simp add: secures_def)

lemma secures_trans: "secures s s1 \<Longrightarrow> secures s1 s2 \<Longrightarrow> secures s s2"
  by (auto simp: secures_def intro: keeps_trans extends_trans)

lemma secures_steps: "(svc_step file_log_ops)\<^sup>*\<^sup>* (sr_Delivery (sy_server s)) (sr_Delivery (sy_server s')) \<Longrightarrow> secures s s'"
  by (simp add: secures_def keeps_grows svc_steps_grow svc_steps_extend)

lemma server_simps [simp]:
  "sy_server (set_server sv s) = sv" "sy_server (suspend cid ph p s) = pe_server p"
  "sy_server (leave en cid p s) = clean_up en cid (pe_server p)" "pe_server (resume s p) = sy_server s"
  "sr_Delivery (clean_up en cid sv) = sr_Delivery sv"
  by (simp_all add: set_server_def suspend_def leave_def resume_def clean_up_def)

lemma accept_secures: "secures s (accept en nc s)"
  by (auto simp: accept_def new_peer_def Let_def intro!: secures_steps split: sum.split)

text \<open>What a turn of a connection comes to, in one of four ways.\<close>

lemma turn_cases:
  obtains (idle) "get (sy_Peers s) cid = None" "turn en cid s = s"
  | (greet) p err p' where "get (sy_Peers s) cid = Some (Greeting, p)" "handshake (e_ctx en) (resume s p) = (err, p')"
      "turn en cid s = (if err = None then suspend cid Serving p' s else leave en cid p' s)"
  | (eof) p e where "get (sy_Peers s) cid = Some (Serving, p)" "turn en cid s = leave en cid (resume s p) s"
      "ReadFrame (nc_in (pe_net p)) (c_MaxFrame (pe_connection p)) = Inl e"
  | (frame) p fr rest err p' where "get (sy_Peers s) cid = Some (Serving, p)"
      "ReadFrame (nc_in (pe_net p)) (c_MaxFrame (pe_connection p)) = Inr (fr, rest)"
      "process file_log_ops en fr (set_conn (Touch (pe_connection p) (e_now en)) (set_in rest (resume s p))) = (err, p')"
      "turn en cid s = (if panicked err then (set_server (pe_server p') s)\<lparr>sy_Crashed := True\<rparr>
         else if err = None \<and> peer_state p' \<noteq> StateClosed then suspend cid Serving p' s else leave en cid p' s)"
proof (cases "get (sy_Peers s) cid")
  case None
  then show ?thesis by (intro idle) (simp_all add: turn_def)
next
  case (Some x)
  show ?thesis
  proof (cases x)
    case x: (Pair ph p)
    have fields: "pe_net (resume s p) = pe_net p" "pe_connection (resume s p) = pe_connection p" by (simp_all add: resume_def)
    show ?thesis
    proof (cases ph)
      case Greeting
      obtain err p' where h: "handshake (e_ctx en) (resume s p) = (err, p')" by fastforce
      show ?thesis by (rule greet [of p err p']) (use Some x Greeting h in \<open>auto simp: turn_def split: option.split\<close>)
    next
      case Serving
      show ?thesis
      proof (cases "ReadFrame (nc_in (pe_net p)) (c_MaxFrame (pe_connection p))")
        case (Inl e)
        show ?thesis by (rule eof [of p e]) (use Some x Serving Inl in \<open>simp_all add: turn_def Let_def fields\<close>)
      next
        case (Inr y)
        obtain fr rest where y: "y = (fr, rest)" by fastforce
        obtain err p' where q: "process file_log_ops en fr (set_conn (Touch (pe_connection p) (e_now en)) (set_in rest (resume s p))) = (err, p')"
          by fastforce
        show ?thesis
          by (rule frame [of p fr rest err p'])
            (use Some x Serving Inr y q in \<open>auto simp: turn_def Let_def fields panicked_def split: option.split\<close>)
      qed
    qed
  qed
qed

lemma served_resume: "served bl (set_conn c (set_in b p)) q \<longleftrightarrow> served bl p q"
  by (simp add: served_def set_conn_def set_in_def)

lemma turn_secures:
  assumes "valid_env en"
  shows "secures s (turn en cid s)"
proof (cases rule: turn_cases [of s cid en])
  case (greet p err p')
  have "served file_log_ops (resume s p) p'" using handshake_served [of file_log_ops "resume s p" "e_ctx en"] greet(2) by simp
  then show ?thesis unfolding greet(3) by (auto simp: served_def intro: secures_steps)
next
  case (frame p fr rest err p')
  have "served file_log_ops (resume s p) p'"
    using process_served [OF assms, of file_log_ops "set_conn (Touch (pe_connection p) (e_now en)) (set_in rest (resume s p))" fr]
    by (simp add: frame(3) served_resume)
  then have "(svc_step file_log_ops)\<^sup>*\<^sup>* (sr_Delivery (sy_server s)) (peer_delivery p')" by (simp add: served_def)
  then show ?thesis unfolding frame(4) by (auto simp: set_server_def intro!: secures_steps)
qed (auto intro: secures_steps)

lemma api_log_simps [simp]:
  "rt_BodyLog (ap_Runtime (on_mem a m)) = rt_BodyLog (ap_Runtime a)" "rt_BodyLog (ap_Runtime (on_delivery a s)) = sv_log s"
  "rt_BodyLog (ap_Runtime (snd (answer st f bad code r a))) = rt_BodyLog (ap_Runtime a)"
  "rt_BodyLog (ap_Runtime (snd (api_fail st code e a))) = rt_BodyLog (ap_Runtime a)"
  by (simp_all add: on_mem_def rt_set_mem_def rt_set_delivery_def on_delivery_def answer_def api_fail_def split: sum.split)

lemma extends_decode:
  "(\<And>x. extends l (rt_BodyLog (ap_Runtime (snd (k x a))))) \<Longrightarrow> extends l (rt_BodyLog (ap_Runtime a)) \<Longrightarrow>
     extends l (rt_BodyLog (ap_Runtime (snd (decode inp k a))))"
  by (cases inp) (simp_all add: decode_def)

lemma StagePublish_extends:
  assumes "StagePublish file_log_ops rs ctx now clk rnd tid inp s = (r, s')" "twelve rnd"
  shows "extends (sv_log s) (sv_log s')"
proof -
  obtain e msgs s1 where st: "Stage file_log_ops rs ctx clk rnd (inp\<lparr>p_TransactionID := tid\<rparr>) s = ((e, msgs), s1)" by (metis surj_pair)
  have "sv_log s' = sv_log s \<or> sv_log s' = sv_log s1"
    using assms(1) st by (cases e) (auto simp: StagePublish_def split: sum.splits if_splits)
  then show ?thesis using Stage_extends [OF st assms(2)] by auto
qed

lemma mux_extends:
  assumes "twelve (he_rnds en)"
  shows "extends (rt_BodyLog (ap_Runtime a)) (rt_BodyLog (ap_Runtime (snd (mux en ep a))))"
  using assms
  by (cases ep) (auto simp: handler_defs Let_def intro!: extends_decode split: prod.split sum.split option.split
      dest: Publish_extends StagePublish_extends Acquire_log)

lemma http_secures:
  assumes "valid_ranges (he_ranges en)" "twelve (he_rnds en)"
  shows "secures s (http_event en late r s)"
proof -
  let ?a = "\<lparr>ap_Runtime = sy_Runtime s, ap_Metrics = sy_Metrics s\<rparr>"
  obtain req re m' a' where h: "serve_http en late r (sy_Middleware s, ?a) = ((req, re), m', a')" by (metis prod.collapse)
  have "extends (sy_log s) (rt_BodyLog (ap_Runtime a'))"
    using serve_http_mux [OF h] mux_extends [OF assms(2)] by (auto, metis Api.select_convs(1))
  with serve_http_keeps [OF assms(1) h] show ?thesis by (simp add: secures_def http_event_def h)
qed

lemma keeps_unary: "keeps (rt_Memory rt) (rt_Memory (snd (unary en m inp rt))) \<and> rt_BodyLog (snd (unary en m inp rt)) = rt_BodyLog rt"
  by (cases m) (auto simp: grpc_Health_def CreateAddress_def grpc_GetDepth_def PauseAddress_def ListConnections_def
      grpc_GetTransaction_def Let_def rt_set_mem_def rt_set_delivery_def split: sum.split prod.split intro: keeps_admin)

lemma grpc_secures: "secures s (grpc_event en vals dc meth s)"
  using keeps_unary by (auto simp: secures_def grpc_event_def dispatch_def interceptor_def split: sum.split)

lemma sweep_secures:
  assumes "valid_ranges rs"
  shows "secures s (sweep_event rs ctx clk clk' s)"
proof -
  obtain res r' where w: "Runtime_Sweep rs ctx clk clk' (sy_Runtime s) = (res, r')" by fastforce
  have "rt_BodyLog r' = sy_log s"
    using w by (auto simp: Runtime_Sweep_def rt_set_mem_def rt_set_delivery_def split: prod.splits option.splits)
  moreover have "keeps (sy_mem s) (rt_Memory r')"
    using Sweep_wf [OF w assms] Sweep_settled [OF w assms] Sweep_limited [OF w assms] by (simp add: keeps_def)
  ultimately show ?thesis by (simp add: secures_def sweep_event_def w)
qed

lemma step_secures: "lawful ev \<Longrightarrow> secures s (sys_step ev s)"
  by (cases ev) (simp_all add: accept_secures turn_secures http_secures grpc_secures sweep_secures)

lemma reach_secures: "sys_reach s0 s \<Longrightarrow> secures s0 s"
  by (induction rule: sys_reach.induct) (auto intro: secures_trans step_secures)

section \<open>The registries\<close>

text \<open>
  The invariant of the running broker: the registries are consistent, the registered connections are
  those being served, every session belongs to one of them, the session table of each peer agrees with
  the registries, its registered links belong to its own sessions, the limit on connections is kept and
  no length limit is negative. \<open>st\<close>: every slot of a peer also names a registered link, as long as
  sessions are ended only after their links have been detached.
\<close>

definition peer_ok :: "bool \<Rightarrow> FileLog Server \<Rightarrow> string \<Rightarrow> FileLog peer \<Rightarrow> bool" where
  "peer_ok st sv cid p = (c_ID (pe_connection p) = cid \<and> peer_inv (p\<lparr>pe_server := sv\<rparr>) \<and> own_links (p\<lparr>pe_server := sv\<rparr>) \<and>
     (st \<longrightarrow> link_table (p\<lparr>pe_server := sv\<rparr>)))"

definition server_ok :: "int \<Rightarrow> string set \<Rightarrow> FileLog Server \<Rightarrow> bool" where
  "server_ok mx live sv = (sessions.inv (sr_Sessions sv) \<and> links.inv (sr_Links sv) \<and> wf_map (cr_items (sr_Connections sv)) \<and>
     set (map fst (cr_items (sr_Connections sv))) = live \<and> cr_max (sr_Connections sv) = mx \<and> int (conn_Count (sr_Connections sv)) \<le> mx \<and>
     (\<forall>sid x. session_Get (sr_Sessions sv) sid = Some x \<longrightarrow> s_ConnectionID x \<in> live))"

definition sys_inv :: "int \<Rightarrow> bool \<Rightarrow> system \<Rightarrow> bool" where
  "sys_inv mx st s = (\<not> sy_Crashed s \<and> wf_map (sy_Peers s) \<and> server_ok mx (fst ` set (sy_Peers s)) (sy_server s) \<and>
     mem_wf (sy_mem s) \<and> limited (sy_mem s) \<and>
     (\<forall>cid ph p. get (sy_Peers s) cid = Some (ph, p) \<longrightarrow> peer_ok st (sy_server s) cid p))"

lemma peer_ok_resume: "peer_ok st (sy_server s) cid p \<longleftrightarrow>
    c_ID (pe_connection p) = cid \<and> peer_inv (resume s p) \<and> own_links (resume s p) \<and> (st \<longrightarrow> link_table (resume s p))"
  by (simp add: peer_ok_def resume_def)

text \<open>No link that is new in \<open>sv'\<close> has an identifier the peer has in a slot.\<close>

definition aloof :: "FileLog Server \<Rightarrow> FileLog Server \<Rightarrow> FileLog peer \<Rightarrow> bool" where
  "aloof sv sv' q = (\<forall>slot lid. get (pe_linkIDs q) slot = Some lid \<longrightarrow> link_Get (sr_Links sv') lid \<noteq> None \<longrightarrow> link_Get (sr_Links sv) lid \<noteq> None)"

lemma aloof_same: "sr_Links sv' = sr_Links sv \<Longrightarrow> aloof sv sv' q"
  by (simp add: aloof_def)

lemma peer_ok_undisturbed: "peer_ok st sv cid p \<Longrightarrow> undisturbed cid sv sv' \<Longrightarrow> aloof sv sv' p \<Longrightarrow> peer_ok st sv' cid p"
  using undisturbed_inv [of "p\<lparr>pe_server := sv\<rparr>" sv'] undisturbed_link_table [of "p\<lparr>pe_server := sv\<rparr>" sv']
    undisturbed_own_links [of "p\<lparr>pe_server := sv\<rparr>" sv']
  by (auto simp: peer_ok_def aloof_def)

lemma others_ok:
  assumes "sys_inv mx st s" "get (sy_Peers s) k = Some (ph, q)" "undisturbed k (sy_server s) sv" "aloof (sy_server s) sv q"
  shows "peer_ok st sv k q"
  by (rule peer_ok_undisturbed [OF _ assms(3,4)]) (use assms(1,2) in \<open>auto simp: sys_inv_def\<close>)

lemma keeps_inv: "sys_inv mx st s \<Longrightarrow> secures s s' \<Longrightarrow> mem_wf (sy_mem s') \<and> limited (sy_mem s')"
  by (simp add: sys_inv_def secures_def keeps_def)

text \<open>Events that leave the three registries alone.\<close>

lemma sys_inv_same:
  assumes "sys_inv mx st s" "secures s s'" "sr_Sessions (sy_server s') = sr_Sessions (sy_server s)" "sr_Links (sy_server s') = sr_Links (sy_server s)"
    and "sr_Connections (sy_server s') = sr_Connections (sy_server s)" "sy_Peers s' = sy_Peers s" "sy_Crashed s' = sy_Crashed s"
  shows "sys_inv mx st s'"
proof -
  have ok: "server_ok mx live (sy_server s') = server_ok mx live (sy_server s)" for live by (simp add: server_ok_def assms(3-5))
  have inv: "sessions.inv (sr_Sessions (sy_server s))" "links.inv (sr_Links (sy_server s))"
    using assms(1) by (simp_all add: sys_inv_def server_ok_def)
  have "undisturbed cid (sy_server s) (sy_server s')" for cid
    by (rule undisturbed_same [OF undisturbed_refl [OF inv]]) (simp_all add: assms(3-5))
  then have "peer_ok st (sy_server s') cid p" if "peer_ok st (sy_server s) cid p" for cid p
    using that aloof_same [OF assms(4)] peer_ok_undisturbed by blast
  then show ?thesis using assms(1,6,7) ok keeps_inv [OF assms(1,2)] by (simp add: sys_inv_def)
qed

text \<open>
  One connection moves, the others are undisturbed: \<open>p\<close> is its peer with the server as it has left it.
  It stays, or it leaves and its clean-up runs.
\<close>

lemma moved_keys:
  assumes "lodged cid (sr_Connections (sy_server s)) p"
  shows "map fst (cr_items (sr_Connections (pe_server p))) = map fst (cr_items (sr_Connections (sy_server s)))"
    "cr_max (sr_Connections (pe_server p)) = cr_max (sr_Connections (sy_server s))" "c_ID (pe_connection p) = cid"
    "conn_Count (sr_Connections (pe_server p)) = conn_Count (sr_Connections (sy_server s))"
  using assms map_eq_imp_length_eq by (auto simp: lodged_def conn_Count_def)

lemma moved_sessions:
  assumes "sys_inv mx st s" "\<And>k. k \<noteq> cid \<Longrightarrow> undisturbed k (sy_server s) sv"
    and "session_Get (sr_Sessions sv) sid = Some x" "s_ConnectionID x \<noteq> cid"
  shows "s_ConnectionID x \<in> fst ` set (sy_Peers s)"
proof -
  have "session_Get (sr_Sessions (sy_server s)) sid = Some x"
    using assms(2) [OF assms(4)] assms(3) by (simp add: undisturbed_def)
  then show ?thesis using assms(1) by (auto simp: sys_inv_def server_ok_def)
qed

lemma other_name: "\<exists>k :: string. k \<noteq> cid"
  by (metis list.distinct(1) neq_Nil_conv)

lemma suspend_inv:
  assumes "sys_inv mx st s" "get (sy_Peers s) cid \<noteq> None" "lodged cid (sr_Connections (sy_server s)) p"
    and "\<And>k. k \<noteq> cid \<Longrightarrow> undisturbed k (sy_server s) (pe_server p)" "peer_inv p" "own_links p" "st \<longrightarrow> link_table p"
    and "\<And>k ph q. get (sy_Peers s) k = Some (ph, q) \<Longrightarrow> aloof (sy_server s) (pe_server p) q" "secures s (suspend cid ph p s)"
  shows "sys_inv mx st (suspend cid ph p s)"
proof -
  note keys = moved_keys [OF assms(3)]
  have wf: "wf_map (sy_Peers s)" using assms(1) by (simp add: sys_inv_def)
  have live: "fst ` set (put cid (ph, p) (sy_Peers s)) = fst ` set (sy_Peers s)"
    using assms(2) by (simp add: dom_update get_None_keys insert_absorb)
  have inv: "sessions.inv (sr_Sessions (pe_server p))" "links.inv (sr_Links (pe_server p))"
    using assms(4) other_name [of cid] by (auto simp: undisturbed_def)
  have "s_ConnectionID x \<in> fst ` set (sy_Peers s)" if "session_Get (sr_Sessions (pe_server p)) sid = Some x" for sid x
    using moved_sessions [OF assms(1,4) that] assms(2) by (cases "s_ConnectionID x = cid") (auto simp: get_None_keys)
  then have "server_ok mx (fst ` set (sy_Peers s)) (pe_server p)"
    using assms(1) keys inv by (simp add: sys_inv_def server_ok_def wf_map_def)
  moreover have "peer_ok st (pe_server p) k q" if "get (put cid (ph, p) (sy_Peers s)) k = Some (ph', q)" for k ph' q
  proof (cases "k = cid")
    case True
    then show ?thesis using that assms(5-7) keys(3) by (auto simp: peer_ok_def map_simps)
  next
    case False
    then have "get (sy_Peers s) k = Some (ph', q)" using that by (simp add: map_simps)
    then show ?thesis using others_ok [OF assms(1)] assms(4) [OF False] assms(8) by blast
  qed
  ultimately show ?thesis
    using assms(1) wf live keeps_inv [OF assms(1,9)] by (auto simp: sys_inv_def suspend_def set_server_def)
qed

lemma undisturbed_clean_up:
  assumes "undisturbed k s sv" "k \<noteq> cid" "valid_range (e_sessions en)"
  shows "undisturbed k s (clean_up en cid sv)"
proof -
  have inv: "sessions.inv (sr_Sessions sv)" using assms(1) by (simp add: undisturbed_def)
  have "session_Get (RemoveConnection (e_sessions en) cid (sr_Sessions sv)) i = Some x \<longleftrightarrow>
      session_Get (sr_Sessions sv) i = Some x \<and> s_ConnectionID x \<noteq> cid" for i x
    using sessions.get_remove_owner [OF inv assms(3), of cid i x] by (simp add: session_Get_def)
  then show ?thesis
    using assms(1,2) sessions.inv_remove_owner [OF inv assms(3)]
    by (auto simp: undisturbed_def clean_up_def conn_Get_def conn_Remove_def map_simps)
qed

lemma leave_inv:
  assumes "sys_inv mx st s" "get (sy_Peers s) cid \<noteq> None" "lodged cid (sr_Connections (sy_server s)) p"
    and "\<And>k. k \<noteq> cid \<Longrightarrow> undisturbed k (sy_server s) (pe_server p)" "valid_range (e_sessions en)"
    and "\<And>k ph q. get (sy_Peers s) k = Some (ph, q) \<Longrightarrow> aloof (sy_server s) (pe_server p) q" "secures s (leave en cid p s)"
  shows "sys_inv mx st (leave en cid p s)"
proof -
  note keys = moved_keys [OF assms(3)]
  let ?sv = "clean_up en cid (pe_server p)"
  have und: "undisturbed k (sy_server s) ?sv" if "k \<noteq> cid" for k
    by (rule undisturbed_clean_up [OF assms(4) [OF that] that assms(5)])
  have wf: "wf_map (sy_Peers s)" "wf_map (cr_items (sr_Connections (pe_server p)))"
    using assms(1) keys(1) by (simp_all add: sys_inv_def server_ok_def wf_map_def)
  have inv: "sessions.inv (sr_Sessions ?sv)" "links.inv (sr_Links ?sv)"
    using und other_name [of cid] by (auto simp: undisturbed_def)
  have live: "fst ` set (del cid (sy_Peers s)) = fst ` set (sy_Peers s) - {cid}"
    using arg_cong [OF delete_keys [of cid "sy_Peers s"], of set] by simp
  have "s_ConnectionID x \<noteq> cid" if "session_Get (sr_Sessions ?sv) sid = Some x" for sid x
    using that sessions.get_remove_owner_wf [OF lodged_wf [OF assms(3)] assms(5), of cid sid x]
    by (simp add: clean_up_def session_Get_def)
  then have sess: "s_ConnectionID x \<in> fst ` set (sy_Peers s) - {cid}" if "session_Get (sr_Sessions ?sv) sid = Some x" for sid x
    using moved_sessions [OF assms(1) und that] that by auto
  have conns: "set (map fst (cr_items (sr_Connections ?sv))) = fst ` set (sy_Peers s) - {cid}"
    "conn_Count (sr_Connections ?sv) \<le> conn_Count (sr_Connections (sy_server s))"
    "wf_map (cr_items (sr_Connections ?sv))" "cr_max (sr_Connections ?sv) = cr_max (sr_Connections (sy_server s))"
    using assms(1) keys wf(2) length_delete_le [of cid "cr_items (sr_Connections (pe_server p))"]
    by (auto simp: sys_inv_def server_ok_def clean_up_def conn_Remove_def conn_Count_def delete_keys wf_map_del)
  have "server_ok mx (fst ` set (sy_Peers s) - {cid}) ?sv"
    using assms(1) conns inv sess by (auto simp: sys_inv_def server_ok_def)
  moreover have "aloof (sy_server s) ?sv q" if "get (sy_Peers s) k = Some (ph, q)" for k ph q
    using assms(6) [OF that] by (simp add: aloof_def clean_up_def)
  then have "peer_ok st ?sv k q" if "get (del cid (sy_Peers s)) k = Some (ph, q)" for k ph q
    using that others_ok [OF assms(1), of k ph q] und [of k] by (auto simp: map_simps split: if_splits)
  ultimately show ?thesis
    using assms(1) wf(1) live keeps_inv [OF assms(1,7)] by (auto simp: sys_inv_def leave_def set_server_def wf_map_del)
qed

lemma accept_inv:
  assumes "sys_inv mx st s"
  shows "sys_inv mx st (accept en nc s)"
proof (cases "\<exists>cid c r. peer_randomID ''conn'' (e_rnd en) = Inr cid \<and>
    c = New_Connection cid (nc_remote nc) (sr_MaxFrame (sy_server s)) (sr_IdleTimeout (sy_server s)) (e_now en) \<and>
    conn_Add c (sr_Connections (sy_server s)) = Inr r")
  case False
  then have "accept en nc s = s" by (auto simp: accept_def Let_def split: sum.split)
  with assms show ?thesis by simp
next
  case True
  then obtain cid c r where a: "peer_randomID ''conn'' (e_rnd en) = Inr cid"
    "c = New_Connection cid (nc_remote nc) (sr_MaxFrame (sy_server s)) (sr_IdleTimeout (sy_server s)) (e_now en)"
    "conn_Add c (sr_Connections (sy_server s)) = Inr r" by blast
  let ?sv = "(sy_server s)\<lparr>sr_Connections := r\<rparr>"
  let ?p = "new_peer nc c ?sv"
  have c: "c_ID c = cid" "c_Sessions c = []" by (simp_all add: a(2) New_Connection_def)
  have r: "r = (sr_Connections (sy_server s))\<lparr>cr_items := put cid c (cr_items (sr_Connections (sy_server s)))\<rparr>"
    "get (cr_items (sr_Connections (sy_server s))) cid = None"
    "int (conn_Count (sr_Connections (sy_server s))) < cr_max (sr_Connections (sy_server s))"
    using a(3) c by (auto simp: conn_Add_def conn_Count_def split: if_splits)
  have s: "sessions.inv (sr_Sessions (sy_server s))" "links.inv (sr_Links (sy_server s))" "wf_map (sy_Peers s)"
    "fst ` set (cr_items (sr_Connections (sy_server s))) = fst ` set (sy_Peers s)" "wf_map (cr_items (sr_Connections (sy_server s)))"
    using assms by (simp_all add: sys_inv_def server_ok_def)
  have und: "undisturbed k (sy_server s) ?sv" if "k \<noteq> cid" for k
    using s(1,2) that by (simp add: undisturbed_def r(1) conn_Get_def map_simps)
  have len: "conn_Count r = Suc (conn_Count (sr_Connections (sy_server s)))"
    using arg_cong [OF put_new [of cid "cr_items (sr_Connections (sy_server s))" c], of length] r(2)
    by (simp add: r(1) conn_Count_def get_None_keys)
  have ok: "server_ok mx (insert cid (fst ` set (sy_Peers s))) ?sv"
    using assms r(3) len s(4,5) by (auto simp: sys_inv_def server_ok_def r(1) dom_update)
  moreover have "peer_ok st ?sv k q" if "get (put cid (Greeting, ?p) (sy_Peers s)) k = Some (ph, q)" for k ph q
  proof (cases "k = cid")
    case True
    have "conn_Get r cid = Some c" by (simp add: r(1) conn_Get_def map_simps)
    then have "peer_inv ?p" "link_table ?p" "own_links ?p" using new_peer_inv [of ?sv c nc] new_peer_links [of ?sv nc c] c s(1,2) by simp_all
    moreover have "?p\<lparr>pe_server := ?sv\<rparr> = ?p" by (simp add: new_peer_def)
    ultimately show ?thesis using that True c(1) by (auto simp: peer_ok_def map_simps new_peer_def)
  next
    case False
    then have "get (sy_Peers s) k = Some (ph, q)" using that by (simp add: map_simps)
    then show ?thesis using others_ok [OF assms _ und [OF False]] by (simp add: aloof_def)
  qed
  moreover have "accept en nc s = suspend cid Greeting ?p s" using a by (simp add: accept_def Let_def)
  ultimately show ?thesis
    using assms s(3) keeps_inv [OF assms accept_secures, of en nc]
    by (auto simp: sys_inv_def suspend_def set_server_def dom_update new_peer_def)
qed

text \<open>A connection about to move, as seen by the others.\<close>

lemma live_peer:
  assumes "sys_inv mx st s" "get (sy_Peers s) cid = Some (ph, p)"
  shows "lodged cid (sr_Connections (sy_server s)) (resume s p)" "peer_inv (resume s p)" "own_links (resume s p)"
    "k \<noteq> cid \<Longrightarrow> undisturbed k (sy_server s) (sy_server s)" "get (sy_Peers s) cid \<noteq> None"
    "st \<longrightarrow> link_table (resume s p)"
  using assms sessions.inv_wf [of "sr_Sessions (sy_server s)"] undisturbed_refl [of "sy_server s" k]
  by (auto simp: sys_inv_def server_ok_def peer_ok_resume lodged_def) (auto simp: resume_def)

lemma handshake_undisturbed:
  assumes "undisturbed k s (pe_server p)" "c_ID (pe_connection p) \<noteq> k"
  shows "undisturbed k s (pe_server (snd (handshake ctx p)))"
  by (rule handshake_rule) (use assms in \<open>auto simp: same_tables_def intro!: undisturbed_transition\<close>)

lemma handshake_same_links: "peer_links (snd (handshake ctx p)) = peer_links p"
  by (rule handshake_rule) (auto simp: same_tables_def)

lemma panicked_iff: "panicked err \<longleftrightarrow> (\<exists>z. err = Some (Panic z))"
  by (auto simp: panicked_def is_panic_def split: option.splits error.splits)

text \<open>What a connection does with its next frame, and to the others.\<close>

lemma frame_moves:
  assumes "sys_inv mx st s" "tame ok s (EvTurn en cid)" "st \<longrightarrow> ok = orderly" "get (sy_Peers s) cid = Some (Serving, p)"
    and "ReadFrame (nc_in (pe_net p)) (c_MaxFrame (pe_connection p)) = Inr (fr, rest)"
    and "process file_log_ops en fr (set_conn (Touch (pe_connection p) (e_now en)) (set_in rest (resume s p))) = (err, p')"
  shows "lodged cid (sr_Connections (sy_server s)) p'" "peer_inv p'" "own_links p'" "st \<longrightarrow> link_table p'"
    "k \<noteq> cid \<Longrightarrow> undisturbed k (sy_server s) (pe_server p')"
    "get (sy_Peers s) k = Some (ph, q) \<Longrightarrow> aloof (sy_server s) (pe_server p') q"
    "panicked err \<longleftrightarrow> transfer_dangling fr (resume s p)" "st \<longrightarrow> \<not> panicked err"
proof -
  note live = live_peer [OF assms(1,4)]
  let ?q = "set_conn (Touch (pe_connection p) (e_now en)) (set_in rest (resume s p))"
  have t: "fresh_env en (resume s p)" "\<And>z. quiet z en p" "next_frame ok p" "new_slot en s" using assms(2,4) by auto
  have c: "pe_connection (resume s p) = pe_connection p" "c_ID (pe_connection p) = cid"
    using lodged_ID [OF live(1)] by (simp_all add: resume_def)
  have q: "lodged cid (sr_Connections (sy_server s)) ?q" using live(1) c by (intro lodged_set_conn) (simp_all add: Touch_def)
  have q2: "peer_inv ?q" using live(2) c(1)
    by (intro peer_inv_set_conn) (auto simp: Touch_def set_in_def peer_inv_def session_of_def)
  have q3: "own_links ?q" "st \<longrightarrow> link_table ?q" using live(3,6) by simp_all
  have q4: "fresh_env en ?q" "quiet z en ?q" "st \<longrightarrow> orderly fr ?q" for z
    using t assms(3,5) by (auto simp: fresh_env_def quiet_def set_in_def resume_def next_frame_def orderly_def split: sum.splits)
  have p': "p' = snd (process file_log_ops en fr ?q)" by (simp add: assms(6))
  show "lodged cid (sr_Connections (sy_server s)) p'" "peer_inv p'" "own_links p'" "st \<longrightarrow> link_table p'"
    unfolding p' using process_lodged [OF q] process_inv [OF q2 q4(1)] process_own_links [OF q2 q3(1) q4(1)]
      process_links [OF q2 _ q4(1)] q3(2) q4(3) by blast+
  show "undisturbed k (sy_server s) (pe_server p')" if "k \<noteq> cid"
  proof (rule undisturbed_trans)
    show "undisturbed k (sy_server s) (pe_server ?q)"
      using live(4) [OF that] that c by (intro undisturbed_set_conn undisturbed_sets) (auto simp: Touch_def)
    show "undisturbed k (pe_server ?q) (pe_server p')"
      unfolding p' by (rule process_isolated [OF _ q4(1)]) (use q2 q3 that lodged_ID [OF q] in \<open>simp add: stranger_def\<close>)
  qed
  have "links.inv (peer_links ?q)" "valid_range (e_links en)"
    using q3(1) q4(1) by (simp_all add: own_links_def table_def own_ok_def fresh_env_def)
  note adds = process_adds [OF this, of file_log_ops fr]
  show "aloof (sy_server s) (pe_server p') q" if "get (sy_Peers s) k = Some (ph, q)"
    using adds t(4) that by (auto simp: aloof_def adds_links_def p' new_slot_def set_in_def)
  have mem: "limited (sv_mem (peer_delivery ?q))" using assms(1) by (simp add: sys_inv_def set_in_def)
  have d: "transfer_dangling fr ?q = transfer_dangling fr (resume s p)"
    by (simp add: transfer_dangling_def dangling_def set_in_def)
  have free: "err = Some (Panic z) \<longleftrightarrow> z = nil_panic \<and> transfer_dangling fr (resume s p)" for z
    using process_panic_free [OF q2 q4(2), of z file_log_ops fr] mem assms(6) d by (auto simp: panic_free_def)
  then show crash: "panicked err \<longleftrightarrow> transfer_dangling fr (resume s p)" by (simp add: panicked_iff)
  show "st \<longrightarrow> \<not> panicked err"
    using crash live(6) link_table_not_dangling by (auto simp: transfer_dangling_def)
qed

text \<open>When an event crashes the process.\<close>

definition crashing :: "system \<Rightarrow> event \<Rightarrow> bool" where
  "crashing s ev = (\<exists>en cid p fr rest. ev = EvTurn en cid \<and> get (sy_Peers s) cid = Some (Serving, p) \<and>
     ReadFrame (nc_in (pe_net p)) (c_MaxFrame (pe_connection p)) = Inr (fr, rest) \<and> transfer_dangling fr (resume s p))"

lemma turn_inv:
  assumes "sys_inv mx st s" "lawful (EvTurn en cid)" "tame ok s (EvTurn en cid)" "st \<longrightarrow> ok = orderly"
  shows "sy_Crashed (turn en cid s) \<longleftrightarrow> crashing s (EvTurn en cid)" "\<not> sy_Crashed (turn en cid s) \<Longrightarrow> sys_inv mx st (turn en cid s)"
    "st \<longrightarrow> \<not> sy_Crashed (turn en cid s)"
    "k \<noteq> cid \<Longrightarrow> undisturbed k (sy_server s) (sy_server (turn en cid s)) \<and> get (sy_Peers (turn en cid s)) k = get (sy_Peers s) k"
proof -
  have up: "\<not> sy_Crashed s" using assms(1) by (simp add: sys_inv_def)
  have env: "valid_range (e_sessions en)" using assms(2) by (simp add: valid_env_def)
  have sec: "secures s (turn en cid s)" using assms(2) by (intro turn_secures) simp
  have stays: "\<not> sy_Crashed (suspend cid ph x s)" "\<not> sy_Crashed (leave en cid x s)"
    "k \<noteq> cid \<Longrightarrow> get (sy_Peers (suspend cid ph x s)) k = get (sy_Peers s) k"
    "k \<noteq> cid \<Longrightarrow> get (sy_Peers (leave en cid x s)) k = get (sy_Peers s) k" for ph x k
    using up by (simp_all add: suspend_def leave_def set_server_def map_simps)
  have clean: "undisturbed k (sy_server s) (sy_server (leave en cid x s))" if "undisturbed k (sy_server s) (pe_server x)" "k \<noteq> cid" for k x
    using undisturbed_clean_up [OF that env] by simp
  let ?goal = "(sy_Crashed (turn en cid s) \<longleftrightarrow> crashing s (EvTurn en cid)) \<and> (sy_Crashed (turn en cid s) \<or> sys_inv mx st (turn en cid s)) \<and>
    (st \<longrightarrow> \<not> sy_Crashed (turn en cid s)) \<and>
    (\<forall>k. k \<noteq> cid \<longrightarrow> undisturbed k (sy_server s) (sy_server (turn en cid s)) \<and> get (sy_Peers (turn en cid s)) k = get (sy_Peers s) k)"
  have "?goal"
  proof (cases rule: turn_cases [of s cid en])
    case idle
    then show ?thesis using assms(1) up by (auto simp: crashing_def sys_inv_def server_ok_def intro: undisturbed_refl)
  next
    case (eof p)
    note live = live_peer [OF assms(1) eof(1)]
    have "sys_inv mx st (turn en cid s)" unfolding eof(2)
      using live env sec by (intro leave_inv [OF assms(1)]) (auto simp: eof(2) intro: aloof_same)
    moreover have "\<not> crashing s (EvTurn en cid)" using eof(1,3) by (auto simp: crashing_def)
    moreover have "undisturbed k (sy_server s) (sy_server (turn en cid s))" if "k \<noteq> cid" for k
      unfolding eof(2) using live(4) [OF that] by (intro clean [OF _ that]) simp
    ultimately show ?thesis using stays by (auto simp: eof(2))
  next
    case (greet p err p')
    note live = live_peer [OF assms(1) greet(1)]
    have p': "p' = snd (handshake (e_ctx en) (resume s p))" by (simp add: greet(2))
    have ok: "lodged cid (sr_Connections (sy_server s)) p'" "peer_inv p'" "own_links p'" "st \<longrightarrow> link_table p'"
      unfolding p' using handshake_lodged [OF live(1)] handshake_inv [OF live(2)] handshake_links live(3,6) by blast+
    have und: "undisturbed k (sy_server s) (pe_server p')" if "k \<noteq> cid" for k
      unfolding p' using live(4) [OF that] that lodged_ID [OF live(1)] by (intro handshake_undisturbed) auto
    have al: "aloof (sy_server s) (pe_server p') x" for x unfolding p' by (rule aloof_same) (simp add: handshake_same_links)
    have "sys_inv mx st (turn en cid s)"
      using ok und al env sec live(5) unfolding greet(3) by (auto intro!: suspend_inv [OF assms(1)] leave_inv [OF assms(1)])
    moreover have "\<not> crashing s (EvTurn en cid)" using greet(1) by (auto simp: crashing_def)
    ultimately show ?thesis using stays und clean by (auto simp: greet(3))
  next
    case (frame p fr rest err p')
    note ok = frame_moves [OF assms(1,3,4) frame(1-3)]
    note live = live_peer [OF assms(1) frame(1)]
    have crash: "crashing s (EvTurn en cid) \<longleftrightarrow> panicked err" using frame(1,2) ok(7) by (auto simp: crashing_def)
    have "sys_inv mx st (turn en cid s)" if "\<not> panicked err"
      using ok(1-6) env sec live(5) that unfolding frame(4) by (auto intro!: suspend_inv [OF assms(1)] leave_inv [OF assms(1)])
    moreover have "undisturbed k (sy_server s) (sy_server (turn en cid s)) \<and> get (sy_Peers (turn en cid s)) k = get (sy_Peers s) k"
      if "k \<noteq> cid" for k
      using ok(5) [OF that] clean [OF ok(5) [OF that] that] stays that by (auto simp: frame(4) set_server_def)
    ultimately show ?thesis using ok(8) stays crash by (auto simp: frame(4))
  qed
  then show "sy_Crashed (turn en cid s) \<longleftrightarrow> crashing s (EvTurn en cid)" "\<not> sy_Crashed (turn en cid s) \<Longrightarrow> sys_inv mx st (turn en cid s)"
    "st \<longrightarrow> \<not> sy_Crashed (turn en cid s)"
    "k \<noteq> cid \<Longrightarrow> undisturbed k (sy_server s) (sy_server (turn en cid s)) \<and> get (sy_Peers (turn en cid s)) k = get (sy_Peers s) k"
    by blast+
qed

lemma api_registries:
  "sr_Sessions (rt_AMQP (ap_Runtime (snd (mux en ep a)))) = sr_Sessions (rt_AMQP (ap_Runtime a)) \<and>
   sr_Links (rt_AMQP (ap_Runtime (snd (mux en ep a)))) = sr_Links (rt_AMQP (ap_Runtime a)) \<and>
   sr_Connections (rt_AMQP (ap_Runtime (snd (mux en ep a)))) = sr_Connections (rt_AMQP (ap_Runtime a))"
  by (cases ep) (auto simp: handler_defs Let_def decode_def answer_def api_fail_def on_mem_def on_delivery_def rt_set_mem_def
      rt_set_delivery_def split: prod.split sum.split option.split)

lemma http_inv:
  assumes "sys_inv mx st s" "lawful (EvHttp en late r)"
  shows "sys_inv mx st (http_event en late r s)"
proof -
  let ?a = "\<lparr>ap_Runtime = sy_Runtime s, ap_Metrics = sy_Metrics s\<rparr>"
  obtain req re m' a' where h: "serve_http en late r (sy_Middleware s, ?a) = ((req, re), m', a')" by (metis prod.collapse)
  have "sr_Sessions (rt_AMQP (ap_Runtime a')) = sr_Sessions (sy_server s) \<and> sr_Links (rt_AMQP (ap_Runtime a')) = sr_Links (sy_server s) \<and>
      sr_Connections (rt_AMQP (ap_Runtime a')) = sr_Connections (sy_server s)"
    using serve_http_mux [OF h] api_registries by auto
  moreover have "secures s (http_event en late r s)" using assms(2) by (intro http_secures) simp_all
  ultimately show ?thesis using sys_inv_same [OF assms(1), of "http_event en late r s"] by (simp add: http_event_def h)
qed

lemma grpc_inv: "sys_inv mx st s \<Longrightarrow> sys_inv mx st (grpc_event en vals dc meth s)"
  by (cases meth; rule sys_inv_same [OF _ grpc_secures]) (auto simp: grpc_event_def dispatch_def interceptor_def grpc_Health_def CreateAddress_def
      grpc_GetDepth_def PauseAddress_def ListConnections_def grpc_GetTransaction_def Let_def rt_set_mem_def rt_set_delivery_def
      split: sum.split prod.split)

lemma sweep_inv: "sys_inv mx st s \<Longrightarrow> valid_ranges rs \<Longrightarrow> sys_inv mx st (sweep_event rs ctx clk clk' s)"
  by (rule sys_inv_same [OF _ sweep_secures]) (auto simp: sweep_event_def Runtime_Sweep_def rt_set_mem_def rt_set_delivery_def
      split: prod.split option.split)

lemma step_inv:
  assumes "sys_inv mx st s" "lawful ev" "tame ok s ev" "st \<longrightarrow> ok = orderly"
  shows "sy_Crashed (sys_step ev s) \<longleftrightarrow> crashing s ev" "\<not> sy_Crashed (sys_step ev s) \<Longrightarrow> sys_inv mx st (sys_step ev s)"
    "st \<longrightarrow> \<not> sy_Crashed (sys_step ev s)"
proof -
  have "(sy_Crashed (sys_step ev s) \<longleftrightarrow> crashing s ev) \<and> (sy_Crashed (sys_step ev s) \<or> sys_inv mx st (sys_step ev s)) \<and>
      (st \<longrightarrow> \<not> sy_Crashed (sys_step ev s))"
  proof (cases "\<exists>en cid. ev = EvTurn en cid")
    case True
    then obtain en cid where ev: "ev = EvTurn en cid" by blast
    note turn_inv(1-3) [OF assms(1) assms(2,3) [unfolded ev] assms(4)]
    then show ?thesis unfolding ev sys_step.simps by blast
  next
    case False
    then have "sys_inv mx st (sys_step ev s)"
      using accept_inv http_inv grpc_inv sweep_inv assms(1,2) by (cases ev) auto
    moreover have "\<not> crashing s ev" using False by (auto simp: crashing_def)
    ultimately show ?thesis by (simp add: sys_inv_def)
  qed
  then show "sy_Crashed (sys_step ev s) \<longleftrightarrow> crashing s ev" "\<not> sy_Crashed (sys_step ev s) \<Longrightarrow> sys_inv mx st (sys_step ev s)"
    "st \<longrightarrow> \<not> sy_Crashed (sys_step ev s)" by blast+
qed

lemma reach_inv:
  assumes "tame_reach ok s0 s" "sys_inv mx st s0" "st \<longrightarrow> ok = orderly"
  shows "(\<not> sy_Crashed s \<longrightarrow> sys_inv mx st s) \<and> (st \<longrightarrow> \<not> sy_Crashed s)"
  using assms(1)
proof (induction rule: tame_reach.induct)
  case start
  then show ?case using assms(2) by (simp add: sys_inv_def)
next
  case (step s ev)
  then show ?case using step_inv [OF _ step(3,4) assms(3)] by blast
qed

lemma booted_inv:
  assumes "Build unmarshal io logerr rs ctx now (settings_of cfg) d = Inr r" "usable cfg" "limited (rt_Memory r)"
  shows "sys_inv (aq_MaxConnections (cf_AMQP cfg)) st (booted cfg r)"
proof -
  have "se_MaxConnections (settings_of cfg) \<noteq> 0" "0 < se_MaxConnections (settings_of cfg)"
    using assms(2) by (auto simp: usable_def settings_of_def)
  moreover have "se_MaxConnections (settings_of cfg) = aq_MaxConnections (cf_AMQP cfg)" by (simp add: settings_of_def)
  moreover have "session_Get NewSessionRegistry sid = None" for sid by (simp add: NewSessionRegistry_def session_Get_def)
  moreover obtain m l where l: "SnapshotFile_Load unmarshal io rs ctx d NewMemory = (None, m)" "rt_Delivery r = NewDeliveryService m l"
    using Build_Inr [OF assms(1)] by blast
  moreover have "mem_wf (rt_Memory r)" using Load_wf(1) [OF l(1)] by (simp add: l(2) NewDeliveryService_def)
  ultimately show ?thesis
    using Build_Inr [OF assms(1)] assms(3)
    by (auto simp: sys_inv_def server_ok_def booted_def New_conn_Registry_def conn_Count_def sessions.inv_empty links.inv_empty
        with_defaults_fields wf_map_def)
qed

section \<open>Properties\<close>

text \<open>A broker that has come up, and a state it reaches.\<close>

lemma reached_inv:
  assumes "Load rf um pd env path = (None, cfg)" "Build unmarshal io logerr rs ctx now (settings_of cfg) d = Inr r"
    and "limited (rt_Memory r)" "tame_reach ok (booted cfg r) s"
  shows "\<not> sy_Crashed s \<Longrightarrow> sys_inv (aq_MaxConnections (cf_AMQP cfg)) (ok = orderly) s" "ok = orderly \<longrightarrow> \<not> sy_Crashed s"
proof -
  have "usable cfg" using Load_cases [OF assms(1)] by (auto simp: Validate_usable)
  from reach_inv [OF assms(4) booted_inv [OF assms(2) this assms(3)], of "ok = orderly"]
  show "\<not> sy_Crashed s \<Longrightarrow> sys_inv (aq_MaxConnections (cf_AMQP cfg)) (ok = orderly) s" "ok = orderly \<longrightarrow> \<not> sy_Crashed s" by blast+
qed

text \<open>
  C2: the invariant of a running broker. However accepting, the frames of all connections, HTTP and
  gRPC requests and sweeps are interleaved, and whatever frames the remote ends send, from a broker
  built from a loaded configuration and metadata with no negative length limit. As long as it has not
  crashed: it serves at most the configured number of connections, the registered connections are
  exactly those being served, every session belongs to one of them, and every channel a connection has
  begun leads to its own mapped session in the registry. The next event crashes it if and only if it
  is a transfer, on a begun channel and within the window of its session, to a handle whose link is no
  longer registered; and when the remote ends never end a session with a link attached, it has not
  crashed. (The identifiers drawn at random are new; contexts and sockets report no panics.)
\<close>

theorem broker_invariant:
  assumes "Load rf um pd env path = (None, cfg)" "Build unmarshal io logerr rs ctx now (settings_of cfg) d = Inr r"
    and "limited (rt_Memory r)" "tame_reach ok (booted cfg r) s"
  shows "(\<not> sy_Crashed s \<longrightarrow> int (conn_Count (sr_Connections (sy_server s))) \<le> aq_MaxConnections (cf_AMQP cfg) \<and>
      (\<forall>cid. conn_Get (sr_Connections (sy_server s)) cid \<noteq> None \<longleftrightarrow> get (sy_Peers s) cid \<noteq> None) \<and>
      (\<forall>sid x. session_Get (sr_Sessions (sy_server s)) sid = Some x \<longrightarrow> get (sy_Peers s) (s_ConnectionID x) \<noteq> None) \<and>
      (\<forall>cid ph p ch sid. get (sy_Peers s) cid = Some (ph, p) \<longrightarrow> get (pe_sessionIDs p) ch = Some sid \<longrightarrow>
         (\<exists>x. session_Get (sr_Sessions (sy_server s)) sid = Some x \<and> s_ConnectionID x = cid \<and> s_LocalChannel x = ch \<and> s_State x = StateMapped)) \<and>
      (\<forall>ev. lawful ev \<and> tame ok s ev \<longrightarrow> (sy_Crashed (sys_step ev s) \<longleftrightarrow> crashing s ev))) \<and>
    (ok = orderly \<longrightarrow> \<not> sy_Crashed s)"
proof -
  let ?mx = "aq_MaxConnections (cf_AMQP cfg)"
  note reached = reached_inv [OF assms]
  have ok: "server_ok ?mx (fst ` set (sy_Peers s)) (sy_server s)" if "\<not> sy_Crashed s"
    using reached(1) [OF that] by (simp add: sys_inv_def)
  have live: "k \<in> fst ` set (sy_Peers s) \<longleftrightarrow> get (sy_Peers s) k \<noteq> None" for k by (simp add: get_None_keys)
  have "int (conn_Count (sr_Connections (sy_server s))) \<le> ?mx" if "\<not> sy_Crashed s" using ok [OF that] by (simp add: server_ok_def)
  moreover have "conn_Get (sr_Connections (sy_server s)) cid \<noteq> None \<longleftrightarrow> get (sy_Peers s) cid \<noteq> None" if "\<not> sy_Crashed s" for cid
    using ok [OF that] by (simp add: server_ok_def conn_Get_def get_None_keys)
  moreover have "get (sy_Peers s) (s_ConnectionID x) \<noteq> None"
    if "\<not> sy_Crashed s" "session_Get (sr_Sessions (sy_server s)) sid = Some x" for sid x
    using ok [OF that(1)] that(2) live by (auto simp: server_ok_def)
  moreover have "\<exists>x. session_Get (sr_Sessions (sy_server s)) sid = Some x \<and> s_ConnectionID x = cid \<and> s_LocalChannel x = ch \<and> s_State x = StateMapped"
    if "\<not> sy_Crashed s" "get (sy_Peers s) cid = Some (ph, p)" "get (pe_sessionIDs p) ch = Some sid" for cid ph p ch sid
  proof -
    note l = live_peer [OF reached(1) [OF that(1)] that(2)]
    from peer_invD(5) [OF l(2), of ch sid] that(3) lodged_ID [OF l(1)] show ?thesis by (auto simp: resume_def session_of_def)
  qed
  moreover have "sy_Crashed (sys_step ev s) \<longleftrightarrow> crashing s ev" if "\<not> sy_Crashed s" "lawful ev" "tame ok s ev" for ev
    by (rule step_inv(1) [OF reached(1) [OF that(1)] that(2,3)]) simp
  ultimately show ?thesis using reached(2) by blast
qed

text \<open>
  C24: connections do not interfere. In every state a broker reaches (as in the invariant above, with
  any frames and any interleaving), the turn of one connection, whether its frame is processed, fails,
  or makes it leave, takes nothing from the others: every other connection is still being served with
  the same peer, its entry in the registry, its sessions and the links of its sessions are as they
  were, and the registries stay consistent. (New identifiers and quiet contexts and sockets as above.
  A frame that crashes the process ends all connections with it.)
\<close>

theorem peers_isolated:
  assumes "Load rf um pd env path = (None, cfg)" "Build unmarshal io logerr rs ctx now (settings_of cfg) d = Inr r"
    and "limited (rt_Memory r)" "tame_reach ok (booted cfg r) s" "\<not> sy_Crashed s"
    and "valid_env en" "tame ok s (EvTurn en cid)" "k \<noteq> cid"
  shows "undisturbed k (sy_server s) (sy_server (turn en cid s)) \<and> get (sy_Peers (turn en cid s)) k = get (sy_Peers s) k"
  using turn_inv(4) [OF reached_inv(1) [OF assms(1-5)] _ assms(7) _ assms(8)] assms(6) by simp

text \<open>What the events keep, for one message: it is stored and its body can be read.\<close>

definition holds :: "Runtime \<Rightarrow> string \<Rightarrow> int \<Rightarrow> byte list \<Rightarrow> bool" where
  "holds r k off b = (settled_at (rt_Memory r) k off \<and> fl_Read None off (rt_BodyLog r) = Inr b)"

lemma fl_view_Read: "fl_view l off = Some b \<longleftrightarrow> fl_Read None off l = Inr b"
  by (simp add: fl_view_def split: sum.split)

lemma reach_holds:
  assumes "sys_reach s0 s" "mem_wf (sy_mem s0)" "fl_inv (sy_log s0)" "holds (sy_Runtime s0) k off b"
  shows "holds (sy_Runtime s) k off b"
  using reach_secures [OF assms(1)] assms(2-4) extends_view [of "sy_log s0" "sy_log s" off b]
  by (simp add: secures_def keeps_def holds_def fl_view_Read)

lemma reach_wf: "sys_reach s0 s \<Longrightarrow> mem_wf (sy_mem s0) \<Longrightarrow> fl_inv (sy_log s0) \<Longrightarrow> mem_wf (sy_mem s) \<and> fl_inv (sy_log s)"
  using reach_secures [of s0 s] extends_inv by (auto simp: secures_def keeps_def)

lemma reach_trans: "sys_reach s1 s2 \<Longrightarrow> sys_reach s0 s1 \<Longrightarrow> sys_reach s0 s2"
  by (induction rule: sys_reach.induct) (auto intro: sys_reach.step)

lemma built_wf:
  assumes "Build unmarshal io logerr rs ctx now settings d = Inr r" "fl_inv (rt_BodyLog r)" "sys_reach (booted cfg r) s"
  shows "mem_wf (sy_mem s)" "fl_inv (sy_log s)"
proof -
  obtain m l where l: "SnapshotFile_Load unmarshal io rs ctx d NewMemory = (None, m)" "rt_Delivery r = NewDeliveryService m l"
    using Build_Inr [OF assms(1)] by blast
  have "mem_wf (sy_mem (booted cfg r))" "fl_inv (sy_log (booted cfg r))"
    using Load_wf(1) [OF l(1)] assms(2) by (simp_all add: booted_def l(2) NewDeliveryService_def)
  then show "mem_wf (sy_mem s)" "fl_inv (sy_log s)" using reach_wf [OF assms(3)] by simp_all
qed

lemma message_outlives:
  assumes wf1: "mem_wf (sy_mem s1)" "fl_inv (sy_log s1)"
    and msg: "mem_message None k (sy_mem s1) = Inr msg" "m_TransactionID msg = ''''" "fl_Read None (m_LogOffset msg) (sy_log s1) = Inr b"
    and s2: "sys_reach s1 s2"
    and close: "Runtime_Close marshal io2 part rs2 amqp logclose None (sy_Runtime s2) d2 = (None, d3)"
    and ranges: "valid_ranges rs2" "valid_ranges rs3" "io3 ReadFile = None"
    and codec: "\<And>sn x. mem_Snapshot rs2 None (sy_mem s2) = Inr sn \<Longrightarrow> marshal sn = Inr x \<Longrightarrow> unmarshal x = Inr sn"
    and small: "\<And>recs. log_rep (sy_log s2) recs \<Longrightarrow> list_all (\<lambda>x. length (record_bytes x) \<le> 67108864) recs"
  shows "\<exists>r' msg'. Build unmarshal io3 None rs3 None now3 settings3 d3 = Inr r' \<and> mem_message None k (rt_Memory r') = Inr msg' \<and>
    m_LogOffset msg' = m_LogOffset msg \<and> fl_Read None (m_LogOffset msg') (rt_BodyLog r') = Inr b"
proof -
  have "holds (sy_Runtime s1) k (m_LogOffset msg) b"
    using msg by (auto simp: holds_def settled_at_def messages.fetch_Inr)
  then have h: "holds (sy_Runtime s2) k (m_LogOffset msg) b" by (rule reach_holds [OF s2 wf1])
  have wf2: "mem_wf (sy_mem s2)" "fl_inv (sy_log s2)" using reach_wf [OF s2 wf1] by simp_all
  then obtain recs where recs: "log_rep (sy_log s2) recs" by (auto simp: fl_inv_def)
  from restart_recovered [where marshal = marshal and unmarshal = unmarshal and r = "sy_Runtime s2" and rs = rs2 and io' = io3,
      OF wf2(1) recs small [OF recs] ranges codec close]
  obtain r' where r': "Build unmarshal io3 None rs3 None now3 settings3 d3 = Inr r'" "rt_BodyLog r' = sy_log s2"
    "\<And>j. mem_message None j (rt_Memory r') = map_sum id (recovered (sy_mem s2)) (mem_message None j (sy_mem s2))" by blast
  obtain msg2 where m2: "mem_message None k (sy_mem s2) = Inr msg2" "m_LogOffset msg2 = m_LogOffset msg"
    using h by (auto simp: holds_def settled_at_def messages.fetch_Inr)
  have "mem_message None k (rt_Memory r') = Inr (recovered (sy_mem s2) msg2)" by (simp add: r'(3) m2(1))
  moreover have "m_LogOffset (recovered (sy_mem s2) msg2) = m_LogOffset msg" by (simp add: recovered_def m2(2) Let_def)
  moreover have "fl_Read None (m_LogOffset msg) (rt_BodyLog r') = Inr b" using h by (simp add: r'(2) holds_def)
  ultimately show ?thesis using r'(1) by auto
qed

section \<open>One connection on its own\<close>

lemma suspended [simp]:
  assumes "sy_Peers s = []"
  shows "get (sy_Peers (suspend cid ph p s)) cid = Some (ph, p)" "resume (suspend cid ph p s) p = p"
    "suspend cid ph' q (suspend cid ph p s) = suspend cid ph' q s" "leave en cid q (suspend cid ph p s) = leave en cid q s"
  using assms by (simp_all add: suspend_def resume_def leave_def set_server_def)

lemma gone_stays: "get (sy_Peers s) cid = None \<Longrightarrow> fold sys_step (map (\<lambda>i. EvTurn (envs i) cid) is) s = s"
  by (induction "is") (simp_all add: turn_def)

lemma leave_gone: "sy_Peers s = [] \<Longrightarrow> get (sy_Peers (leave en cid p s)) cid = None"
  by (simp add: leave_def)

lemma leave_eq: "sy_Peers s = [] \<Longrightarrow> e_sessions en = e_sessions en' \<Longrightarrow> leave en cid p s = set_server (clean_up en' cid (pe_server p)) s"
  by (simp add: leave_def set_server_def clean_up_def)

lemma serve_as_turns:
  assumes "sy_Peers s = []" "serve file_log_ops envs i p = (err, p')" "\<not> panicked err"
    and "\<And>j. e_sessions (envs j) = e_sessions (envs 0)"
  shows "\<exists>n\<ge>i. fold sys_step (map (\<lambda>j. EvTurn (envs j) cid) [i..<n]) (suspend cid Serving p s) =
    set_server (clean_up (envs 0) cid (pe_server p')) s"
  using assms(2)
proof (induction "length (nc_in (pe_net p))" arbitrary: i p rule: less_induct)
  case less
  let ?s = "suspend cid Serving p s"
  have last: ?case if "turn (envs i) cid ?s = leave (envs i) cid p' s"
    using that leave_eq [OF assms(1,4)] by (intro exI [of _ "Suc i"]) simp
  show ?case
  proof (cases "ReadFrame (nc_in (pe_net p)) (c_MaxFrame (pe_connection p))")
    case (Inl e)
    then have "p' = p" using less.prems by (subst (asm) serve.simps) simp
    with Inl show ?thesis by (intro last) (simp add: turn_def assms(1))
  next
    case (Inr x)
    then obtain fr rest where x: "ReadFrame (nc_in (pe_net p)) (c_MaxFrame (pe_connection p)) = Inr (fr, rest)" by (cases x) auto
    let ?q = "set_conn (Touch (pe_connection p) (e_now (envs i))) (set_in rest p)"
    obtain e q where pr: "process file_log_ops (envs i) fr ?q = (e, q)" by fastforce
    show ?thesis
    proof (cases "e = None \<and> peer_state q \<noteq> StateClosed")
      case False
      then have "e = err" "q = p'" using less.prems x pr by (subst (asm) serve.simps, auto split: option.splits if_splits)+
      with False assms(3) show ?thesis
        by (intro last) (auto simp: turn_def assms(1) x pr split: option.splits)
    next
      case True
      have "nc_in (pe_net q) = rest" using process_steady [of ?q file_log_ops "envs i" fr] pr by (simp add: steady_def set_in_def)
      then have shorter: "length (nc_in (pe_net q)) < length (nc_in (pe_net p))" using ReadFrame_consumes [OF x] by simp
      have "serve file_log_ops envs (Suc i) q = (err, p')" using less.prems x pr True by (subst (asm) serve.simps) simp
      from less.hyps [OF shorter this] obtain n where n: "n \<ge> Suc i"
        "fold sys_step (map (\<lambda>j. EvTurn (envs j) cid) [Suc i..<n]) (suspend cid Serving q s) =
           set_server (clean_up (envs 0) cid (pe_server p')) s" by blast
      have "turn (envs i) cid ?s = suspend cid Serving q s" using True by (simp add: turn_def assms(1) x pr)
      with n show ?thesis by (intro exI [of _ n]) (simp add: upt_conv_Cons)
    qed
  qed
qed

text \<open>
  The events are the code's \<open>handle\<close>. When a connection is alone, accepting it and giving it its
  turns until it is gone does to the server exactly what \<open>handle\<close> does from its first statement to
  its deferred clean-up, whatever bytes arrive. (Unless the process crashes; the deferred function
  goes through the sessions in the same order in both.)
\<close>

lemma handle_as_turns:
  assumes "sy_Peers s = []" "handle file_log_ops envs nc (sy_server s) = (err, sv, nc')" "\<not> panicked err"
    and "peer_randomID ''conn'' (e_rnd (envs 0)) = Inr cid" "\<And>j. e_sessions (envs j) = e_sessions (envs 0)"
  shows "\<exists>n. fold sys_step (EvAccept (envs 0) nc # EvTurn (envs 0) cid # map (\<lambda>j. EvTurn (envs j) cid) [1..<n]) s = set_server sv s"
proof -
  let ?c = "New_Connection cid (nc_remote nc) (sr_MaxFrame (sy_server s)) (sr_IdleTimeout (sy_server s)) (e_now (envs 0))"
  show ?thesis
  proof (cases "conn_Add ?c (sr_Connections (sy_server s))")
    case (Inl e)
    then have "sv = sy_server s" "accept (envs 0) nc s = s" using assms(2,4) by (simp_all add: handle_def accept_def Let_def)
    then show ?thesis using assms(1) by (intro exI [of _ 0]) (simp add: turn_def set_server_def)
  next
    case (Inr r)
    let ?p = "new_peer nc ?c ((sy_server s)\<lparr>sr_Connections := r\<rparr>)"
    obtain e q where h: "handshake (e_ctx (envs 0)) ?p = (e, q)" by fastforce
    have a: "accept (envs 0) nc s = suspend cid Greeting ?p s" using Inr assms(4) by (simp add: accept_def Let_def)
    show ?thesis
    proof (cases e)
      case (Some x)
      then have "sv = clean_up (envs 0) cid (pe_server q)" using assms(2,4) Inr h by (simp add: handle_def Let_def thenE_def)
      then show ?thesis
        using Some h leave_eq [OF assms(1) refl, of "envs 0" cid q] by (intro exI [of _ 0]) (simp add: a turn_def assms(1))
    next
      case None
      obtain p' where p': "serve file_log_ops envs 1 q = (err, p')" "sv = clean_up (envs 0) cid (pe_server p')"
        using assms(2,4) Inr h None by (auto simp: handle_def Let_def thenE_def split: prod.splits)
      from serve_as_turns [OF assms(1) p'(1) assms(3,5)] obtain n where
        "fold sys_step (map (\<lambda>j. EvTurn (envs j) cid) [1..<n]) (suspend cid Serving q s) = set_server sv s"
        by (auto simp: p'(2))
      moreover have "turn (envs 0) cid (suspend cid Greeting ?p s) = suspend cid Serving q s"
        using h None by (simp add: turn_def assms(1))
      ultimately show ?thesis by (intro exI [of _ n]) (simp add: a)
    qed
  qed
qed

section \<open>Witnesses\<close>

definition sample_boot :: Runtime where
  "sample_boot = projr (Build (\<lambda>_. Inl EOF) (\<lambda>_. None) None id_ranges None 1 sample_settings empty_disk)"

lemma sample_boot: "Build (\<lambda>_. Inl EOF) (\<lambda>_. None) None id_ranges None 1 (settings_of Default) empty_disk = Inr sample_boot"
  using sample_build by (auto simp: sample_boot_def sample_settings_def)

lemma sample_accepted: "get (sy_Peers (accept sample_env sample_socket (booted Default sample_boot))) ''conn_01'' \<noteq> None"
proof -
  have "sr_Connections (sy_server (booted Default sample_boot)) = New_conn_Registry 1024"
    using Build_Inr [OF sample_boot] by (auto simp: booted_def with_defaults_fields settings_of_def Default_def)
  moreover have "peer_randomID ''conn'' (e_rnd sample_env) = Inr ''conn_01''" by code_simp
  ultimately show ?thesis
    by (simp add: accept_def Let_def conn_Add_def New_conn_Registry_def New_Connection_def suspend_def map_simps)
qed

lemma sample_limited: "limited (rt_Memory sample_boot)"
proof -
  obtain m l where "SnapshotFile_Load (\<lambda>_. Inl EOF) (\<lambda>_. None) id_ranges None empty_disk NewMemory = (None, m)"
    "rt_Delivery sample_boot = NewDeliveryService m l"
    using Build_Inr [OF sample_boot] by blast
  then have "rt_Memory sample_boot = NewMemory" by (simp add: SnapshotFile_Load_def empty_disk_def NewDeliveryService_def)
  then show ?thesis by (simp add: limited_def NewMemory_def)
qed

text \<open>A broker that has accepted one connection, and then gives it its first turn.\<close>

definition sample_up_system :: system where
  "sample_up_system = sys_step (EvAccept sample_env sample_socket) (booted Default sample_boot)"

lemma sample_up_reached: "tame_reach ok (booted Default sample_boot) sample_up_system" "\<not> sy_Crashed sample_up_system"
proof -
  show "tame_reach ok (booted Default sample_boot) sample_up_system"
    using tame_reach.step [OF tame_reach.start [of ok "booted Default sample_boot"], of "EvAccept sample_env sample_socket"]
    by (simp add: sample_valid_env booted_def sample_up_system_def del: sys_step.simps)
  show "\<not> sy_Crashed sample_up_system"
    by (simp add: sample_up_system_def accept_def Let_def suspend_def set_server_def booted_def split: sum.split)
qed

theorem broker_invariant_witness:
  "get (sy_Peers sample_up_system) ''conn_01'' \<noteq> None \<and> conn_Get (sr_Connections (sy_server sample_up_system)) ''conn_01'' \<noteq> None \<and>
     int (conn_Count (sr_Connections (sy_server sample_up_system))) \<le> 1024 \<and> \<not> sy_Crashed sample_up_system"
proof -
  have "get (sy_Peers sample_up_system) ''conn_01'' \<noteq> None" using sample_accepted by (simp add: sample_up_system_def)
  with broker_invariant [OF Load_default sample_boot sample_limited sample_up_reached(1) [of orderly]] show ?thesis
    by (simp add: Default_def)
qed

text \<open>A second connection is accepted; then the first has its turn.\<close>

definition second_env :: env where
  "second_env = sample_env\<lparr>e_rnd := Some [2]\<rparr>"

definition sample_pair :: system where
  "sample_pair = sys_step (EvAccept second_env sample_socket) sample_up_system"

lemma accepted_peers:
  "get (sy_Peers (accept en nc s)) k = Some (ph, q) \<Longrightarrow> get (sy_Peers s) k = Some (ph, q) \<or> pe_linkIDs q = [] \<and> pe_net q = nc"
  "sr_Sessions (sy_server (accept en nc s)) = sr_Sessions (sy_server s)" "sr_Links (sy_server (accept en nc s)) = sr_Links (sy_server s)"
  "sy_Crashed (accept en nc s) = sy_Crashed s"
  by (auto simp: accept_def Let_def suspend_def set_server_def new_peer_def map_simps split: sum.splits if_splits)

lemma sample_pair_reached: "tame_reach ok (booted Default sample_boot) sample_pair" "\<not> sy_Crashed sample_pair"
proof -
  have "valid_env second_env" using sample_valid_env by (simp add: valid_env_def second_env_def)
  then show "tame_reach ok (booted Default sample_boot) sample_pair"
    using tame_reach.step [OF sample_up_reached(1) [of ok] sample_up_reached(2), of "EvAccept second_env sample_socket"]
    by (simp add: sample_pair_def del: sys_step.simps)
  show "\<not> sy_Crashed sample_pair" using sample_up_reached(2) by (simp add: sample_pair_def accepted_peers)
qed

lemma sample_pair_served: "get (sy_Peers sample_pair) ''conn_02'' \<noteq> None"
proof -
  have "sr_Connections (sy_server (booted Default sample_boot)) = New_conn_Registry 1024"
    using Build_Inr [OF sample_boot] by (auto simp: booted_def with_defaults_fields settings_of_def Default_def)
  moreover have "peer_randomID ''conn'' (e_rnd sample_env) = Inr ''conn_01''" "peer_randomID ''conn'' (e_rnd second_env) = Inr ''conn_02''"
    by code_simp+
  ultimately show ?thesis
    by (simp add: sample_pair_def sample_up_system_def accept_def Let_def conn_Add_def New_conn_Registry_def New_Connection_def
        suspend_def set_server_def new_peer_def map_simps)
qed

lemma sample_tame: "tame ok sample_pair (EvTurn sample_env ''conn_01'')"
proof -
  have "sy_Peers (booted Default sample_boot) = []" by (simp add: booted_def)
  then have peers: "pe_linkIDs q = [] \<and> pe_net q = sample_socket" if "get (sy_Peers sample_pair) k = Some (ph, q)" for k ph q
    using that by (auto simp: sample_pair_def sample_up_system_def dest!: accepted_peers(1))
  have regs: "sr_Sessions (sy_server sample_pair) = NewSessionRegistry" "sr_Links (sy_server sample_pair) = NewLinkRegistry"
    using Build_Inr [OF sample_boot] by (auto simp: sample_pair_def sample_up_system_def accepted_peers booted_def)
  have "fresh_env sample_env (resume sample_pair p)" for p
    by (rule sample_fresh) (simp_all add: regs NewLinkRegistry_def NewSessionRegistry_def link_Get_def session_Get_def)
  moreover have "ReadFrame AMQPHeader mx \<noteq> Inr x" for mx x
  proof -
    have "\<not> unat (Uint32 [65, 77, 81, 80]) \<le> 8" by (simp add: Uint32_def get_be_def)
    then show ?thesis by (simp add: ReadFrame_def ReadFull_def AMQPHeader_def Let_def)
  qed
  ultimately show ?thesis
    using peers by (auto simp: new_slot_def quiet_def next_frame_def sample_socket_def) (simp add: sample_env_def)+
qed

theorem peers_isolated_witness:
  "undisturbed ''conn_02'' (sy_server sample_pair) (sy_server (turn sample_env ''conn_01'' sample_pair)) \<and>
   get (sy_Peers (turn sample_env ''conn_01'' sample_pair)) ''conn_02'' \<noteq> None"
  using peers_isolated [OF Load_default sample_boot sample_limited sample_pair_reached(1) [of orderly] sample_pair_reached(2)
      sample_valid_env sample_tame, of "''conn_02''"] sample_pair_served
  by simp

lemma sample_disk:
  "\<exists>l. log_rep l [(''m1'', [1, 2])] \<and> OpenFileLog (fl_data l) = Inr l \<and> fl_Read None 0 l = Inr [1, 2] \<and>
     (\<forall>recs. log_rep l recs \<longrightarrow> list_all (\<lambda>x. length (record_bytes x) \<le> 67108864) recs)"
proof -
  have "log_id ''m1''" by (simp add: log_id_def byte_of_char_def)
  with fl_Append_rep [OF empty_log(1), of "''m1''" "[1, 2]"] obtain l where l: "log_rep l [(''m1'', [1, 2])]" by auto
  have o: "OpenFileLog (fl_data l) = Inr l" using OpenFileLog_rep [OF l] by (simp add: record_bytes_def)
  have "list_all (\<lambda>x. length (record_bytes x) \<le> 67108864) recs" if "log_rep l recs" for recs
    using OpenFileLog_rep [OF that] o by (simp split: if_splits)
  with l o show ?thesis by (intro exI [of _ l]) (simp add: fl_Read_rep [OF l])
qed

lemma sample_life:
  obtains un mar d r d3 msg where "Build un (\<lambda>_. None) None id_ranges None 1 sample_settings d = Inr r"
    and "Runtime_Close mar (\<lambda>_. None) 0 id_ranges None None None r d = (None, d3)" "fl_inv (rt_BodyLog r)"
    and "mem_message None ''m1'' (rt_Memory r) = Inr msg" "m_TransactionID msg = ''''" "fl_Read None (m_LogOffset msg) (rt_BodyLog r) = Inr [1, 2]"
    and "\<And>q x. mem_Snapshot id_ranges None (rt_Memory r) = Inr q \<Longrightarrow> mar q = Inr x \<Longrightarrow> un x = Inr q"
    and "\<And>recs. log_rep (rt_BodyLog r) recs \<Longrightarrow> list_all (\<lambda>x. length (record_bytes x) \<le> 67108864) recs"
proof -
  obtain l where l: "log_rep l [(''m1'', [1, 2])]" "OpenFileLog (fl_data l) = Inr l" "fl_Read None 0 l = Inr [1, 2]"
    "\<And>recs. log_rep l recs \<Longrightarrow> list_all (\<lambda>x. length (record_bytes x) \<le> 67108864) recs" using sample_disk by blast
  from snapshot_restored [OF mem_wf_sample valid_id_ranges valid_id_ranges, of NewMemory] obtain sn m where
    sn: "Restore id_ranges None sn NewMemory = Inr m" "get (mm_messages m) ''m1'' = map_option (recovered sample_store) (get (mm_messages sample_store) ''m1'')"
    by blast
  obtain sn' where sn': "mem_Snapshot id_ranges None m = Inr sn'" by (simp add: mem_Snapshot_def)
  let ?un = "\<lambda>b. Inr (if b = [1] then sn else sn') :: error + Snapshot"
  let ?mar = "\<lambda>s. Inr (if s = sn then [1] else [2]) :: error + byte list"
  let ?d = "\<lparr>dk_meta = Some [1], dk_temp = None, dk_log = fl_data l\<rparr>"
  obtain r where r: "Build ?un (\<lambda>_. None) None id_ranges None 1 sample_settings ?d = Inr r" "rt_Delivery r = NewDeliveryService m l"
    by (simp add: Build_def SnapshotFile_Load_def sn(1) l(2) Let_def)
  have mem: "rt_Memory r = m" "rt_BodyLog r = l" by (simp_all add: r(2) NewDeliveryService_def)
  obtain d3 where d3: "Runtime_Close ?mar (\<lambda>_. None) 0 id_ranges None None None r ?d = (None, d3)"
    by (simp add: Runtime_Close_def SnapshotFile_Save_def write_temp_def mem sn')
  let ?m1 = "recovered sample_store (sample_message ''m1'' 1 5)"
  have m1: "mem_message None ''m1'' (rt_Memory r) = Inr ?m1" "m_TransactionID ?m1 = ''''" "m_LogOffset ?m1 = 0"
    using sn(2) by (simp_all add: mem mem_message_def sample_store_def recovered_def Let_def sample_message_def)
  show ?thesis
  proof (rule that [OF r(1) d3 _ m1(1,2)])
    show "fl_inv (rt_BodyLog r)" using l(1) by (auto simp: mem fl_inv_def)
    show "fl_Read None (m_LogOffset ?m1) (rt_BodyLog r) = Inr [1, 2]" by (simp add: m1(3) mem l(3))
    show "?un x = Inr q" if "mem_Snapshot id_ranges None (rt_Memory r) = Inr q" "?mar q = Inr x" for q x
      using that by (auto simp: mem sn' split: if_splits)
    show "list_all (\<lambda>x. length (record_bytes x) \<le> 67108864) recs" if "log_rep (rt_BodyLog r) recs" for recs
      using that l(4) by (simp add: mem)
  qed
qed

end
