(* ===== verification/Run.thy ===== *)
theory Run
  imports System
begin

text \<open>
  The broker process (\<open>cmd/broker/main.go\<close>), with the starting and stopping of its servers
  (\<open>Server.Start\<close> and \<open>Close\<close> of the AMQP and the gRPC server, \<open>Runtime.Start\<close>, \<open>Service.Stop\<close> of the
  worker). What the operating system and the Go runtime decide is a parameter of a run: whether a
  listener can be opened, what happens until the process is told to stop and while it is stopping,
  which of the servers have stopped when the time for it is up.
\<close>

section \<open>Starting and stopping\<close>

text \<open>\<open>listen\<close> is the error of opening the listener, if any.\<close>

definition Server_Start :: "error option \<Rightarrow> error option" where
  "Server_Start listen = map_option (Wrap ''listen AMQP'') listen"

definition Runtime_Start :: "error option \<Rightarrow> error option" where
  "Runtime_Start listen = Server_Start listen"

definition grpc_Start :: "error option \<Rightarrow> error option" where
  "grpc_Start listen = map_option (Wrap ''listen gRPC'') listen"

text \<open>
  \<open>Server.Close\<close> closes the listener and waits for the goroutines of the connections, until the context
  given to it ends with the error \<open>late\<close>. It does not close the connections: one that waits for input
  is still being served then. When the goroutines have ended and the context has too, \<open>select\<close> takes
  either: \<open>picks\<close> is the error of the context if it takes that.
\<close>

definition Server_Close :: "error option \<Rightarrow> error \<Rightarrow> system \<Rightarrow> error option" where
  "Server_Close picks late s = (if sy_Peers s = [] then picks else Some late)"

definition grpc_Close :: "bool \<Rightarrow> error \<Rightarrow> error option" where
  "grpc_Close stopped late = (if stopped then None else Some late)"

definition worker_Stop :: "bool \<Rightarrow> error \<Rightarrow> error option" where
  "worker_Stop stopped late = (if stopped then None else Some late)"

section \<open>A run\<close>

text \<open>The events of the goroutines, in order; after a crash there are none.\<close>

fun sys_events :: "event list \<Rightarrow> system \<Rightarrow> system" where
  "sys_events [] s = s"
| "sys_events (ev # evs) s = (if sy_Crashed s then s else sys_events evs (sys_step ev s))"

record world =
  wo_cfg :: "error option \<times> Config"             \<comment> \<open>what \<open>config.Load\<close> returns\<close>
  wo_now :: time
  wo_load_io :: faults                           \<comment> \<open>the file system while the runtime is built\<close>
  wo_logerr :: "error option"
  wo_load_ranges :: ranges
  wo_amqp :: "error option"                      \<comment> \<open>the listeners\<close>
  wo_grpc :: "error option"
  wo_events :: "event list"                      \<comment> \<open>what happens until the process is told to stop\<close>
  wo_serve :: "error option"                     \<comment> \<open>the error of the HTTP listener that ended it, if one did\<close>
  wo_closing :: "event list"                     \<comment> \<open>what happens while it is stopping\<close>
  wo_http_stop :: "error option"
  wo_grpc_stopped :: bool
  wo_worker_stopped :: bool
  wo_picks :: "error option"
  wo_late :: error                               \<comment> \<open>the error of the context of the shutdown, once it is over\<close>
  wo_save_ctx :: ctx                             \<comment> \<open>its error when the metadata are saved\<close>
  wo_save_io :: faults
  wo_save_part :: nat
  wo_save_ranges :: ranges
  wo_log_close :: "error option"

definition runtime_close :: "(Snapshot \<Rightarrow> error + byte list) \<Rightarrow> world \<Rightarrow> system \<Rightarrow> disk \<Rightarrow> error option \<times> disk" where
  "runtime_close marshal w s d = Runtime_Close marshal (wo_save_io w) (wo_save_part w) (wo_save_ranges w)
     (Server_Close (wo_picks w) (wo_late w) s) (wo_log_close w) (wo_save_ctx w) (sy_Runtime s) d"

definition joined :: "error option list \<Rightarrow> error list" where
  "joined es = concat (map (\<lambda>e. case e of None \<Rightarrow> [] | Some x \<Rightarrow> [x]) es)"

definition shutdownRuntime :: "(Snapshot \<Rightarrow> error + byte list) \<Rightarrow> world \<Rightarrow> system \<Rightarrow> error \<Rightarrow> disk \<Rightarrow> error list \<times> disk" where
  "shutdownRuntime marshal w s cause d = (case runtime_close marshal w s d of (e, d) \<Rightarrow> (joined [Some cause, e], d))"

text \<open>
  \<open>run\<close>: what it comes to and the data directory it leaves. It returns the joined errors (none: \<open>nil\<close>), or
  the process panics, which ends it without any of the stopping. The error of the HTTP listener ends
  the waiting; it is assigned to a variable that is not used any more.
\<close>

datatype outcome = Returned "error list" | Panicked

definition panic_exit :: "system \<Rightarrow> disk \<Rightarrow> outcome \<times> disk" where
  "panic_exit s d = (Panicked, d\<lparr>dk_log := fl_data (sy_log s)\<rparr>)"

definition run :: "(byte list \<Rightarrow> error + Snapshot) \<Rightarrow> (Snapshot \<Rightarrow> error + byte list) \<Rightarrow> world \<Rightarrow> disk \<Rightarrow> outcome \<times> disk" where
  "run unmarshal marshal w d =
    (case wo_cfg w of
       (Some e, _) \<Rightarrow> (Returned [e], d)
     | (None, cfg) \<Rightarrow>
       (case Build unmarshal (wo_load_io w) (wo_logerr w) (wo_load_ranges w) None (wo_now w) (settings_of cfg) d of
          Inl e \<Rightarrow> (Returned [Wrap ''build runtime'' e], d)
        | Inr r \<Rightarrow>
          (case Runtime_Start (wo_amqp w) of
             Some e \<Rightarrow> (Returned [e], d)
           | None \<Rightarrow>
             (case grpc_Start (wo_grpc w) of
                Some e \<Rightarrow>
                let s = sys_events (wo_closing w) (booted cfg r) in
                if sy_Crashed s then panic_exit s d
                else (case shutdownRuntime marshal w s e d of (es, d) \<Rightarrow> (Returned es, d))
              | None \<Rightarrow>
                let s = sys_events (wo_events w) (booted cfg r);
                    err = wo_serve w;
                    s = sys_events (wo_closing w) s in
                if sy_Crashed s then panic_exit s d
                else
                let http = wo_http_stop w;
                    grpc = grpc_Close (wo_grpc_stopped w) (wo_late w);
                    workers = worker_Stop (wo_worker_stopped w) (wo_late w) in
                (case runtime_close marshal w s d of (e, d) \<Rightarrow> (Returned (joined [http, grpc, workers, e]), d))))))"

text \<open>\<open>main\<close>: the exit status; the Go runtime ends a process that panics with status 2.\<close>

fun broker_exit :: "outcome \<Rightarrow> int" where
  "broker_exit (Returned es) = (if es = [] then 0 else 1)"
| "broker_exit Panicked = 2"

section \<open>Properties\<close>

lemma joined_Nil: "joined es = [] \<longleftrightarrow> list_all (\<lambda>e. e = None) es"
  by (auto simp: joined_def list_all_iff split: option.splits)

lemma joined_set: "x \<in> set (joined es) \<longleftrightarrow> Some x \<in> set es"
  by (auto simp: joined_def split: option.splits)

text \<open>A connection stays until its own turn ends it.\<close>

lemma others_stay:
  assumes "get (sy_Peers s) cid \<noteq> None" "\<And>en. ev \<noteq> EvTurn en cid"
  shows "get (sy_Peers (sys_step ev s)) cid \<noteq> None"
proof (cases ev)
  case (EvAccept en nc)
  with assms(1) show ?thesis
    by (auto simp: accept_def Let_def suspend_def set_server_def get_put split: sum.split if_splits)
next
  case (EvTurn en k)
  then have "k \<noteq> cid" using assms(2) by blast
  then show ?thesis using EvTurn assms(1)
    by (cases rule: turn_cases [of s k en]) (auto simp: suspend_def leave_def set_server_def get_put get_del)
next
  case (EvHttp en late r)
  with assms(1) show ?thesis by (simp add: http_event_def split: prod.split)
qed (use assms(1) in \<open>simp_all add: grpc_event_def sweep_event_def\<close>)

lemma stays:
  assumes "get (sy_Peers s) cid \<noteq> None" "\<And>en. EvTurn en cid \<notin> set evs"
  shows "get (sy_Peers (sys_events evs s)) cid \<noteq> None"
  using assms
proof (induction evs arbitrary: s)
  case (Cons ev evs)
  then have "get (sy_Peers (sys_step ev s)) cid \<noteq> None" by (intro others_stay) auto
  with Cons show ?case by (simp del: sys_step.simps)
qed simp

lemma sys_events_append: "sys_events (evs @ evs') s = sys_events evs' (sys_events evs s)"
proof (induction evs arbitrary: s)
  case (Cons ev evs)
  have "sy_Crashed s \<Longrightarrow> sys_events evs' s = s" by (cases evs') simp_all
  with Cons show ?case by (simp del: sys_step.simps)
qed simp

lemma sys_events_reach: "list_all lawful evs \<Longrightarrow> sys_reach s (sys_events evs s)"
proof (induction evs arbitrary: s)
  case (Cons ev evs)
  show ?case
  proof (cases "sy_Crashed s")
    case False
    with Cons.prems have "sys_reach s (sys_step ev s)"
      using sys_reach.step [OF sys_reach.start [of s], of ev] by (simp del: sys_step.simps)
    with Cons False show ?thesis by (auto simp del: sys_step.simps intro: reach_trans)
  qed (simp add: sys_reach.start)
qed (simp add: sys_reach.start)

text \<open>The run of a broker that has come up: the system at the signal, and at the end of the shutdown.\<close>

definition signalled :: "world \<Rightarrow> Runtime \<Rightarrow> system" where
  "signalled w r = sys_events (wo_events w) (booted (snd (wo_cfg w)) r)"

definition stopped :: "world \<Rightarrow> Runtime \<Rightarrow> system" where
  "stopped w r = sys_events (wo_closing w) (signalled w r)"

definition comes_up :: "(byte list \<Rightarrow> error + Snapshot) \<Rightarrow> world \<Rightarrow> disk \<Rightarrow> Runtime \<Rightarrow> bool" where
  "comes_up unmarshal w d r = (fst (wo_cfg w) = None \<and> wo_amqp w = None \<and> wo_grpc w = None \<and>
     Build unmarshal (wo_load_io w) (wo_logerr w) (wo_load_ranges w) None (wo_now w) (settings_of (snd (wo_cfg w))) d = Inr r)"

lemma run_up:
  assumes "comes_up unmarshal w d r"
  shows "run unmarshal marshal w d =
    (if sy_Crashed (stopped w r) then panic_exit (stopped w r) d
     else case runtime_close marshal w (stopped w r) d of
       (e, d') \<Rightarrow> (Returned (joined [wo_http_stop w, grpc_Close (wo_grpc_stopped w) (wo_late w), worker_Stop (wo_worker_stopped w) (wo_late w), e]), d'))"
  using assms by (cases "wo_cfg w")
    (simp add: comes_up_def run_def Runtime_Start_def Server_Start_def grpc_Start_def stopped_def signalled_def Let_def)

text \<open>
  C15: a connection that is being served when the broker is told to stop, and from which nothing more is
  heard until the time for stopping is up, keeps the metadata from being saved: the process exits with
  status 1 (2, if it has panicked before), and the metadata file is the one it started with, while the
  log has the records of the run.
\<close>

theorem idle_connection_loses_metadata:
  assumes "comes_up unmarshal w d r" "get (sy_Peers (signalled w r)) cid \<noteq> None" "\<And>en. EvTurn en cid \<notin> set (wo_closing w)"
    and "run unmarshal marshal w d = (out, d')"
  shows "broker_exit out = (if sy_Crashed (stopped w r) then 2 else 1) \<and> dk_meta d' = dk_meta d \<and> dk_log d' = fl_data (sy_log (stopped w r))"
proof -
  have "get (sy_Peers (stopped w r)) cid \<noteq> None" unfolding stopped_def by (rule stays [OF assms(2,3)])
  then have "runtime_close marshal w (stopped w r) d = (Some (wo_late w), d\<lparr>dk_log := fl_data (sy_log (stopped w r))\<rparr>)"
    by (cases "sy_Peers (stopped w r)") (simp_all add: runtime_close_def Server_Close_def Runtime_Close_def)
  then show ?thesis using assms(4) run_up [OF assms(1), of marshal]
    by (auto simp: panic_exit_def joined_def split: if_splits option.splits)
qed

text \<open>
  C1: the life of a message. Take a process that comes up on a data directory with a log in good order,
  any events of its connections and interfaces, and a message that is then stored outside a transaction
  with a body that can be read. Whatever events follow, until the signal and while the broker is
  stopping: when the process exits with status 0, the next one built on the directory it leaves has the
  message under its identifier and reads its body at its place in the log. (The JSON library decodes
  what it has encoded, and no record of the log is larger than 64 MiB.)
\<close>

theorem clean_exit_keeps_messages:
  assumes "comes_up unmarshal w d r" "fl_inv (rt_BodyLog r)" "run unmarshal marshal w d = (out, d')" "broker_exit out = 0"
    and "wo_events w = before @ after" "list_all lawful (wo_events w @ wo_closing w)" "valid_ranges (wo_save_ranges w)"
    and "s = sys_events before (booted (snd (wo_cfg w)) r)"
    and "mem_message None k (sy_mem s) = Inr msg" "m_TransactionID msg = ''''" "fl_Read None (m_LogOffset msg) (sy_log s) = Inr b"
    and "\<And>sn x. mem_Snapshot (wo_save_ranges w) None (sy_mem (stopped w r)) = Inr sn \<Longrightarrow> marshal sn = Inr x \<Longrightarrow> unmarshal x = Inr sn"
    and "\<And>recs. log_rep (sy_log (stopped w r)) recs \<Longrightarrow> list_all (\<lambda>x. length (record_bytes x) \<le> 67108864) recs"
    and "valid_ranges rs" "io ReadFile = None"
  shows "\<exists>r' msg'. Build unmarshal io None rs None now settings d' = Inr r' \<and> mem_message None k (rt_Memory r') = Inr msg' \<and>
    m_LogOffset msg' = m_LogOffset msg \<and> fl_Read None (m_LogOffset msg') (rt_BodyLog r') = Inr b"
proof -
  obtain e where e: "runtime_close marshal w (stopped w r) d = (e, d')" "e = None"
    using assms(3,4) run_up [OF assms(1), of marshal]
    by (auto simp: panic_exit_def joined_def split: if_splits option.splits prod.splits)
  then have close: "Runtime_Close marshal (wo_save_io w) (wo_save_part w) (wo_save_ranges w) (Server_Close (wo_picks w) (wo_late w) (stopped w r))
      (wo_log_close w) (wo_save_ctx w) (sy_Runtime (stopped w r)) d = (None, d')"
    by (simp add: runtime_close_def)
  from Close_saved [OF this] have "wo_save_ctx w = None" by (auto simp: mem_Snapshot_def guardE_def split: option.splits)
  note close = close [unfolded this]
  have "stopped w r = sys_events (wo_closing w) (sys_events after s)"
    by (simp add: stopped_def signalled_def assms(5,8) sys_events_append)
  then have r: "sys_reach (booted (snd (wo_cfg w)) r) s" "sys_reach s (stopped w r)"
    using assms(5,6) by (auto simp: assms(8) intro: sys_events_reach reach_trans)
  have b: "Build unmarshal (wo_load_io w) (wo_logerr w) (wo_load_ranges w) None (wo_now w) (settings_of (snd (wo_cfg w))) d = Inr r"
    using assms(1) by (simp add: comes_up_def)
  show ?thesis
    by (rule message_outlives [where marshal = marshal and unmarshal = unmarshal and ?io3.0 = io,
        OF built_wf [OF b assms(2) r(1)] assms(9-11) r(2) close assms(7,14,15,12,13)])
qed

section \<open>Witnesses\<close>

definition sample_world :: "event list \<Rightarrow> world" where
  "sample_world evs = \<lparr>wo_cfg = (None, Default), wo_now = 1, wo_load_io = (\<lambda>_. None), wo_logerr = None, wo_load_ranges = id_ranges,
     wo_amqp = None, wo_grpc = None, wo_events = evs, wo_serve = None, wo_closing = [], wo_http_stop = None,
     wo_grpc_stopped = True, wo_worker_stopped = True, wo_picks = None, wo_late = New ''context deadline exceeded'',
     wo_save_ctx = None, wo_save_io = (\<lambda>_. None), wo_save_part = 0, wo_save_ranges = id_ranges, wo_log_close = None\<rparr>"

theorem idle_connection_loses_metadata_witness:
  "\<exists>out d'. run (\<lambda>_. Inl EOF) (\<lambda>_. Inr [1]) (sample_world [EvAccept sample_env sample_socket]) empty_disk = (out, d') \<and>
     broker_exit out = 1 \<and> dk_meta d' = None"
proof -
  let ?w = "sample_world [EvAccept sample_env sample_socket]"
  have up: "comes_up (\<lambda>_. Inl EOF) ?w empty_disk sample_boot" by (simp add: comes_up_def sample_world_def sample_boot)
  obtain out d' where r: "run (\<lambda>_. Inl EOF) (\<lambda>_. Inr [1]) ?w empty_disk = (out, d')" by fastforce
  have up': "\<not> sy_Crashed (stopped ?w sample_boot)"
    using sample_up_reached(2) by (simp add: stopped_def signalled_def sample_world_def sample_up_system_def booted_def)
  have "get (sy_Peers (signalled ?w sample_boot)) ''conn_01'' \<noteq> None"
    using sample_accepted by (simp add: signalled_def sample_world_def booted_def)
  with idle_connection_loses_metadata [OF up _ _ r, of "''conn_01''"] r up' show ?thesis
    by (simp add: sample_world_def empty_disk_def)
qed

theorem clean_exit_keeps_messages_witness:
  "\<exists>un mar d d' r' msg'. run un mar (sample_world []) d = (Returned [], d') \<and>
     Build un (\<lambda>_. None) None id_ranges None 2 sample_settings d' = Inr r' \<and>
     mem_message None ''m1'' (rt_Memory r') = Inr msg' \<and> fl_Read None (m_LogOffset msg') (rt_BodyLog r') = Inr [1, 2]"
proof (rule sample_life)
  fix un mar d r d3 msg
  assume a: "Build un (\<lambda>_. None) None id_ranges None 1 sample_settings d = Inr r"
    "Runtime_Close mar (\<lambda>_. None) 0 id_ranges None None None r d = (None, d3)" "fl_inv (rt_BodyLog r)"
    "mem_message None ''m1'' (rt_Memory r) = Inr msg" "m_TransactionID msg = ''''" "fl_Read None (m_LogOffset msg) (rt_BodyLog r) = Inr [1, 2]"
    "\<And>q x. mem_Snapshot id_ranges None (rt_Memory r) = Inr q \<Longrightarrow> mar q = Inr x \<Longrightarrow> un x = Inr q"
    "\<And>recs. log_rep (rt_BodyLog r) recs \<Longrightarrow> list_all (\<lambda>x. length (record_bytes x) \<le> 67108864) recs"
  let ?w = "sample_world []"
  have up: "comes_up un ?w d r" using a(1) by (simp add: comes_up_def sample_world_def sample_settings_def)
  have s: "sy_Runtime (signalled ?w r) = r" "sy_Runtime (stopped ?w r) = r" "\<not> sy_Crashed (stopped ?w r)" "sy_Peers (stopped ?w r) = []"
    by (simp_all add: signalled_def stopped_def sample_world_def booted_def)
  have run: "run un mar ?w d = (Returned [], d3)"
    using a(2) by (simp add: run_up [OF up] s runtime_close_def Server_Close_def)
      (simp add: sample_world_def joined_def grpc_Close_def worker_Stop_def)
  from clean_exit_keeps_messages [where io = "\<lambda>_. None" and now = 2 and settings = sample_settings and msg = msg and k = "''m1''"
      and before = "[]" and after = "[]", OF up a(3) run _ _ _ _ refl _ a(5), unfolded s, OF _ _ _ _ _ _ _ a(8) valid_id_ranges refl] a(4,6,7)
  obtain r' msg' where "Build un (\<lambda>_. None) None id_ranges None 2 sample_settings d3 = Inr r'"
    "mem_message None ''m1'' (rt_Memory r') = Inr msg'" "fl_Read None (m_LogOffset msg') (rt_BodyLog r') = Inr [1, 2]"
    by (auto simp: sample_world_def valid_id_ranges booted_def)
  with run show ?thesis by blast
qed

end
