(* ===== verification/Postgres.thy ===== *)
theory Postgres
  imports Store
begin

text \<open>
  The PostgreSQL adapters of the address and message repositories (\<open>postgres_address.go\<close>,
  \<open>postgres_message.go\<close>). The database is a parameter: what executing and querying a statement text
  with arguments does to its state. The adapters are modelled on any database, with the conversions of
  \<open>database/sql\<close> between columns and Go values. What the texts mean on the tables of
  \<open>migrations/001_initial.sql\<close> is the hypothesis \<open>serves\<close>; an executable table store satisfies it.
\<close>

section \<open>The database/sql interface\<close>

datatype sql = SNull | SText string | SInt int | SBool bool | STime time | SBytes "byte list"

type_synonym row = "sql list"
type_synonym headers = "(string, string) gomap"

text \<open>
  \<open>ExecContext\<close> gives the number of affected rows; \<open>QueryContext\<close> gives the rows and what \<open>rows.Err\<close>
  reports after the last one.
\<close>

record 'd database =
  db_Exec :: "ctx \<Rightarrow> string \<Rightarrow> row \<Rightarrow> 'd \<Rightarrow> (error + int) \<times> 'd"
  db_Query :: "ctx \<Rightarrow> string \<Rightarrow> row \<Rightarrow> 'd \<Rightarrow> error + (row list \<times> error option)"

definition ErrNoRows :: error where
  "ErrNoRows = New ''sql: no rows in result set''"

text \<open>\<open>QueryRowContext(...).Scan(...)\<close>: the first row, or \<open>ErrNoRows\<close>.\<close>

definition query_row :: "error + (row list \<times> error option) \<Rightarrow> (row \<Rightarrow> error + 'a) \<Rightarrow> error + 'a" where
  "query_row q scan = tryE q (\<lambda>(rows, e). case rows of r # _ \<Rightarrow> scan r | [] \<Rightarrow> Inl (case e of Some x \<Rightarrow> x | None \<Rightarrow> ErrNoRows))"

text \<open>\<open>for rows.Next() { ... Scan ... }; return out, rows.Err()\<close>\<close>

fun scan_rows :: "(row \<Rightarrow> error + 'a) \<Rightarrow> row list \<Rightarrow> error + 'a list" where
  "scan_rows scan [] = Inr []"
| "scan_rows scan (r # rs) = tryE (scan r) (\<lambda>x. tryE (scan_rows scan rs) (\<lambda>xs. Inr (x # xs)))"

definition query_all :: "error + (row list \<times> error option) \<Rightarrow> (row \<Rightarrow> error + 'a) \<Rightarrow> error + 'a list" where
  "query_all q scan = tryE q (\<lambda>(rows, e). tryE (scan_rows scan rows) (\<lambda>out. guardE e (Inr out)))"

text \<open>
  \<open>Scan\<close> into a Go variable, by the type of the variable. A driver delivers a column as a value of its
  type, so of the conversions of \<open>Scan\<close> those that change the type are left out: they are errors here.
\<close>

definition scan_error :: "nat \<Rightarrow> error" where
  "scan_error i = Errorf ''sql: Scan error on column index %d'' [dec i]"

definition scan_string :: "row \<Rightarrow> nat \<Rightarrow> error + string" where
  "scan_string r i = (case r ! i of SText s \<Rightarrow> Inr s | SBytes b \<Rightarrow> Inr (string_of_bytes b) | _ \<Rightarrow> Inl (scan_error i))"

definition scan_bytes :: "row \<Rightarrow> nat \<Rightarrow> error + byte list" where
  "scan_bytes r i = (case r ! i of SBytes b \<Rightarrow> Inr b | SText s \<Rightarrow> Inr (bytes_of_string s) | SNull \<Rightarrow> Inr [] | _ \<Rightarrow> Inl (scan_error i))"

definition scan_int :: "row \<Rightarrow> nat \<Rightarrow> error + int" where
  "scan_int r i = (case r ! i of SInt n \<Rightarrow> Inr n | _ \<Rightarrow> Inl (scan_error i))"

definition scan_uint64 :: "row \<Rightarrow> nat \<Rightarrow> error + 64 word" where
  "scan_uint64 r i = tryE (scan_int r i) (\<lambda>n. if n < 0 then Inl (scan_error i) else Inr (word_of_int n))"

definition scan_bool :: "row \<Rightarrow> nat \<Rightarrow> error + bool" where
  "scan_bool r i = (case r ! i of SBool b \<Rightarrow> Inr b | _ \<Rightarrow> Inl (scan_error i))"

definition scan_time :: "row \<Rightarrow> nat \<Rightarrow> error + time" where
  "scan_time r i = (case r ! i of STime t \<Rightarrow> Inr t | _ \<Rightarrow> Inl (scan_error i))"

definition scan_NullTime :: "row \<Rightarrow> nat \<Rightarrow> error + time" where
  "scan_NullTime r i = (if r ! i = SNull then Inr 0 else scan_time r i)"

definition scan_NullString :: "row \<Rightarrow> nat \<Rightarrow> error + string" where
  "scan_NullString r i = (if r ! i = SNull then Inr '''' else scan_string r i)"

lemmas scan_defs = scan_string_def scan_bytes_def scan_int_def scan_uint64_def scan_bool_def scan_time_def scan_NullTime_def scan_NullString_def

text \<open>The number of columns has to be the number of variables.\<close>

definition columns :: "nat \<Rightarrow> row \<Rightarrow> error option" where
  "columns n r = (if length r = n then None else Some (Errorf ''sql: expected %d destination arguments in Scan, not %d'' [dec (length r), dec n]))"

section \<open>Values\<close>

definition nullable :: "string \<Rightarrow> sql" where
  "nullable v = (if v = '''' then SNull else SText v)"

definition nullTime :: "time \<Rightarrow> sql" where
  "nullTime v = (if v = 0 then SNull else STime v)"

fun state_text :: "State \<Rightarrow> string" where
  "state_text StateAvailable = ''available''"
| "state_text StateAcquired = ''acquired''"
| "state_text StateAccepted = ''accepted''"
| "state_text StateReleased = ''released''"
| "state_text StateRejected = ''rejected''"
| "state_text StateDeadLettered = ''dead-lettered''"
| "state_text StateExpired = ''expired''"
| "state_text (StateOther s) = s"

definition state_of :: "string \<Rightarrow> State" where
  "state_of s = (case find (\<lambda>st. state_text st = s)
      [StateAvailable, StateAcquired, StateAccepted, StateReleased, StateRejected, StateDeadLettered, StateExpired] of
     Some st \<Rightarrow> st | None \<Rightarrow> StateOther s)"

definition kind_of :: "string \<Rightarrow> Kind" where
  "kind_of s = (case find (\<lambda>k. kind_text k = s) [KindQueue, KindTopic, KindFanout, KindDirect, KindTemporary] of
     Some k \<Rightarrow> k | None \<Rightarrow> KindOther s)"

section \<open>Statements\<close>

datatype command =
    InsertMessage | UpdateMessage | DeleteMessage
  | InsertAddress | UpdatePaused | DeleteAddress
  | InsertBinding | RemoveBinding

datatype query =
    SelectMessage | SelectReady bool | SelectDead bool | CountReady | SelectAll
  | SelectAddress | SelectAddresses | SelectBindings

fun command_text :: "command \<Rightarrow> string" where
  "command_text InsertMessage =
     ''INSERT INTO messages(id,address,routing_key,headers,priority,created_at,expires_at,state,delivery_count,redelivered,transaction_id,log_offset) VALUES($1,$2,$3,$4,$5,$6,$7,$8,$9,$10,$11,$12)''"
| "command_text UpdateMessage =
     ''UPDATE messages SET address=$2,routing_key=$3,headers=$4,priority=$5,expires_at=$6,state=$7,delivery_count=$8,redelivered=$9,transaction_id=$10,log_offset=$11 WHERE id=$1''"
| "command_text DeleteMessage =
     ''DELETE FROM messages WHERE id=$1''"
| "command_text InsertAddress =
     ''INSERT INTO addresses(name,kind,durable,max_length,default_ttl_ns,dead_letter,paused,created_at,version) VALUES($1,$2,$3,$4,$5,$6,$7,$8,$9)''"
| "command_text UpdatePaused =
     ''UPDATE addresses SET paused=$2,version=version+1 WHERE name=$1''"
| "command_text DeleteAddress =
     ''DELETE FROM addresses WHERE name=$1''"
| "command_text InsertBinding =
     ''INSERT INTO bindings(id,source,destination,routing_key,filter,priority,created_at) VALUES($1,$2,$3,$4,$5,$6,$7)''"
| "command_text RemoveBinding =
     ''DELETE FROM bindings WHERE id=$1''"

definition select_messages :: string where
  "select_messages = ''SELECT id,address,routing_key,headers,priority,created_at,expires_at,state,delivery_count,redelivered,transaction_id,log_offset FROM messages''"

definition select_addresses :: string where
  "select_addresses = ''SELECT name,kind,durable,max_length,default_ttl_ns,dead_letter,paused,created_at,version FROM addresses''"

fun query_text :: "query \<Rightarrow> string" where
  "query_text SelectMessage =
     select_messages @ '' WHERE id=$1''"
| "query_text (SelectReady limited) =
     select_messages @ '' WHERE address=$1 AND state IN ('available','released') ORDER BY priority DESC,created_at'' @
     (if limited then '' LIMIT $2'' else [])"
| "query_text (SelectDead limited) =
     select_messages @ '' WHERE state IN ('dead-lettered','expired') ORDER BY created_at'' @
     (if limited then '' LIMIT $1'' else [])"
| "query_text CountReady =
     ''SELECT count(*) FROM messages WHERE address=$1 AND (state IN ('available','released') OR (state='acquired' AND transaction_id IS NULL))''"
| "query_text SelectAll =
     select_messages @ '' ORDER BY created_at''"
| "query_text SelectAddress =
     select_addresses @ '' WHERE name=$1''"
| "query_text SelectAddresses =
     select_addresses @ '' ORDER BY name''"
| "query_text SelectBindings =
     ''SELECT id,source,destination,routing_key,filter,priority,created_at FROM bindings WHERE ($1='' @ [CHR 0x27, CHR 0x27] @ '' OR source=$1) ORDER BY priority DESC,id''"

section \<open>Messages\<close>

definition message_args :: "Message \<Rightarrow> sql \<Rightarrow> row" where
  "message_args m headers = [SText (m_ID m), SText (m_Address m), SText (m_RoutingKey m), headers, SInt (m_Priority m),
     STime (m_CreatedAt m), nullTime (m_ExpiresAt m), SText (state_text (m_State m)), SInt (m_DeliveryCount m),
     SBool (m_Redelivered m), nullable (m_TransactionID m), SInt (m_LogOffset m)]"

definition pg_Put :: "'d database \<Rightarrow> (headers \<Rightarrow> error + byte list) \<Rightarrow> ctx \<Rightarrow> Message \<Rightarrow> 'd \<Rightarrow> error option \<times> 'd" where
  "pg_Put db marshal ctx m d =
    (case marshal (m_Headers m) of
       Inl e \<Rightarrow> (Some e, d)
     | Inr headers \<Rightarrow>
         (case db_Exec db ctx (command_text InsertMessage) (message_args m (SBytes headers)) d of
            (Inl e, d) \<Rightarrow> (Some (Wrap ''insert message'' e), d)
          | (Inr _, d) \<Rightarrow> (None, d)))"

definition scanMessage :: "(byte list \<Rightarrow> error + headers) \<Rightarrow> row \<Rightarrow> error + Message" where
  "scanMessage unmarshal r = guardE (columns 12 r)
    (tryE (scan_string r 0) (\<lambda>mid. tryE (scan_string r 1) (\<lambda>addr. tryE (scan_string r 2) (\<lambda>key.
     tryE (scan_bytes r 3) (\<lambda>headers. tryE (scan_int r 4) (\<lambda>prio. tryE (scan_time r 5) (\<lambda>created.
     tryE (scan_NullTime r 6) (\<lambda>expires. tryE (scan_string r 7) (\<lambda>st. tryE (scan_int r 8) (\<lambda>count.
     tryE (scan_bool r 9) (\<lambda>red. tryE (scan_NullString r 10) (\<lambda>tx. tryE (scan_int r 11) (\<lambda>off.
     tryE (unmarshal headers) (\<lambda>h.
       Inr \<lparr>m_ID = mid, m_Address = addr, m_RoutingKey = key, m_Headers = h, m_Body = [], m_Priority = prio,
         m_CreatedAt = created, m_ExpiresAt = expires, m_State = state_of st, m_DeliveryCount = count,
         m_Redelivered = red, m_TransactionID = tx, m_LogOffset = off\<rparr>))))))))))))))"

definition pg_Get :: "'d database \<Rightarrow> (byte list \<Rightarrow> error + headers) \<Rightarrow> ctx \<Rightarrow> string \<Rightarrow> 'd \<Rightarrow> error + Message" where
  "pg_Get db unmarshal ctx mid d =
    (case query_row (db_Query db ctx (query_text SelectMessage) [SText mid] d) (scanMessage unmarshal) of
       Inl e \<Rightarrow> Inl (if errors_Is e ErrNoRows then ErrMessageNotFound else e)
     | Inr m \<Rightarrow> Inr m)"

definition update_args :: "Message \<Rightarrow> sql \<Rightarrow> row" where
  "update_args m headers = [SText (m_ID m), SText (m_Address m), SText (m_RoutingKey m), headers, SInt (m_Priority m), nullTime (m_ExpiresAt m),
     SText (state_text (m_State m)), SInt (m_DeliveryCount m), SBool (m_Redelivered m), nullable (m_TransactionID m), SInt (m_LogOffset m)]"

definition pg_Update :: "'d database \<Rightarrow> (headers \<Rightarrow> error + byte list) \<Rightarrow> ctx \<Rightarrow> Message \<Rightarrow> 'd \<Rightarrow> error option \<times> 'd" where
  "pg_Update db marshal ctx m d =
    (let headers = (case marshal (m_Headers m) of Inl _ \<Rightarrow> SNull | Inr b \<Rightarrow> SBytes b) in
     case db_Exec db ctx (command_text UpdateMessage) (update_args m headers) d of
       (Inl e, d) \<Rightarrow> (Some e, d)
     | (Inr n, d) \<Rightarrow> (if n = 0 then Some ErrMessageNotFound else None, d))"

definition pg_Delete :: "'d database \<Rightarrow> ctx \<Rightarrow> string \<Rightarrow> 'd \<Rightarrow> error option \<times> 'd" where
  "pg_Delete db ctx mid d =
    (case db_Exec db ctx (command_text DeleteMessage) [SText mid] d of (Inl e, d) \<Rightarrow> (Some e, d) | (Inr _, d) \<Rightarrow> (None, d))"

definition pg_query :: "'d database \<Rightarrow> (byte list \<Rightarrow> error + headers) \<Rightarrow> ctx \<Rightarrow> string \<Rightarrow> row \<Rightarrow> 'd \<Rightarrow> error + Message list" where
  "pg_query db unmarshal ctx q args d = query_all (db_Query db ctx q args d) (scanMessage unmarshal)"

definition pg_ListReady :: "'d database \<Rightarrow> (byte list \<Rightarrow> error + headers) \<Rightarrow> ctx \<Rightarrow> string \<Rightarrow> int \<Rightarrow> 'd \<Rightarrow> error + Message list" where
  "pg_ListReady db unmarshal ctx address limit d =
    pg_query db unmarshal ctx (query_text (SelectReady (limit > 0))) (SText address # (if limit > 0 then [SInt limit] else [])) d"

definition pg_ListDead :: "'d database \<Rightarrow> (byte list \<Rightarrow> error + headers) \<Rightarrow> ctx \<Rightarrow> int \<Rightarrow> 'd \<Rightarrow> error + Message list" where
  "pg_ListDead db unmarshal ctx limit d =
    pg_query db unmarshal ctx (query_text (SelectDead (limit > 0))) (if limit > 0 then [SInt limit] else []) d"

definition pg_Depth :: "'d database \<Rightarrow> ctx \<Rightarrow> string \<Rightarrow> 'd \<Rightarrow> error + int" where
  "pg_Depth db ctx address d =
    query_row (db_Query db ctx (query_text CountReady) [SText address] d) (\<lambda>r. guardE (columns 1 r) (scan_int r 0))"

definition pg_All :: "'d database \<Rightarrow> (byte list \<Rightarrow> error + headers) \<Rightarrow> ctx \<Rightarrow> 'd \<Rightarrow> error + Message list" where
  "pg_All db unmarshal ctx d = pg_query db unmarshal ctx (query_text SelectAll) [] d"

section \<open>Addresses and bindings\<close>

text \<open>The default converter refuses a \<open>uint64\<close> with its high bit set.\<close>

definition uint64_arg :: "64 word \<Rightarrow> error + sql" where
  "uint64_arg v = (if uint v < 2 ^ 63 then Inr (SInt (uint v)) else Inl (New ''uint64 values with high bit set are not supported''))"

definition pga_Create :: "'d database \<Rightarrow> ctx \<Rightarrow> Address \<Rightarrow> 'd \<Rightarrow> error option \<times> 'd" where
  "pga_Create db ctx a d =
    (case uint64_arg (ad_Version a) of
       Inl e \<Rightarrow> (Some (Wrap ''insert address'' e), d)
     | Inr v \<Rightarrow>
         (case db_Exec db ctx (command_text InsertAddress)
             [SText (ad_Name a), SText (kind_text (ad_Kind a)), SBool (ad_Durable a), SInt (ad_MaxLength a), SInt (ad_DefaultTTL a),
              nullable (ad_DeadLetter a), SBool (ad_Paused a), STime (ad_CreatedAt a), v] d of
            (Inl e, d) \<Rightarrow> (Some (Wrap ''insert address'' e), d)
          | (Inr _, d) \<Rightarrow> (None, d)))"

definition scan_address :: "row \<Rightarrow> error + Address" where
  "scan_address r = guardE (columns 9 r)
    (tryE (scan_string r 0) (\<lambda>name. tryE (scan_string r 1) (\<lambda>kind. tryE (scan_bool r 2) (\<lambda>durable.
     tryE (scan_int r 3) (\<lambda>len. tryE (scan_int r 4) (\<lambda>ttl. tryE (scan_NullString r 5) (\<lambda>dead.
     tryE (scan_bool r 6) (\<lambda>paused. tryE (scan_time r 7) (\<lambda>created. tryE (scan_uint64 r 8) (\<lambda>version.
       Inr \<lparr>ad_Name = name, ad_Kind = kind_of kind, ad_Durable = durable, ad_MaxLength = len, ad_DefaultTTL = ttl,
         ad_DeadLetter = dead, ad_Paused = paused, ad_CreatedAt = created, ad_Version = version\<rparr>))))))))))"

definition pga_Get :: "'d database \<Rightarrow> ctx \<Rightarrow> string \<Rightarrow> 'd \<Rightarrow> error + Address" where
  "pga_Get db ctx name d =
    (case query_row (db_Query db ctx (query_text SelectAddress) [SText name] d) scan_address of
       Inl e \<Rightarrow> Inl (if errors_Is e ErrNoRows then ErrAddressNotFound else Wrap ''select address'' e)
     | Inr a \<Rightarrow> Inr a)"

definition pga_List :: "'d database \<Rightarrow> ctx \<Rightarrow> 'd \<Rightarrow> error + Address list" where
  "pga_List db ctx d = query_all (db_Query db ctx (query_text SelectAddresses) [] d) scan_address"

definition pga_SetPaused :: "'d database \<Rightarrow> ctx \<Rightarrow> string \<Rightarrow> bool \<Rightarrow> 'd \<Rightarrow> (error + Address) \<times> 'd" where
  "pga_SetPaused db ctx name paused d =
    (case db_Exec db ctx (command_text UpdatePaused) [SText name, SBool paused] d of
       (Inl e, d) \<Rightarrow> (Inl e, d)
     | (Inr n, d) \<Rightarrow> (if n = 0 then Inl ErrAddressNotFound else pga_Get db ctx name d, d))"

definition pga_Delete :: "'d database \<Rightarrow> ctx \<Rightarrow> string \<Rightarrow> 'd \<Rightarrow> error option \<times> 'd" where
  "pga_Delete db ctx name d =
    (case db_Exec db ctx (command_text DeleteAddress) [SText name] d of
       (Inl e, d) \<Rightarrow> (Some e, d)
     | (Inr n, d) \<Rightarrow> (if n = 0 then Some ErrAddressNotFound else None, d))"

definition pga_CreateBinding :: "'d database \<Rightarrow> (headers \<Rightarrow> error + byte list) \<Rightarrow> ctx \<Rightarrow> Binding \<Rightarrow> 'd \<Rightarrow> error option \<times> 'd" where
  "pga_CreateBinding db marshal ctx b d =
    (case marshal (b_Filter b) of
       Inl e \<Rightarrow> (Some e, d)
     | Inr raw \<Rightarrow>
         (case db_Exec db ctx (command_text InsertBinding)
             [SText (b_ID b), SText (b_Source b), SText (b_Destination b), SText (b_RoutingKey b), SBytes raw, SInt (b_Priority b),
              STime (b_CreatedAt b)] d of
            (Inl e, d) \<Rightarrow> (Some e, d)
          | (Inr _, d) \<Rightarrow> (None, d)))"

definition scan_binding :: "(byte list \<Rightarrow> error + headers) \<Rightarrow> row \<Rightarrow> error + Binding" where
  "scan_binding unmarshal r = guardE (columns 7 r)
    (tryE (scan_string r 0) (\<lambda>bid. tryE (scan_string r 1) (\<lambda>src. tryE (scan_string r 2) (\<lambda>dst.
     tryE (scan_string r 3) (\<lambda>key. tryE (scan_bytes r 4) (\<lambda>raw. tryE (scan_int r 5) (\<lambda>prio.
     tryE (scan_time r 6) (\<lambda>created. tryE (unmarshal raw) (\<lambda>f.
       Inr \<lparr>b_ID = bid, b_Source = src, b_Destination = dst, b_RoutingKey = key, b_Filter = f, b_Priority = prio,
         b_CreatedAt = created\<rparr>)))))))))"

definition pga_ListBindings :: "'d database \<Rightarrow> (byte list \<Rightarrow> error + headers) \<Rightarrow> ctx \<Rightarrow> string \<Rightarrow> 'd \<Rightarrow> error + Binding list" where
  "pga_ListBindings db unmarshal ctx src d =
    query_all (db_Query db ctx (query_text SelectBindings) [SText src] d) (scan_binding unmarshal)"

definition pga_DeleteBinding :: "'d database \<Rightarrow> ctx \<Rightarrow> string \<Rightarrow> 'd \<Rightarrow> error option \<times> 'd" where
  "pga_DeleteBinding db ctx bid d =
    (case db_Exec db ctx (command_text RemoveBinding) [SText bid] d of (Inl e, d) \<Rightarrow> (Some e, d) | (Inr _, d) \<Rightarrow> (None, d))"

end
