(* ===== verification/PostgresProps.thy ===== *)
theory PostgresProps
  imports Postgres
begin

text \<open>
  What the PostgreSQL adapters do on a database that gives their statements the meaning SQL gives them
  on the tables of \<open>migrations/001_initial.sql\<close>: column types, null constraints, checks, keys,
  references and cascades are those of that file. No statement of the adapters writes the table of
  consumers; its rows hold the addresses they refer to.
\<close>

section \<open>The schema\<close>

record tables =
  tb_addresses :: "(string, row) gomap"
  tb_bindings :: "(string, row) gomap"
  tb_messages :: "(string, row) gomap"
  tb_consumers :: "(string, row) gomap"

text \<open>
  What depends on the server and its driver: the texts an encoding admits, the precision of a
  timestamp, how a JSON document reads back (\<open>None\<close>: it is refused), the collation of texts.
\<close>

record dialect =
  di_text :: "string \<Rightarrow> bool"
  di_tick :: "time \<Rightarrow> time"
  di_json :: "byte list \<Rightarrow> byte list option"
  di_le :: "string \<Rightarrow> string \<Rightarrow> bool"

datatype column = CText | CInt nat | CBool | CTime | CJson

fun store_value :: "dialect \<Rightarrow> bool \<times> column \<Rightarrow> sql \<Rightarrow> sql option" where
  "store_value di (opt, c) SNull = (if opt then Some SNull else None)"
| "store_value di (opt, CText) (SText s) = (if di_text di s then Some (SText s) else None)"
| "store_value di (opt, CInt w) (SInt n) = (if - (2 ^ (w - 1)) \<le> n \<and> n < 2 ^ (w - 1) then Some (SInt n) else None)"
| "store_value di (opt, CBool) (SBool b) = Some (SBool b)"
| "store_value di (opt, CTime) (STime t) = Some (STime (di_tick di t))"
| "store_value di (opt, CJson) (SBytes b) = map_option SBytes (di_json di b)"
| "store_value di _ _ = None"

fun store_row :: "dialect \<Rightarrow> (bool \<times> column) list \<Rightarrow> row \<Rightarrow> row option" where
  "store_row di [] [] = Some []"
| "store_row di (c # cs) (v # vs) =
     (case store_value di c v of None \<Rightarrow> None | Some x \<Rightarrow> map_option ((#) x) (store_row di cs vs))"
| "store_row di _ _ = None"

definition message_columns :: "(bool \<times> column) list" where
  "message_columns = [(False, CText), (False, CText), (False, CText), (False, CJson), (False, CInt 16), (False, CTime),
     (True, CTime), (False, CText), (False, CInt 32), (False, CBool), (True, CText), (False, CInt 64)]"

definition address_columns :: "(bool \<times> column) list" where
  "address_columns = [(False, CText), (False, CText), (False, CBool), (False, CInt 32), (False, CInt 64), (True, CText),
     (False, CBool), (False, CTime), (False, CInt 64)]"

definition binding_columns :: "(bool \<times> column) list" where
  "binding_columns = [(False, CText), (False, CText), (False, CText), (False, CText), (False, CJson), (False, CInt 16), (False, CTime)]"

fun text_of :: "sql \<Rightarrow> string" where
  "text_of (SText s) = s" | "text_of _ = ''''"

fun int_of :: "sql \<Rightarrow> int" where
  "int_of (SInt n) = n" | "int_of _ = 0"

fun time_of :: "sql \<Rightarrow> time" where
  "time_of (STime t) = t" | "time_of _ = 0"

abbreviation key :: "row \<Rightarrow> string" where
  "key r \<equiv> text_of (r ! 0)"

abbreviation has_address :: "tables \<Rightarrow> sql \<Rightarrow> bool" where
  "has_address t v \<equiv> get (tb_addresses t) (text_of v) \<noteq> None"

definition message_check :: "row \<Rightarrow> tables \<Rightarrow> bool" where
  "message_check r t = (has_address t (r ! 1) \<and> int_of (r ! 4) \<in> {0..9})"

definition address_check :: "row \<Rightarrow> tables \<Rightarrow> bool" where
  "address_check r t = (text_of (r ! 1) \<in> {''queue'', ''topic'', ''fanout'', ''direct'', ''temporary''} \<and>
     int_of (r ! 3) \<ge> 0 \<and> int_of (r ! 4) \<ge> 0 \<and> (r ! 5 = SNull \<or> r ! 5 = r ! 0 \<or> has_address t (r ! 5)))"

definition binding_check :: "row \<Rightarrow> tables \<Rightarrow> bool" where
  "binding_check r t = (has_address t (r ! 1) \<and> has_address t (r ! 2) \<and> int_of (r ! 5) \<in> {0..9} \<and>
     list_all (\<lambda>(k, s). \<not> (s ! 1 = r ! 1 \<and> s ! 2 = r ! 2 \<and> s ! 3 = r ! 3)) (tb_bindings t))"

section \<open>The meaning of the statements\<close>

text \<open>The number of affected rows and the tables then, or \<open>None\<close> when the statement is refused.\<close>

fun run_command :: "dialect \<Rightarrow> command \<Rightarrow> row \<Rightarrow> tables \<Rightarrow> (int \<times> tables) option" where
  "run_command di InsertMessage args t =
     (case store_row di message_columns args of
        None \<Rightarrow> None
      | Some r \<Rightarrow> if message_check r t \<and> get (tb_messages t) (key r) = None
                  then Some (1, t\<lparr>tb_messages := put (key r) r (tb_messages t)\<rparr>) else None)"
| "run_command di UpdateMessage args t =
     (case store_row di (take 5 message_columns @ drop 6 message_columns) args of
        None \<Rightarrow> None
      | Some r \<Rightarrow>
          (case get (tb_messages t) (key r) of
             None \<Rightarrow> Some (0, t)
           | Some old \<Rightarrow>
               let r' = take 5 r @ old ! 5 # drop 5 r in
               if message_check r' t then Some (1, t\<lparr>tb_messages := put (key r) r' (tb_messages t)\<rparr>) else None))"
| "run_command di DeleteMessage args t =
     (case store_row di [(False, CText)] args of
        None \<Rightarrow> None
      | Some r \<Rightarrow> Some (if get (tb_messages t) (key r) = None then 0 else 1, t\<lparr>tb_messages := del (key r) (tb_messages t)\<rparr>))"
| "run_command di InsertAddress args t =
     (case store_row di address_columns args of
        None \<Rightarrow> None
      | Some r \<Rightarrow> if address_check r t \<and> get (tb_addresses t) (key r) = None
                  then Some (1, t\<lparr>tb_addresses := put (key r) r (tb_addresses t)\<rparr>) else None)"
| "run_command di UpdatePaused args t =
     (case store_row di [(False, CText), (False, CBool)] args of
        None \<Rightarrow> None
      | Some r \<Rightarrow>
          (case get (tb_addresses t) (key r) of
             None \<Rightarrow> Some (0, t)
           | Some old \<Rightarrow>
               if int_of (old ! 8) + 1 < 2 ^ 63
               then Some (1, t\<lparr>tb_addresses := put (key r) (old[6 := r ! 1, 8 := SInt (int_of (old ! 8) + 1)]) (tb_addresses t)\<rparr>)
               else None))"
| "run_command di DeleteAddress args t =
     (case store_row di [(False, CText)] args of
        None \<Rightarrow> None
      | Some r \<Rightarrow>
          if get (tb_addresses t) (key r) = None then Some (0, t)
          else if list_ex (\<lambda>(k, m). m ! 1 = r ! 0) (tb_messages t) \<or> list_ex (\<lambda>(k, a). k \<noteq> key r \<and> a ! 5 = r ! 0) (tb_addresses t) \<or>
            list_ex (\<lambda>(k, c). c ! 1 = r ! 0) (tb_consumers t) then None
          else Some (1, t\<lparr>tb_addresses := del (key r) (tb_addresses t),
                 tb_bindings := filter (\<lambda>(k, b). b ! 1 \<noteq> r ! 0 \<and> b ! 2 \<noteq> r ! 0) (tb_bindings t)\<rparr>))"
| "run_command di InsertBinding args t =
     (case store_row di binding_columns args of
        None \<Rightarrow> None
      | Some r \<Rightarrow> if binding_check r t \<and> get (tb_bindings t) (key r) = None
                  then Some (1, t\<lparr>tb_bindings := put (key r) r (tb_bindings t)\<rparr>) else None)"
| "run_command di RemoveBinding args t =
     (case store_row di [(False, CText)] args of
        None \<Rightarrow> None
      | Some r \<Rightarrow> Some (if get (tb_bindings t) (key r) = None then 0 else 1, t\<lparr>tb_bindings := del (key r) (tb_bindings t)\<rparr>))"

text \<open>\<open>SELECT ... WHERE p ORDER BY le LIMIT n\<close>: rows that compare equal come in any order.\<close>

definition selects :: "(row \<Rightarrow> row \<Rightarrow> bool) \<Rightarrow> (row \<Rightarrow> bool) \<Rightarrow> sql list \<Rightarrow> (string, row) gomap \<Rightarrow> row list \<Rightarrow> bool" where
  "selects le p lim tbl rows = (\<exists>rest. mset (rows @ rest) = mset (filter p (map snd tbl)) \<and> sorted_wrt le (rows @ rest) \<and>
     (case lim of [SInt n] \<Rightarrow> length rows \<le> nat n \<and> (length rows < nat n \<longrightarrow> rest = []) | _ \<Rightarrow> rest = []))"

definition in_states :: "row \<Rightarrow> string list \<Rightarrow> bool" where
  "in_states r sts = (text_of (r ! 7) \<in> set sts)"

definition row_ready :: "sql \<Rightarrow> row \<Rightarrow> bool" where
  "row_ready a r = (r ! 1 = a \<and> in_states r [''available'', ''released''])"

definition row_counted :: "sql \<Rightarrow> row \<Rightarrow> bool" where
  "row_counted a r = (r ! 1 = a \<and> (in_states r [''available'', ''released''] \<or> in_states r [''acquired''] \<and> r ! 10 = SNull))"

definition older :: "row \<Rightarrow> row \<Rightarrow> bool" where
  "older r s = (time_of (r ! 5) \<le> time_of (s ! 5))"

definition urgent :: "row \<Rightarrow> row \<Rightarrow> bool" where
  "urgent r s = (int_of (s ! 4) < int_of (r ! 4) \<or> int_of (r ! 4) = int_of (s ! 4) \<and> older r s)"

definition by_name :: "dialect \<Rightarrow> row \<Rightarrow> row \<Rightarrow> bool" where
  "by_name di r s = di_le di (key r) (key s)"

definition by_priority :: "dialect \<Rightarrow> row \<Rightarrow> row \<Rightarrow> bool" where
  "by_priority di r s = (int_of (s ! 5) < int_of (r ! 5) \<or> int_of (r ! 5) = int_of (s ! 5) \<and> di_le di (key r) (key s))"

definition row_list :: "'a option \<Rightarrow> 'a list" where
  "row_list x = (case x of None \<Rightarrow> [] | Some r \<Rightarrow> [r])"

fun answers :: "dialect \<Rightarrow> query \<Rightarrow> row \<Rightarrow> tables \<Rightarrow> row list \<Rightarrow> bool" where
  "answers di SelectMessage args t rows = (rows = row_list (get (tb_messages t) (text_of (args ! 0))))"
| "answers di (SelectReady limited) args t rows = selects urgent (row_ready (args ! 0)) (if limited then tl args else []) (tb_messages t) rows"
| "answers di (SelectDead limited) args t rows =
     selects older (\<lambda>r. in_states r [''dead-lettered'', ''expired'']) (if limited then args else []) (tb_messages t) rows"
| "answers di CountReady args t rows =
     (rows = [[SInt (int (length (filter (row_counted (args ! 0)) (map snd (tb_messages t)))))]])"
| "answers di SelectAll args t rows = selects older (\<lambda>_. True) [] (tb_messages t) rows"
| "answers di SelectAddress args t rows = (rows = row_list (get (tb_addresses t) (text_of (args ! 0))))"
| "answers di SelectAddresses args t rows = selects (by_name di) (\<lambda>_. True) [] (tb_addresses t) rows"
| "answers di SelectBindings args t rows =
     selects (by_priority di) (\<lambda>r. args ! 0 = SText '''' \<or> r ! 1 = args ! 0) [] (tb_bindings t) rows"

fun query_columns :: "query \<Rightarrow> (bool \<times> column) list" where
  "query_columns SelectMessage = [(False, CText)]"
| "query_columns (SelectReady limited) = (False, CText) # (if limited then [(False, CInt 64)] else [])"
| "query_columns (SelectDead limited) = (if limited then [(False, CInt 64)] else [])"
| "query_columns CountReady = [(False, CText)]"
| "query_columns SelectAll = []"
| "query_columns SelectAddress = [(False, CText)]"
| "query_columns SelectAddresses = []"
| "query_columns SelectBindings = [(False, CText)]"

text \<open>
  A working database: through an abstraction of its state to the tables, every statement of the
  adapters has its meaning; a cancelled context is reported and changes nothing.
\<close>

definition serves :: "dialect \<Rightarrow> 'd database \<Rightarrow> ('d \<Rightarrow> tables) \<Rightarrow> bool" where
  "serves di db tabs \<longleftrightarrow>
    (\<forall>e q a d. db_Exec db (Some e) q a d = (Inl e, d) \<and> db_Query db (Some e) q a d = Inl e) \<and>
    (\<forall>c a d. case run_command di c a (tabs d) of
       None \<Rightarrow> (\<exists>e d'. db_Exec db None (command_text c) a d = (Inl e, d') \<and> tabs d' = tabs d)
     | Some (n, t) \<Rightarrow> (\<exists>d'. db_Exec db None (command_text c) a d = (Inr n, d') \<and> tabs d' = t)) \<and>
    (\<forall>q a d. store_row di (query_columns q) a = Some a \<longrightarrow>
       (\<exists>rows. db_Query db None (query_text q) a d = Inr (rows, None) \<and> answers di q a (tabs d) rows))"

lemma serves_run:
  assumes "serves di db tabs"
  shows "case run_command di c a (tabs d) of
       None \<Rightarrow> (\<exists>e d'. db_Exec db None (command_text c) a d = (Inl e, d') \<and> tabs d' = tabs d)
     | Some (n, t) \<Rightarrow> (\<exists>d'. db_Exec db None (command_text c) a d = (Inr n, d') \<and> tabs d' = t)"
  using assms unfolding serves_def by (elim conjE allE) assumption

lemma serves_command:
  assumes "serves di db tabs" "run_command di c a (tabs d) = Some (n, t)"
  obtains d' where "db_Exec db None (command_text c) a d = (Inr n, d')" "tabs d' = t"
  using serves_run [OF assms(1), of c a d] assms(2) by auto

lemma serves_refused:
  assumes "serves di db tabs" "run_command di c a (tabs d) = None"
  obtains e d' where "db_Exec db None (command_text c) a d = (Inl e, d')" "tabs d' = tabs d"
  using serves_run [OF assms(1), of c a d] assms(2) by auto

lemma serves_query:
  assumes "serves di db tabs" "store_row di (query_columns q) a = Some a"
  obtains rows where "db_Query db None (query_text q) a d = Inr (rows, None)" "answers di q a (tabs d) rows"
  using assms unfolding serves_def by blast

section \<open>Messages in the table\<close>

definition plain_state :: "State \<Rightarrow> bool" where
  "plain_state st = (state_of (state_text st) = st)"

lemma plain_states [simp]:
  "plain_state StateAvailable" "plain_state StateAcquired" "plain_state StateAccepted" "plain_state StateReleased"
  "plain_state StateRejected" "plain_state StateDeadLettered" "plain_state StateExpired"
  by (simp_all add: plain_state_def state_of_def)

text \<open>The values of a message the columns take, and headers that are texts.\<close>

definition storable :: "dialect \<Rightarrow> Message \<Rightarrow> bool" where
  "storable di m = (list_all (di_text di) [m_ID m, m_Address m, m_RoutingKey m, state_text (m_State m)] \<and>
     (m_TransactionID m = '''' \<or> di_text di (m_TransactionID m)) \<and> list_all (\<lambda>(k, v). di_text di k \<and> di_text di v) (m_Headers m) \<and>
     m_Priority m \<in> {0..9} \<and> m_DeliveryCount m \<in> {- (2 ^ 31)..<2 ^ 31} \<and> m_LogOffset m \<in> {- (2 ^ 63)..<2 ^ 63} \<and> plain_state (m_State m))"

text \<open>The JSON library and the database together give back the entries of a map of texts.\<close>

definition json_kept :: "dialect \<Rightarrow> (headers \<Rightarrow> error + byte list) \<Rightarrow> (byte list \<Rightarrow> error + headers) \<Rightarrow> bool" where
  "json_kept di marshal unmarshal \<longleftrightarrow> (\<forall>h. list_all (\<lambda>(k, v). di_text di k \<and> di_text di v) h \<longrightarrow>
     (\<exists>b b' h'. marshal h = Inr b \<and> di_json di b = Some b' \<and> unmarshal b' = Inr h' \<and> (\<forall>k. get h' k = get h k)))"

definition tick_null :: "dialect \<Rightarrow> time \<Rightarrow> sql" where
  "tick_null di v = (if v = 0 then SNull else STime (di_tick di v))"

definition row_of :: "dialect \<Rightarrow> byte list \<Rightarrow> Message \<Rightarrow> row" where
  "row_of di b m = [SText (m_ID m), SText (m_Address m), SText (m_RoutingKey m), SBytes b, SInt (m_Priority m),
     STime (di_tick di (m_CreatedAt m)), tick_null di (m_ExpiresAt m), SText (state_text (m_State m)), SInt (m_DeliveryCount m),
     SBool (m_Redelivered m), nullable (m_TransactionID m), SInt (m_LogOffset m)]"

text \<open>What is read back: the message without its body, its headers as a map, its times at the precision of a timestamp.\<close>

definition read_back :: "dialect \<Rightarrow> headers \<Rightarrow> Message \<Rightarrow> Message" where
  "read_back di h m = m\<lparr>m_Body := [], m_Headers := h, m_CreatedAt := di_tick di (m_CreatedAt m),
     m_ExpiresAt := (if m_ExpiresAt m = 0 then 0 else di_tick di (m_ExpiresAt m))\<rparr>"

lemma scan_row_of:
  assumes "plain_state (m_State m)" "unmarshal b = Inr h"
  shows "scanMessage unmarshal (row_of di b m) = Inr (read_back di h m)"
  using assms by (simp add: scanMessage_def row_of_def read_back_def scan_defs columns_def tick_null_def nullable_def plain_state_def)

definition mirrors :: "dialect \<Rightarrow> (byte list \<Rightarrow> error + headers) \<Rightarrow> row \<Rightarrow> Message \<Rightarrow> bool" where
  "mirrors di unmarshal r m \<longleftrightarrow> storable di m \<and>
     (\<exists>b h. r = row_of di b m \<and> unmarshal b = Inr h \<and> (\<forall>k. get h k = get (m_Headers m) k))"

lemma mirrors_scan:
  assumes "mirrors di unmarshal r m"
  obtains h where "scanMessage unmarshal r = Inr (read_back di h m)" "\<And>k. get h k = get (m_Headers m) k"
  using assms scan_row_of [of m unmarshal _ _ di] by (auto simp: mirrors_def storable_def)

lemma store_values:
  assumes "storable di m"
  shows "store_value di (False, CText) (SText (m_ID m)) = Some (SText (m_ID m))"
    "store_value di (False, CText) (SText (m_Address m)) = Some (SText (m_Address m))"
    "store_value di (False, CText) (SText (m_RoutingKey m)) = Some (SText (m_RoutingKey m))"
    "store_value di (False, CText) (SText (state_text (m_State m))) = Some (SText (state_text (m_State m)))"
    "store_value di (False, CInt 16) (SInt (m_Priority m)) = Some (SInt (m_Priority m))"
    "store_value di (False, CInt 32) (SInt (m_DeliveryCount m)) = Some (SInt (m_DeliveryCount m))"
    "store_value di (False, CInt 64) (SInt (m_LogOffset m)) = Some (SInt (m_LogOffset m))"
    "store_value di (True, CText) (nullable (m_TransactionID m)) = Some (nullable (m_TransactionID m))"
    "store_value di (True, CTime) (nullTime t) = Some (tick_null di t)"
  using assms by (auto simp: storable_def nullable_def nullTime_def tick_null_def)

text \<open>The insertion and the update of a message, as changes of the table.\<close>

lemma run_insert:
  assumes "storable di m" "di_json di b = Some b'" "get (tb_addresses t) (m_Address m) \<noteq> None"
  shows "run_command di InsertMessage (message_args m (SBytes b)) t =
    (if get (tb_messages t) (m_ID m) = None then Some (1, t\<lparr>tb_messages := put (m_ID m) (row_of di b' m) (tb_messages t)\<rparr>) else None)"
proof -
  have "store_row di message_columns (message_args m (SBytes b)) = Some (row_of di b' m)"
    by (simp add: message_columns_def message_args_def row_of_def store_values [OF assms(1)] assms(2) del: store_value.simps(2,3))
  moreover have "message_check (row_of di b' m) t" using assms(1,3) by (simp add: message_check_def row_of_def storable_def)
  ultimately show ?thesis by (simp add: row_of_def)
qed

lemma run_update:
  assumes "storable di m" "di_json di b = Some b'" "get (tb_addresses t) (m_Address m) \<noteq> None"
  shows "run_command di UpdateMessage (update_args m (SBytes b)) t =
    (case get (tb_messages t) (m_ID m) of
       None \<Rightarrow> Some (0, t)
     | Some old \<Rightarrow> Some (1, t\<lparr>tb_messages := put (m_ID m) ((row_of di b' m)[5 := old ! 5]) (tb_messages t)\<rparr>))"
proof -
  have "store_row di (take 5 message_columns @ drop 6 message_columns) (update_args m (SBytes b)) =
      Some (take 5 (row_of di b' m) @ drop 6 (row_of di b' m))"
    by (simp add: message_columns_def update_args_def row_of_def store_values [OF assms(1)] assms(2) del: store_value.simps(2,3))
  moreover have "take 5 (take 5 (row_of di b' m) @ drop 6 (row_of di b' m)) @ v # drop 5 (take 5 (row_of di b' m) @ drop 6 (row_of di b' m)) =
      (row_of di b' m)[5 := v]" for v
    by (simp add: row_of_def)
  moreover have "message_check ((row_of di b' m)[5 := v]) t" for v
    using assms(1,3) by (simp add: message_check_def row_of_def storable_def)
  moreover have "key (take 5 (row_of di b' m) @ drop 6 (row_of di b' m)) = m_ID m" by (simp add: row_of_def)
  ultimately show ?thesis by (simp split: option.split)
qed

lemma run_delete: "di_text di k \<Longrightarrow> run_command di DeleteMessage [SText k] t =
    Some (if get (tb_messages t) k = None then 0 else 1, t\<lparr>tb_messages := del k (tb_messages t)\<rparr>)"
  by simp

section \<open>The message repository\<close>

datatype msg_op = MsgPut Message | MsgUpdate Message | MsgDelete string

fun pg_op :: "'d database \<Rightarrow> (headers \<Rightarrow> error + byte list) \<Rightarrow> msg_op \<Rightarrow> 'd \<Rightarrow> error option \<times> 'd" where
  "pg_op db marshal (MsgPut msg) d = pg_Put db marshal None msg d"
| "pg_op db marshal (MsgUpdate msg) d = pg_Update db marshal None msg d"
| "pg_op db marshal (MsgDelete k) d = pg_Delete db None k d"

definition outcome :: "Memory \<Rightarrow> error + Memory \<Rightarrow> error option \<times> Memory" where
  "outcome m r = (case r of Inl e \<Rightarrow> (Some e, m) | Inr m' \<Rightarrow> (None, m'))"

fun mem_op :: "msg_op \<Rightarrow> Memory \<Rightarrow> error option \<times> Memory" where
  "mem_op (MsgPut msg) m = outcome m (mem_Put None msg m)"
| "mem_op (MsgUpdate msg) m = outcome m (mem_Update None msg m)"
| "mem_op (MsgDelete k) m = outcome m (deleteMessage None k m)"

text \<open>
  The operations of a broker: messages the columns take, at an address of the table; an update keeps
  the time of creation, which the \<open>UPDATE\<close> statement does not set.
\<close>

fun admissible :: "dialect \<Rightarrow> (string, row) gomap \<Rightarrow> msg_op \<Rightarrow> Memory \<Rightarrow> bool" where
  "admissible di addrs (MsgPut msg) m = (storable di msg \<and> get addrs (m_Address msg) \<noteq> None)"
| "admissible di addrs (MsgUpdate msg) m = (storable di msg \<and> get addrs (m_Address msg) \<noteq> None \<and>
     (case get (mm_messages m) (m_ID msg) of None \<Rightarrow> True | Some old \<Rightarrow> m_CreatedAt old = m_CreatedAt msg))"
| "admissible di addrs (MsgDelete k) m = di_text di k"

fun admissible_run :: "dialect \<Rightarrow> (string, row) gomap \<Rightarrow> msg_op list \<Rightarrow> Memory \<Rightarrow> bool" where
  "admissible_run di addrs [] m = True"
| "admissible_run di addrs (x # xs) m = (admissible di addrs x m \<and> admissible_run di addrs xs (snd (mem_op x m)))"

definition sim :: "dialect \<Rightarrow> (byte list \<Rightarrow> error + headers) \<Rightarrow> tables \<Rightarrow> Memory \<Rightarrow> bool" where
  "sim di unmarshal t m \<longleftrightarrow> wf_map (tb_messages t) \<and> wf_map (mm_messages m) \<and>
     (\<forall>k. rel_option (\<lambda>r msg. mirrors di unmarshal r msg \<and> m_ID msg = k) (get (tb_messages t) k) (get (mm_messages m) k))"

lemma sim_put:
  assumes "sim di unmarshal t m" "mirrors di unmarshal r msg"
  shows "sim di unmarshal (t\<lparr>tb_messages := put (m_ID msg) r (tb_messages t)\<rparr>) (m\<lparr>mm_messages := put (m_ID msg) msg (mm_messages m)\<rparr>)"
  using assms by (auto simp: sim_def wf_map_put get_put)

lemma sim_del:
  assumes "sim di unmarshal t m"
  shows "sim di unmarshal (t\<lparr>tb_messages := del k (tb_messages t)\<rparr>) (m\<lparr>mm_messages := del k (mm_messages m)\<rparr>)"
  using assms by (auto simp: sim_def wf_map_del get_del)

lemma sim_at: "sim di unmarshal t m \<Longrightarrow>
    rel_option (\<lambda>r msg. mirrors di unmarshal r msg \<and> m_ID msg = k) (get (tb_messages t) k) (get (mm_messages m) k)"
  unfolding sim_def by blast

lemma sim_None: "sim di unmarshal t m \<Longrightarrow> get (tb_messages t) k = None \<longleftrightarrow> get (mm_messages m) k = None"
  using sim_at [of di unmarshal t m k] by (auto elim: option.rel_cases)

lemma mirrors_update:
  assumes "mirrors di unmarshal old oldm" "m_CreatedAt oldm = m_CreatedAt msg" "storable di msg" "unmarshal b = Inr h" "\<And>k. get h k = get (m_Headers msg) k"
  shows "mirrors di unmarshal ((row_of di b msg)[5 := old ! 5]) msg"
proof -
  have "old ! 5 = STime (di_tick di (m_CreatedAt msg))" using assms(1,2) by (auto simp: mirrors_def row_of_def)
  then have "(row_of di b msg)[5 := old ! 5] = row_of di b msg" by (simp add: row_of_def)
  then show ?thesis using assms(3-5) by (auto simp: mirrors_def)
qed

lemma headers_kept:
  assumes "json_kept di marshal unmarshal" "storable di msg"
  shows "\<exists>b b' h. marshal (m_Headers msg) = Inr b \<and> di_json di b = Some b' \<and> unmarshal b' = Inr h \<and> (\<forall>k. get h k = get (m_Headers msg) k)"
  using assms by (simp add: json_kept_def storable_def)

text \<open>Both stores take the operation, or both refuse it, and mirror each other then. Deleting what is not there is an error of the memory store only.\<close>

definition op_agrees :: "dialect \<Rightarrow> (byte list \<Rightarrow> error + headers) \<Rightarrow> ('d \<Rightarrow> tables) \<Rightarrow> 'd \<Rightarrow> msg_op \<Rightarrow> error option \<times> 'd \<Rightarrow> error option \<times> Memory \<Rightarrow> bool" where
  "op_agrees di unmarshal tabs d x r r' \<longleftrightarrow> sim di unmarshal (tabs (snd r)) (snd r') \<and> tb_addresses (tabs (snd r)) = tb_addresses (tabs d) \<and>
     (fst r = None \<longleftrightarrow> fst r' = None \<or> (\<exists>k. x = MsgDelete k))"

lemma put_agrees:
  assumes db: "serves di db tabs" "json_kept di marshal unmarshal"
    and s: "sim di unmarshal (tabs d) m" "admissible di (tb_addresses (tabs d)) (MsgPut msg) m"
  shows "op_agrees di unmarshal tabs d (MsgPut msg) (pg_op db marshal (MsgPut msg) d) (mem_op (MsgPut msg) m)"
proof -
  have st: "storable di msg" "get (tb_addresses (tabs d)) (m_Address msg) \<noteq> None" using s(2) by simp_all
  from headers_kept [OF db(2) st(1)] obtain b b' h where j: "marshal (m_Headers msg) = Inr b" "di_json di b = Some b'" "unmarshal b' = Inr h"
    "\<And>k. get h k = get (m_Headers msg) k" by blast
  show ?thesis
  proof (cases "get (tb_messages (tabs d)) (m_ID msg)")
    case None
    from serves_command [OF db(1) run_insert [OF st(1) j(2) st(2), unfolded if_P [OF None]]] obtain d' where
      "db_Exec db None (command_text InsertMessage) (message_args msg (SBytes b)) d = (Inr 1, d')"
      "tabs d' = (tabs d)\<lparr>tb_messages := put (m_ID msg) (row_of di b' msg) (tb_messages (tabs d))\<rparr>" by blast
    moreover have "mirrors di unmarshal (row_of di b' msg) msg" using st(1) j by (auto simp: mirrors_def)
    ultimately show ?thesis using j(1) None sim_None [OF s(1)] sim_put [OF s(1)]
      by (simp add: op_agrees_def pg_Put_def mem_Put_def outcome_def guardE_def)
  next
    case (Some r)
    have "run_command di InsertMessage (message_args msg (SBytes b)) (tabs d) = None" using run_insert [OF st(1) j(2) st(2)] Some by simp
    from serves_refused [OF db(1) this] obtain e d' where
      "db_Exec db None (command_text InsertMessage) (message_args msg (SBytes b)) d = (Inl e, d')" "tabs d' = tabs d" by blast
    then show ?thesis using j(1) Some sim_None [OF s(1), of "m_ID msg"] s(1)
      by (simp add: op_agrees_def pg_Put_def mem_Put_def outcome_def guardE_def)
  qed
qed

lemma update_agrees:
  assumes db: "serves di db tabs" "json_kept di marshal unmarshal"
    and s: "sim di unmarshal (tabs d) m" "admissible di (tb_addresses (tabs d)) (MsgUpdate msg) m"
  shows "op_agrees di unmarshal tabs d (MsgUpdate msg) (pg_op db marshal (MsgUpdate msg) d) (mem_op (MsgUpdate msg) m)"
proof -
  have st: "storable di msg" "get (tb_addresses (tabs d)) (m_Address msg) \<noteq> None" using s(2) by simp_all
  from headers_kept [OF db(2) st(1)] obtain b b' h where j: "marshal (m_Headers msg) = Inr b" "di_json di b = Some b'" "unmarshal b' = Inr h"
    "\<And>k. get h k = get (m_Headers msg) k" by blast
  show ?thesis
  proof (cases "get (tb_messages (tabs d)) (m_ID msg)")
    case None
    have "run_command di UpdateMessage (update_args msg (SBytes b)) (tabs d) = Some (0, tabs d)" using run_update [OF st(1) j(2) st(2)] None by simp
    from serves_command [OF db(1) this] obtain d' where
      "db_Exec db None (command_text UpdateMessage) (update_args msg (SBytes b)) d = (Inr 0, d')" "tabs d' = tabs d" by blast
    then show ?thesis using j(1) None sim_None [OF s(1), of "m_ID msg"] s(1)
      by (simp add: op_agrees_def pg_Update_def mem_Update_def outcome_def guardE_def)
  next
    case (Some old)
    let ?t = "(tabs d)\<lparr>tb_messages := put (m_ID msg) ((row_of di b' msg)[5 := old ! 5]) (tb_messages (tabs d))\<rparr>"
    have "run_command di UpdateMessage (update_args msg (SBytes b)) (tabs d) = Some (1, ?t)" using run_update [OF st(1) j(2) st(2)] Some by simp
    from serves_command [OF db(1) this] obtain d' where
      d': "db_Exec db None (command_text UpdateMessage) (update_args msg (SBytes b)) d = (Inr 1, d')" "tabs d' = ?t" by blast
    obtain oldm where oldm: "get (mm_messages m) (m_ID msg) = Some oldm" "mirrors di unmarshal old oldm"
      using sim_at [OF s(1), of "m_ID msg"] Some by (auto simp: option_rel_Some1)
    then have "m_CreatedAt oldm = m_CreatedAt msg" using s(2) by simp
    from mirrors_update [OF oldm(2) this st(1) j(3,4)] show ?thesis
      using j(1) d' oldm(1) sim_put [OF s(1)]
      by (simp add: op_agrees_def pg_Update_def mem_Update_def outcome_def guardE_def)
  qed
qed

lemma delete_agrees:
  assumes db: "serves di db tabs" "json_kept di marshal unmarshal"
    and s: "sim di unmarshal (tabs d) m" "admissible di (tb_addresses (tabs d)) (MsgDelete k) m"
  shows "op_agrees di unmarshal tabs d (MsgDelete k) (pg_op db marshal (MsgDelete k) d) (mem_op (MsgDelete k) m)"
proof -
  have "di_text di k" using s(2) by simp
  from serves_command [OF db(1) run_delete [OF this]] obtain d' n where
    d': "db_Exec db None (command_text DeleteMessage) [SText k] d = (Inr n, d')"
    "tabs d' = (tabs d)\<lparr>tb_messages := del k (tb_messages (tabs d))\<rparr>" by blast
  have "sim di unmarshal (tabs d') (snd (mem_op (MsgDelete k) m))"
  proof (cases "get (mm_messages m) k")
    case None
    then have "del k (tb_messages (tabs d)) = tb_messages (tabs d)" using sim_None [OF s(1)] by (simp add: delete_id get_None_keys)
    then show ?thesis using s(1) None d'(2) by (simp add: deleteMessage_def outcome_def guardE_def)
  next
    case (Some a)
    then show ?thesis using sim_del [OF s(1)] d'(2) by (simp add: deleteMessage_def outcome_def guardE_def)
  qed
  then show ?thesis using d' by (simp add: op_agrees_def pg_Delete_def)
qed

lemma op_agree:
  assumes "serves di db tabs" "json_kept di marshal unmarshal" "sim di unmarshal (tabs d) m" "admissible di (tb_addresses (tabs d)) x m"
  shows "op_agrees di unmarshal tabs d x (pg_op db marshal x d) (mem_op x m)"
  using assms by (cases x) (simp_all only: put_agrees update_agrees delete_agrees)

definition pg_run :: "'d database \<Rightarrow> (headers \<Rightarrow> error + byte list) \<Rightarrow> msg_op list \<Rightarrow> 'd \<Rightarrow> 'd" where
  "pg_run db marshal xs d = fold (\<lambda>x d. snd (pg_op db marshal x d)) xs d"

definition mem_run :: "msg_op list \<Rightarrow> Memory \<Rightarrow> Memory" where
  "mem_run xs m = fold (\<lambda>x m. snd (mem_op x m)) xs m"

lemma run_sim:
  assumes "serves di db tabs" "json_kept di marshal unmarshal"
    and "sim di unmarshal (tabs d) m" "admissible_run di (tb_addresses (tabs d)) xs m"
  shows "sim di unmarshal (tabs (pg_run db marshal xs d)) (mem_run xs m)"
  using assms(3,4)
proof (induction xs arbitrary: d m)
  case (Cons x xs)
  then have "op_agrees di unmarshal tabs d x (pg_op db marshal x d) (mem_op x m)" by (intro op_agree [OF assms(1,2)]) simp_all
  then have "sim di unmarshal (tabs (snd (pg_op db marshal x d))) (snd (mem_op x m))"
    "tb_addresses (tabs (snd (pg_op db marshal x d))) = tb_addresses (tabs d)" by (simp_all add: op_agrees_def)
  with Cons show ?case by (simp add: pg_run_def mem_run_def)
qed (simp add: pg_run_def mem_run_def)

lemma empty_sim: "tb_messages t = [] \<Longrightarrow> mm_messages m = [] \<Longrightarrow> sim di unmarshal t m"
  by (simp add: sim_def)

lemma sim_Get:
  assumes "serves di db tabs" "sim di unmarshal (tabs d) m" "di_text di k"
  shows "case mem_message None k m of
      Inl e \<Rightarrow> pg_Get db unmarshal None k d = Inl e
    | Inr msg \<Rightarrow> \<exists>h. pg_Get db unmarshal None k d = Inr (read_back di h msg) \<and> (\<forall>j. get h j = get (m_Headers msg) j)"
proof -
  have "store_row di (query_columns SelectMessage) [SText k] = Some [SText k]" using assms(3) by simp
  from serves_query [OF assms(1) this, of d] obtain rows where
    q: "db_Query db None (query_text SelectMessage) [SText k] d = Inr (rows, None)" "rows = row_list (get (tb_messages (tabs d)) k)" by auto
  show ?thesis
  proof (cases "get (tb_messages (tabs d)) k")
    case None
    then show ?thesis using q sim_None [OF assms(2), of k]
      by (simp add: mem_message_def guardE_def pg_Get_def query_row_def row_list_def tryE_def ErrNoRows_def)
  next
    case (Some r)
    then obtain msg where m: "get (mm_messages m) k = Some msg" "mirrors di unmarshal r msg"
      using sim_at [OF assms(2), of k] by (auto simp: option_rel_Some1)
    from mirrors_scan [OF m(2)] obtain h where h: "scanMessage unmarshal r = Inr (read_back di h msg)" "\<And>j. get h j = get (m_Headers msg) j" by blast
    then show ?thesis using q m(1) Some
      by (auto simp: mem_message_def guardE_def pg_Get_def query_row_def row_list_def tryE_def)
  qed
qed

text \<open>
  C12: the PostgreSQL message repository refines the memory store. Take a working database with an
  empty message table, an empty memory store, and any insertions, updates and deletions of messages
  the columns take, at known addresses, by updates that keep the time of creation. Done on both,
  every look-up gives the same error, or the same message up to what the table does not hold: the
  body is gone, times have the precision of a timestamp.
\<close>

theorem postgres_refines_memory:
  assumes "serves di db tabs" "json_kept di marshal unmarshal"
    and "tb_messages (tabs d) = []" "mm_messages m = []" "admissible_run di (tb_addresses (tabs d)) xs m" "di_text di k"
  shows "case mem_message None k (mem_run xs m) of
      Inl e \<Rightarrow> pg_Get db unmarshal None k (pg_run db marshal xs d) = Inl e
    | Inr msg \<Rightarrow> \<exists>h. pg_Get db unmarshal None k (pg_run db marshal xs d) = Inr (read_back di h msg) \<and> (\<forall>j. get h j = get (m_Headers msg) j)"
  by (rule sim_Get [OF assms(1) run_sim [OF assms(1,2) empty_sim [OF assms(3,4)] assms(5)] assms(6)])

section \<open>Listings\<close>

lemma scan_rows_all:
  assumes "list_all2 (\<lambda>r x. scan r = Inr x) rows xs"
  shows "scan_rows scan rows = Inr xs"
  using assms by induction (simp_all add: tryE_def)

text \<open>Rows of the table and messages of the memory store correspond one to one.\<close>

lemma sim_rows:
  assumes "sim di unmarshal t m" "r \<in> set (map snd (tb_messages t))"
  obtains msg where "(m_ID msg, msg) \<in> set (mm_messages m)" "mirrors di unmarshal r msg" "key r = m_ID msg"
proof -
  obtain k where "(k, r) \<in> set (tb_messages t)" using assms(2) by auto
  then have "get (tb_messages t) k = Some r" using assms(1) by (simp add: sim_def wf_map_get_iff)
  then obtain msg where "get (mm_messages m) k = Some msg" "mirrors di unmarshal r msg" "m_ID msg = k"
    using sim_at [OF assms(1), of k] by (auto simp: option_rel_Some1)
  then show ?thesis using that [of msg] by (auto simp: mirrors_def row_of_def dest: map_of_SomeD)
qed

lemma sim_messages:
  assumes "sim di unmarshal t m" "(k, msg) \<in> set (mm_messages m)"
  obtains r where "r \<in> set (map snd (tb_messages t))" "mirrors di unmarshal r msg" "key r = k" "m_ID msg = k"
proof -
  have "get (mm_messages m) k = Some msg" using assms by (simp add: sim_def wf_map_get_iff)
  then obtain r where "get (tb_messages t) k = Some r" "mirrors di unmarshal r msg" "m_ID msg = k"
    using sim_at [OF assms(1), of k] by (auto simp: option_rel_Some2)
  then show ?thesis using that [of r] by (force simp: mirrors_def row_of_def dest: map_of_SomeD)
qed

text \<open>The message a row of a mirrored table is read as, and the columns the orders compare.\<close>

definition read_row :: "(byte list \<Rightarrow> error + headers) \<Rightarrow> row \<Rightarrow> Message" where
  "read_row unmarshal r = projr (scanMessage unmarshal r)"

lemma mirrored_row:
  assumes "mirrors di unmarshal r msg"
  shows "scanMessage unmarshal r = Inr (read_row unmarshal r)" "m_ID (read_row unmarshal r) = m_ID msg"
    "ready_key (read_row unmarshal r) = (- int_of (r ! 4), time_of (r ! 5))" "m_CreatedAt (read_row unmarshal r) = time_of (r ! 5)"
    "key r = m_ID msg" "r ! 1 = SText (m_Address msg)" "text_of (r ! 7) = state_text (m_State msg)"
    "r ! 10 = SNull \<longleftrightarrow> m_TransactionID msg = ''''"
proof -
  obtain h where h: "scanMessage unmarshal r = Inr (read_back di h msg)" using mirrors_scan [OF assms] by blast
  then show "scanMessage unmarshal r = Inr (read_row unmarshal r)" by (simp add: read_row_def)
  show "m_ID (read_row unmarshal r) = m_ID msg" "ready_key (read_row unmarshal r) = (- int_of (r ! 4), time_of (r ! 5))"
    "m_CreatedAt (read_row unmarshal r) = time_of (r ! 5)" "key r = m_ID msg" "r ! 1 = SText (m_Address msg)"
    "text_of (r ! 7) = state_text (m_State msg)" "r ! 10 = SNull \<longleftrightarrow> m_TransactionID msg = ''''"
    using assms h by (auto simp: mirrors_def row_of_def read_row_def read_back_def ready_key_def nullable_def split: if_splits)
qed

lemma table_row:
  assumes "sim di unmarshal t m" "r \<in> set (map snd (tb_messages t))"
  shows "scanMessage unmarshal r = Inr (read_row unmarshal r)" "m_ID (read_row unmarshal r) = key r"
    "ready_key (read_row unmarshal r) = (- int_of (r ! 4), time_of (r ! 5))"
proof -
  from sim_rows [OF assms] obtain msg where "mirrors di unmarshal r msg" by blast
  then show "scanMessage unmarshal r = Inr (read_row unmarshal r)" "m_ID (read_row unmarshal r) = key r"
    "ready_key (read_row unmarshal r) = (- int_of (r ! 4), time_of (r ! 5))" using mirrored_row by auto
qed

lemma table_keys:
  assumes "sim di unmarshal t m"
  shows "distinct (map key (map snd (tb_messages t)))"
proof -
  have "key r = k" if "(k, r) \<in> set (tb_messages t)" for k r
  proof -
    have "get (tb_messages t) k = Some r" using assms that by (simp add: sim_def wf_map_get_iff)
    then show ?thesis using sim_at [OF assms, of k] mirrored_row(5) by (auto simp: option_rel_Some1)
  qed
  then have keys: "map key (map snd (tb_messages t)) = map fst (tb_messages t)" by auto
  show ?thesis unfolding keys using assms by (simp add: sim_def wf_map_def)
qed

lemma state_text_eq: "plain_state st \<Longrightarrow> plain_state st' \<Longrightarrow> state_text st = state_text st' \<longleftrightarrow> st = st'"
  unfolding plain_state_def by metis

definition known_ids :: "(Message \<Rightarrow> bool) \<Rightarrow> Memory \<Rightarrow> string set" where
  "known_ids p m = {m_ID msg |k msg. (k, msg) \<in> set (mm_messages m) \<and> p msg}"

text \<open>What a selection from a mirrored table reads: the messages the condition stands for, once each, in the order of the rows.\<close>

lemma sim_selects:
  assumes "sim di unmarshal t m" "selects le p lim (tb_messages t) rows"
    and "\<And>r msg. mirrors di unmarshal r msg \<Longrightarrow> p r \<longleftrightarrow> q msg"
  obtains rest where "scan_rows (scanMessage unmarshal) rows = Inr (map (read_row unmarshal) rows)"
    "distinct (map m_ID (map (read_row unmarshal) (rows @ rest)))" "set (map m_ID (map (read_row unmarshal) (rows @ rest))) = known_ids q m"
    "sorted_wrt le (rows @ rest)" "case lim of [SInt n] \<Rightarrow> length rows \<le> nat n \<and> (length rows < nat n \<longrightarrow> rest = []) | _ \<Rightarrow> rest = []"
    "set (rows @ rest) \<subseteq> set (map snd (tb_messages t))"
proof -
  let ?f = "read_row unmarshal"
  obtain rest where rest: "mset (rows @ rest) = mset (filter p (map snd (tb_messages t)))" "sorted_wrt le (rows @ rest)"
    "case lim of [SInt n] \<Rightarrow> length rows \<le> nat n \<and> (length rows < nat n \<longrightarrow> rest = []) | _ \<Rightarrow> rest = []"
    using assms(2) by (auto simp: selects_def)
  have rows: "set (rows @ rest) = {r \<in> set (map snd (tb_messages t)). p r}" using mset_eq_setD [OF rest(1)] by auto
  have "scanMessage unmarshal r = Inr (?f r)" if "r \<in> set rows" for r
    using that rows table_row(1) [OF assms(1), of r] by auto
  then have "scan_rows (scanMessage unmarshal) rows = Inr (map ?f rows)"
    by (intro scan_rows_all) (simp add: list_all2_conv_all_nth)
  moreover have "distinct (map m_ID (map ?f (rows @ rest)))"
  proof -
    have "distinct (map key (filter p (map snd (tb_messages t))))" by (rule distinct_map_filter [OF table_keys [OF assms(1)]])
    moreover have "mset (map key (rows @ rest)) = mset (map key (filter p (map snd (tb_messages t))))" by (simp only: mset_map rest(1))
    ultimately have "distinct (map key (rows @ rest))" using mset_eq_imp_distinct_iff by blast
    moreover have keys: "map m_ID (map ?f (rows @ rest)) = map key (rows @ rest)"
      unfolding map_map using table_row(2) [OF assms(1)] rows by (intro map_cong) auto
    ultimately show ?thesis unfolding keys by simp
  qed
  moreover have "set (map m_ID (map ?f (rows @ rest))) = known_ids q m"
  proof (intro set_eqI iffI)
    fix x assume "x \<in> set (map m_ID (map ?f (rows @ rest)))"
    then obtain r where "r \<in> set (rows @ rest)" "x = m_ID (?f r)" by (auto simp del: set_append map_append)
    then have r: "r \<in> set (map snd (tb_messages t))" "p r" "x = m_ID (?f r)" unfolding rows by simp_all
    from sim_rows [OF assms(1) r(1)] obtain msg where "(m_ID msg, msg) \<in> set (mm_messages m)" "mirrors di unmarshal r msg" by blast
    then show "x \<in> known_ids q m" using r(2,3) assms(3) mirrored_row(2) by (auto simp: known_ids_def)
  next
    fix x assume "x \<in> known_ids q m"
    then obtain k msg where k: "x = m_ID msg" "(k, msg) \<in> set (mm_messages m)" "q msg" by (auto simp: known_ids_def)
    from sim_messages [OF assms(1) k(2)] obtain r where r: "r \<in> set (map snd (tb_messages t))" "mirrors di unmarshal r msg" by blast
    then have "r \<in> set (rows @ rest)" unfolding rows using k(3) assms(3) by simp
    then show "x \<in> set (map m_ID (map ?f (rows @ rest)))" using k(1) mirrored_row(2) [OF r(2)] by (metis image_eqI set_map)
  qed
  moreover have "set (rows @ rest) \<subseteq> set (map snd (tb_messages t))" unfolding rows by blast
  ultimately show ?thesis using that rest(2,3) by blast
qed

lemma urgent_sorted:
  assumes "sorted_wrt urgent rows" "\<And>r. r \<in> set rows \<Longrightarrow> ready_key (f r) = (- int_of (r ! 4), time_of (r ! 5))"
  shows "sorted (map ready_key (map f rows))"
proof -
  have "sorted_wrt (\<lambda>r s. ready_key (f r) \<le> ready_key (f s)) rows"
    using assms(1) by (rule sorted_wrt_mono_rel [rotated]) (auto simp: assms(2) urgent_def older_def less_eq_prod_def)
  then show ?thesis by (simp add: sorted_wrt_map)
qed

definition awaiting :: "string \<Rightarrow> Message \<Rightarrow> bool" where
  "awaiting a msg = (m_Address msg = a \<and> m_State msg \<in> {StateAvailable, StateReleased})"

definition counted :: "string \<Rightarrow> Message \<Rightarrow> bool" where
  "counted a msg = (awaiting a msg \<or> m_Address msg = a \<and> m_State msg = StateAcquired \<and> m_TransactionID msg = '''')"

lemma state_texts: "plain_state st \<Longrightarrow> state_text st = ''available'' \<longleftrightarrow> st = StateAvailable"
    "plain_state st \<Longrightarrow> state_text st = ''released'' \<longleftrightarrow> st = StateReleased"
    "plain_state st \<Longrightarrow> state_text st = ''acquired'' \<longleftrightarrow> st = StateAcquired"
  using state_text_eq [of st StateAvailable] state_text_eq [of st StateReleased] state_text_eq [of st StateAcquired] by simp_all

lemma mirrored_states:
  assumes "mirrors di unmarshal r msg"
  shows "row_ready (SText a) r \<longleftrightarrow> awaiting a msg" "row_counted (SText a) r \<longleftrightarrow> counted a msg"
proof -
  have "plain_state (m_State msg)" using assms by (simp add: mirrors_def storable_def)
  then show "row_ready (SText a) r \<longleftrightarrow> awaiting a msg" "row_counted (SText a) r \<longleftrightarrow> counted a msg"
    by (auto simp: row_ready_def row_counted_def in_states_def awaiting_def counted_def mirrored_row [OF assms] state_texts simp del: One_nat_def)
qed

lemma sim_ListReady:
  assumes "serves di db tabs" "sim di unmarshal (tabs d) m" "di_text di a" "limit < 2 ^ 63"
  shows "\<exists>ms rest. pg_ListReady db unmarshal None a limit d = Inr ms \<and> distinct (map m_ID (ms @ rest)) \<and>
    set (map m_ID (ms @ rest)) = known_ids (awaiting a) m \<and> sorted (map ready_key (ms @ rest)) \<and>
    (if limit > 0 then length ms \<le> nat limit \<and> (length ms < nat limit \<longrightarrow> rest = []) else rest = [])"
proof -
  let ?q = "SelectReady (limit > 0)" and ?a = "SText a # (if limit > 0 then [SInt limit] else [])"
  have "store_row di (query_columns ?q) ?a = Some ?a" using assms(3,4) by simp
  then obtain rows where q: "db_Query db None (query_text ?q) ?a d = Inr (rows, None)" "answers di ?q ?a (tabs d) rows"
    by (rule serves_query [OF assms(1)])
  then have sel: "selects urgent (row_ready (SText a)) (if limit > 0 then [SInt limit] else []) (tb_messages (tabs d)) rows"
    by (simp split: if_splits)
  obtain rest where rest:
    "scan_rows (scanMessage unmarshal) rows = Inr (map (read_row unmarshal) rows)"
    "distinct (map m_ID (map (read_row unmarshal) (rows @ rest)))"
    "set (map m_ID (map (read_row unmarshal) (rows @ rest))) = known_ids (awaiting a) m"
    "sorted_wrt urgent (rows @ rest)"
    "case (if limit > 0 then [SInt limit] else []) of [SInt n] \<Rightarrow> length rows \<le> nat n \<and> (length rows < nat n \<longrightarrow> rest = []) | _ \<Rightarrow> rest = []"
    "set (rows @ rest) \<subseteq> set (map snd (tb_messages (tabs d)))"
    by (rule sim_selects [OF assms(2) sel, where q = "awaiting a"], erule mirrored_states(1), rule that)
  have "sorted (map ready_key (map (read_row unmarshal) (rows @ rest)))"
    by (rule urgent_sorted [OF rest(4)]) (use rest(6) table_row(3) [OF assms(2)] in blast)
  moreover have "pg_ListReady db unmarshal None a limit d = Inr (map (read_row unmarshal) rows)"
    using q(1) rest(1) by (simp add: pg_ListReady_def pg_query_def query_all_def tryE_def guardE_def)
  ultimately show ?thesis using rest(2,3,5)
    by (intro exI [of _ "map (read_row unmarshal) rows"] exI [of _ "map (read_row unmarshal) rest"]) (auto split: if_splits)
qed

lemma sim_Depth:
  assumes "serves di db tabs" "sim di unmarshal (tabs d) m" "di_text di a"
  shows "pg_Depth db None a d = Inr (int (card (known_ids (counted a) m)))"
proof -
  have "store_row di (query_columns CountReady) [SText a] = Some [SText a]" using assms(3) by simp
  let ?rows = "filter (row_counted (SText a)) (map snd (tb_messages (tabs d)))"
  from serves_query [OF assms(1) \<open>store_row _ _ _ = _\<close>, of d] have
    q: "db_Query db None (query_text CountReady) [SText a] d = Inr ([[SInt (int (length ?rows))]], None)" by auto
  have "selects (\<lambda>_ _. True) (row_counted (SText a)) [] (tb_messages (tabs d)) ?rows" by (simp add: selects_def sorted_wrt_iff_nth_less)
  then obtain rest where
    "distinct (map m_ID (map (read_row unmarshal) (?rows @ rest)))"
    "set (map m_ID (map (read_row unmarshal) (?rows @ rest))) = known_ids (counted a) m" "rest = []"
    by (rule sim_selects [OF assms(2), where q = "counted a"], elim mirrored_states(2), simp)
  then have "card (known_ids (counted a) m) = length ?rows"
    by (metis append_Nil2 distinct_card length_map)
  with q show ?thesis by (simp add: pg_Depth_def query_row_def tryE_def columns_def guardE_def scan_int_def)
qed

text \<open>
  C29: the queue in PostgreSQL. After the same operations as before, \<open>ListReady\<close> succeeds and lists
  messages that are available or released at the address, each once, by priority and then by age; all
  of them, or as many as the limit says. \<open>Depth\<close> counts them, and with them the acquired messages
  outside a transaction. The memory store lists and counts available messages only.
\<close>

theorem postgres_queue:
  assumes "serves di db tabs" "json_kept di marshal unmarshal"
    and "tb_messages (tabs d) = []" "mm_messages m = []" "admissible_run di (tb_addresses (tabs d)) xs m"
    and "di_text di a" "limit < 2 ^ 63"
  shows "(\<exists>ms rest. pg_ListReady db unmarshal None a limit (pg_run db marshal xs d) = Inr ms \<and> distinct (map m_ID (ms @ rest)) \<and>
      set (map m_ID (ms @ rest)) = known_ids (awaiting a) (mem_run xs m) \<and> sorted (map ready_key (ms @ rest)) \<and>
      (if limit > 0 then length ms \<le> nat limit \<and> (length ms < nat limit \<longrightarrow> rest = []) else rest = [])) \<and>
    pg_Depth db None a (pg_run db marshal xs d) = Inr (int (card (known_ids (counted a) (mem_run xs m))))"
proof -
  have sim: "sim di unmarshal (tabs (pg_run db marshal xs d)) (mem_run xs m)"
    by (rule run_sim [OF assms(1,2) empty_sim [OF assms(3,4)] assms(5)])
  show ?thesis by (rule conjI [OF sim_ListReady [OF assms(1) sim assms(6,7)] sim_Depth [OF assms(1) sim assms(6)]])
qed

section \<open>Addresses and bindings\<close>

definition address_ok :: "dialect \<Rightarrow> Address \<Rightarrow> tables \<Rightarrow> bool" where
  "address_ok di a t = (di_text di (ad_Name a) \<and> di_text di (kind_text (ad_Kind a)) \<and> Kind_Valid (ad_Kind a) \<and> ad_MaxLength a \<in> {0..<2 ^ 31} \<and>
     ad_DefaultTTL a \<in> {0..<2 ^ 63} \<and> uint (ad_Version a) + 1 < 2 ^ 63 \<and>
     (ad_DeadLetter a = '''' \<or> di_text di (ad_DeadLetter a) \<and> (ad_DeadLetter a = ad_Name a \<or> get (tb_addresses t) (ad_DeadLetter a) \<noteq> None)))"

definition address_row :: "dialect \<Rightarrow> Address \<Rightarrow> row" where
  "address_row di a = [SText (ad_Name a), SText (kind_text (ad_Kind a)), SBool (ad_Durable a), SInt (ad_MaxLength a), SInt (ad_DefaultTTL a),
     nullable (ad_DeadLetter a), SBool (ad_Paused a), STime (di_tick di (ad_CreatedAt a)), SInt (uint (ad_Version a))]"

lemma kind_of_text: "Kind_Valid k \<Longrightarrow> kind_of (kind_text k) = k \<and> kind_text k \<in> {''queue'', ''topic'', ''fanout'', ''direct'', ''temporary''}"
  by (cases k) (simp_all add: kind_of_def)

lemma scan_address_row:
  assumes "Kind_Valid (ad_Kind a)"
  shows "scan_address (address_row di a) = Inr (a\<lparr>ad_CreatedAt := di_tick di (ad_CreatedAt a)\<rparr>)"
  using kind_of_text [OF assms] by (simp add: scan_address_def address_row_def scan_defs columns_def nullable_def)

lemma address_Get:
  assumes "serves di db tabs" "di_text di name"
  shows "pga_Get db None name d =
    (case get (tb_addresses (tabs d)) name of None \<Rightarrow> Inl ErrAddressNotFound
     | Some r \<Rightarrow> (case scan_address r of Inl e \<Rightarrow> Inl (if errors_Is e ErrNoRows then ErrAddressNotFound else Wrap ''select address'' e) | Inr a \<Rightarrow> Inr a))"
proof -
  have "store_row di (query_columns SelectAddress) [SText name] = Some [SText name]" using assms(2) by simp
  then obtain rows where "db_Query db None (query_text SelectAddress) [SText name] d = Inr (rows, None)"
    "answers di SelectAddress [SText name] (tabs d) rows" by (rule serves_query [OF assms(1)])
  then show ?thesis by (auto simp: pga_Get_def query_row_def row_list_def tryE_def ErrNoRows_def split: option.split)
qed

lemma run_create:
  assumes "address_ok di a t"
  shows "run_command di InsertAddress [SText (ad_Name a), SText (kind_text (ad_Kind a)), SBool (ad_Durable a), SInt (ad_MaxLength a),
      SInt (ad_DefaultTTL a), nullable (ad_DeadLetter a), SBool (ad_Paused a), STime (ad_CreatedAt a), SInt (uint (ad_Version a))] t =
    (if get (tb_addresses t) (ad_Name a) = None then Some (1, t\<lparr>tb_addresses := put (ad_Name a) (address_row di a) (tb_addresses t)\<rparr>) else None)"
proof -
  have low: "- 9223372036854775808 \<le> uint (ad_Version a)" using uint_ge_0 [of "ad_Version a"] by linarith
  have "store_row di address_columns [SText (ad_Name a), SText (kind_text (ad_Kind a)), SBool (ad_Durable a), SInt (ad_MaxLength a),
      SInt (ad_DefaultTTL a), nullable (ad_DeadLetter a), SBool (ad_Paused a), STime (ad_CreatedAt a), SInt (uint (ad_Version a))] =
      Some (address_row di a)"
    using assms low by (auto simp: address_columns_def address_row_def address_ok_def nullable_def)
  moreover have "address_check (address_row di a) t"
    using assms kind_of_text [of "ad_Kind a"] by (auto simp: address_check_def address_row_def address_ok_def nullable_def)
  ultimately show ?thesis by (simp add: address_row_def)
qed

lemma run_pause:
  assumes "get (tb_addresses t) (ad_Name a) = Some (address_row di a)" "uint (ad_Version a) + 1 < 2 ^ 63" "di_text di (ad_Name a)"
  shows "run_command di UpdatePaused [SText (ad_Name a), SBool b] t =
    Some (1, t\<lparr>tb_addresses := put (ad_Name a) (address_row di (a\<lparr>ad_Paused := b, ad_Version := ad_Version a + 1\<rparr>)) (tb_addresses t)\<rparr>)"
proof -
  have "uint (ad_Version a + 1) = uint (ad_Version a) + 1"
    using assms(2) by (simp add: uint_plus_if')
  then show ?thesis using assms by (simp add: address_row_def)
qed

text \<open>
  C30: an address in PostgreSQL. An address the columns take, with a new name, is created; it is read
  back as it was, at the precision of a timestamp, and pausing it gives it back paused with its version
  one higher, as later look-ups do. Creating it again fails and changes nothing.
\<close>

theorem postgres_address_roundtrip:
  assumes "serves di db tabs" "address_ok di a (tabs d)" "get (tb_addresses (tabs d)) (ad_Name a) = None"
  shows "\<exists>d1. pga_Create db None a d = (None, d1) \<and>
    pga_Get db None (ad_Name a) d1 = Inr (a\<lparr>ad_CreatedAt := di_tick di (ad_CreatedAt a)\<rparr>) \<and>
    (\<exists>e d2. pga_Create db None a d1 = (Some e, d2) \<and> tabs d2 = tabs d1) \<and>
    (\<exists>d2. pga_SetPaused db None (ad_Name a) b d1 =
        (Inr (a\<lparr>ad_CreatedAt := di_tick di (ad_CreatedAt a), ad_Paused := b, ad_Version := ad_Version a + 1\<rparr>), d2) \<and>
      pga_Get db None (ad_Name a) d2 = Inr (a\<lparr>ad_CreatedAt := di_tick di (ad_CreatedAt a), ad_Paused := b, ad_Version := ad_Version a + 1\<rparr>))"
proof -
  let ?args = "[SText (ad_Name a), SText (kind_text (ad_Kind a)), SBool (ad_Durable a), SInt (ad_MaxLength a),
      SInt (ad_DefaultTTL a), nullable (ad_DeadLetter a), SBool (ad_Paused a), STime (ad_CreatedAt a), SInt (uint (ad_Version a))]"
  let ?b = "a\<lparr>ad_Paused := b, ad_Version := ad_Version a + 1\<rparr>"
  have ok: "Kind_Valid (ad_Kind a)" "uint (ad_Version a) + 1 < 2 ^ 63" "di_text di (ad_Name a)" using assms(2) by (simp_all add: address_ok_def)
  then have v: "uint64_arg (ad_Version a) = Inr (SInt (uint (ad_Version a)))" by (simp add: uint64_arg_def)
  from serves_command [OF assms(1) run_create [OF assms(2), unfolded if_P [OF assms(3)]]] obtain d1 where
    d1: "db_Exec db None (command_text InsertAddress) ?args d = (Inr 1, d1)"
      "tabs d1 = (tabs d)\<lparr>tb_addresses := put (ad_Name a) (address_row di a) (tb_addresses (tabs d))\<rparr>" by blast
  have at1: "get (tb_addresses (tabs d1)) (ad_Name a) = Some (address_row di a)" by (simp add: d1(2) get_put)
  have "address_ok di a (tabs d1)" using assms(2) by (auto simp: address_ok_def d1(2) get_put)
  then have "run_command di InsertAddress ?args (tabs d1) = None" using run_create [of di a "tabs d1"] at1 by simp
  from serves_refused [OF assms(1) this] obtain e d2 where
    d2: "db_Exec db None (command_text InsertAddress) ?args d1 = (Inl e, d2)" "tabs d2 = tabs d1" by blast
  from serves_command [OF assms(1) run_pause [OF at1 ok(2,3), of b]] obtain d3 where
    d3: "db_Exec db None (command_text UpdatePaused) [SText (ad_Name a), SBool b] d1 = (Inr 1, d3)"
      "tabs d3 = (tabs d1)\<lparr>tb_addresses := put (ad_Name a) (address_row di ?b) (tb_addresses (tabs d1))\<rparr>" by blast
  have get1: "pga_Get db None (ad_Name a) d1 = Inr (a\<lparr>ad_CreatedAt := di_tick di (ad_CreatedAt a)\<rparr>)"
    using address_Get [OF assms(1) ok(3), of d1] at1 scan_address_row [OF ok(1)] by simp
  have get3: "pga_Get db None (ad_Name a) d3 = Inr (a\<lparr>ad_CreatedAt := di_tick di (ad_CreatedAt a), ad_Paused := b, ad_Version := ad_Version a + 1\<rparr>)"
    using address_Get [OF assms(1) ok(3), of d3] scan_address_row [of ?b di] ok(1) by (simp add: d3(2) get_put)
  show ?thesis
    using d1(1) d2 d3(1) get1 get3 v by (intro exI [of _ d1]) (simp add: pga_Create_def pga_SetPaused_def del: command_text.simps)
qed

section \<open>An executable table store\<close>

text \<open>A database on which every statement has its meaning, to run the adapters on: texts of any bytes, microseconds, JSON kept as it is.\<close>

definition plain_dialect :: dialect where
  "plain_dialect = \<lparr>di_text = \<lambda>_. True, di_tick = \<lambda>t. t - t mod 1000, di_json = Some, di_le = (\<le>)\<rparr>"

definition command_of :: "string \<Rightarrow> command option" where
  "command_of q = find (\<lambda>c. command_text c = q)
     [InsertMessage, UpdateMessage, DeleteMessage, InsertAddress, UpdatePaused, DeleteAddress, InsertBinding, RemoveBinding]"

definition query_of :: "string \<Rightarrow> query option" where
  "query_of q = find (\<lambda>c. query_text c = q)
     [SelectMessage, SelectReady True, SelectReady False, SelectDead True, SelectDead False, CountReady, SelectAll, SelectAddress,
      SelectAddresses, SelectBindings]"

definition limited_to :: "sql list \<Rightarrow> 'a list \<Rightarrow> 'a list" where
  "limited_to lim rows = (case lim of [SInt n] \<Rightarrow> take (nat n) rows | _ \<Rightarrow> rows)"

fun run_query :: "query \<Rightarrow> row \<Rightarrow> tables \<Rightarrow> row list" where
  "run_query SelectMessage args t = row_list (get (tb_messages t) (text_of (args ! 0)))"
| "run_query (SelectReady limited) args t = limited_to (if limited then tl args else [])
     (sort_key (\<lambda>r. (- int_of (r ! 4), time_of (r ! 5))) (filter (row_ready (args ! 0)) (map snd (tb_messages t))))"
| "run_query (SelectDead limited) args t = limited_to (if limited then args else [])
     (sort_key (\<lambda>r. time_of (r ! 5)) (filter (\<lambda>r. in_states r [''dead-lettered'', ''expired'']) (map snd (tb_messages t))))"
| "run_query CountReady args t = [[SInt (int (length (filter (row_counted (args ! 0)) (map snd (tb_messages t)))))]]"
| "run_query SelectAll args t = sort_key (\<lambda>r. time_of (r ! 5)) (map snd (tb_messages t))"
| "run_query SelectAddress args t = row_list (get (tb_addresses t) (text_of (args ! 0)))"
| "run_query SelectAddresses args t = sort_key (\<lambda>r. key r) (map snd (tb_addresses t))"
| "run_query SelectBindings args t =
     sort_key (\<lambda>r. (- int_of (r ! 5), key r)) (filter (\<lambda>r. args ! 0 = SText '''' \<or> r ! 1 = args ! 0) (map snd (tb_bindings t)))"

definition table_db :: "tables database" where
  "table_db = \<lparr>db_Exec = \<lambda>ctx q a t.
       (case ctx of
          Some e \<Rightarrow> (Inl e, t)
        | None \<Rightarrow>
            (case command_of q of
               None \<Rightarrow> (Inl (New ''syntax error''), t)
             | Some c \<Rightarrow> (case run_command plain_dialect c a t of None \<Rightarrow> (Inl (New ''constraint violation''), t) | Some (n, t') \<Rightarrow> (Inr n, t')))),
     db_Query = \<lambda>ctx q a t. guardE ctx
       (case query_of q of None \<Rightarrow> Inl (New ''syntax error'') | Some c \<Rightarrow> Inr (run_query c a t, None))\<rparr>"

lemma command_of_text: "command_of (command_text c) = Some c"
proof -
  have "list_all (\<lambda>c. command_of (command_text c) = Some c)
      [InsertMessage, UpdateMessage, DeleteMessage, InsertAddress, UpdatePaused, DeleteAddress, InsertBinding, RemoveBinding]" (is "list_all _ ?cs") by code_simp
  moreover have "c \<in> set ?cs" by (cases c) auto
  ultimately show ?thesis unfolding list_all_iff by blast
qed

lemma query_of_text: "query_of (query_text q) = Some q"
proof -
  have "list_all (\<lambda>q. query_of (query_text q) = Some q)
      [SelectMessage, SelectReady True, SelectReady False, SelectDead True, SelectDead False, CountReady, SelectAll, SelectAddress,
       SelectAddresses, SelectBindings]" (is "list_all _ ?qs") by code_simp
  moreover have "q \<in> set ?qs" by (cases q) auto
  ultimately show ?thesis unfolding list_all_iff by blast
qed

lemma selects_sorted:
  assumes "\<And>r s. f r \<le> f s \<Longrightarrow> le r s"
  shows "selects le p lim tbl (limited_to lim (sort_key (f :: row \<Rightarrow> 'a :: linorder) (filter p (map snd tbl))))"
proof -
  let ?rows = "sort_key f (filter p (map snd tbl))"
  have "sorted_wrt (\<lambda>r s. f r \<le> f s) ?rows" using sorted_sort_key [of f "filter p (map snd tbl)"] by (simp add: sorted_wrt_map)
  then have le: "sorted_wrt le ?rows" by (rule sorted_wrt_mono_rel [rotated]) (use assms in blast)
  show ?thesis
  proof (cases "\<exists>n. lim = [SInt n]")
    case True
    then obtain n where "lim = [SInt n]" by blast
    moreover have "mset (take (nat n) ?rows @ drop (nat n) ?rows) = mset (filter p (map snd tbl))" by simp
    ultimately show ?thesis unfolding selects_def limited_to_def using le
      by (intro exI [of _ "drop (nat n) ?rows"]) (auto simp: append_take_drop_id simp del: mset_append)
  next
    case False
    then have "limited_to lim ?rows = ?rows" by (auto simp: limited_to_def split: list.split sql.split)
    with False show ?thesis unfolding selects_def using le by (auto split: list.split sql.split)
  qed
qed

lemma table_answers: "answers plain_dialect q a t (run_query q a t)"
proof (cases q)
  case SelectAll
  then show ?thesis using selects_sorted [of "\<lambda>r. time_of (r ! 5)" older "\<lambda>_. True" "[]" "tb_messages t"]
    by (simp add: older_def limited_to_def)
next
  case SelectAddresses
  then show ?thesis using selects_sorted [of "\<lambda>r. key r" "by_name plain_dialect" "\<lambda>_. True" "[]" "tb_addresses t"]
    by (simp add: by_name_def limited_to_def plain_dialect_def)
next
  case SelectBindings
  have "selects (by_priority plain_dialect) (\<lambda>r. a ! 0 = SText '''' \<or> r ! 1 = a ! 0) [] (tb_bindings t)
      (limited_to [] (sort_key (\<lambda>r. (- int_of (r ! 5), key r)) (filter (\<lambda>r. a ! 0 = SText '''' \<or> r ! 1 = a ! 0) (map snd (tb_bindings t)))))"
    by (rule selects_sorted) (auto simp: by_priority_def plain_dialect_def less_eq_prod_def)
  then show ?thesis using SelectBindings by (simp add: limited_to_def)
qed (auto intro!: selects_sorted simp: urgent_def older_def less_eq_prod_def)

lemma table_serves: "serves plain_dialect table_db id"
  unfolding serves_def
  by (auto simp: table_db_def command_of_text query_of_text guardE_def table_answers simp del: command_text.simps query_text.simps
      split: option.split)

text \<open>A JSON-like encoding of maps of texts.\<close>

definition enc_string :: "string \<Rightarrow> byte list" where
  "enc_string s = concat (map (\<lambda>c. [1, byte_of_char c]) s) @ [0]"

fun dec_string :: "byte list \<Rightarrow> string \<times> byte list" where
  "dec_string (x # y # bs) = (if x = 1 then (case dec_string bs of (s, r) \<Rightarrow> (char_of_byte y # s, r)) else ([], y # bs))"
| "dec_string _ = ([], [])"

definition enc_map :: "headers \<Rightarrow> error + byte list" where
  "enc_map h = Inr (concat (map (\<lambda>(k, v). enc_string k @ enc_string v) h))"

primrec dec_entries :: "nat \<Rightarrow> byte list \<Rightarrow> headers" where
  "dec_entries 0 bs = []"
| "dec_entries (Suc n) bs =
     (if bs = [] then [] else case dec_string bs of (k, r) \<Rightarrow> case dec_string r of (v, r') \<Rightarrow> (k, v) # dec_entries n r')"

definition dec_map :: "byte list \<Rightarrow> error + headers" where
  "dec_map b = Inr (dec_entries (length b) b)"

lemma dec_enc_string: "dec_string (enc_string s @ r) = (s, r)"
proof (induction s)
  case Nil
  then show ?case by (cases r) (simp_all add: enc_string_def)
qed (simp add: enc_string_def char_of_byte_of_char)

lemma dec_enc_entries: "length h \<le> n \<Longrightarrow> dec_entries n (concat (map (\<lambda>(k, v). enc_string k @ enc_string v) h)) = h"
proof (induction h arbitrary: n)
  case Nil
  then show ?case by (cases n) simp_all
next
  case (Cons x h)
  then obtain m where "n = Suc m" "length h \<le> m" by (cases n) auto
  with Cons show ?case by (cases x) (simp add: dec_enc_string, simp add: enc_string_def)
qed

lemma length_entries: "length h \<le> length (concat (map (\<lambda>(k, v). enc_string k @ enc_string v) h))"
  by (induction h) (auto simp: enc_string_def)

lemma table_json: "json_kept plain_dialect enc_map dec_map"
  unfolding json_kept_def
  by (auto simp: enc_map_def dec_map_def plain_dialect_def intro!: exI dec_enc_entries [OF length_entries, THEN arg_cong])

section \<open>Witnesses\<close>

definition sample_jobs :: Address where
  "sample_jobs = \<lparr>ad_Name = ''jobs'', ad_Kind = KindQueue, ad_Durable = True, ad_MaxLength = 0, ad_DefaultTTL = 0, ad_DeadLetter = '''',
     ad_Paused = False, ad_CreatedAt = 1001, ad_Version = 1\<rparr>"

definition sample_tables :: tables where
  "sample_tables = \<lparr>tb_addresses = [(''jobs'', address_row plain_dialect sample_jobs)], tb_bindings = [], tb_messages = [], tb_consumers = []\<rparr>"

definition sample_ops :: "msg_op list" where
  "sample_ops = [MsgPut (sample_message ''m1'' 1 5001), MsgUpdate ((sample_message ''m1'' 1 5001)\<lparr>m_State := StateReleased\<rparr>)]"

lemma sample_admissible: "admissible_run plain_dialect (tb_addresses (id sample_tables)) sample_ops NewMemory"
  by (simp add: sample_ops_def sample_tables_def storable_def plain_dialect_def sample_message_def mem_Put_def outcome_def NewMemory_def guardE_def)

lemma sample_mem_run: "mm_messages (mem_run sample_ops NewMemory) = [(''m1'', (sample_message ''m1'' 1 5001)\<lparr>m_State := StateReleased\<rparr>)]"
  by (simp add: mem_run_def sample_ops_def mem_Put_def mem_Update_def outcome_def NewMemory_def guardE_def sample_message_def)

theorem postgres_refines_memory_witness:
  "\<exists>h. pg_Get table_db dec_map None ''m1'' (pg_run table_db enc_map sample_ops sample_tables) =
     Inr (read_back plain_dialect h ((sample_message ''m1'' 1 5001)\<lparr>m_State := StateReleased\<rparr>))"
proof -
  have "tb_messages (id sample_tables) = []" "mm_messages NewMemory = []" "di_text plain_dialect ''m1''"
    by (simp_all add: sample_tables_def NewMemory_def plain_dialect_def)
  from postgres_refines_memory [OF table_serves table_json this(1,2) sample_admissible this(3)] show ?thesis
    by (auto simp: mem_message_def guardE_def sample_mem_run)
qed

theorem postgres_queue_witness:
  "(\<exists>ms rest. pg_ListReady table_db dec_map None ''jobs'' 1 (pg_run table_db enc_map sample_ops sample_tables) = Inr ms \<and> set (map m_ID (ms @ rest)) = {''m1''}) \<and>
   pg_Depth table_db None ''jobs'' (pg_run table_db enc_map sample_ops sample_tables) = Inr 1"
proof -
  have ids: "known_ids (awaiting ''jobs'') (mem_run sample_ops NewMemory) = {''m1''}" "known_ids (counted ''jobs'') (mem_run sample_ops NewMemory) = {''m1''}"
    by (auto simp: known_ids_def sample_mem_run sample_message_def awaiting_def counted_def)
  have "tb_messages (id sample_tables) = []" "mm_messages NewMemory = []" "di_text plain_dialect ''jobs''" "(1::int) < 2 ^ 63"
    by (simp_all add: sample_tables_def NewMemory_def plain_dialect_def)
  from postgres_queue [OF table_serves table_json this(1,2) sample_admissible this(3,4), unfolded ids] show ?thesis by auto
qed

theorem postgres_address_roundtrip_witness:
  "\<exists>t t2. pga_Create table_db None sample_jobs \<lparr>tb_addresses = [], tb_bindings = [], tb_messages = [], tb_consumers = []\<rparr> = (None, t) \<and>
     pga_Get table_db None ''jobs'' t = Inr (sample_jobs\<lparr>ad_CreatedAt := 1000\<rparr>) \<and>
     pga_SetPaused table_db None ''jobs'' True t = (Inr (sample_jobs\<lparr>ad_CreatedAt := 1000, ad_Paused := True, ad_Version := 2\<rparr>), t2)"
proof -
  have "address_ok plain_dialect sample_jobs (id \<lparr>tb_addresses = [], tb_bindings = [], tb_messages = [], tb_consumers = []\<rparr>)"
    by (simp add: address_ok_def sample_jobs_def plain_dialect_def)
  from postgres_address_roundtrip [OF table_serves this, of True] show ?thesis
    by (auto simp: sample_jobs_def plain_dialect_def)
qed

end
