(* ===== verification/Client.thy ===== *)
theory Client
  imports Peer
begin

text \<open>
  The command-line client (\<open>cmd/amqp-sim/main.go\<close>): it connects, opens an AMQP connection, and
  publishes one message per session or consumes one message. Its socket is that of the server's model:
  the bytes that will arrive, the bytes written so far, the error of its writes. A read that finds less
  than it needs is the end of the input, where the deadline of the source would end it.
\<close>

record client =
  cl_conn :: net_Conn
  cl_max :: "32 word"
  cl_printed :: "string list list"   \<comment> \<open>the values of the lines printed to standard output\<close>

definition client_sendPayload :: "16 word \<Rightarrow> Performative \<Rightarrow> byte list \<Rightarrow> client \<Rightarrow> error option \<times> client" where
  "client_sendPayload channel p payload c =
    (case FrameFor channel p payload of
       Inl e \<Rightarrow> (Some e, c)
     | Inr f \<Rightarrow>
       (case WriteFrame (nc_werr (cl_conn c)) (nc_out (cl_conn c)) f (cl_max c) of
          Inl e \<Rightarrow> (Some e, c)
        | Inr out \<Rightarrow> (None, c\<lparr>cl_conn := (cl_conn c)\<lparr>nc_out := out\<rparr>\<rparr>)))"

definition client_send :: "16 word \<Rightarrow> Performative \<Rightarrow> client \<Rightarrow> error option \<times> client" where
  "client_send channel p c = client_sendPayload channel p [] c"

definition receiveFrame :: "client \<Rightarrow> (error + Frame \<times> Performative \<times> nat) \<times> client" where
  "receiveFrame c =
    (case ReadFrame (nc_in (cl_conn c)) (cl_max c) of
       Inl e \<Rightarrow> (Inl e, c)
     | Inr (f, rest) \<Rightarrow>
         let c = c\<lparr>cl_conn := (cl_conn c)\<lparr>nc_in := rest\<rparr>\<rparr> in
         (case DecodePerformative (f_Body f) of Inl e \<Rightarrow> (Inl e, c) | Inr (p, n) \<Rightarrow> (Inr (f, p, n), c)))"

definition receive :: "client \<Rightarrow> (error + Performative) \<times> client" where
  "receive c = (case receiveFrame c of (Inl e, c) \<Rightarrow> (Inl e, c) | (Inr (f, p, n), c) \<Rightarrow> (Inr p, c))"

text \<open>\<open>if err := f(c); err != nil { return err }; g(c)\<close>, and the same for a result and its error.\<close>

definition andThen :: "error option \<times> client \<Rightarrow> (client \<Rightarrow> error option \<times> client) \<Rightarrow> error option \<times> client" where
  "andThen r g = (case r of (Some e, c) \<Rightarrow> (Some e, c) | (None, c) \<Rightarrow> g c)"

definition onReply :: "(error + 'a) \<times> client \<Rightarrow> ('a \<Rightarrow> client \<Rightarrow> error option \<times> client) \<Rightarrow> error option \<times> client" where
  "onReply r g = (case r of (Inl e, c) \<Rightarrow> (Some e, c) | (Inr x, c) \<Rightarrow> g x c)"

definition printLine :: "string list \<Rightarrow> client \<Rightarrow> client" where
  "printLine l c = c\<lparr>cl_printed := cl_printed c @ [l]\<rparr>"

definition begin_perf :: Performative where
  "begin_perf = \<lparr>p_Descriptor = DescriptorBegin, p_Fields = [VNil, VUint32 0, VUint32 2048, VUint32 2048]\<rparr>"

definition client_begin :: "16 word \<Rightarrow> client \<Rightarrow> error option \<times> client" where
  "client_begin channel c =
    andThen (client_send channel begin_perf c) (\<lambda>c.
    onReply (receive c) (\<lambda>reply c.
      if p_Descriptor reply \<noteq> DescriptorBegin then (Some (Errorf ''expected begin, got %s'' [Perf_Name reply]), c) else (None, c)))"

definition sender_attach :: "16 word \<Rightarrow> string \<Rightarrow> Performative" where
  "sender_attach channel address = \<lparr>p_Descriptor = DescriptorAttach,
     p_Fields = [VString (''sender-'' @ dec (unat channel)), VUint32 0, VBool False, VNil, VNil, VNil, VString address]\<rparr>"

definition client_transfer :: "16 word \<Rightarrow> Performative" where
  "client_transfer channel = \<lparr>p_Descriptor = DescriptorTransfer,
     p_Fields = [VUint32 0, VUint32 (ucast channel), VBinary (bytes_of_string (''tag-'' @ dec (unat channel))), VUint32 0, VBool False]\<rparr>"

definition client_publish :: "16 word \<Rightarrow> string \<Rightarrow> string \<Rightarrow> client \<Rightarrow> error option \<times> client" where
  "client_publish channel address body c =
    andThen (client_begin channel c) (\<lambda>c.
    andThen (client_send channel (sender_attach channel address) c) (\<lambda>c.
    onReply (receive c) (\<lambda>_ c.
    andThen (client_sendPayload channel (client_transfer channel) (EncodeDataSection (bytes_of_string body)) c) (\<lambda>c.
    onReply (receive c) (\<lambda>reply c.
      if p_Descriptor reply \<noteq> DescriptorDisposition then (Some (Errorf ''expected disposition, got %s'' [Perf_Name reply]), c)
      else
        let c = printLine [''published'', dec (unat channel), address, body, Perf_Name reply] c in
        andThen (client_send channel (bare DescriptorEnd) c) (\<lambda>c.
        onReply (receive c) (\<lambda>_ c. (None, c))))))))"

definition receiver_attach :: "string \<Rightarrow> Performative" where
  "receiver_attach address = \<lparr>p_Descriptor = DescriptorAttach,
     p_Fields = [VString ''receiver'', VUint32 0, VBool True, VNil, VNil, VString address, VNil]\<rparr>"

definition client_flow :: Performative where
  "client_flow = \<lparr>p_Descriptor = DescriptorFlow,
     p_Fields = [VUint32 0, VUint32 2048, VUint32 0, VUint32 2048, VUint32 0, VUint32 0, VUint32 1]\<rparr>"

definition client_accept :: "32 word \<Rightarrow> Performative" where
  "client_accept did = \<lparr>p_Descriptor = DescriptorDisposition, p_Fields = [VBool False, VUint32 did, VNil, VBool True,
     VMap [(''descriptor'', VUint8 0x24), (''value'', VList [])]]\<rparr>"

definition client_consume :: "string \<Rightarrow> client \<Rightarrow> error option \<times> client" where
  "client_consume address c =
    andThen (client_begin 1 c) (\<lambda>c.
    andThen (client_send 1 (receiver_attach address) c) (\<lambda>c.
    onReply (receive c) (\<lambda>_ c.
    andThen (client_send 1 client_flow c) (\<lambda>c.
    onReply (receiveFrame c) (\<lambda>(frame, perf, used) c.
      if p_Descriptor perf \<noteq> DescriptorTransfer then (Some (Errorf ''expected transfer, got %s'' [Perf_Name perf]), c)
      else case DecodeDataSection (drop used (f_Body frame)) of
        Inl e \<Rightarrow> (Some e, c)
      | Inr data \<Rightarrow>
          let did = Perf_Uint perf 1;
              c = printLine [''consumed'', address, dec (unat did), string_of_bytes data] c in
          andThen (client_send 1 (client_accept did) c) (\<lambda>c.
          andThen (client_send 0 (bare DescriptorClose) c) (\<lambda>c.
          onReply (receive c) (\<lambda>_ c. (None, c)))))))))"

text \<open>The loop over the sessions: \<open>n\<close> more, from session \<open>i\<close>; the channel number wraps at 16 bits.\<close>

fun publish_sessions :: "nat \<Rightarrow> nat \<Rightarrow> string \<Rightarrow> string \<Rightarrow> client \<Rightarrow> error option \<times> client" where
  "publish_sessions i 0 address body c = (None, c)"
| "publish_sessions i (Suc n) address body c =
     andThen (client_publish (word_of_nat (i + 1)) address (body @ ''-'' @ dec (i + 1)) c) (publish_sessions (Suc i) n address body)"

definition client_write :: "byte list \<Rightarrow> client \<Rightarrow> error option \<times> client" where
  "client_write b c =
    (case nc_werr (cl_conn c) of
       Some e \<Rightarrow> (Some e, c)
     | None \<Rightarrow> (None, c\<lparr>cl_conn := (cl_conn c)\<lparr>nc_out := nc_out (cl_conn c) @ b\<rparr>\<rparr>))"

definition client_header :: "client \<Rightarrow> error option \<times> client" where
  "client_header c =
    (case ReadFull 8 (nc_in (cl_conn c)) of
       Inl e \<Rightarrow> (Some e, c)
     | Inr (header, rest) \<Rightarrow>
         let c = c\<lparr>cl_conn := (cl_conn c)\<lparr>nc_in := rest\<rparr>\<rparr> in
         (case ValidateProtocolHeader header of Inl e \<Rightarrow> (Some e, c) | Inr _ \<Rightarrow> (None, c)))"

definition client_open :: Performative where
  "client_open = \<lparr>p_Descriptor = DescriptorOpen, p_Fields = [VString ''amqp-sim'', VNil, VUint32 1048576, VUint16 65535]\<rparr>"

text \<open>\<open>run\<close>, from the connected socket or the error of dialling.\<close>

definition client_run :: "error + net_Conn \<Rightarrow> string \<Rightarrow> string \<Rightarrow> string \<Rightarrow> int \<Rightarrow> error option \<times> client option" where
  "client_run dial address body mode sessions =
    (case dial of
       Inl e \<Rightarrow> (Some e, None)
     | Inr nc \<Rightarrow>
         let c = \<lparr>cl_conn = nc, cl_max = 1048576, cl_printed = []\<rparr> in
         map_prod id Some (
         andThen (client_write AMQPHeader c) (\<lambda>c.
         andThen (client_header c) (\<lambda>c.
         andThen (client_send 0 client_open c) (\<lambda>c.
         onReply (receive c) (\<lambda>_ c.
         if mode = ''consume'' then client_consume address c
         else
           andThen (publish_sessions 0 (nat sessions) address body c) (\<lambda>c.
           andThen (client_send 0 (bare DescriptorClose) c) (\<lambda>c.
           onReply (receive c) (\<lambda>_ c. (None, c))))))))))"

text \<open>\<open>main\<close>: the exit status.\<close>

definition client_exit :: "error option \<Rightarrow> int" where
  "client_exit err = (if err = None then 0 else 1)"

end
