(* ===== verification/ClientProps.thy ===== *)
theory ClientProps
  imports Client PeerWire
begin

text \<open>
  The client and the server together: what the client writes is what the server reads, and the other
  way round. A run of both on one connection is a pair of byte streams, each the output of one side on
  the other's.
\<close>

section \<open>Performatives on the wire\<close>

text \<open>A bound of the encoding of the plain values, of which all performatives of the client are made.\<close>

fun width :: "any \<Rightarrow> nat option" where
  "width VNil = Some 1"
| "width (VBool b) = Some 1"
| "width (VUint8 x) = Some 2"
| "width (VUint16 x) = Some 3"
| "width (VUint32 x) = Some 5"
| "width (VString s) = Some (5 + length s)"
| "width (VBinary b) = Some (5 + length b)"
| "width _ = None"

definition widths :: "any list \<Rightarrow> nat" where
  "widths fs = sum_list (map (\<lambda>f. the (width f)) fs)"

lemma width_encodes: "width f = Some n \<Longrightarrow> \<exists>b. encodeValue f = Inr b \<and> length b \<le> n"
  using encodeBytes_length [of _ _ "bytes_of_string _"] encodeBytes_length
  by (cases f) (auto simp: PutUint16_def PutUint32_def length_put_be)

lemma widths_encode: "list_all (\<lambda>f. width f \<noteq> None) fs \<Longrightarrow> \<exists>b. encodeFields fs = Inr b \<and> length b \<le> widths fs"
proof (induction fs)
  case (Cons f fs)
  then obtain n b bs where "width f = Some n" "encodeValue f = Inr b" "length b \<le> n" "encodeFields fs = Inr bs" "length bs \<le> widths fs"
    using width_encodes by fastforce
  then show ?case by (simp add: widths_def)
qed (simp add: widths_def)

text \<open>A performative is said when it is encoded, in \<open>b\<close>, and heard when the encoding is decoded.\<close>

definition said :: "Performative \<Rightarrow> byte list \<Rightarrow> bool" where
  "said perf b = (EncodePerformative perf = Inr b \<and> length b < 2 ^ 32 \<and> Validate (perf\<lparr>p_Fields := trimNulls (p_Fields perf)\<rparr>) = None)"

definition heard :: "Performative \<Rightarrow> Performative" where
  "heard perf = perf\<lparr>p_Fields := map norm_any (trimNulls (p_Fields perf))\<rparr>"

lemma said_heard: "said perf b \<Longrightarrow> DecodePerformative (b @ payload) = Inr (heard perf, length b)"
  unfolding said_def heard_def by (intro encoded_decodes) auto

lemma plain_said:
  assumes "list_all (\<lambda>f. width f \<noteq> None) (trimNulls (p_Fields perf))" "Validate perf = None"
    and "Validate (perf\<lparr>p_Fields := trimNulls (p_Fields perf)\<rparr>) = None" "widths (trimNulls (p_Fields perf)) < 2 ^ 31"
  shows "\<exists>b. said perf b \<and> length b \<le> 12 + widths (trimNulls (p_Fields perf))"
proof -
  obtain bs where bs: "encodeFields (trimNulls (p_Fields perf)) = Inr bs" "length bs \<le> widths (trimNulls (p_Fields perf))"
    using widths_encode [OF assms(1)] by blast
  let ?fs = "trimNulls (p_Fields perf)"
  have "length (list_header n bs) \<le> 9 + widths ?fs" for n using bs(2) by (simp add: list_header_def PutUint32_def length_put_be)
  then have "\<exists>l. encodeList ?fs = Inr l \<and> length l \<le> 9 + widths ?fs"
    using bs by (cases "?fs = []") (simp_all add: tryE_def)
  then obtain l where l: "encodeList ?fs = Inr l" "length l \<le> 9 + widths ?fs" by blast
  then have "EncodePerformative perf = Inr ([0, 0x53, p_Descriptor perf] @ l)"
    using assms(2) by (simp add: EncodePerformative_def Let_def)
  then show ?thesis using l(2) assms(3,4) by (intro exI [of _ "[0, 0x53, p_Descriptor perf] @ l"]) (simp add: said_def)
qed

lemma plain_saidI:
  assumes "list_all (\<lambda>f. width f \<noteq> None) (trimNulls (p_Fields perf))" "Validate perf = None"
    and "Validate (perf\<lparr>p_Fields := trimNulls (p_Fields perf)\<rparr>) = None" "12 + widths (trimNulls (p_Fields perf)) \<le> n" "n < 2 ^ 31"
  shows "\<exists>b. said perf b \<and> length b \<le> n"
  using plain_said [OF assms(1-3)] assms(4,5) by fastforce

definition frame_out :: "16 word \<Rightarrow> byte list \<Rightarrow> byte list" where
  "frame_out ch b = frame_bytes (wire ch FrameTypeAMQP b)"

section \<open>The client's side\<close>

definition said_out :: "byte list \<Rightarrow> client \<Rightarrow> client" where
  "said_out b c = c\<lparr>cl_conn := (cl_conn c)\<lparr>nc_out := nc_out (cl_conn c) @ b\<rparr>\<rparr>"

definition left_in :: "byte list \<Rightarrow> client \<Rightarrow> client" where
  "left_in b c = c\<lparr>cl_conn := (cl_conn c)\<lparr>nc_in := b\<rparr>\<rparr>"

lemma client_fields [simp]:
  "nc_in (cl_conn (said_out b c)) = nc_in (cl_conn c)" "nc_out (cl_conn (said_out b c)) = nc_out (cl_conn c) @ b"
  "nc_werr (cl_conn (said_out b c)) = nc_werr (cl_conn c)" "cl_max (said_out b c) = cl_max c" "cl_printed (said_out b c) = cl_printed c"
  "nc_in (cl_conn (left_in b c)) = b" "nc_out (cl_conn (left_in b c)) = nc_out (cl_conn c)"
  "nc_werr (cl_conn (left_in b c)) = nc_werr (cl_conn c)" "cl_max (left_in b c) = cl_max c" "cl_printed (left_in b c) = cl_printed c"
  "nc_in (cl_conn (printLine l c)) = nc_in (cl_conn c)" "nc_out (cl_conn (printLine l c)) = nc_out (cl_conn c)"
  "nc_werr (cl_conn (printLine l c)) = nc_werr (cl_conn c)" "cl_max (printLine l c) = cl_max c"
  by (simp_all add: said_out_def left_in_def printLine_def)

lemma client_sends:
  assumes "said perf b" "nc_werr (cl_conn c) = None" "cl_max c = 1048576" "length b + length payload \<le> 1000000"
  shows "client_sendPayload ch perf payload c = (None, said_out (frame_out ch (b @ payload)) c)"
proof -
  let ?f = "wire ch FrameTypeAMQP (b @ payload)"
  have f: "sized_frame ?f" "unat (marshal_size ?f) = 8 + length (b @ payload)" using wire_sized [of "b @ payload" ch FrameTypeAMQP] assms(4) by auto
  have "marshal_size ?f \<le> 1048576" using f(2) assms(4) by (simp add: word_le_nat_alt)
  then have "WriteFrame None w ?f 1048576 = Inr (w @ frame_bytes ?f)" for w
    using f(1) by (intro written_frame_read(1)) (auto simp: wire_def)
  moreover have "FrameFor ch perf payload = Inr ?f" using assms(1) by (simp add: said_def FrameFor_def wire_def)
  ultimately show ?thesis using assms(2,3) by (simp add: client_sendPayload_def said_out_def frame_out_def)
qed

lemma client_hears:
  assumes "said perf b" "cl_max c = 1048576" "length b + length payload \<le> 1000000"
    and "nc_in (cl_conn c) = frame_out ch (b @ payload) @ rest"
  shows "\<exists>f. receiveFrame c = (Inr (f, heard perf, length b), left_in rest c) \<and> f_Body f = b @ payload"
    "receive c = (Inr (heard perf), left_in rest c)"
proof -
  have "8 + length (b @ payload) < 2 ^ 32" "8 + length (b @ payload) \<le> unat (1048576 :: 32 word)" using assms(3) by simp_all
  from wire_read [OF this(1) disjI2 [OF this(2)], of FrameTypeAMQP ch rest] obtain f where
    f: "ReadFrame (frame_bytes (wire ch FrameTypeAMQP (b @ payload)) @ rest) 1048576 = Inr (f, rest)" "f_Body f = b @ payload" by auto
  then show "\<exists>f. receiveFrame c = (Inr (f, heard perf, length b), left_in rest c) \<and> f_Body f = b @ payload"
    using assms(2,4) said_heard [OF assms(1)] by (simp add: receiveFrame_def frame_out_def left_in_def Let_def)
  then show "receive c = (Inr (heard perf), left_in rest c)" by (auto simp: receive_def)
qed

lemma client_flow_simps [simp]:
  "andThen (None, c) g = g c" "onReply (Inr x, c) h = h x c"
  by (simp_all add: andThen_def onReply_def)

section \<open>What is said on a connection\<close>

lemmas perf_defs = Validate_def min_fields_def descriptor_defs Perf_String_def Field_def

lemma client_said:
  "\<exists>b. said client_open b \<and> length b \<le> 50"
  "\<exists>b. said begin_perf b \<and> length b \<le> 50"
  "\<exists>b. said (bare DescriptorEnd) b \<and> length b \<le> 50"
  "\<exists>b. said (bare DescriptorClose) b \<and> length b \<le> 50"
  "\<exists>b. said (client_transfer 1) b \<and> length b \<le> 50"
  "\<exists>b. said client_flow b \<and> length b \<le> 50"
  by (rule plain_saidI; simp add: client_open_def begin_perf_def bare_def client_transfer_def client_flow_def perf_defs trimNulls_def widths_def dec.simps [of "Suc 0"])+

lemma address_said:
  assumes "length address \<le> 200"
  shows "\<exists>b. said (sender_attach 1 address) b \<and> length b \<le> 300" "\<exists>b. said (attach_reply (heard (sender_attach 1 address))) b \<and> length b \<le> 300"
  using assms
  by (intro plain_saidI; simp add: sender_attach_def attach_reply_def heard_def perf_defs trimNulls_def widths_def dec.simps [of "Suc 0"])+

lemma server_said:
  "\<exists>b. said (open_reply c) b \<and> length b \<le> 60"
  "\<exists>b. said (begin_reply ch) b \<and> length b \<le> 60"
  "\<exists>b. said (accepted_reply did) b \<and> length b \<le> 64"
proof -
  show "\<exists>b. said (open_reply c) b \<and> length b \<le> 60" "\<exists>b. said (begin_reply ch) b \<and> length b \<le> 60"
    by (rule plain_saidI; simp add: open_reply_def begin_reply_def perf_defs trimNulls_def widths_def dec.simps [of "Suc 0"])+
  show "\<exists>b. said (accepted_reply did) b \<and> length b \<le> 64"
    using accepted_encodes [of did] by (auto simp: said_def accepted_reply_def perf_defs trimNulls_def)
qed

lemma heard_perfs:
  "heard client_open = client_open" "heard begin_perf = begin_perf" "heard (bare d) = bare d" "heard (client_transfer 1) = client_transfer 1"
  "heard (sender_attach ch a) = sender_attach ch a" "heard client_flow = client_flow"
  "p_Descriptor (heard p) = p_Descriptor p"
  by (simp_all add: heard_def client_open_def begin_perf_def bare_def client_transfer_def sender_attach_def client_flow_def trimNulls_def)

section \<open>The server's side\<close>

text \<open>What \<open>process\<close> does once the performative is decoded.\<close>

definition react :: "'l BodyLog \<Rightarrow> env \<Rightarrow> 16 word \<Rightarrow> Performative \<Rightarrow> byte list \<Rightarrow> 'l peer \<Rightarrow> error option \<times> 'l peer" where
  "react bl en channel perf payload p =
    (let d = p_Descriptor perf in
     if d = DescriptorOpen then onOpen perf p
     else if d = DescriptorBegin then onBegin en channel p
     else if d = DescriptorAttach then onAttach en channel perf p
     else if d = DescriptorFlow then onFlow bl en channel perf p
     else if d = DescriptorTransfer then onTransfer bl en channel perf payload p
     else if d = DescriptorDisposition then onDisposition en perf p
     else if d = DescriptorDetach then onDetach en channel perf p
     else if d = DescriptorEnd then onEnd en channel p
     else if d = DescriptorClose then onClose p
     else (Some (Errorf ''performative %s not valid in connection state'' [Perf_Name perf]), p))"

lemma process_react: "DecodePerformative (f_Body f) = Inr (perf, n) \<Longrightarrow>
    process bl en f p = react bl en (f_Channel f) perf (drop n (f_Body f)) p"
  by (simp add: process_def react_def Let_def)

definition at_work :: "env \<Rightarrow> byte list \<Rightarrow> 'l peer \<Rightarrow> 'l peer" where
  "at_work en rest p = set_conn (Touch (pe_connection p) (e_now en)) (set_in rest p)"

text \<open>One round of the frame loop, on a frame that carries \<open>perf\<close>.\<close>

lemma serve_hears:
  assumes "said perf b" "nc_in (pe_net p) = frame_out ch (b @ payload) @ rest"
    and "8 + length b + length payload \<le> unat (c_MaxFrame (pe_connection p))"
    and "react bl (envs i) ch (heard perf) payload (at_work (envs i) rest p) = (None, q)"
  shows "serve bl envs i p = (if c_State (pe_connection q) = StateClosed then (None, q) else serve bl envs (Suc i) q)"
proof -
  have "unat (c_MaxFrame (pe_connection p)) < 2 ^ 32" using unsigned_less [of "c_MaxFrame (pe_connection p)"] by simp
  then have "8 + length (b @ payload) < 2 ^ 32" "8 + length (b @ payload) \<le> unat (c_MaxFrame (pe_connection p))" using assms(3) by simp_all
  from wire_read [OF this(1) disjI2 [OF this(2)], of FrameTypeAMQP ch rest] obtain f where
    f: "ReadFrame (nc_in (pe_net p)) (c_MaxFrame (pe_connection p)) = Inr (f, rest)" "f_Channel f = ch" "f_Body f = b @ payload"
    using assms(2) by (auto simp: frame_out_def)
  have "process bl (envs i) f (at_work (envs i) rest p) = (None, q)"
    using process_react [of f "heard perf" "length b" bl "envs i"] said_heard [OF assms(1), of payload] f(2,3) assms(4) by simp
  then show ?thesis by (subst serve.simps) (simp add: f(1) at_work_def)
qed

text \<open>The server writes its reply.\<close>

lemma server_says:
  assumes "said perf b" "nc_werr (pe_net p) = None" "8 + length b \<le> unat (c_MaxFrame (pe_connection p))"
  shows "peer_write ch FrameTypeAMQP perf [] p = (None, put_out (frame_out ch b) p)"
proof -
  have "unat (c_MaxFrame (pe_connection p)) < 2 ^ 32" using unsigned_less [of "c_MaxFrame (pe_connection p)"] by simp
  then have "fits p (length b + length ([] :: byte list))" using assms(2,3) by (simp add: fits_def)
  from peer_write_ok [OF _ this, of perf FrameTypeAMQP ch] assms(1) show ?thesis by (simp add: said_def put_out_def frame_out_def)
qed

text \<open>What the handlers look at, as one value.\<close>

record 'l view =
  vi_in :: "byte list"
  vi_out :: "byte list"
  vi_werr :: "error option"
  vi_max :: "32 word"
  vi_state :: conn_State
  vi_cid :: string
  vi_cs :: "(16 word, string) gomap"
  vi_si :: "(16 word, string) gomap"
  vi_li :: "(string, string) gomap"
  vi_S :: session_Registry
  vi_L :: link_Registry
  vi_d :: "'l Service"

definition view_of :: "'l peer \<Rightarrow> 'l view" where
  "view_of p = \<lparr>vi_in = nc_in (pe_net p), vi_out = nc_out (pe_net p), vi_werr = nc_werr (pe_net p), vi_max = c_MaxFrame (pe_connection p),
     vi_state = c_State (pe_connection p), vi_cid = c_ID (pe_connection p), vi_cs = c_Sessions (pe_connection p),
     vi_si = pe_sessionIDs p, vi_li = pe_linkIDs p, vi_S = peer_sessions p, vi_L = peer_links p, vi_d = peer_delivery p\<rparr>"

lemma view_sel:
  "nc_in (pe_net p) = vi_in (view_of p)" "nc_out (pe_net p) = vi_out (view_of p)" "nc_werr (pe_net p) = vi_werr (view_of p)"
  "c_MaxFrame (pe_connection p) = vi_max (view_of p)" "c_State (pe_connection p) = vi_state (view_of p)"
  "c_ID (pe_connection p) = vi_cid (view_of p)" "c_Sessions (pe_connection p) = vi_cs (view_of p)" "pe_sessionIDs p = vi_si (view_of p)"
  "pe_linkIDs p = vi_li (view_of p)" "peer_sessions p = vi_S (view_of p)" "peer_links p = vi_L (view_of p)" "peer_delivery p = vi_d (view_of p)"
  by (simp_all add: view_of_def)

lemma view_updates [simp]:
  "view_of (put_out b p) = (view_of p)\<lparr>vi_out := vi_out (view_of p) @ b\<rparr>"
  "view_of (at_work en rest p) = (view_of p)\<lparr>vi_in := rest\<rparr>"
  "view_of (set_conn c p) = (view_of p)\<lparr>vi_max := c_MaxFrame c, vi_state := c_State c, vi_cid := c_ID c, vi_cs := c_Sessions c\<rparr>"
  "view_of (set_sessions r p) = (view_of p)\<lparr>vi_S := r\<rparr>" "view_of (set_links l p) = (view_of p)\<lparr>vi_L := l\<rparr>"
  "view_of (set_delivery d p) = (view_of p)\<lparr>vi_d := d\<rparr>"
  "view_of (p\<lparr>pe_sessionIDs := si\<rparr>) = (view_of p)\<lparr>vi_si := si\<rparr>" "view_of (p\<lparr>pe_linkIDs := li\<rparr>) = (view_of p)\<lparr>vi_li := li\<rparr>"
  by (simp_all add: view_of_def put_out_def at_work_def set_in_def Touch_def set_delivery_def)

lemma open_step:
  assumes "vi_werr (view_of p) = None" "vi_state (view_of p) = StateHeader" "512 \<le> unat (vi_max (view_of p))"
  obtains q perf b where "react bl en 0 client_open [] p = (None, q)" "said perf b" "length b \<le> 60"
    "view_of q = (view_of p)\<lparr>vi_state := StateOpen,
       vi_max := (if 1048576 < vi_max (view_of p) then 1048576 else vi_max (view_of p)), vi_out := vi_out (view_of p) @ frame_out 0 b\<rparr>"
proof -
  let ?mx = "if 1048576 < vi_max (view_of p) then 1048576 else vi_max (view_of p)"
  let ?p1 = "set_conn ((pe_connection p)\<lparr>c_ContainerID := ''amqp-sim''\<rparr>) p"
  let ?p2 = "if 1048576 < vi_max (view_of p) then set_conn ((pe_connection ?p1)\<lparr>c_MaxFrame := 1048576\<rparr>) ?p1 else ?p1"
  let ?c = "(pe_connection ?p2)\<lparr>c_State := StateOpen\<rparr>"
  obtain b where b: "said (open_reply ?c) b" "length b \<le> 60" using server_said(1) by blast
  have f: "Perf_String client_open 0 = ''amqp-sim''" "Perf_Uint client_open 2 = 1048576" "p_Descriptor client_open = DescriptorOpen"
    by (simp_all add: client_open_def Perf_String_def Perf_Uint_def Field_def)
  have t: "peer_transition StateOpen ?p2 = (None, set_conn ?c ?p2)"
    using assms(2) by (auto simp: peer_transition_def Transition_def valid_transition_def view_sel)
  have "react bl en 0 client_open [] p = peer_write 0 FrameTypeAMQP (open_reply ?c) [] (set_conn ?c ?p2)"
    using assms(2) t f by (simp add: react_def onOpen_def Let_def view_sel)
  also have "\<dots> = (None, put_out (frame_out 0 b) (set_conn ?c ?p2))"
    using assms(1,3) b by (intro server_says [OF b(1)]) (auto simp: view_of_def)
  finally show ?thesis by (rule that [OF _ b]) (auto simp: view_of_def put_out_def)
qed

lemma begin_step:
  assumes "vi_werr (view_of p) = None" "vi_state (view_of p) = StateOpen" "512 \<le> unat (vi_max (view_of p))"
    and "peer_randomID ''ssn'' (e_rnd en) = Inr sid" "get (sr_channels (vi_S (view_of p))) (session_key (vi_cid (view_of p)) ch) = None"
    and "get (vi_cs (view_of p)) ch = None"
  obtains q b r s where "react bl en ch begin_perf [] p = (None, q)" "said (begin_reply ch) b" "length b \<le> 60"
    "view_of q = (view_of p)\<lparr>vi_S := r, vi_cs := put ch sid (vi_cs (view_of p)), vi_si := put ch sid (vi_si (view_of p)),
       vi_out := vi_out (view_of p) @ frame_out ch b\<rparr>"
    "session_Get r sid = Some s" "s_ID s = sid" "s_State s = StateMapped" "s_Links s = []" "s_IncomingWindow s = 2048"
proof -
  let ?s = "(New_Session sid (vi_cid (view_of p)) ch ch (e_now en))\<lparr>s_State := StateMapped\<rparr>"
  obtain r where r: "session_Add ?s (vi_S (view_of p)) = Inr r" "session_Get r sid = Some ?s"
    using assms(5) by (auto simp: session_Add_def New_Session_def session_Get_def get_put)
  let ?c = "(pe_connection p)\<lparr>c_Sessions := put ch sid (vi_cs (view_of p))\<rparr>"
  let ?q = "(set_conn ?c (set_sessions r p))\<lparr>pe_sessionIDs := put ch sid (pe_sessionIDs p)\<rparr>"
  obtain b where b: "said (begin_reply ch) b" "length b \<le> 60" using server_said(2) by blast
  have "react bl en ch begin_perf [] p = peer_write ch FrameTypeAMQP (begin_reply ch) [] ?q"
    using assms(2,4,6) r(1)
    by (simp add: react_def begin_perf_def descriptor_defs onBegin_def Session_Begin_def New_Session_def AddSession_def Let_def view_sel)
  also have "\<dots> = (None, put_out (frame_out ch b) ?q)"
    using assms(1,3) b by (intro server_says [OF b(1)]) (simp_all add: view_sel)
  finally show ?thesis by (rule that [OF _ b _ r(2)]) (simp_all add: New_Session_def view_sel)
qed

lemma randomID_nonempty: "peer_randomID pre rnd = Inr x \<Longrightarrow> pre \<noteq> '''' \<Longrightarrow> x \<noteq> ''''"
  by (auto simp: peer_randomID_def random_id_def split: option.splits)

lemma attach_step:
  assumes "vi_werr (view_of p) = None" "512 \<le> unat (vi_max (view_of p))" "length address \<le> 200" "address \<noteq> ''''"
    and "get (vi_si (view_of p)) 1 = Some sid" "session_Get (vi_S (view_of p)) sid = Some s" "s_ID s = sid" "sid \<noteq> ''''"
    and "s_State s = StateMapped" "s_Links s = []"
    and "peer_randomID ''lnk'' (e_rnd en) = Inr lid" "get (lr_handles (vi_L (view_of p))) (handleKey sid 0) = None"
  obtains q b r l where "react bl en 1 (sender_attach 1 address) [] p = (None, q)"
    "said (attach_reply (sender_attach 1 address)) b" "length b \<le> 300"
    "view_of q = (view_of p)\<lparr>vi_L := r, vi_S := session_Set (s\<lparr>s_Links := [(0, lid)]\<rparr>) (vi_S (view_of p)),
       vi_li := put (link_slot 1 0) lid (vi_li (view_of p)), vi_out := vi_out (view_of p) @ frame_out 1 b\<rparr>"
    "link_Get r lid = Some l" "l_State l = StateAttached" "l_Role l = RoleReceiver" "l_Address l = address" "l_MaxMessageSize l = 16777216"
proof -
  let ?perf = "sender_attach 1 address" and ?name = "''sender-'' @ dec (unat (1 :: 16 word))"
  have f: "Perf_Uint ?perf 1 = 0" "\<not> Perf_Bool ?perf 2" "attach_address ?perf = address" "Perf_String ?perf 0 = ?name"
    "p_Descriptor ?perf = DescriptorAttach"
    by (simp_all add: sender_attach_def attach_address_def Perf_String_def Perf_Uint_def Perf_Bool_def Field_def)
  obtain l where l: "tryE (New_Link lid sid ?name address 0 RoleReceiver (e_now en)) Link_Attach = Inr l" "l_ID l = lid" "l_SessionID l = sid"
    "l_Handle l = 0" "l_State l = StateAttached" "l_Role l = RoleReceiver" "l_Address l = address" "l_MaxMessageSize l = 16777216"
    using assms(4,8) randomID_nonempty [OF assms(11)] by (simp add: New_Link_def Link_Attach_def)
  obtain r where r: "link_Add l (vi_L (view_of p)) = Inr r" "link_Get r lid = Some l"
    using assms(12) l(2-4) by (auto simp: link_Add_def link_Get_def get_put)
  let ?s = "s\<lparr>s_Links := [(0, lid)]\<rparr>"
  let ?q = "(set_sessions (session_Set ?s (peer_sessions p)) (set_links r p))\<lparr>pe_linkIDs := put (link_slot 1 0) lid (pe_linkIDs p)\<rparr>"
  obtain b where b: "said (attach_reply ?perf) b" "length b \<le> 300" using address_said(2) [OF assms(3)] by (auto simp: heard_perfs)
  have "Session_Attach s 0 lid = Inr ?s" using assms(9,10) by (simp add: Session_Attach_def)
  then have "react bl en 1 ?perf [] p = peer_write 1 FrameTypeAMQP (attach_reply ?perf) [] ?q"
    using assms(4-6,11) l(1) r(1) f
    by (simp add: react_def onAttach_def Let_def view_sel) (simp add: descriptor_defs)
  also have "\<dots> = (None, put_out (frame_out 1 b) ?q)"
    using assms(1,2) b by (intro server_says [OF b(1)]) (simp_all add: view_sel)
  finally show ?thesis by (rule that [OF _ b _ r(2) l(5-8)]) (simp add: view_sel)
qed

lemma transfer_step:
  fixes p :: "FileLog peer"
  assumes "vi_werr (view_of p) = None" "512 \<le> unat (vi_max (view_of p))"
    and "get (vi_si (view_of p)) 1 = Some sid" "session_Get (vi_S (view_of p)) sid = Some s" "s_ID s = sid" "s_IncomingWindow s \<noteq> 0"
    and "get (vi_li (view_of p)) (link_slot 1 0) = Some lid" "link_Get (vi_L (view_of p)) lid = Some l"
    and "l_State l = StateAttached" "l_Role l = RoleReceiver" "l_MaxMessageSize l = 16777216"
    and "body \<noteq> []" "length body \<le> 1000000" "e_ctx en = None" "valid_ranges (e_ranges en 0)"
    and "topology_ok (sv_mem (vi_d (view_of p)))" "fl_inv (sv_log (vi_d (view_of p)))"
    and "address_view (sv_mem (vi_d (view_of p))) (l_Address l) = Some a" "\<not> ad_Paused a"
    and "Resolve (e_ranges en 0) None (l_Address l) '''' [] (sv_mem (vi_d (view_of p))) = Inr routes" "routes \<noteq> []"
    and "fresh_ids (e_rnds en) 0 (length routes) (sv_mem (vi_d (view_of p)))"
  obtains q b d L s' and nw :: "Message list" where "react file_log_ops en 1 (client_transfer 1) (EncodeDataSection body) p = (None, q)"
    "said (accepted_reply 1) b" "length b \<le> 64" "s_ID s' = sid"
    "view_of q = (view_of p)\<lparr>vi_d := d, vi_L := L, vi_S := session_Set s' (vi_S (view_of p)), vi_out := vi_out (view_of p) @ frame_out 1 b\<rparr>"
    "copies_stored routes body (vi_d (view_of p)) d nw"
proof -
  let ?perf = "client_transfer 1"
  have f: "Perf_Uint ?perf 0 = 0" "Perf_Uint ?perf 1 = 1" "\<not> Perf_Bool ?perf 4"
    by (simp_all add: client_transfer_def Perf_Uint_def Perf_Bool_def Field_def)
  have dec: "DecodeDataSection (EncodeDataSection body) = Inr body" using assms(13) by (intro DataSection_roundtrip) simp
  from transfer_accepted [of p 1 sid s ?perf lid l body "EncodeDataSection body" en a routes] assms f dec
  obtain s' l' d nw where r: "ConsumeIncoming s = Inr s'" "onTransfer file_log_ops en 1 ?perf (EncodeDataSection body) p =
      peer_write 1 FrameTypeAMQP (accepted_reply 1) []
        (set_delivery d (set_links (link_Set l' (peer_links p)) (set_sessions (session_Set s' (peer_sessions p)) p)))"
    "copies_stored routes body (vi_d (view_of p)) d nw"
    by (auto simp: view_sel Let_def)
  have s': "s_ID s' = sid" using r(1) assms(5) by (auto simp: ConsumeIncoming_def split: if_splits)
  let ?q = "set_delivery d (set_links (link_Set l' (peer_links p)) (set_sessions (session_Set s' (peer_sessions p)) p))"
  obtain b where b: "said (accepted_reply 1) b" "length b \<le> 64" using server_said(3) by blast
  have "react file_log_ops en 1 ?perf (EncodeDataSection body) p = peer_write 1 FrameTypeAMQP (accepted_reply 1) [] ?q"
    using r(2) by (simp add: react_def client_transfer_def descriptor_defs)
  also have "\<dots> = (None, put_out (frame_out 1 b) ?q)"
    using assms(1,2) b by (intro server_says [OF b(1)]) (simp_all add: view_sel)
  finally show ?thesis by (rule that [OF _ b s' _ r(3), where L = "link_Set l' (vi_L (view_of p))"]) (simp add: view_sel)
qed

lemma end_step:
  assumes "vi_werr (view_of p) = None" "512 \<le> unat (vi_max (view_of p))"
    and "get (vi_si (view_of p)) ch = Some sid" "session_Get (vi_S (view_of p)) sid = Some s"
  obtains q b where "react bl en ch (bare DescriptorEnd) [] p = (None, q)" "said (bare DescriptorEnd) b" "length b \<le> 50"
    "vi_out (view_of q) = vi_out (view_of p) @ frame_out ch b" "vi_d (view_of q) = vi_d (view_of p)" "vi_in (view_of q) = vi_in (view_of p)"
    "vi_werr (view_of q) = None" "vi_max (view_of q) = vi_max (view_of p)" "vi_state (view_of q) = vi_state (view_of p)"
proof -
  let ?p1 = "case Session_End s of Inl _ \<Rightarrow> p | Inr s \<Rightarrow> set_sessions (session_Set s (peer_sessions p)) p"
  let ?p2 = "set_links (link_RemoveSession (e_links en) sid (peer_links ?p1)) ?p1"
  let ?p3 = "set_sessions (session_Remove sid (peer_sessions ?p2)) ?p2"
  let ?p4 = "(set_conn (RemoveSession (pe_connection ?p3) ch) ?p3)"
  let ?q = "?p4\<lparr>pe_sessionIDs := del ch (pe_sessionIDs ?p4)\<rparr>"
  obtain b where b: "said (bare DescriptorEnd) b" "length b \<le> 50" using client_said(3) by blast
  have v: "view_of ?p1 = (view_of p)\<lparr>vi_S := vi_S (view_of ?p1)\<rparr>" by (simp add: view_of_def split: sum.split)
  have vq: "vi_werr (view_of ?q) = vi_werr (view_of p)" "vi_max (view_of ?q) = vi_max (view_of p)" "vi_out (view_of ?q) = vi_out (view_of p)"
    "vi_d (view_of ?q) = vi_d (view_of p)" "vi_in (view_of ?q) = vi_in (view_of p)" "vi_state (view_of ?q) = vi_state (view_of p)"
    by (simp_all add: view_of_def RemoveSession_def split: sum.split)
  have "react bl en ch (bare DescriptorEnd) [] p = peer_write ch FrameTypeAMQP (bare DescriptorEnd) [] ?q"
    using assms(3,4) by (simp add: react_def bare_def descriptor_defs onEnd_def Let_def view_sel)
  also have "\<dots> = (None, put_out (frame_out ch b) ?q)"
    using assms(1,2) b vq by (intro server_says [OF b(1)]) (simp_all only: view_sel)
  finally show ?thesis by (rule that [OF _ b]) (use vq assms(1) in \<open>simp_all only: view_updates\<close>, simp_all)
qed

lemma close_step:
  assumes "vi_werr (view_of p) = None" "512 \<le> unat (vi_max (view_of p))" "vi_state (view_of p) = StateOpen"
  obtains q b where "react bl en 0 (bare DescriptorClose) [] p = (None, q)" "said (bare DescriptorClose) b" "length b \<le> 50"
    "view_of q = (view_of p)\<lparr>vi_state := StateClosed, vi_out := vi_out (view_of p) @ frame_out 0 b\<rparr>"
proof -
  let ?p1 = "set_conn ((pe_connection p)\<lparr>c_State := StateClosing\<rparr>) p"
  obtain b where b: "said (bare DescriptorClose) b" "length b \<le> 50" using client_said(4) by blast
  have t: "peer_transition StateClosing p = (None, ?p1)"
    using assms(3) by (simp add: peer_transition_def Transition_def valid_transition_def view_sel)
  have w: "peer_write 0 FrameTypeAMQP (bare DescriptorClose) [] ?p1 = (None, put_out (frame_out 0 b) ?p1)"
    using assms(1,2) b by (intro server_says [OF b(1)]) (simp_all add: view_sel)
  let ?p2 = "put_out (frame_out 0 b) ?p1"
  have "peer_transition StateClosed ?p2 = (None, set_conn ((pe_connection ?p2)\<lparr>c_State := StateClosed\<rparr>) ?p2)"
    by (simp add: peer_transition_def Transition_def valid_transition_def)
  then have "react bl en 0 (bare DescriptorClose) [] p = (None, set_conn ((pe_connection ?p2)\<lparr>c_State := StateClosed\<rparr>) ?p2)"
    using t w by (simp add: react_def bare_def descriptor_defs onClose_def Let_def)
  then show ?thesis by (rule that [OF _ b]) (simp add: view_sel)
qed

lemma handshake_step:
  assumes "vi_werr (view_of p) = None" "vi_state (view_of p) = StateStart" "vi_in (view_of p) = AMQPHeader @ rest"
  obtains q where "handshake ctx p = (None, q)"
    "view_of q = (view_of p)\<lparr>vi_in := rest, vi_out := vi_out (view_of p) @ AMQPHeader, vi_state := StateHeader\<rparr>"
proof -
  let ?p1 = "put_out AMQPHeader (set_in rest p)"
  have "ReadFull 8 (nc_in (pe_net p)) = Inr (AMQPHeader, rest)" "ValidateProtocolHeader AMQPHeader = Inr 0"
    using assms(3) by (simp_all add: view_sel ReadFull_prefix header_lengths protocol_headers)
  moreover have "net_write AMQPHeader (set_in rest p) = (None, ?p1)"
    using assms(1) by (simp add: net_write_def put_out_def set_in_def view_of_def)
  moreover have "peer_transition StateHeader ?p1 = (None, set_conn ((pe_connection ?p1)\<lparr>c_State := StateHeader\<rparr>) ?p1)"
    using assms(2) by (simp add: peer_transition_def Transition_def valid_transition_def view_of_def)
  ultimately have "handshake ctx p = (None, set_conn ((pe_connection ?p1)\<lparr>c_State := StateHeader\<rparr>) ?p1)"
    by (simp add: handshake_def Let_def)
  then show ?thesis by (rule that) (simp add: view_of_def put_out_def set_in_def)
qed

section \<open>A whole connection\<close>

text \<open>The conditions under which a server takes a message from a new client on one session.\<close>

definition admits :: "(nat \<Rightarrow> env) \<Rightarrow> FileLog Server \<Rightarrow> string \<Rightarrow> string \<Rightarrow> Route list \<Rightarrow> bool" where
  "admits envs sv address body routes \<longleftrightarrow>
    (\<exists>cid sid lid a. peer_randomID ''conn'' (e_rnd (envs 0)) = Inr cid \<and> peer_randomID ''ssn'' (e_rnd (envs 2)) = Inr sid \<and>
       peer_randomID ''lnk'' (e_rnd (envs 3)) = Inr lid \<and> conn_Get (sr_Connections sv) cid = None \<and>
       int (conn_Count (sr_Connections sv)) < cr_max (sr_Connections sv) \<and>
       get (sr_channels (sr_Sessions sv)) (session_key cid 1) = None \<and> get (lr_handles (sr_Links sv)) (handleKey sid 0) = None \<and>
       address_view (sv_mem (sr_Delivery sv)) address = Some a \<and> \<not> ad_Paused a) \<and>
    512 \<le> unat (sr_MaxFrame sv) \<and> address \<noteq> '''' \<and> length address \<le> 200 \<and> 100 + length body \<le> min (unat (sr_MaxFrame sv)) 1000000 \<and>
    e_ctx (envs 4) = None \<and> valid_ranges (e_ranges (envs 4) 0) \<and> topology_ok (sv_mem (sr_Delivery sv)) \<and> fl_inv (sv_log (sr_Delivery sv)) \<and>
    Resolve (e_ranges (envs 4) 0) None address '''' [] (sv_mem (sr_Delivery sv)) = Inr routes \<and> routes \<noteq> [] \<and>
    fresh_ids (e_rnds (envs 4)) 0 (length routes) (sv_mem (sr_Delivery sv))"

text \<open>The streams of the two sides: a header, then frames on channels 0 and 1.\<close>

definition stream :: "byte list list \<Rightarrow> byte list" where
  "stream fs = AMQPHeader @ concat (map2 (\<lambda>ch b. frame_out ch b) [0, 1, 1, 1, 1, 0] fs)"

lemma stream_six: "stream [a, b, c, d, e, f] =
    AMQPHeader @ frame_out 0 a @ frame_out 1 b @ frame_out 1 c @ frame_out 1 d @ frame_out 1 e @ frame_out 0 f"
  by (simp add: stream_def)

text \<open>The client says something and hears the reply.\<close>

lemma exchange:
  assumes "said perf b" "length b + length payload \<le> 1000000" "said reply r" "length r \<le> 1000000" "nc_werr (cl_conn c) = None" "cl_max c = 1048576"
    and "nc_in (cl_conn c) = frame_out ch' r @ rest"
  shows "andThen (client_sendPayload ch perf payload c) (\<lambda>c. onReply (receive c) g) =
    g (heard reply) (left_in rest (said_out (frame_out ch (b @ payload)) c))"
proof -
  let ?c = "said_out (frame_out ch (b @ payload)) c"
  have "receive ?c = (Inr (heard reply), left_in rest ?c)"
    using client_hears(2) [OF assms(3), of ?c "[]" ch' rest] assms(4,6,7) by simp
  then show ?thesis using client_sends [OF assms(1,5,6,2)] by simp
qed

text \<open>The client up to the open performative and its answer.\<close>

lemma client_opened:
  assumes "said client_open b" "length b \<le> 50" "said p1 r" "length r \<le> 60"
  shows "client_run (Inr \<lparr>nc_in = AMQPHeader @ frame_out 0 r @ rest, nc_out = [], nc_werr = None, nc_remote = remote\<rparr>) address body mode n =
    (let c = left_in rest (said_out (frame_out 0 b) (left_in (frame_out 0 r @ rest) (said_out AMQPHeader
           \<lparr>cl_conn = \<lparr>nc_in = AMQPHeader @ frame_out 0 r @ rest, nc_out = [], nc_werr = None, nc_remote = remote\<rparr>, cl_max = 1048576, cl_printed = []\<rparr>))) in
     map_prod id Some (if mode = ''consume'' then client_consume address c
       else andThen (publish_sessions 0 (nat n) address body c) (\<lambda>c.
         andThen (client_send 0 (bare DescriptorClose) c) (\<lambda>c. onReply (receive c) (\<lambda>_ c. (None, c))))))"
proof -
  define c0 where "c0 = \<lparr>cl_conn = \<lparr>nc_in = AMQPHeader @ frame_out 0 r @ rest, nc_out = [], nc_werr = None, nc_remote = remote\<rparr>, cl_max = 1048576, cl_printed = []\<rparr>"
  define c1 where "c1 = left_in (frame_out 0 r @ rest) (said_out AMQPHeader c0)"
  have greet: "client_write AMQPHeader c0 = (None, said_out AMQPHeader c0)" "client_header (said_out AMQPHeader c0) = (None, c1)"
    by (simp_all add: client_write_def client_header_def c0_def c1_def said_out_def left_in_def ReadFull_prefix header_lengths protocol_headers)
  have opened: "andThen (client_send 0 client_open c1) (\<lambda>c. onReply (receive c) g) = g (heard p1) (left_in rest (said_out (frame_out 0 b) c1))" for g
    using exchange [OF assms(1) _ assms(3), of "[]" c1 0 rest] assms(2,4) by (simp add: client_send_def c0_def c1_def)
  show ?thesis
    using opened greet unfolding c0_def [symmetric] c1_def [symmetric] by (simp add: client_run_def Let_def c0_def [symmetric])
qed

lemma client_session:
  assumes "said p1 r1" "length r1 \<le> 60" "said (begin_reply 1) r2" "length r2 \<le> 60" "said p3 r3" "length r3 \<le> 300"
    and "said (accepted_reply 1) r4" "length r4 \<le> 64" "said p5 r5" "length r5 \<le> 50" "said p6 r6" "length r6 \<le> 50"
    and "length address \<le> 200" "length body \<le> 999898"
    and "said client_open b1" "length b1 \<le> 50" "said begin_perf b2" "length b2 \<le> 50" "said (sender_attach 1 address) b3" "length b3 \<le> 300"
    and "said (client_transfer 1) b4" "length b4 \<le> 50" "said (bare DescriptorEnd) b5" "length b5 \<le> 50" "said (bare DescriptorClose) b6" "length b6 \<le> 50"
  shows "\<exists>c. client_run (Inr \<lparr>nc_in = stream [r1, r2, r3, r4, r5, r6], nc_out = [], nc_werr = None, nc_remote = remote\<rparr>) address body ''publish'' 1 =
      (None, Some c) \<and> cl_printed c = [[''published'', ''1'', address, body @ ''-1'', ''disposition'']] \<and>
    nc_out (cl_conn c) = stream [b1, b2, b3, b4 @ EncodeDataSection (bytes_of_string (body @ ''-1'')), b5, b6]"
proof -
  let ?payload = "EncodeDataSection (bytes_of_string (body @ ''-1''))"
  have one: "word_of_nat (0 + 1) = (1 :: 16 word)" "dec (0 + 1) = ''1''" "dec (unat (1 :: 16 word)) = ''1''" by (simp, code_simp+)
  have pay: "length ?payload \<le> 999910" using encodeBytes_length [of "0xa0" "0xb0" "bytes_of_string (body @ ''-1'')"] assms(14)
    by (simp add: EncodeDataSection_def)
  let ?in = "\<lambda>n. concat (drop n [AMQPHeader, frame_out 0 r1, frame_out 1 r2, frame_out 1 r3, frame_out 1 r4, frame_out 1 r5, frame_out 0 r6])"
  define c0 where "c0 = \<lparr>cl_conn = \<lparr>nc_in = ?in 0, nc_out = [], nc_werr = None, nc_remote = remote\<rparr>, cl_max = 1048576, cl_printed = []\<rparr>"
  define c1 where "c1 = left_in (?in 1) (said_out AMQPHeader c0)"
  define c2 where "c2 = left_in (?in 2) (said_out (frame_out 0 b1) c1)"
  define c3 where "c3 = left_in (?in 3) (said_out (frame_out 1 b2) c2)"
  define c4 where "c4 = left_in (?in 4) (said_out (frame_out 1 b3) c3)"
  define c5 where "c5 = left_in (?in 5) (said_out (frame_out 1 (b4 @ ?payload)) c4)"
  define c6 where "c6 = printLine [''published'', ''1'', address, body @ ''-1'', ''disposition''] c5"
  define c7 where "c7 = left_in (?in 6) (said_out (frame_out 1 b5) c6)"
  define c8 where "c8 = left_in (?in 7) (said_out (frame_out 0 b6) c7)"
  note cs = c0_def c1_def c2_def c3_def c4_def c5_def c6_def c7_def c8_def
  have reply: "Perf_Name (heard (accepted_reply 1)) = ''disposition''" "p_Descriptor (heard (accepted_reply 1)) = DescriptorDisposition"
    "p_Descriptor (heard (begin_reply 1)) = DescriptorBegin"
    by (simp_all add: heard_perfs accepted_reply_def begin_reply_def Perf_Name_def Names_def descriptor_defs)
  have opened: "client_run (Inr (cl_conn c0)) address body ''publish'' 1 = map_prod id Some (
      andThen (publish_sessions 0 1 address body c2) (\<lambda>c. andThen (client_send 0 (bare DescriptorClose) c) (\<lambda>c. onReply (receive c) (\<lambda>_ c. (None, c)))))"
    using client_opened [OF assms(15,16,1,2), of "?in 2" remote address body "''publish''" 1] by (simp add: cs)
  have begun: "client_begin 1 c2 = (None, c3)"
    using exchange [OF assms(17) _ assms(3), of "[]" c2 1 "?in 3"] assms(4,18) reply(3) by (simp add: client_begin_def client_send_def cs)
  have attached: "andThen (client_send 1 (sender_attach 1 address) c3) (\<lambda>c. onReply (receive c) g) = g (heard p3) c4" for g
    using exchange [OF assms(19) _ assms(5), of "[]" c3 1 "?in 4"] assms(6,20) by (simp add: client_send_def cs)
  have sent: "andThen (client_sendPayload 1 (client_transfer 1) ?payload c4) (\<lambda>c. onReply (receive c) g) = g (heard (accepted_reply 1)) c5" for g
    using exchange [OF assms(21) _ assms(7), of ?payload c4 1 "?in 5"] assms(8,22) pay by (simp add: cs)
  have ended: "andThen (client_send 1 (bare DescriptorEnd) c6) (\<lambda>c. onReply (receive c) g) = g (heard p5) c7" for g
    using exchange [OF assms(23) _ assms(9), of "[]" c6 1 "?in 6"] assms(10,24) by (simp add: client_send_def cs)
  have closed: "andThen (client_send 0 (bare DescriptorClose) c7) (\<lambda>c. onReply (receive c) g) = g (heard p6) c8" for g
    using exchange [OF assms(25) _ assms(11), of "[]" c7 0 "?in 7"] assms(12,26) by (simp add: client_send_def cs)
  have pub: "client_publish 1 address (body @ ''-1'') c2 = (None, c7)"
    unfolding client_publish_def begun client_flow_simps attached sent one reply Let_def c6_def [symmetric]
    using ended [of "\<lambda>_ c. (None, c)"] by simp
  have "client_run (Inr (cl_conn c0)) address body ''publish'' 1 = (None, Some c8)"
    using opened closed [of "\<lambda>_ c. (None, c)"] pub one by simp
  moreover have "cl_conn c0 = \<lparr>nc_in = stream [r1, r2, r3, r4, r5, r6], nc_out = [], nc_werr = None, nc_remote = remote\<rparr>"
    by (simp add: c0_def stream_six)
  moreover have "cl_printed c8 = [[''published'', ''1'', address, body @ ''-1'', ''disposition'']]" by (simp add: cs printLine_def)
  moreover have "nc_out (cl_conn c8) = stream [b1, b2, b3, b4 @ ?payload, b5, b6]" by (simp add: cs stream_six)
  ultimately show ?thesis by auto
qed

text \<open>One round of the loop as a step of the view: the frame at the head of the input is handled and the loop goes on.\<close>

lemma round_on:
  assumes "said perf b" "vi_in (view_of p) = frame_out ch (b @ payload) @ rest" "8 + length b + length payload \<le> unat (vi_max (view_of p))"
    and "heard perf = perf'" "react bl (envs i) ch perf' payload (at_work (envs i) rest p) = (None, q)" "vi_state (view_of q) \<noteq> StateClosed"
  shows "serve bl envs i p = serve bl envs (Suc i) q"
  using serve_hears [of perf b p ch payload rest bl envs i q] assms by (simp add: view_sel)

lemma server_opened:
  assumes "vi_in (view_of p) = AMQPHeader @ frame_out 0 b @ rest" "said client_open b" "length b \<le> 50"
    and "vi_out (view_of p) = []" "vi_werr (view_of p) = None" "vi_state (view_of p) = StateStart" "512 \<le> unat (vi_max (view_of p))"
  obtains q perf r where "thenE (handshake ctx p) (serve bl envs 1) = serve bl envs 2 q" "said perf r" "length r \<le> 60"
    "view_of q = (view_of p)\<lparr>vi_in := rest, vi_out := AMQPHeader @ frame_out 0 r, vi_state := StateOpen,
       vi_max := (if 1048576 < vi_max (view_of p) then 1048576 else vi_max (view_of p))\<rparr>"
proof -
  obtain q0 where q0: "handshake ctx p = (None, q0)"
    "view_of q0 = (view_of p)\<lparr>vi_in := frame_out 0 b @ rest, vi_out := AMQPHeader, vi_state := StateHeader\<rparr>"
    using handshake_step [OF assms(5,6,1), of ctx] assms(4) by auto
  let ?w = "at_work (envs 1) rest q0"
  have w: "view_of ?w = (view_of p)\<lparr>vi_in := rest, vi_out := AMQPHeader, vi_state := StateHeader\<rparr>" by (simp add: q0(2))
  have ok: "vi_werr (view_of ?w) = None" "vi_state (view_of ?w) = StateHeader" "512 \<le> unat (vi_max (view_of ?w))"
    using assms(5,7) unfolding w by simp_all
  obtain q perf r where q: "react bl (envs 1) 0 client_open [] ?w = (None, q)" "said perf r" "length r \<le> 60"
    "view_of q = (view_of ?w)\<lparr>vi_state := StateOpen,
       vi_max := (if 1048576 < vi_max (view_of ?w) then 1048576 else vi_max (view_of ?w)), vi_out := vi_out (view_of ?w) @ frame_out 0 r\<rparr>"
    by (rule open_step [OF ok])
  have "serve bl envs 1 q0 = serve bl envs (Suc 1) q"
    by (rule round_on [OF assms(2) _ _ heard_perfs(1), where payload = "[]" and rest = rest]) (use assms(3,7) q in \<open>simp_all add: q0(2)\<close>)
  then have "thenE (handshake ctx p) (serve bl envs 1) = serve bl envs 2 q" using q0(1) by (simp add: numeral_2_eq_2)
  moreover have "view_of q = (view_of p)\<lparr>vi_in := rest, vi_out := AMQPHeader @ frame_out 0 r, vi_state := StateOpen,
      vi_max := (if 1048576 < vi_max (view_of p) then 1048576 else vi_max (view_of p))\<rparr>" unfolding q(4) w by simp
  ultimately show ?thesis by (rule that [OF _ q(2,3)])
qed

text \<open>A session on channel 1.\<close>

lemma server_begun:
  assumes inp: "vi_in (view_of p) = frame_out 1 b @ rest" "said begin_perf b" "length b \<le> 50"
    and p: "vi_werr (view_of p) = None" "vi_state (view_of p) = StateOpen" "512 \<le> unat (vi_max (view_of p))"
      "vi_cs (view_of p) = []" "vi_si (view_of p) = []"
    and ids: "peer_randomID ''ssn'' (e_rnd (envs i)) = Inr sid"
      "get (sr_channels (vi_S (view_of p))) (session_key (vi_cid (view_of p)) 1) = None"
  obtains q r S s where "serve bl envs i p = serve bl envs (Suc i) q" "said (begin_reply 1) r" "length r \<le> 60"
    "view_of q = (view_of p)\<lparr>vi_in := rest, vi_S := S, vi_cs := [(1, sid)], vi_si := [(1, sid)], vi_out := vi_out (view_of p) @ frame_out 1 r\<rparr>"
    "session_Get S sid = Some s" "s_ID s = sid" "s_State s = StateMapped" "s_Links s = []" "s_IncomingWindow s = 2048" "sid \<noteq> ''''"
proof -
  let ?w = "at_work (envs i) rest p"
  have ok: "vi_werr (view_of ?w) = None" "vi_state (view_of ?w) = StateOpen" "512 \<le> unat (vi_max (view_of ?w))"
    "get (sr_channels (vi_S (view_of ?w))) (session_key (vi_cid (view_of ?w)) 1) = None" "get (vi_cs (view_of ?w)) 1 = None"
    using p ids(2) by simp_all
  obtain q r S s where q: "react bl (envs i) 1 begin_perf [] ?w = (None, q)" "said (begin_reply 1) r" "length r \<le> 60"
    "view_of q = (view_of ?w)\<lparr>vi_S := S, vi_cs := put 1 sid (vi_cs (view_of ?w)), vi_si := put 1 sid (vi_si (view_of ?w)),
       vi_out := vi_out (view_of ?w) @ frame_out 1 r\<rparr>"
    and s: "session_Get S sid = Some s" "s_ID s = sid" "s_State s = StateMapped" "s_Links s = []" "s_IncomingWindow s = 2048"
    by (rule begin_step [OF ok(1-3) ids(1) ok(4,5)])
  have v: "view_of q = (view_of p)\<lparr>vi_in := rest, vi_S := S, vi_cs := [(1, sid)], vi_si := [(1, sid)], vi_out := vi_out (view_of p) @ frame_out 1 r\<rparr>"
    using p by (simp add: q(4))
  have "serve bl envs i p = serve bl envs (Suc i) q"
    by (rule round_on [OF inp(2) _ _ heard_perfs(2), where payload = "[]" and rest = rest]) (use inp p q in \<open>simp_all add: v\<close>)
  then show ?thesis using randomID_nonempty [OF ids(1)] by (intro that [OF _ q(2,3) v s]) simp_all
qed

text \<open>A session with a link for the client's messages.\<close>

lemma server_linked:
  assumes inp: "vi_in (view_of p) = frame_out 1 b2 @ frame_out 1 b3 @ rest"
    and b: "said begin_perf b2" "length b2 \<le> 50" "said (sender_attach 1 address) b3" "length b3 \<le> 300"
    and p: "vi_werr (view_of p) = None" "vi_state (view_of p) = StateOpen" "512 \<le> unat (vi_max (view_of p))"
      "vi_cs (view_of p) = []" "vi_si (view_of p) = []" "vi_li (view_of p) = []"
    and ids: "peer_randomID ''ssn'' (e_rnd (envs i)) = Inr sid" "peer_randomID ''lnk'' (e_rnd (envs (i + 1))) = Inr lid"
      "get (sr_channels (vi_S (view_of p))) (session_key (vi_cid (view_of p)) 1) = None" "get (lr_handles (vi_L (view_of p))) (handleKey sid 0) = None"
    and addr: "address \<noteq> ''''" "length address \<le> 200"
  obtains q r2 r3 S s L l where "serve bl envs i p = serve bl envs (i + 2) q"
    "said (begin_reply 1) r2" "length r2 \<le> 60" "said (attach_reply (sender_attach 1 address)) r3" "length r3 \<le> 300"
    "view_of q = (view_of p)\<lparr>vi_in := rest, vi_S := S, vi_cs := [(1, sid)], vi_si := [(1, sid)], vi_L := L, vi_li := [(link_slot 1 0, lid)],
       vi_out := vi_out (view_of p) @ frame_out 1 r2 @ frame_out 1 r3\<rparr>"
    "session_Get S sid = Some s" "s_ID s = sid" "s_IncomingWindow s \<noteq> 0" "link_Get L lid = Some l" "l_State l = StateAttached" "l_Role l = RoleReceiver"
    "l_Address l = address" "l_MaxMessageSize l = 16777216"
proof -
  let ?in1 = "frame_out 1 b3 @ rest" and ?v = "view_of p"
  obtain q1 r2 S s where q1: "serve bl envs i p = serve bl envs (Suc i) q1" "said (begin_reply 1) r2" "length r2 \<le> 60"
    and v1: "view_of q1 = ?v\<lparr>vi_in := ?in1, vi_S := S, vi_cs := [(1, sid)], vi_si := [(1, sid)], vi_out := vi_out ?v @ frame_out 1 r2\<rparr>"
    and s: "session_Get S sid = Some s" "s_ID s = sid" "s_State s = StateMapped" "s_Links s = []" "s_IncomingWindow s = 2048" and sid: "sid \<noteq> ''''"
    by (rule server_begun [where envs = envs and i = i, OF inp b(1,2) p(1-5) ids(1,3)])
  let ?s = "s\<lparr>s_Links := [(0, lid)]\<rparr>" and ?w = "at_work (envs (i + 1)) rest q1"
  have ok: "vi_werr (view_of ?w) = None" "512 \<le> unat (vi_max (view_of ?w))" "get (vi_si (view_of ?w)) 1 = Some sid"
    "session_Get (vi_S (view_of ?w)) sid = Some s" "get (lr_handles (vi_L (view_of ?w))) (handleKey sid 0) = None"
    using p ids(4) s(1) by (simp_all add: v1)
  obtain q2 r3 L l where q2: "react bl (envs (i + 1)) 1 (sender_attach 1 address) [] ?w = (None, q2)"
    "said (attach_reply (sender_attach 1 address)) r3" "length r3 \<le> 300"
    "view_of q2 = (view_of ?w)\<lparr>vi_L := L, vi_S := session_Set ?s (vi_S (view_of ?w)), vi_li := put (link_slot 1 0) lid (vi_li (view_of ?w)),
       vi_out := vi_out (view_of ?w) @ frame_out 1 r3\<rparr>"
    and l: "link_Get L lid = Some l" "l_State l = StateAttached" "l_Role l = RoleReceiver" "l_Address l = address" "l_MaxMessageSize l = 16777216"
    by (rule attach_step [OF ok(1,2) addr(2,1) ok(3,4) s(2) sid s(3,4) ids(2) ok(5)])
  have v2: "view_of q2 = ?v\<lparr>vi_in := rest, vi_S := session_Set ?s S, vi_cs := [(1, sid)], vi_si := [(1, sid)], vi_L := L, vi_li := [(link_slot 1 0, lid)],
       vi_out := vi_out ?v @ frame_out 1 r2 @ frame_out 1 r3\<rparr>"
    using p by (simp add: q2(4) v1)
  have "serve bl envs i p = serve bl envs (Suc i) q1" by (rule q1(1))
  also have "\<dots> = serve bl envs (Suc (Suc i)) q2"
    by (rule round_on [OF b(3) _ _ heard_perfs(5), where payload = "[]" and rest = rest]) (use b(4) p q2 in \<open>simp_all add: v2 v1\<close>)
  finally have run: "serve bl envs i p = serve bl envs (i + 2) q2" by (simp add: numeral_2_eq_2)
  have "session_Get (session_Set ?s S) sid = Some ?s" "s_ID ?s = sid" "s_IncomingWindow ?s \<noteq> 0" using s by (simp_all add: session_Get_Set)
  then show ?thesis by (rule that [OF run q1(2,3) q2(2,3) v2 _ _ _ l])
qed

lemma server_published:
  fixes p :: "FileLog peer"
  assumes inp: "vi_in (view_of p) = frame_out 1 b2 @ frame_out 1 b3 @ frame_out 1 (b4 @ EncodeDataSection body) @ frame_out 1 b5 @ rest"
    and b: "said begin_perf b2" "length b2 \<le> 50" "said (sender_attach 1 address) b3" "length b3 \<le> 300" "said (client_transfer 1) b4" "length b4 \<le> 50"
      "said (bare DescriptorEnd) b5" "length b5 \<le> 50"
    and p: "vi_werr (view_of p) = None" "vi_state (view_of p) = StateOpen" "512 \<le> unat (vi_max (view_of p))" "100 + length body \<le> unat (vi_max (view_of p))"
      "vi_cs (view_of p) = []" "vi_si (view_of p) = []" "vi_li (view_of p) = []"
    and ids: "peer_randomID ''ssn'' (e_rnd (envs i)) = Inr sid" "peer_randomID ''lnk'' (e_rnd (envs (i + 1))) = Inr lid"
      "get (sr_channels (vi_S (view_of p))) (session_key (vi_cid (view_of p)) 1) = None" "get (lr_handles (vi_L (view_of p))) (handleKey sid 0) = None"
    and addr: "address \<noteq> ''''" "length address \<le> 200" "body \<noteq> []" "length body \<le> 1000000"
      "address_view (sv_mem (vi_d (view_of p))) address = Some a" "\<not> ad_Paused a"
    and env: "e_ctx (envs (i + 2)) = None" "valid_ranges (e_ranges (envs (i + 2)) 0)"
      "topology_ok (sv_mem (vi_d (view_of p)))" "fl_inv (sv_log (vi_d (view_of p)))"
      "Resolve (e_ranges (envs (i + 2)) 0) None address '''' [] (sv_mem (vi_d (view_of p))) = Inr routes" "routes \<noteq> []"
      "fresh_ids (e_rnds (envs (i + 2))) 0 (length routes) (sv_mem (vi_d (view_of p)))"
  obtains q r2 r3 r4 r5 d and nw :: "Message list" where "serve file_log_ops envs i p = serve file_log_ops envs (i + 4) q"
    "said (begin_reply 1) r2" "length r2 \<le> 60" "said (attach_reply (sender_attach 1 address)) r3" "length r3 \<le> 300"
    "said (accepted_reply 1) r4" "length r4 \<le> 64" "said (bare DescriptorEnd) r5" "length r5 \<le> 50"
    "vi_out (view_of q) = vi_out (view_of p) @ frame_out 1 r2 @ frame_out 1 r3 @ frame_out 1 r4 @ frame_out 1 r5"
    "vi_in (view_of q) = rest" "vi_werr (view_of q) = None" "vi_max (view_of q) = vi_max (view_of p)" "vi_state (view_of q) = StateOpen"
    "vi_d (view_of q) = d" "copies_stored routes body (vi_d (view_of p)) d nw"
proof -
  let ?in3 = "frame_out 1 b5 @ rest" and ?pay = "EncodeDataSection body" and ?v = "view_of p"
  have pay: "length ?pay \<le> 10 + length body" using encodeBytes_length [of "0xa0" "0xb0" body] by (simp add: EncodeDataSection_def)
  obtain q2 r2 r3 S s L l where q2: "serve file_log_ops envs i p = serve file_log_ops envs (i + 2) q2"
    "said (begin_reply 1) r2" "length r2 \<le> 60" "said (attach_reply (sender_attach 1 address)) r3" "length r3 \<le> 300"
    and v2: "view_of q2 = ?v\<lparr>vi_in := frame_out 1 (b4 @ ?pay) @ ?in3, vi_S := S, vi_cs := [(1, sid)], vi_si := [(1, sid)], vi_L := L,
      vi_li := [(link_slot 1 0, lid)], vi_out := vi_out ?v @ frame_out 1 r2 @ frame_out 1 r3\<rparr>"
    and s: "session_Get S sid = Some s" "s_ID s = sid" "s_IncomingWindow s \<noteq> 0"
    and l: "link_Get L lid = Some l" "l_State l = StateAttached" "l_Role l = RoleReceiver" "l_Address l = address" "l_MaxMessageSize l = 16777216"
    by (rule server_linked [OF inp b(1-4) p(1-3,5-7) ids addr(1,2)])
  let ?w = "at_work (envs (i + 2)) ?in3 q2"
  have ok: "vi_werr (view_of ?w) = None" "512 \<le> unat (vi_max (view_of ?w))" "get (vi_si (view_of ?w)) 1 = Some sid"
    "session_Get (vi_S (view_of ?w)) sid = Some s" "get (vi_li (view_of ?w)) (link_slot 1 0) = Some lid"
    "link_Get (vi_L (view_of ?w)) lid = Some l" "vi_d (view_of ?w) = vi_d ?v"
    using p s l(1) by (simp_all add: v2)
  obtain q3 r4 d L' s' nw where q3: "react file_log_ops (envs (i + 2)) 1 (client_transfer 1) ?pay ?w = (None, q3)"
    "said (accepted_reply 1) r4" "length r4 \<le> 64" "s_ID s' = sid"
    "view_of q3 = (view_of ?w)\<lparr>vi_d := d, vi_L := L', vi_S := session_Set s' (vi_S (view_of ?w)), vi_out := vi_out (view_of ?w) @ frame_out 1 r4\<rparr>"
    "copies_stored routes body (vi_d ?v) d nw"
    by (rule transfer_step [OF ok(1-4) s(2,3) ok(5,6) l(2,3,5) addr(3,4) env(1,2), where a = a and routes = routes, unfolded ok(7) l(4), OF env(3,4) addr(5,6) env(5-7)])
  have v3: "view_of q3 = (view_of q2)\<lparr>vi_in := ?in3, vi_d := d, vi_L := L', vi_S := session_Set s' S, vi_out := vi_out (view_of q2) @ frame_out 1 r4\<rparr>"
    by (simp add: q3(5) v2)
  let ?w = "at_work (envs (i + 3)) rest q3"
  have ok: "vi_werr (view_of ?w) = None" "512 \<le> unat (vi_max (view_of ?w))" "get (vi_si (view_of ?w)) 1 = Some sid"
    "session_Get (vi_S (view_of ?w)) sid = Some s'"
    using p s q3(4) by (simp_all add: v3 v2 session_Get_Set)
  obtain q4 r5 where q4: "react file_log_ops (envs (i + 3)) 1 (bare DescriptorEnd) [] ?w = (None, q4)" "said (bare DescriptorEnd) r5" "length r5 \<le> 50"
    "vi_out (view_of q4) = vi_out (view_of ?w) @ frame_out 1 r5" "vi_d (view_of q4) = vi_d (view_of ?w)" "vi_in (view_of q4) = vi_in (view_of ?w)"
    "vi_werr (view_of q4) = None" "vi_max (view_of q4) = vi_max (view_of ?w)" "vi_state (view_of q4) = vi_state (view_of ?w)"
    by (rule end_step [OF ok])
  have "serve file_log_ops envs (i + 2) q2 = serve file_log_ops envs (Suc (i + 2)) q3"
    by (rule round_on [OF b(5) _ _ heard_perfs(4), where payload = ?pay and rest = ?in3]) (use b(6) p pay q3 in \<open>simp_all add: v3 v2\<close>)
  also have "\<dots> = serve file_log_ops envs (Suc (Suc (i + 2))) q4"
    by (rule round_on [OF b(7) _ _ heard_perfs(3), where payload = "[]" and rest = rest])
      (use b(8) p q4 in \<open>simp_all add: v3 v2 numeral_3_eq_3\<close>)
  finally have run: "serve file_log_ops envs i p = serve file_log_ops envs (i + 4) q4" using q2(1) by (simp add: numeral_eq_Suc)
  have "vi_out (view_of q4) = vi_out ?v @ frame_out 1 r2 @ frame_out 1 r3 @ frame_out 1 r4 @ frame_out 1 r5" "vi_in (view_of q4) = rest"
    "vi_max (view_of q4) = vi_max ?v" "vi_state (view_of q4) = StateOpen" "vi_d (view_of q4) = d"
    using p(2) by (simp_all add: q4(4-6,8,9) v3 v2)
  then show ?thesis by (intro that [OF run q2(2-5) q3(2,3) q4(2,3) _ _ q4(7) _ _ _ q3(6)])
qed

text \<open>
  A connection from its acceptance to its end, around what is said on its session: the client's
  frames \<open>mid\<close> are answered with \<open>out\<close>, leaving a delivery service for which \<open>P\<close> holds.
\<close>

lemma whole_connection:
  assumes ids: "peer_randomID ''conn'' (e_rnd (envs 0)) = Inr cid" "conn_Get (sr_Connections sv) cid = None"
      "int (conn_Count (sr_Connections sv)) < cr_max (sr_Connections sv)" "512 \<le> unat (sr_MaxFrame sv)"
    and b: "said client_open b1" "length b1 \<le> 50" "said (bare DescriptorClose) b2" "length b2 \<le> 50"
    and mid: "\<And>q out0. view_of q = \<lparr>vi_in = mid @ frame_out 0 b2, vi_out = out0, vi_werr = None,
        vi_max = (if 1048576 < sr_MaxFrame sv then 1048576 else sr_MaxFrame sv), vi_state = StateOpen, vi_cid = cid, vi_cs = [], vi_si = [], vi_li = [],
        vi_S = sr_Sessions sv, vi_L = sr_Links sv, vi_d = sr_Delivery sv\<rparr> \<Longrightarrow>
      \<exists>q' out. serve bl envs 2 q = serve bl envs n q' \<and> vi_out (view_of q') = out0 @ out \<and> vi_in (view_of q') = frame_out 0 b2 \<and>
        vi_werr (view_of q') = None \<and> vi_max (view_of q') = vi_max (view_of q) \<and> vi_state (view_of q') = StateOpen \<and> P out (vi_d (view_of q'))"
  obtains sv' nc' p1 r1 r2 out where
    "handle bl envs \<lparr>nc_in = AMQPHeader @ frame_out 0 b1 @ mid @ frame_out 0 b2, nc_out = [], nc_werr = None, nc_remote = remote\<rparr> sv = (None, sv', nc')"
    "nc_out nc' = AMQPHeader @ frame_out 0 r1 @ out @ frame_out 0 r2" "said p1 r1" "length r1 \<le> 60" "said (bare DescriptorClose) r2" "length r2 \<le> 50"
    "P out (sr_Delivery sv')"
proof -
  let ?in = "mid @ frame_out 0 b2"
  let ?nc = "\<lparr>nc_in = AMQPHeader @ frame_out 0 b1 @ ?in, nc_out = [], nc_werr = None, nc_remote = remote\<rparr>"
  let ?c = "New_Connection cid remote (sr_MaxFrame sv) (sr_IdleTimeout sv) (e_now (envs 0))"
  obtain r where r: "conn_Add ?c (sr_Connections sv) = Inr r"
    using ids(2,3) by (simp add: conn_Add_def conn_Get_def conn_Count_def New_Connection_def)
  let ?p = "new_peer ?nc ?c (sv\<lparr>sr_Connections := r\<rparr>)"
  have v: "view_of ?p = \<lparr>vi_in = AMQPHeader @ frame_out 0 b1 @ ?in, vi_out = [], vi_werr = None, vi_max = sr_MaxFrame sv, vi_state = StateStart,
      vi_cid = cid, vi_cs = [], vi_si = [], vi_li = [], vi_S = sr_Sessions sv, vi_L = sr_Links sv, vi_d = sr_Delivery sv\<rparr>"
    by (simp add: new_peer_def view_of_def New_Connection_def)
  obtain q p1 r1 where q: "thenE (handshake (e_ctx (envs 0)) ?p) (serve bl envs 1) = serve bl envs 2 q" "said p1 r1" "length r1 \<le> 60"
    "view_of q = (view_of ?p)\<lparr>vi_in := ?in, vi_out := AMQPHeader @ frame_out 0 r1, vi_state := StateOpen,
       vi_max := (if 1048576 < vi_max (view_of ?p) then 1048576 else vi_max (view_of ?p))\<rparr>"
    by (rule server_opened [OF _ b(1,2), of ?p ?in]) (use ids(4) in \<open>simp_all add: v\<close>)
  have mx: "512 \<le> unat (vi_max (view_of q))" using ids(4) by (simp add: q(4) v)
  have vq: "view_of q = \<lparr>vi_in = ?in, vi_out = AMQPHeader @ frame_out 0 r1, vi_werr = None,
      vi_max = (if 1048576 < sr_MaxFrame sv then 1048576 else sr_MaxFrame sv), vi_state = StateOpen, vi_cid = cid, vi_cs = [], vi_si = [], vi_li = [],
      vi_S = sr_Sessions sv, vi_L = sr_Links sv, vi_d = sr_Delivery sv\<rparr>"
    by (simp add: q(4) v)
  from mid [OF vq] obtain q' out where q': "serve bl envs 2 q = serve bl envs n q'"
    "vi_out (view_of q') = (AMQPHeader @ frame_out 0 r1) @ out" "vi_in (view_of q') = frame_out 0 b2" "vi_werr (view_of q') = None"
    "vi_max (view_of q') = vi_max (view_of q)" "vi_state (view_of q') = StateOpen" "P out (vi_d (view_of q'))"
    by blast
  let ?w = "at_work (envs n) [] q'"
  have "vi_werr (view_of ?w) = None" "512 \<le> unat (vi_max (view_of ?w))" "vi_state (view_of ?w) = StateOpen" using q'(4-6) mx by simp_all
  then obtain q2 r2 where q2: "react bl (envs n) 0 (bare DescriptorClose) [] ?w = (None, q2)" "said (bare DescriptorClose) r2" "length r2 \<le> 50"
    "view_of q2 = (view_of ?w)\<lparr>vi_state := StateClosed, vi_out := vi_out (view_of ?w) @ frame_out 0 r2\<rparr>"
    by (rule close_step)
  have "serve bl envs n q' = (None, q2)"
    using serve_hears [OF b(3), of q' 0 "[]" "[]" bl envs n q2] q2(1,4) q'(3,5) b(4) mx by (simp add: view_sel heard_perfs)
  then have h: "handle bl envs ?nc sv = (None, clean_up (envs 0) cid (pe_server q2), pe_net q2)"
    using ids(1) r q(1) q'(1) by (simp add: handle_def Let_def)
  have o: "nc_out (pe_net q2) = AMQPHeader @ frame_out 0 r1 @ out @ frame_out 0 r2" using q2(4) q'(2) by (simp add: view_sel)
  have d: "sr_Delivery (clean_up (envs 0) cid (pe_server q2)) = vi_d (view_of q')" using q2(4) by (simp add: clean_up_def view_sel)
  show ?thesis by (rule that [OF h o q(2,3) q2(2,3) q'(7) [folded d]])
qed

lemma server_session:
  assumes adm: "admits envs sv address words routes" and words: "bytes_of_string words = body" "words \<noteq> ''''"
    and b: "said client_open b1" "length b1 \<le> 50" "said begin_perf b2" "length b2 \<le> 50" "said (sender_attach 1 address) b3" "length b3 \<le> 300"
      "said (client_transfer 1) b4" "length b4 \<le> 50" "said (bare DescriptorEnd) b5" "length b5 \<le> 50" "said (bare DescriptorClose) b6" "length b6 \<le> 50"
  obtains sv' nc' p1 r1 r2 r3 r4 r5 r6 and nw :: "Message list" where
    "handle file_log_ops envs \<lparr>nc_in = stream [b1, b2, b3, b4 @ EncodeDataSection body, b5, b6], nc_out = [], nc_werr = None, nc_remote = remote\<rparr> sv =
      (None, sv', nc')" "nc_out nc' = stream [r1, r2, r3, r4, r5, r6]"
    "said p1 r1" "length r1 \<le> 60" "said (begin_reply 1) r2" "length r2 \<le> 60" "said (attach_reply (sender_attach 1 address)) r3" "length r3 \<le> 300"
    "said (accepted_reply 1) r4" "length r4 \<le> 64" "said (bare DescriptorEnd) r5" "length r5 \<le> 50" "said (bare DescriptorClose) r6" "length r6 \<le> 50"
    "copies_stored routes body (sr_Delivery sv) (sr_Delivery sv') nw"
proof -
  have len: "length body = length words" "body \<noteq> []" using words by auto
  obtain cid sid lid a where ids: "peer_randomID ''conn'' (e_rnd (envs 0)) = Inr cid" "peer_randomID ''ssn'' (e_rnd (envs 2)) = Inr sid"
      "peer_randomID ''lnk'' (e_rnd (envs 3)) = Inr lid" "conn_Get (sr_Connections sv) cid = None"
      "int (conn_Count (sr_Connections sv)) < cr_max (sr_Connections sv)"
      "get (sr_channels (sr_Sessions sv)) (session_key cid 1) = None" "get (lr_handles (sr_Links sv)) (handleKey sid 0) = None"
      "address_view (sv_mem (sr_Delivery sv)) address = Some a" "\<not> ad_Paused a"
    and mx: "512 \<le> unat (sr_MaxFrame sv)" "100 + length body \<le> unat (sr_MaxFrame sv)" "100 + length body \<le> 1000000"
    and addr: "address \<noteq> ''''" "length address \<le> 200"
    and env: "e_ctx (envs 4) = None" "valid_ranges (e_ranges (envs 4) 0)" "topology_ok (sv_mem (sr_Delivery sv))" "fl_inv (sv_log (sr_Delivery sv))"
      "Resolve (e_ranges (envs 4) 0) None address '''' [] (sv_mem (sr_Delivery sv)) = Inr routes" "routes \<noteq> []"
      "fresh_ids (e_rnds (envs 4)) 0 (length routes) (sv_mem (sr_Delivery sv))"
    using adm len(1) unfolding admits_def by auto
  let ?mid = "frame_out 1 b2 @ frame_out 1 b3 @ frame_out 1 (b4 @ EncodeDataSection body) @ frame_out 1 b5"
  define P :: "byte list \<Rightarrow> FileLog Service \<Rightarrow> bool" where "P out d \<longleftrightarrow> (\<exists>r2 r3 r4 r5 (nw :: Message list).
      out = frame_out 1 r2 @ frame_out 1 r3 @ frame_out 1 r4 @ frame_out 1 r5 \<and> said (begin_reply 1) r2 \<and> length r2 \<le> 60 \<and>
      said (attach_reply (sender_attach 1 address)) r3 \<and> length r3 \<le> 300 \<and> said (accepted_reply 1) r4 \<and> length r4 \<le> 64 \<and>
      said (bare DescriptorEnd) r5 \<and> length r5 \<le> 50 \<and> copies_stored routes body (sr_Delivery sv) d nw)" for out d
  have mid: "\<exists>q' out. serve file_log_ops envs 2 q = serve file_log_ops envs 6 q' \<and> vi_out (view_of q') = out0 @ out \<and> vi_in (view_of q') = frame_out 0 b6 \<and>
        vi_werr (view_of q') = None \<and> vi_max (view_of q') = vi_max (view_of q) \<and> vi_state (view_of q') = StateOpen \<and> P out (vi_d (view_of q'))"
    if q: "view_of q = \<lparr>vi_in = ?mid @ frame_out 0 b6, vi_out = out0, vi_werr = None,
        vi_max = (if 1048576 < sr_MaxFrame sv then 1048576 else sr_MaxFrame sv), vi_state = StateOpen, vi_cid = cid, vi_cs = [], vi_si = [], vi_li = [],
        vi_S = sr_Sessions sv, vi_L = sr_Links sv, vi_d = sr_Delivery sv\<rparr>" for q out0
  proof -
    have i: "(2::nat) + 1 = 3" "(2::nat) + 2 = 4" "(2::nat) + 4 = 6" by simp_all
    have okq: "vi_in (view_of q) = frame_out 1 b2 @ frame_out 1 b3 @ frame_out 1 (b4 @ EncodeDataSection body) @ frame_out 1 b5 @ frame_out 0 b6"
      "vi_werr (view_of q) = None" "vi_state (view_of q) = StateOpen" "512 \<le> unat (vi_max (view_of q))" "100 + length body \<le> unat (vi_max (view_of q))"
      "vi_cs (view_of q) = []" "vi_si (view_of q) = []" "vi_li (view_of q) = []"
      "get (sr_channels (vi_S (view_of q))) (session_key (vi_cid (view_of q)) 1) = None" "get (lr_handles (vi_L (view_of q))) (handleKey sid 0) = None"
      "length body \<le> 1000000" and vq: "vi_d (view_of q) = sr_Delivery sv" "vi_out (view_of q) = out0"
      using mx ids(6,7) by (auto simp: q)
    show ?thesis
      by (rule server_published [where p = q and i = 2 and a = a and routes = routes, unfolded i vq,
            OF okq(1) b(3-10) okq(2-8) ids(2,3) okq(9,10) addr len(2) okq(11) ids(8,9) env])
        (unfold P_def, intro exI conjI, (assumption | rule refl | simp)+)
  qed
  show ?thesis
  proof (rule whole_connection [OF ids(1,4,5) mx(1) b(1,2,11,12) mid])
    fix sv' nc' p1 r1 r6 out
    assume h: "handle file_log_ops envs \<lparr>nc_in = AMQPHeader @ frame_out 0 b1 @ ?mid @ frame_out 0 b6, nc_out = [], nc_werr = None, nc_remote = remote\<rparr> sv =
        (None, sv', nc')" "nc_out nc' = AMQPHeader @ frame_out 0 r1 @ out @ frame_out 0 r6"
      "said p1 r1" "length r1 \<le> 60" "said (bare DescriptorClose) r6" "length r6 \<le> 50" "P out (sr_Delivery sv')"
    then obtain r2 r3 r4 r5 and nw :: "Message list" where o: "out = frame_out 1 r2 @ frame_out 1 r3 @ frame_out 1 r4 @ frame_out 1 r5"
      and r: "said (begin_reply 1) r2" "length r2 \<le> 60" "said (attach_reply (sender_attach 1 address)) r3" "length r3 \<le> 300"
        "said (accepted_reply 1) r4" "length r4 \<le> 64" "said (bare DescriptorEnd) r5" "length r5 \<le> 50"
        "copies_stored routes body (sr_Delivery sv) (sr_Delivery sv') nw"
      unfolding P_def by blast
    show thesis by (rule that [OF _ _ h(3,4) r(1-8) h(5,6) r(9)]) (use h(1,2) o in \<open>simp_all add: stream_six\<close>)
  qed
qed

text \<open>
  C13: the client and the broker work together. Take the client, with its default of one session, and a
  server that has a place for it and an existing, unpaused address with routes. There is a conversation
  on which the two agree: when the client reads what the server writes, and the server reads what the
  client writes, the client ends without an error and reports its message as published, and
  \<open>handle\<close> ends without an error; and then the broker has stored one message per route and no other,
  under new and different identifiers, with the destination of its route as its address (unless a
  length limit has evicted it already), each with the body the client was given (and the number of the
  session) in the log. (That the two sides, run against each other, get through this conversation is
  not part of the claim: it is about the bytes, not about scheduling.)
\<close>

theorem client_publishes:
  assumes "admits envs sv address (body @ ''-1'') routes"
  shows "\<exists>from_server c sv' nc' (nw :: Message list).
    client_run (Inr \<lparr>nc_in = from_server, nc_out = [], nc_werr = None, nc_remote = server\<rparr>) address body ''publish'' 1 = (None, Some c) \<and>
    handle file_log_ops envs \<lparr>nc_in = nc_out (cl_conn c), nc_out = [], nc_werr = None, nc_remote = remote\<rparr> sv = (None, sv', nc') \<and>
    nc_out nc' = from_server \<and> cl_printed c = [[''published'', ''1'', address, body @ ''-1'', ''disposition'']] \<and>
    map m_Address nw = map rt_Destination routes \<and> distinct (map m_ID nw) \<and>
    (\<forall>msg\<in>set nw. mem_message None (m_ID msg) (sv_mem (sr_Delivery sv)) = Inl ErrMessageNotFound \<and>
       fl_Read None (m_LogOffset msg) (sv_log (sr_Delivery sv')) = Inr (bytes_of_string (body @ ''-1'')) \<and>
       (\<exists>msg'. mem_message None (m_ID msg) (sv_mem (sr_Delivery sv')) = Inr msg' \<and> m_LogOffset msg' = m_LogOffset msg \<and>
          (msg' = msg \<or> get (m_Headers msg') ''x-death-reason'' = Some ''max-length''))) \<and>
    (\<forall>k. message_view (sv_mem (sr_Delivery sv')) k \<noteq> None \<longrightarrow>
       k \<in> m_ID ` set nw \<or> message_view (sv_mem (sr_Delivery sv)) k \<noteq> None)"
proof -
  have addr: "length address \<le> 200" "length body \<le> 999898" using assms by (auto simp: admits_def)
  obtain b1 b2 b3 b4 b5 b6 where b: "said client_open b1" "length b1 \<le> 50" "said begin_perf b2" "length b2 \<le> 50"
    "said (sender_attach 1 address) b3" "length b3 \<le> 300" "said (client_transfer 1) b4" "length b4 \<le> 50"
    "said (bare DescriptorEnd) b5" "length b5 \<le> 50" "said (bare DescriptorClose) b6" "length b6 \<le> 50"
    using client_said address_said(1) [OF addr(1)] by blast
  obtain sv' nc' p1 r1 r2 r3 r4 r5 r6 and nw :: "Message list" where s:
    "handle file_log_ops envs \<lparr>nc_in = stream [b1, b2, b3, b4 @ EncodeDataSection (bytes_of_string (body @ ''-1'')), b5, b6],
       nc_out = [], nc_werr = None, nc_remote = remote\<rparr> sv = (None, sv', nc')" "nc_out nc' = stream [r1, r2, r3, r4, r5, r6]"
    "said p1 r1" "length r1 \<le> 60" "said (begin_reply 1) r2" "length r2 \<le> 60" "said (attach_reply (sender_attach 1 address)) r3" "length r3 \<le> 300"
    "said (accepted_reply 1) r4" "length r4 \<le> 64" "said (bare DescriptorEnd) r5" "length r5 \<le> 50" "said (bare DescriptorClose) r6" "length r6 \<le> 50"
    "copies_stored routes (bytes_of_string (body @ ''-1'')) (sr_Delivery sv) (sr_Delivery sv') nw"
    by (rule server_session [OF assms refl _ b]) simp
  obtain c where "client_run (Inr \<lparr>nc_in = stream [r1, r2, r3, r4, r5, r6], nc_out = [], nc_werr = None, nc_remote = server\<rparr>) address body ''publish'' 1 =
      (None, Some c)" "cl_printed c = [[''published'', ''1'', address, body @ ''-1'', ''disposition'']]"
    "nc_out (cl_conn c) = stream [b1, b2, b3, b4 @ EncodeDataSection (bytes_of_string (body @ ''-1'')), b5, b6]"
    using client_session [OF s(3-14) addr b, of server] by blast
  with s(1,2) copies_stored_report [OF s(15)] show ?thesis
    by (intro exI [of _ "stream [r1, r2, r3, r4, r5, r6]"] exI [of _ c] exI [of _ sv'] exI [of _ nc'] exI [of _ nw]) simp
qed

section \<open>Witnesses\<close>

definition sample_shop :: "FileLog Server" where
  "sample_shop = \<lparr>sr_MaxFrame = 65536, sr_IdleTimeout = 0, sr_Auth = None, sr_Connections = New_conn_Registry 8, sr_Sessions = NewSessionRegistry,
     sr_Links = NewLinkRegistry, sr_Delivery = NewDeliveryService sample_queue \<lparr>fl_data = [], fl_offsets = []\<rparr>\<rparr>"

lemma sample_ids:
  "peer_randomID ''conn'' (e_rnd sample_clock) = Inr ''conn_01''" "peer_randomID ''ssn'' (e_rnd sample_clock) = Inr ''ssn_01''"
  "peer_randomID ''lnk'' (e_rnd sample_clock) = Inr ''lnk_01''"
  by code_simp+

lemma sample_room:
  "conn_Get (sr_Connections sample_shop) k = None" "int (conn_Count (sr_Connections sample_shop)) < cr_max (sr_Connections sample_shop)"
  "get (sr_channels (sr_Sessions sample_shop)) x = None" "get (lr_handles (sr_Links sample_shop)) x = None"
  by (simp_all add: sample_shop_def New_conn_Registry_def NewSessionRegistry_def NewLinkRegistry_def conn_Get_def conn_Count_def)

lemma sample_clock_fields: "e_ctx sample_clock = None" "e_ranges sample_clock i = id_ranges" "e_rnds sample_clock = zero_ids" "e_clk sample_clock i = 10"
  by (simp_all add: sample_clock_def)

lemma sample_admits: "admits (\<lambda>_. sample_clock) sample_shop ''jobs'' (''hi'' @ ''-1'') [\<lparr>rt_Destination = ''jobs'', rt_Priority = 0\<rparr>]"
proof -
  let ?a = "sample_address ''jobs'' KindQueue" and ?m = sample_queue
  have m: "sv_mem (sr_Delivery sample_shop) = ?m" "sv_log (sr_Delivery sample_shop) = \<lparr>fl_data = [], fl_offsets = []\<rparr>"
    by (simp_all add: sample_shop_def NewDeliveryService_def)
  have log: "fl_inv (sv_log (sr_Delivery sample_shop))" unfolding fl_inv_def m by (rule exI [of _ "[]"]) (simp add: log_rep_def)
  have a: "address_view ?m ''jobs'' = Some ?a" "\<not> ad_Paused ?a" by (simp_all add: sample_queue_def sample_address_def)
  have r: "Resolve id_ranges None ''jobs'' '''' [] ?m = Inr [\<lparr>rt_Destination = ''jobs'', rt_Priority = 0\<rparr>]"
    using a by (simp add: Resolve_def addresses.fetch_live) (simp add: sample_address_def)
  have f: "fresh_ids zero_ids 0 (Suc 0) ?m" using fresh_zero_ids [of sample_queue] by (simp add: sample_queue_def NewMemory_def)
  have "sr_MaxFrame sample_shop = 65536" by (simp add: sample_shop_def)
  then show ?thesis
    unfolding admits_def using sample_ids sample_room a r f log topology_sample_queue valid_id_ranges by (simp add: m sample_clock_fields)
qed

theorem client_publishes_witness:
  "\<exists>from_server c sv' nc' (nw :: Message list).
    client_run (Inr \<lparr>nc_in = from_server, nc_out = [], nc_werr = None, nc_remote = ''''\<rparr>) ''jobs'' ''hi'' ''publish'' 1 = (None, Some c) \<and>
    handle file_log_ops (\<lambda>_. sample_clock) \<lparr>nc_in = nc_out (cl_conn c), nc_out = [], nc_werr = None, nc_remote = ''''\<rparr> sample_shop = (None, sv', nc') \<and>
    nc_out nc' = from_server \<and> cl_printed c = [[''published'', ''1'', ''jobs'', ''hi-1'', ''disposition'']] \<and> map m_Address nw = [''jobs'']"
proof -
  obtain from_server c sv' nc' and nw :: "Message list" where
    "client_run (Inr \<lparr>nc_in = from_server, nc_out = [], nc_werr = None, nc_remote = ''''\<rparr>) ''jobs'' ''hi'' ''publish'' 1 = (None, Some c)"
    "handle file_log_ops (\<lambda>_. sample_clock) \<lparr>nc_in = nc_out (cl_conn c), nc_out = [], nc_werr = None, nc_remote = ''''\<rparr> sample_shop = (None, sv', nc')"
    "nc_out nc' = from_server" "cl_printed c = [[''published'', ''1'', ''jobs'', ''hi'' @ ''-1'', ''disposition'']]"
    "map m_Address nw = map rt_Destination [\<lparr>rt_Destination = ''jobs'', rt_Priority = 0\<rparr>]"
    using client_publishes [OF sample_admits, of "''''" "''''"] by blast
  then show ?thesis by (intro exI [of _ nw] exI) auto
qed

end
