(* ===== verification/ClientConsume.thy ===== *)
theory ClientConsume
  imports ClientProps
begin

text \<open>
  The client that consumes (\<open>consume\<close> of \<open>cmd/amqp-sim/main.go\<close>) and the server it talks to: a link for the
  server's messages, one credit, one transfer, and what becomes of the client's acceptance.
\<close>

section \<open>What is said\<close>

lemma receiver_said:
  assumes "length address \<le> 200"
  shows "\<exists>b. said (receiver_attach address) b \<and> length b \<le> 300" "\<exists>b. said (attach_reply (receiver_attach address)) b \<and> length b \<le> 300"
  using assms by (intro plain_saidI; simp add: receiver_attach_def attach_reply_def perf_defs trimNulls_def widths_def)+

lemma accept_said: "\<exists>b. said (client_accept did) b \<and> length b \<le> 64"
proof -
  have "\<exists>b. EncodePerformative (client_accept did) = Inr b \<and> length b < 64" by (simp add: client_accept_def EncodePerformative_def perf_defs trimNulls_def list_header_def)
  then show ?thesis by (auto simp: said_def client_accept_def perf_defs trimNulls_def)
qed

lemma heard_receiver: "heard (receiver_attach address) = (receiver_attach address)\<lparr>p_Fields := butlast (p_Fields (receiver_attach address))\<rparr>"
  by (simp add: heard_def receiver_attach_def trimNulls_def)

lemma heard_transfer: "heard (transfer_perf h did msg) = transfer_perf h did msg"
  by (simp add: heard_def transfer_trimmed)

lemma transfer_said:
  assumes "length (m_ID msg) < 2 ^ 30"
  shows "\<exists>b. said (transfer_perf h did msg) b \<and> length b \<le> 60 + length (m_ID msg)"
  using assms transfer_valid [of h did msg]
  by (intro plain_saidI) (simp_all add: transfer_perf_def trimNulls_def widths_def)

lemma receiver_reply: "attach_reply (heard (receiver_attach address)) = attach_reply (receiver_attach address)"
  by (simp add: heard_receiver) (simp add: attach_reply_def receiver_attach_def Perf_String_def Perf_Uint_def Perf_Bool_def Field_def)

section \<open>The server's side\<close>

text \<open>The consumer that the server registers for a link of the client.\<close>

definition link_consumer :: "string \<Rightarrow> string \<Rightarrow> time \<Rightarrow> Consumer" where
  "link_consumer lid address now = \<lparr>co_ID = lid, co_Address = address, co_Prefetch = 100, co_Credit = 100, co_Unsettled = [],
     co_Semantics = AtLeastOnce, co_Connected = True, co_CreatedAt = now, co_LastSeen = now\<rparr>"

definition with_consumer :: "Consumer \<Rightarrow> 'l Service \<Rightarrow> 'l Service" where
  "with_consumer c d = d\<lparr>sv_mem := (sv_mem d)\<lparr>mm_consumers := put (co_ID c) c (mm_consumers (sv_mem d))\<rparr>\<rparr>"

lemma view_set_mem [simp]: "view_of (set_mem m p) = (view_of p)\<lparr>vi_d := (vi_d (view_of p))\<lparr>sv_mem := m\<rparr>\<rparr>"
  by (simp add: set_mem_def) (simp add: view_of_def)

lemma registers:
  assumes "address_view m address = Some a" "address \<noteq> ''''" "lid \<noteq> ''''"
  shows "Register None now lid address 100 AtLeastOnce m =
    (Inr (link_consumer lid address now), m\<lparr>mm_consumers := put lid (link_consumer lid address now) (mm_consumers m)\<rparr>)"
  using assms by (simp add: Register_def addresses.fetch_live NewConsumer_def Let_def SaveConsumer_def link_consumer_def)

lemma receiver_step:
  assumes "vi_werr (view_of p) = None" "512 \<le> unat (vi_max (view_of p))" "length address \<le> 200" "address \<noteq> ''''"
    and "get (vi_si (view_of p)) 1 = Some sid" "session_Get (vi_S (view_of p)) sid = Some s" "s_ID s = sid" "sid \<noteq> ''''"
    and "s_State s = StateMapped" "s_Links s = []"
    and "peer_randomID ''lnk'' (e_rnd en) = Inr lid" "get (lr_handles (vi_L (view_of p))) (handleKey sid 0) = None"
    and "e_ctx en = None" "address_view (sv_mem (vi_d (view_of p))) address = Some a"
  obtains q b r l where "react bl en 1 (heard (receiver_attach address)) [] p = (None, q)"
    "said (attach_reply (receiver_attach address)) b" "length b \<le> 300"
    "view_of q = (view_of p)\<lparr>vi_L := r, vi_S := session_Set (s\<lparr>s_Links := [(0, lid)]\<rparr>) (vi_S (view_of p)),
       vi_li := put (link_slot 1 0) lid (vi_li (view_of p)), vi_d := with_consumer (link_consumer lid address (e_now en)) (vi_d (view_of p)),
       vi_out := vi_out (view_of p) @ frame_out 1 b\<rparr>"
    "link_Get r lid = Some l" "l_ID l = lid" "l_State l = StateAttached" "l_Role l = RoleSender" "l_MaxMessageSize l = 16777216"
proof -
  let ?perf = "heard (receiver_attach address)" and ?c = "link_consumer lid address (e_now en)"
  have f: "Perf_Uint ?perf 1 = 0" "Perf_Bool ?perf 2" "attach_address ?perf = address" "Perf_String ?perf 0 = ''receiver''"
    "p_Descriptor ?perf = DescriptorAttach"
    using assms(4) unfolding heard_receiver
    by (simp_all add: receiver_attach_def attach_address_def Perf_String_def Perf_Uint_def Perf_Bool_def Field_def)
  have lid: "lid \<noteq> ''''" using randomID_nonempty [OF assms(11)] by simp
  obtain l where l: "tryE (New_Link lid sid ''receiver'' address 0 RoleSender (e_now en)) Link_Attach = Inr l" "l_ID l = lid" "l_SessionID l = sid"
    "l_Handle l = 0" "l_State l = StateAttached" "l_Role l = RoleSender" "l_MaxMessageSize l = 16777216"
    using assms(4,8) lid by (simp add: New_Link_def Link_Attach_def)
  obtain r where r: "link_Add l (vi_L (view_of p)) = Inr r" "link_Get r lid = Some l"
    using assms(12) l(2-4) by (auto simp: link_Add_def link_Get_def get_put)
  let ?s = "s\<lparr>s_Links := [(0, lid)]\<rparr>" and ?l = "Link_Grant l 100"
  let ?p1 = "(set_sessions (session_Set ?s (peer_sessions p)) (set_links r p))\<lparr>pe_linkIDs := put (link_slot 1 0) lid (pe_linkIDs p)\<rparr>"
  let ?m = "(sv_mem (peer_delivery p))\<lparr>mm_consumers := put lid ?c (mm_consumers (sv_mem (peer_delivery p)))\<rparr>"
  let ?q = "set_links (link_Set ?l r) (set_mem ?m ?p1)"
  have "attach_consumer en lid address l ?p1 = (None, ?q)"
    using registers [OF assms(14,4) lid, of "e_now en"] assms(13) by (simp add: attach_consumer_def Let_def link_consumer_def view_sel)
  moreover have "Session_Attach s 0 lid = Inr ?s" using assms(9,10) by (simp add: Session_Attach_def)
  ultimately have "react bl en 1 ?perf [] p = peer_write 1 FrameTypeAMQP (attach_reply (receiver_attach address)) [] ?q"
    using assms(4-6,11) l(1) r(1) f receiver_reply [of address]
    by (simp add: react_def onAttach_def Let_def view_sel) (simp add: descriptor_defs)
  moreover obtain b where b: "said (attach_reply (receiver_attach address)) b" "length b \<le> 300" using receiver_said(2) [OF assms(3)] by blast
  moreover have "peer_write 1 FrameTypeAMQP (attach_reply (receiver_attach address)) [] ?q = (None, put_out (frame_out 1 b) ?q)"
    using assms(1,2) b by (intro server_says [OF b(1)]) (simp_all add: view_sel)
  ultimately have "react bl en 1 ?perf [] p = (None, put_out (frame_out 1 b) ?q)" by simp
  then show ?thesis
  proof (rule that [OF _ b, where r = "link_Set ?l r" and l = ?l])
    show "view_of (put_out (frame_out 1 b) ?q) = (view_of p)\<lparr>vi_L := link_Set ?l r, vi_S := session_Set ?s (vi_S (view_of p)),
       vi_li := put (link_slot 1 0) lid (vi_li (view_of p)), vi_d := with_consumer ?c (vi_d (view_of p)),
       vi_out := vi_out (view_of p) @ frame_out 1 b\<rparr>"
      by (simp add: view_sel with_consumer_def) (simp add: link_consumer_def)
  qed (use l r in \<open>simp_all add: Link_Grant_def link_Get_Set\<close>)
qed

lemma server_sends:
  assumes "said perf b" "nc_werr (pe_net p) = None" "8 + length b + length payload \<le> unat (c_MaxFrame (pe_connection p))"
  shows "peer_write ch FrameTypeAMQP perf payload p = (None, put_out (frame_out ch (b @ payload)) p)"
proof -
  have "unat (c_MaxFrame (pe_connection p)) < 2 ^ 32" using unsigned_less [of "c_MaxFrame (pe_connection p)"] by simp
  then have "fits p (length b + length payload)" using assms(2,3) by (simp add: fits_def)
  from peer_write_ok [OF _ this, of perf FrameTypeAMQP ch] assms(1) show ?thesis by (simp add: said_def put_out_def frame_out_def)
qed

text \<open>The service after a message has been handed to a consumer.\<close>

definition handed :: "Consumer \<Rightarrow> Message \<Rightarrow> 'l Service \<Rightarrow> 'l Service" where
  "handed c msg d = d\<lparr>sv_seq := sv_seq d + 1, sv_mem := (sv_mem d)\<lparr>mm_messages := put (m_ID msg) (acquired c msg) (mm_messages (sv_mem d)),
     mm_consumers := put (co_ID c) c (mm_consumers (sv_mem d))\<rparr>\<rparr>"

lemma acquires:
  assumes "consumer_view (sv_mem d) (co_ID c) = Some c" "co_Credit c \<noteq> 0" "co_Connected c" "co_Unsettled c = []"
    and "ListReady rs None (co_Address c) 1 (sv_mem d) = Inr (msg # rest)" "\<not> Message_Expired msg now"
    and "mem_wf (sv_mem d)" "valid_ranges rs" "bl_Read bl None (m_LogOffset msg) (sv_log d) = Inr body"
  shows "Acquire_op bl rs None now (co_ID c) d = (Inr ((acquired c msg)\<lparr>m_Body := body\<rparr>, sv_seq d + 1), handed c msg d)"
proof -
  have "GetConsumer None (co_ID c) (sv_mem d) = Inr c" using assms(1) by (simp add: consumers.fetch_Inr)
  moreover have "message_view (sv_mem d) (m_ID msg) = Some msg" using ready_offs(1) [OF assms(5,7,8)] by auto
  ultimately show ?thesis
    using Acquire_op_live [of None "co_ID c" d c rs msg rest now bl] assms
    by (simp add: Consumer_Acquire_def acquire_tail_def mem_Update_def SaveConsumer_def handed_def)
qed

lemma flow_step:
  fixes p :: "FileLog peer"
  assumes "vi_werr (view_of p) = None"
    and "get (vi_si (view_of p)) 1 = Some sid" "session_Get (vi_S (view_of p)) sid = Some s"
    and "get (vi_li (view_of p)) (link_slot 1 0) = Some lid" "link_Get (vi_L (view_of p)) lid = Some l"
    and "l_ID l = lid" "l_State l = StateAttached" "l_Role l = RoleSender" "l_MaxMessageSize l = 16777216"
    and "co_ID c = lid" "consumer_view (sv_mem (vi_d (view_of p))) lid = Some c" "co_Credit c \<noteq> 0" "co_Connected c" "co_Unsettled c = []"
    and "e_ctx en = None" "valid_ranges (e_ranges en 0)" "mem_wf (sv_mem (vi_d (view_of p)))"
    and "ListReady (e_ranges en 0) None (co_Address c) 1 (sv_mem (vi_d (view_of p))) = Inr (msg # rest)" "\<not> Message_Expired msg (e_clk en 0)"
    and "fl_Read None (m_LogOffset msg) (sv_log (vi_d (view_of p))) = Inr body"
    and "100 + length (m_ID msg) + length body \<le> unat (vi_max (view_of p))" "length (m_ID msg) + length body \<le> 1000000"
  obtains q b S L where "react file_log_ops en 1 client_flow [] p = (None, q)"
    "said (transfer_perf 0 (sv_seq (vi_d (view_of p)) + 1) (acquired c msg)) b" "length b \<le> 60 + length (m_ID msg)"
    "view_of q = (view_of p)\<lparr>vi_S := S, vi_L := L, vi_d := handed c msg (vi_d (view_of p)),
       vi_out := vi_out (view_of p) @ frame_out 1 (b @ EncodeDataSection body)\<rparr>"
proof -
  let ?d = "peer_delivery p" and ?x = "(acquired c msg)\<lparr>m_Body := body\<rparr>" and ?l = "Link_Grant l 1" and ?pay = "EncodeDataSection body"
  let ?did = "sv_seq ?d + 1"
  have f: "Perf_Uint client_flow 4 = 0" "Perf_Uint client_flow 6 = 1" "p_Descriptor client_flow = DescriptorFlow"
    by (simp_all add: client_flow_def Perf_Uint_def Field_def)
  let ?p1 = "set_links (link_Set ?l (peer_links p)) (set_sessions
      (session_Set (Session_Flow s (Perf_Uint client_flow 1) (Perf_Uint client_flow 3)) (peer_sessions p)) p)"
  have l: "l_ID ?l = lid" "l_State ?l = StateAttached" "l_Role ?l = RoleSender" "l_Credit ?l = 1" "l_MaxMessageSize ?l = 16777216"
    using assms(6-9) by (simp_all add: Link_Grant_def)
  obtain l' where l': "Link_Consume ?l (word_of_nat (length body)) = Inr l'" "l_ID l' = lid"
    using Link_Consume_ok [of ?l 0 "length body"] l assms(22) by auto
  have acq: "Acquire_op file_log_ops (e_ranges en 0) None (e_clk en 0) lid ?d = (Inr (?x, ?did), handed c msg ?d)"
    using acquires [of ?d c "e_ranges en 0" msg rest "e_clk en 0" file_log_ops body] assms(10-14,16-20) by (simp add: view_sel file_log_ops_def)
  let ?p2 = "set_links (link_Set l' (peer_links ?p1)) (set_delivery (handed c msg ?d) ?p1)"
  obtain b where b: "said (transfer_perf 0 ?did (acquired c msg)) b" "length b \<le> 60 + length (m_ID msg)"
    using transfer_said [of "acquired c msg" 0 ?did] assms(22) by auto
  have x: "transfer_perf 0 ?did ?x = transfer_perf 0 ?did (acquired c msg)" by (simp add: transfer_perf_def)
  have pay: "length ?pay \<le> 10 + length body" using encodeBytes_length [of "0xa0" "0xb0" body] by (simp add: EncodeDataSection_def)
  have w: "peer_write 1 FrameTypeAMQP (transfer_perf 0 ?did (acquired c msg)) ?pay ?p2 = (None, put_out (frame_out 1 (b @ ?pay)) ?p2)"
    using assms(1,21) b(2) pay by (intro server_sends [OF b(1)]) (simp_all add: view_sel)
  let ?q = "(put_out (frame_out 1 (b @ ?pay)) ?p2)\<lparr>pe_deliveryConsumer := put ?did lid (pe_deliveryConsumer (put_out (frame_out 1 (b @ ?pay)) ?p2))\<rparr>"
  have "react file_log_ops en 1 client_flow [] p = flow_loop file_log_ops en 1 0 ?l 0 1 ?p1"
    using assms(2-5,8) f l by (simp add: react_def onFlow_def Let_def view_sel) (simp add: descriptor_defs)
  also have "\<dots> = (None, ?q)" using acq l(1) l' w x assms(15) by (simp add: Let_def)
  finally have "react file_log_ops en 1 client_flow [] p = (None, ?q)" .
  moreover have "view_of ?q = (view_of p)\<lparr>vi_S := vi_S (view_of ?q), vi_L := vi_L (view_of ?q), vi_d := handed c msg (vi_d (view_of p)),
       vi_out := vi_out (view_of p) @ frame_out 1 (b @ EncodeDataSection body)\<rparr>"
    by (simp add: view_of_def put_out_def set_delivery_def)
  ultimately show ?thesis using b by (intro that [where q = ?q and b = b and S = "vi_S (view_of ?q)" and L = "vi_L (view_of ?q)"]) (simp_all only: view_sel)
qed

text \<open>The acceptance settles nothing: no delivery is recorded as unsettled.\<close>

lemma settle_one_view:
  assumes "no_unsettled (sv_mem (vi_d (view_of p)))"
  shows "view_of (settle_one en did p) = view_of p"
proof -
  have "snd (Settle_op ctx consumer did st (sv_mem (vi_d (view_of p)))) = sv_mem (vi_d (view_of p))" for ctx consumer st
    using assms by (cases ctx; cases "consumer_view (sv_mem (vi_d (view_of p))) consumer") (auto simp: Settle_op_def GetConsumer_def no_unsettled_def)
  then show ?thesis by (simp add: settle_one_def Let_def view_sel) (simp add: view_of_def set_mem_def set_delivery_def)
qed

lemma disposition_step:
  assumes "no_unsettled (sv_mem (vi_d (view_of p)))"
  obtains q where "react bl en 1 (heard (client_accept did)) [] p = (None, q)" "view_of q = view_of p"
proof -
  let ?perf = "heard (client_accept did)"
  have f: "Perf_Uint ?perf 1 = did" "Field ?perf 2 = VNil" "p_Descriptor ?perf = DescriptorDisposition"
    by (simp_all add: heard_def client_accept_def trimNulls_def Perf_Uint_def Field_def)
  have "disposition_loop en did did p = settle_one en did p"
  proof (cases "did = -1")
    case False
    then have "unat (did + 1) = Suc (unat did)" by (metis add.commute add_eq_0_iff unatSuc)
    then have "\<not> did + 1 \<le> did" by (simp add: word_le_nat_alt)
    then show ?thesis by (simp add: disposition_loop.simps [of en did] disposition_loop.simps [of en "did + 1"] Let_def)
  qed (subst disposition_loop.simps, simp add: Let_def)
  then have "react bl en 1 ?perf [] p = (None, settle_one en did p)"
    using f by (simp add: react_def onDisposition_def Let_def) (simp add: descriptor_defs)
  then show ?thesis by (rule that) (rule settle_one_view [OF assms])
qed

section \<open>A whole connection\<close>

text \<open>The conditions under which a server has a message for a new client on one session, the first of the queue.\<close>

definition offers :: "(nat \<Rightarrow> env) \<Rightarrow> FileLog Server \<Rightarrow> string \<Rightarrow> Message \<Rightarrow> byte list \<Rightarrow> bool" where
  "offers envs sv address msg body \<longleftrightarrow>
    (\<exists>cid sid lid a rest. peer_randomID ''conn'' (e_rnd (envs 0)) = Inr cid \<and> peer_randomID ''ssn'' (e_rnd (envs 2)) = Inr sid \<and>
       peer_randomID ''lnk'' (e_rnd (envs 3)) = Inr lid \<and> conn_Get (sr_Connections sv) cid = None \<and>
       int (conn_Count (sr_Connections sv)) < cr_max (sr_Connections sv) \<and>
       get (sr_channels (sr_Sessions sv)) (session_key cid 1) = None \<and> get (lr_handles (sr_Links sv)) (handleKey sid 0) = None \<and>
       address_view (sv_mem (sr_Delivery sv)) address = Some a \<and>
       ListReady (e_ranges (envs 4) 0) None address 1 (sv_mem (sr_Delivery sv)) = Inr (msg # rest)) \<and>
    \<not> Message_Expired msg (e_clk (envs 4) 0) \<and> fl_Read None (m_LogOffset msg) (sv_log (sr_Delivery sv)) = Inr body \<and>
    512 \<le> unat (sr_MaxFrame sv) \<and> address \<noteq> '''' \<and> length address \<le> 200 \<and>
    100 + length (m_ID msg) + length body \<le> min (unat (sr_MaxFrame sv)) 1000000 \<and>
    e_ctx (envs 3) = None \<and> e_ctx (envs 4) = None \<and> valid_ranges (e_ranges (envs 4) 0) \<and>
    mem_wf (sv_mem (sr_Delivery sv)) \<and> no_unsettled (sv_mem (sr_Delivery sv))"

lemma with_consumer_wf:
  assumes "mem_wf (sv_mem d)" "no_unsettled (sv_mem d)" "co_Unsettled c = []"
  shows "mem_wf (sv_mem (with_consumer c d))" "no_unsettled (sv_mem (with_consumer c d))"
proof -
  have "SaveConsumer None c (sv_mem d) = Inr (sv_mem (with_consumer c d))" by (simp add: SaveConsumer_def with_consumer_def)
  from same_SaveConsumer [OF this] assms show "mem_wf (sv_mem (with_consumer c d))" "no_unsettled (sv_mem (with_consumer c d))"
    by (simp_all add: same_def)
qed

lemma handed_facts:
  shows "no_unsettled (sv_mem d) \<Longrightarrow> co_Unsettled c = [] \<Longrightarrow> no_unsettled (sv_mem (handed c msg d))"
    "mem_message None (m_ID msg) (sv_mem (handed c msg d)) = Inr (acquired c msg)"
    "consumer_view (sv_mem (handed c msg d)) (co_ID c) = Some c"
  by (auto simp: handed_def no_unsettled_def mem_message_def map_simps split: if_splits)

lemma with_consumer_facts [simp]:
  "ListReady rs ctx a n (sv_mem (with_consumer c d)) = ListReady rs ctx a n (sv_mem d)" "sv_log (with_consumer c d) = sv_log d"
  "sv_seq (with_consumer c d) = sv_seq d" "consumer_view (sv_mem (with_consumer c d)) (co_ID c) = Some c"
  by (simp_all add: with_consumer_def ListReady_def map_simps)

text \<open>A session with a link for the server's messages, and the one transfer the credit allows.\<close>

lemma server_supplied:
  fixes p :: "FileLog peer"
  assumes inp: "vi_in (view_of p) = frame_out 1 b2 @ frame_out 1 b3 @ frame_out 1 b4 @ frame_out 1 b5 @ rest"
    and b: "said begin_perf b2" "length b2 \<le> 50" "said (receiver_attach address) b3" "length b3 \<le> 300" "said client_flow b4" "length b4 \<le> 50"
      "said (client_accept did) b5" "length b5 \<le> 64"
    and p: "vi_werr (view_of p) = None" "vi_state (view_of p) = StateOpen" "512 \<le> unat (vi_max (view_of p))"
      "vi_cs (view_of p) = []" "vi_si (view_of p) = []" "vi_li (view_of p) = []"
    and ids: "peer_randomID ''ssn'' (e_rnd (envs i)) = Inr sid" "peer_randomID ''lnk'' (e_rnd (envs (i + 1))) = Inr lid"
      "get (sr_channels (vi_S (view_of p))) (session_key (vi_cid (view_of p)) 1) = None" "get (lr_handles (vi_L (view_of p))) (handleKey sid 0) = None"
    and addr: "address \<noteq> ''''" "length address \<le> 200" "address_view (sv_mem (vi_d (view_of p))) address = Some a" "e_ctx (envs (i + 1)) = None"
    and env: "e_ctx (envs (i + 2)) = None" "valid_ranges (e_ranges (envs (i + 2)) 0)" "mem_wf (sv_mem (vi_d (view_of p)))" "no_unsettled (sv_mem (vi_d (view_of p)))"
    and msg: "ListReady (e_ranges (envs (i + 2)) 0) None address 1 (sv_mem (vi_d (view_of p))) = Inr (msg # others)" "\<not> Message_Expired msg (e_clk (envs (i + 2)) 0)"
      "fl_Read None (m_LogOffset msg) (sv_log (vi_d (view_of p))) = Inr body"
      "100 + length (m_ID msg) + length body \<le> unat (vi_max (view_of p))" "length (m_ID msg) + length body \<le> 1000000"
  obtains q r2 r3 r4 c where "serve file_log_ops envs i p = serve file_log_ops envs (i + 4) q"
    "said (begin_reply 1) r2" "length r2 \<le> 60" "said (attach_reply (receiver_attach address)) r3" "length r3 \<le> 300"
    "said (transfer_perf 0 (sv_seq (vi_d (view_of p)) + 1) (acquired c msg)) r4" "length r4 \<le> 60 + length (m_ID msg)"
    "vi_out (view_of q) = vi_out (view_of p) @ frame_out 1 r2 @ frame_out 1 r3 @ frame_out 1 (r4 @ EncodeDataSection body)"
    "vi_in (view_of q) = rest" "vi_werr (view_of q) = None" "vi_max (view_of q) = vi_max (view_of p)" "vi_state (view_of q) = StateOpen"
    "mem_message None (m_ID msg) (sv_mem (vi_d (view_of q))) = Inr (acquired c msg)" "m_State (acquired c msg) = StateAcquired"
    "consumer_view (sv_mem (vi_d (view_of q))) lid = Some c" "co_Connected c"
proof -
  let ?v = "view_of p" and ?in1 = "frame_out 1 b3 @ frame_out 1 b4 @ frame_out 1 b5 @ rest" and ?in2 = "frame_out 1 b4 @ frame_out 1 b5 @ rest"
  let ?c = "link_consumer lid address (e_now (envs (i + 1)))"
  have c: "co_ID ?c = lid" "co_Credit ?c \<noteq> 0" "co_Connected ?c" "co_Unsettled ?c = []" "co_Address ?c = address"
    "m_State (acquired ?c msg) = StateAcquired"
    by (simp_all add: link_consumer_def acquired_def)
  obtain q1 r2 S s where q1: "serve file_log_ops envs i p = serve file_log_ops envs (Suc i) q1" "said (begin_reply 1) r2" "length r2 \<le> 60"
    and v1: "view_of q1 = ?v\<lparr>vi_in := ?in1, vi_S := S, vi_cs := [(1, sid)], vi_si := [(1, sid)], vi_out := vi_out ?v @ frame_out 1 r2\<rparr>"
    and s: "session_Get S sid = Some s" "s_ID s = sid" "s_State s = StateMapped" "s_Links s = []" "s_IncomingWindow s = 2048" and sid: "sid \<noteq> ''''"
    by (rule server_begun [where envs = envs and i = i, OF inp b(1,2) p(1-5) ids(1,3)])
  let ?s = "s\<lparr>s_Links := [(0, lid)]\<rparr>" and ?w = "at_work (envs (i + 1)) ?in2 q1"
  have ok: "vi_werr (view_of ?w) = None" "512 \<le> unat (vi_max (view_of ?w))" "get (vi_si (view_of ?w)) 1 = Some sid"
    "session_Get (vi_S (view_of ?w)) sid = Some s" "get (lr_handles (vi_L (view_of ?w))) (handleKey sid 0) = None"
    "address_view (sv_mem (vi_d (view_of ?w))) address = Some a"
    using p ids(4) s(1) addr(3) by (simp_all add: v1)
  obtain q2 r3 L l where q2: "react file_log_ops (envs (i + 1)) 1 (heard (receiver_attach address)) [] ?w = (None, q2)"
    "said (attach_reply (receiver_attach address)) r3" "length r3 \<le> 300"
    "view_of q2 = (view_of ?w)\<lparr>vi_L := L, vi_S := session_Set ?s (vi_S (view_of ?w)), vi_li := put (link_slot 1 0) lid (vi_li (view_of ?w)),
       vi_d := with_consumer ?c (vi_d (view_of ?w)), vi_out := vi_out (view_of ?w) @ frame_out 1 r3\<rparr>"
    and l: "link_Get L lid = Some l" "l_ID l = lid" "l_State l = StateAttached" "l_Role l = RoleSender" "l_MaxMessageSize l = 16777216"
    by (rule receiver_step [OF ok(1,2) addr(2,1) ok(3,4) s(2) sid s(3,4) ids(2) ok(5) addr(4) ok(6)])
  let ?d = "with_consumer ?c (vi_d ?v)"
  have v2: "view_of q2 = ?v\<lparr>vi_in := ?in2, vi_S := session_Set ?s S, vi_cs := [(1, sid)], vi_si := [(1, sid)], vi_L := L,
      vi_li := [(link_slot 1 0, lid)], vi_d := ?d, vi_out := vi_out ?v @ frame_out 1 r2 @ frame_out 1 r3\<rparr>"
    using p by (simp add: q2(4) v1)
  let ?w = "at_work (envs (i + 2)) (frame_out 1 b5 @ rest) q2"
  have ok: "vi_werr (view_of ?w) = None" "get (vi_si (view_of ?w)) 1 = Some sid" "session_Get (vi_S (view_of ?w)) sid = Some ?s"
    "get (vi_li (view_of ?w)) (link_slot 1 0) = Some lid" "link_Get (vi_L (view_of ?w)) lid = Some l" "vi_d (view_of ?w) = ?d" "vi_max (view_of ?w) = vi_max ?v"
    using p s l(1) by (simp_all add: v2 session_Get_Set)
  note wf = with_consumer_wf [OF env(3,4) c(4)]
  obtain q3 r4 S' L' where q3: "react file_log_ops (envs (i + 2)) 1 client_flow [] ?w = (None, q3)"
    "said (transfer_perf 0 (sv_seq ?d + 1) (acquired ?c msg)) r4" "length r4 \<le> 60 + length (m_ID msg)"
    "view_of q3 = (view_of ?w)\<lparr>vi_S := S', vi_L := L', vi_d := handed ?c msg ?d,
       vi_out := vi_out (view_of ?w) @ frame_out 1 (r4 @ EncodeDataSection body)\<rparr>"
    by (rule flow_step [OF ok(1-5) l(2-5) c(1), unfolded ok(6,7) c(5), where msg = msg and rest = others and body = body,
          OF _ c(2-4) env(1,2) wf(1)]) (use msg c(1) with_consumer_facts(4) [of ?c "vi_d ?v"] in simp_all)
  have v3: "view_of q3 = (view_of q2)\<lparr>vi_in := frame_out 1 b5 @ rest, vi_S := S', vi_L := L', vi_d := handed ?c msg ?d,
      vi_out := vi_out (view_of q2) @ frame_out 1 (r4 @ EncodeDataSection body)\<rparr>"
    by (simp add: q3(4))
  let ?w = "at_work (envs (i + 3)) rest q3"
  have "no_unsettled (sv_mem (vi_d (view_of ?w)))" using handed_facts(1) [OF wf(2) c(4)] by (simp add: v3)
  then obtain q4 where q4: "react file_log_ops (envs (i + 3)) 1 (heard (client_accept did)) [] ?w = (None, q4)" "view_of q4 = view_of ?w"
    by (rule disposition_step)
  have "serve file_log_ops envs i p = serve file_log_ops envs (Suc i) q1" by (rule q1(1))
  also have "\<dots> = serve file_log_ops envs (Suc (Suc i)) q2"
    by (rule round_on [OF b(3) _ _ refl, where payload = "[]" and rest = ?in2]) (use b(4) p q2 in \<open>simp_all add: v2 v1\<close>)
  also have "\<dots> = serve file_log_ops envs (Suc (Suc (Suc i))) q3"
    by (rule round_on [OF b(5) _ _ heard_perfs(6), where payload = "[]" and rest = "frame_out 1 b5 @ rest"]) (use b(6) p q3 in \<open>simp_all add: v3 v2\<close>)
  also have "\<dots> = serve file_log_ops envs (Suc (Suc (Suc (Suc i)))) q4"
    by (rule round_on [OF b(7) _ _ refl, where payload = "[]" and rest = rest]) (use b(8) p q4 in \<open>simp_all add: v3 v2 numeral_3_eq_3\<close>)
  finally have run: "serve file_log_ops envs i p = serve file_log_ops envs (i + 4) q4" by (simp add: numeral_eq_Suc)
  have v4: "view_of q4 = (view_of q3)\<lparr>vi_in := rest\<rparr>" using q4(2) by simp
  have "vi_d (view_of q4) = handed ?c msg ?d" by (simp add: v4 v3)
  with run q3(2,3) show ?thesis
    by (intro that [OF run q1(2,3) q2(2,3), where c = ?c and ?r4.0 = r4])
      (use p handed_facts(2,3) [where c = ?c and msg = msg and d = ?d] c in \<open>simp_all add: v4 v3 v2\<close>)
qed

lemma server_consumed:
  assumes adm: "offers envs sv address msg body"
    and b: "said client_open b1" "length b1 \<le> 50" "said begin_perf b2" "length b2 \<le> 50" "said (receiver_attach address) b3" "length b3 \<le> 300"
      "said client_flow b4" "length b4 \<le> 50" "said (client_accept did) b5" "length b5 \<le> 64" "said (bare DescriptorClose) b6" "length b6 \<le> 50"
  obtains sv' nc' p1 r1 r2 r3 r4 r5 c where
    "handle file_log_ops envs \<lparr>nc_in = stream [b1, b2, b3, b4, b5, b6], nc_out = [], nc_werr = None, nc_remote = remote\<rparr> sv = (None, sv', nc')"
    "nc_out nc' = AMQPHeader @ frame_out 0 r1 @ frame_out 1 r2 @ frame_out 1 r3 @ frame_out 1 (r4 @ EncodeDataSection body) @ frame_out 0 r5"
    "said p1 r1" "length r1 \<le> 60" "said (begin_reply 1) r2" "length r2 \<le> 60" "said (attach_reply (receiver_attach address)) r3" "length r3 \<le> 300"
    "said (transfer_perf 0 (sv_seq (sr_Delivery sv) + 1) (acquired c msg)) r4" "length r4 \<le> 60 + length (m_ID msg)"
    "said (bare DescriptorClose) r5" "length r5 \<le> 50"
    "mem_message None (m_ID msg) (sv_mem (sr_Delivery sv')) = Inr (acquired c msg)" "m_State (acquired c msg) = StateAcquired"
    "\<exists>k. consumer_view (sv_mem (sr_Delivery sv')) k = Some c" "co_Connected c"
proof -
  obtain cid sid lid a others where ids: "peer_randomID ''conn'' (e_rnd (envs 0)) = Inr cid" "peer_randomID ''ssn'' (e_rnd (envs 2)) = Inr sid"
      "peer_randomID ''lnk'' (e_rnd (envs 3)) = Inr lid" "conn_Get (sr_Connections sv) cid = None"
      "int (conn_Count (sr_Connections sv)) < cr_max (sr_Connections sv)"
      "get (sr_channels (sr_Sessions sv)) (session_key cid 1) = None" "get (lr_handles (sr_Links sv)) (handleKey sid 0) = None"
      "address_view (sv_mem (sr_Delivery sv)) address = Some a"
    and msg: "ListReady (e_ranges (envs 4) 0) None address 1 (sv_mem (sr_Delivery sv)) = Inr (msg # others)"
      "\<not> Message_Expired msg (e_clk (envs 4) 0)" "fl_Read None (m_LogOffset msg) (sv_log (sr_Delivery sv)) = Inr body"
    and mx: "512 \<le> unat (sr_MaxFrame sv)" "100 + length (m_ID msg) + length body \<le> unat (sr_MaxFrame sv)" "100 + length (m_ID msg) + length body \<le> 1000000"
    and addr: "address \<noteq> ''''" "length address \<le> 200"
    and env: "e_ctx (envs 3) = None" "e_ctx (envs 4) = None" "valid_ranges (e_ranges (envs 4) 0)" "mem_wf (sv_mem (sr_Delivery sv))"
      "no_unsettled (sv_mem (sr_Delivery sv))"
    using adm unfolding offers_def by auto
  let ?mid = "frame_out 1 b2 @ frame_out 1 b3 @ frame_out 1 b4 @ frame_out 1 b5" and ?did = "sv_seq (sr_Delivery sv) + 1"
  define P :: "byte list \<Rightarrow> FileLog Service \<Rightarrow> bool" where "P out d \<longleftrightarrow> (\<exists>r2 r3 r4 c.
      out = frame_out 1 r2 @ frame_out 1 r3 @ frame_out 1 (r4 @ EncodeDataSection body) \<and> said (begin_reply 1) r2 \<and> length r2 \<le> 60 \<and>
      said (attach_reply (receiver_attach address)) r3 \<and> length r3 \<le> 300 \<and>
      said (transfer_perf 0 ?did (acquired c msg)) r4 \<and> length r4 \<le> 60 + length (m_ID msg) \<and>
      mem_message None (m_ID msg) (sv_mem d) = Inr (acquired c msg) \<and> m_State (acquired c msg) = StateAcquired \<and>
      consumer_view (sv_mem d) lid = Some c \<and> co_Connected c)" for out d
  have mid: "\<exists>q' out. serve file_log_ops envs 2 q = serve file_log_ops envs 6 q' \<and> vi_out (view_of q') = out0 @ out \<and> vi_in (view_of q') = frame_out 0 b6 \<and>
        vi_werr (view_of q') = None \<and> vi_max (view_of q') = vi_max (view_of q) \<and> vi_state (view_of q') = StateOpen \<and> P out (vi_d (view_of q'))"
    if q: "view_of q = \<lparr>vi_in = ?mid @ frame_out 0 b6, vi_out = out0, vi_werr = None,
        vi_max = (if 1048576 < sr_MaxFrame sv then 1048576 else sr_MaxFrame sv), vi_state = StateOpen, vi_cid = cid, vi_cs = [], vi_si = [], vi_li = [],
        vi_S = sr_Sessions sv, vi_L = sr_Links sv, vi_d = sr_Delivery sv\<rparr>" for q out0
  proof -
    have i: "(2::nat) + 1 = 3" "(2::nat) + 2 = 4" "(2::nat) + 4 = 6" by simp_all
    have okq: "vi_in (view_of q) = frame_out 1 b2 @ frame_out 1 b3 @ frame_out 1 b4 @ frame_out 1 b5 @ frame_out 0 b6"
      "vi_werr (view_of q) = None" "vi_state (view_of q) = StateOpen" "512 \<le> unat (vi_max (view_of q))"
      "vi_cs (view_of q) = []" "vi_si (view_of q) = []" "vi_li (view_of q) = []"
      "get (sr_channels (vi_S (view_of q))) (session_key (vi_cid (view_of q)) 1) = None" "get (lr_handles (vi_L (view_of q))) (handleKey sid 0) = None"
      "100 + length (m_ID msg) + length body \<le> unat (vi_max (view_of q))" "length (m_ID msg) + length body \<le> 1000000"
      and vq: "vi_d (view_of q) = sr_Delivery sv" "vi_out (view_of q) = out0"
      using mx ids(6,7) by (auto simp: q)
    show ?thesis
      by (rule server_supplied [where p = q and i = 2 and a = a and msg = msg and others = others and body = body, unfolded i vq,
            OF okq(1) b(3-10) okq(2-7) ids(2,3) okq(8,9) addr ids(8) env msg okq(10,11)])
        (unfold P_def, intro exI conjI, (assumption | rule refl | simp)+)
  qed
  show ?thesis
  proof (rule whole_connection [OF ids(1,4,5) mx(1) b(1,2,11,12) mid])
    fix sv' nc' p1 r1 r5 out
    assume h: "handle file_log_ops envs \<lparr>nc_in = AMQPHeader @ frame_out 0 b1 @ ?mid @ frame_out 0 b6, nc_out = [], nc_werr = None, nc_remote = remote\<rparr> sv =
        (None, sv', nc')" "nc_out nc' = AMQPHeader @ frame_out 0 r1 @ out @ frame_out 0 r5"
      "said p1 r1" "length r1 \<le> 60" "said (bare DescriptorClose) r5" "length r5 \<le> 50" "P out (sr_Delivery sv')"
    then obtain r2 r3 r4 c where o: "out = frame_out 1 r2 @ frame_out 1 r3 @ frame_out 1 (r4 @ EncodeDataSection body)"
      and r: "said (begin_reply 1) r2" "length r2 \<le> 60" "said (attach_reply (receiver_attach address)) r3" "length r3 \<le> 300"
        "said (transfer_perf 0 ?did (acquired c msg)) r4" "length r4 \<le> 60 + length (m_ID msg)"
        "mem_message None (m_ID msg) (sv_mem (sr_Delivery sv')) = Inr (acquired c msg)" "m_State (acquired c msg) = StateAcquired"
        "consumer_view (sv_mem (sr_Delivery sv')) lid = Some c" "co_Connected c"
      unfolding P_def by blast
    show thesis by (rule that [OF _ _ h(3,4) r(1-6) h(5,6) r(7,8) exI [of _ lid] r(10)]) (use h(1,2) o r(9) in \<open>simp_all add: stream_six\<close>)
  qed
qed

section \<open>The client's side\<close>

lemma client_consumer_session:
  assumes "said p1 r1" "length r1 \<le> 60" "said (begin_reply 1) r2" "length r2 \<le> 60" "said p3 r3" "length r3 \<le> 300"
    and "said (transfer_perf 0 did msg) r4" "length r4 \<le> 60 + length (m_ID msg)" "said p5 r5" "length r5 \<le> 50"
    and "100 + length (m_ID msg) + length body \<le> 1000000"
    and "said client_open b1" "length b1 \<le> 50" "said begin_perf b2" "length b2 \<le> 50" "said (receiver_attach address) b3" "length b3 \<le> 300"
    and "said client_flow b4" "length b4 \<le> 50" "said (client_accept did) b5" "length b5 \<le> 64" "said (bare DescriptorClose) b6" "length b6 \<le> 50"
  shows "\<exists>c. client_run (Inr \<lparr>nc_in = AMQPHeader @ frame_out 0 r1 @ frame_out 1 r2 @ frame_out 1 r3 @ frame_out 1 (r4 @ EncodeDataSection body) @ frame_out 0 r5,
      nc_out = [], nc_werr = None, nc_remote = remote\<rparr>) address flag ''consume'' n = (None, Some c) \<and>
    cl_printed c = [[''consumed'', address, dec (unat did), string_of_bytes body]] \<and> nc_out (cl_conn c) = stream [b1, b2, b3, b4, b5, b6]"
proof -
  let ?pay = "EncodeDataSection body"
  have pay: "length ?pay \<le> 10 + length body" using encodeBytes_length [of "0xa0" "0xb0" body] by (simp add: EncodeDataSection_def)
  have data: "DecodeDataSection ?pay = Inr body" using assms(11) by (intro DataSection_roundtrip) simp
  let ?in = "\<lambda>n. concat (drop n [AMQPHeader, frame_out 0 r1, frame_out 1 r2, frame_out 1 r3, frame_out 1 (r4 @ ?pay), frame_out 0 r5])"
  define c0 where "c0 = \<lparr>cl_conn = \<lparr>nc_in = ?in 0, nc_out = [], nc_werr = None, nc_remote = remote\<rparr>, cl_max = 1048576, cl_printed = []\<rparr>"
  define c1 where "c1 = left_in (?in 1) (said_out AMQPHeader c0)"
  define c2 where "c2 = left_in (?in 2) (said_out (frame_out 0 b1) c1)"
  define c3 where "c3 = left_in (?in 3) (said_out (frame_out 1 b2) c2)"
  define c4 where "c4 = left_in (?in 4) (said_out (frame_out 1 b3) c3)"
  define c5 where "c5 = said_out (frame_out 1 b4) c4"
  define c6 where "c6 = printLine [''consumed'', address, dec (unat did), string_of_bytes body] (left_in (?in 5) c5)"
  define c7 where "c7 = said_out (frame_out 1 b5) c6"
  define c8 where "c8 = left_in (?in 6) (said_out (frame_out 0 b6) c7)"
  note cs = c0_def c1_def c2_def c3_def c4_def c5_def c6_def c7_def c8_def
  have opened: "client_run (Inr (cl_conn c0)) address flag ''consume'' n = map_prod id Some (client_consume address c2)"
    using client_opened [OF assms(12,13,1,2), of "?in 2" remote address flag "''consume''" n] by (simp add: cs)
  have "p_Descriptor (heard (begin_reply 1)) = DescriptorBegin" by (simp add: heard_perfs begin_reply_def)
  then have begun: "client_begin 1 c2 = (None, c3)"
    using exchange [OF assms(14) _ assms(3), of "[]" c2 1 "?in 3"] assms(4,15) by (simp add: client_begin_def client_send_def cs)
  have attached: "andThen (client_send 1 (receiver_attach address) c3) (\<lambda>c. onReply (receive c) g) = g (heard p3) c4" for g
    using exchange [OF assms(16) _ assms(5), of "[]" c3 1 "?in 4"] assms(6,17) by (simp add: client_send_def cs)
  have granted: "client_send 1 client_flow c4 = (None, c5)"
    using client_sends [OF assms(18), of c4 "[]" 1] assms(19) by (simp add: client_send_def cs)
  obtain f where f: "receiveFrame c5 = (Inr (f, transfer_perf 0 did msg, length r4), left_in (?in 5) c5)" "f_Body f = r4 @ ?pay"
    using client_hears(1) [OF assms(7), of c5 ?pay 1 "?in 5"] assms(8,11) pay by (auto simp: cs heard_transfer)
  have t: "p_Descriptor (transfer_perf 0 did msg) = DescriptorTransfer" "Perf_Uint (transfer_perf 0 did msg) 1 = did"
    by (simp_all add: transfer_perf_def Perf_Uint_def Field_def)
  have accepts: "client_send 1 (client_accept did) c6 = (None, c7)"
    using client_sends [OF assms(20), of c6 "[]" 1] assms(21) by (simp add: client_send_def cs)
  have closed: "andThen (client_send 0 (bare DescriptorClose) c7) (\<lambda>c. onReply (receive c) g) = g (heard p5) c8" for g
    using exchange [OF assms(22) _ assms(9), of "[]" c7 0 "?in 6"] assms(10,23) by (simp add: client_send_def cs)
  have c6: "printLine [''consumed'', address, dec (unat did), string_of_bytes body] (left_in (frame_out 0 r5) c5) = c6" by (simp add: c6_def)
  have eats: "client_consume address c2 = (None, c8)"
    unfolding client_consume_def begun client_flow_simps attached granted
    using closed [of "\<lambda>_ c. (None, c)"] by (simp add: f t data accepts Let_def c6)
  have "client_run (Inr (cl_conn c0)) address flag ''consume'' n = (None, Some c8)" using opened eats by simp
  moreover have "cl_conn c0 = \<lparr>nc_in = AMQPHeader @ frame_out 0 r1 @ frame_out 1 r2 @ frame_out 1 r3 @ frame_out 1 (r4 @ ?pay) @ frame_out 0 r5,
      nc_out = [], nc_werr = None, nc_remote = remote\<rparr>" by (simp add: c0_def)
  moreover have "cl_printed c8 = [[''consumed'', address, dec (unat did), string_of_bytes body]]" by (simp add: cs printLine_def)
  moreover have "nc_out (cl_conn c8) = stream [b1, b2, b3, b4, b5, b6]" by (simp add: cs stream_six)
  ultimately show ?thesis by auto
qed

text \<open>
  C14: the client and the broker work together, consuming. For the client and a server that has a place for
  it and a message at the address there is a conversation on which the two agree, as in the publishing
  case: each side writes what the other reads, the client and \<open>handle\<close> end without an error, and the
  client prints the body of the first message of the queue, under the next delivery number, and accepts
  it. But the broker does not settle it: when the connection is over the
  message is still stored as acquired, and the consumer of the link is still connected.
\<close>

theorem client_consumes:
  assumes "offers envs sv address msg body"
  shows "\<exists>from_server c sv' nc' msg' consumer k.
    client_run (Inr \<lparr>nc_in = from_server, nc_out = [], nc_werr = None, nc_remote = server\<rparr>) address flag ''consume'' n = (None, Some c) \<and>
    handle file_log_ops envs \<lparr>nc_in = nc_out (cl_conn c), nc_out = [], nc_werr = None, nc_remote = remote\<rparr> sv = (None, sv', nc') \<and>
    nc_out nc' = from_server \<and>
    cl_printed c = [[''consumed'', address, dec (unat (sv_seq (sr_Delivery sv) + 1)), string_of_bytes body]] \<and>
    mem_message None (m_ID msg) (sv_mem (sr_Delivery sv')) = Inr msg' \<and> m_State msg' = StateAcquired \<and>
    GetConsumer None k (sv_mem (sr_Delivery sv')) = Inr consumer \<and> co_Connected consumer"
proof -
  let ?did = "sv_seq (sr_Delivery sv) + 1"
  have addr: "length address \<le> 200" "100 + length (m_ID msg) + length body \<le> 1000000" using assms by (auto simp: offers_def)
  obtain b1 b2 b3 b4 b5 b6 where b: "said client_open b1" "length b1 \<le> 50" "said begin_perf b2" "length b2 \<le> 50"
    "said (receiver_attach address) b3" "length b3 \<le> 300" "said client_flow b4" "length b4 \<le> 50"
    "said (client_accept ?did) b5" "length b5 \<le> 64" "said (bare DescriptorClose) b6" "length b6 \<le> 50"
    using client_said receiver_said(1) [OF addr(1)] accept_said by blast
  obtain sv' nc' p1 r1 r2 r3 r4 r5 consumer where s:
    "handle file_log_ops envs \<lparr>nc_in = stream [b1, b2, b3, b4, b5, b6], nc_out = [], nc_werr = None, nc_remote = remote\<rparr> sv = (None, sv', nc')"
    "nc_out nc' = AMQPHeader @ frame_out 0 r1 @ frame_out 1 r2 @ frame_out 1 r3 @ frame_out 1 (r4 @ EncodeDataSection body) @ frame_out 0 r5"
    "said p1 r1" "length r1 \<le> 60" "said (begin_reply 1) r2" "length r2 \<le> 60" "said (attach_reply (receiver_attach address)) r3" "length r3 \<le> 300"
    "said (transfer_perf 0 ?did (acquired consumer msg)) r4" "length r4 \<le> 60 + length (m_ID msg)"
    "said (bare DescriptorClose) r5" "length r5 \<le> 50"
    "mem_message None (m_ID msg) (sv_mem (sr_Delivery sv')) = Inr (acquired consumer msg)" "m_State (acquired consumer msg) = StateAcquired"
    "\<exists>k. consumer_view (sv_mem (sr_Delivery sv')) k = Some consumer" "co_Connected consumer"
    by (rule server_consumed [OF assms b])
  obtain k where k: "GetConsumer None k (sv_mem (sr_Delivery sv')) = Inr consumer" using s(15) by (auto simp: consumers.fetch_Inr)
  obtain c where "client_run (Inr \<lparr>nc_in = nc_out nc', nc_out = [], nc_werr = None, nc_remote = server\<rparr>) address flag ''consume'' n = (None, Some c)"
    "cl_printed c = [[''consumed'', address, dec (unat ?did), string_of_bytes body]]" "nc_out (cl_conn c) = stream [b1, b2, b3, b4, b5, b6]"
    using client_consumer_session [where msg = "acquired consumer msg" and body = body and remote = server and flag = flag and n = n, OF s(3-9) _ s(11,12) _ b]
      s(2,10) addr(2) by auto
  with s(1,13,14,16) k show ?thesis
    by (intro exI [of _ "nc_out nc'"] exI [of _ c] exI [of _ sv'] exI [of _ nc'] exI [of _ "acquired consumer msg"] exI [of _ consumer] exI [of _ k]) simp
qed

section \<open>Witnesses\<close>

definition sample_letter :: Message where
  "sample_letter = (sample_message ''m1'' 1 5)\<lparr>m_ExpiresAt := 100\<rparr>"

definition sample_letters :: FileLog where
  "sample_letters = snd (projr (fl_Append None ''m1'' [104, 105] \<lparr>fl_data = [], fl_offsets = []\<rparr>))"

definition sample_post :: "FileLog Server" where
  "sample_post = sample_shop\<lparr>sr_Delivery := NewDeliveryService (sample_queue\<lparr>mm_messages := [(''m1'', sample_letter)]\<rparr>) sample_letters\<rparr>"

lemma sample_letters: "log_rep sample_letters [(''m1'', [104, 105])]"
proof -
  have "log_rep \<lparr>fl_data = [], fl_offsets = []\<rparr> []" "log_id ''m1''" by (simp_all add: log_rep_def log_id_def byte_of_char_def)
  from fl_Append_rep [OF this, of "[104, 105]"] show ?thesis by (auto simp: sample_letters_def)
qed

lemma sample_offers: "offers (\<lambda>_. sample_clock) sample_post ''jobs'' sample_letter [104, 105]"
proof -
  let ?m = "sample_queue\<lparr>mm_messages := [(''m1'', sample_letter)]\<rparr>"
  have m: "sv_mem (sr_Delivery sample_post) = ?m" "sv_log (sr_Delivery sample_post) = sample_letters"
    by (simp_all add: sample_post_def NewDeliveryService_def)
  have fields: "sr_Connections sample_post = sr_Connections sample_shop" "sr_Sessions sample_post = sr_Sessions sample_shop"
    "sr_Links sample_post = sr_Links sample_shop" "sr_MaxFrame sample_post = 65536"
    by (simp_all add: sample_post_def sample_shop_def)
  have a: "address_view ?m ''jobs'' = Some (sample_address ''jobs'' KindQueue)" by (simp add: sample_queue_def)
  have wf: "mem_wf ?m" "no_unsettled ?m" using topology_sample_queue
    by (simp_all add: topology_ok_def mem_wf_def keyed_def wf_map_def sample_letter_def sample_message_def no_unsettled_def sample_queue_def NewMemory_def)
  have l: "ListReady id_ranges None ''jobs'' 1 ?m = Inr [sample_letter]" "\<not> Message_Expired sample_letter 10"
    by (simp_all add: ListReady_def id_ranges_def limit_to_def is_ready_def sample_letter_def sample_message_def Message_Expired_def)
  have "m_LogOffset sample_letter = 0" "m_ID sample_letter = ''m1''" by (simp_all add: sample_letter_def sample_message_def)
  moreover have "fl_Read None 0 sample_letters = Inr [104, 105]" using fl_Read_rep [OF sample_letters] by simp
  moreover have "\<exists>cid sid lid a rest. peer_randomID ''conn'' (e_rnd sample_clock) = Inr cid \<and> peer_randomID ''ssn'' (e_rnd sample_clock) = Inr sid \<and>
       peer_randomID ''lnk'' (e_rnd sample_clock) = Inr lid \<and> conn_Get (sr_Connections sample_shop) cid = None \<and>
       int (conn_Count (sr_Connections sample_shop)) < cr_max (sr_Connections sample_shop) \<and>
       get (sr_channels (sr_Sessions sample_shop)) (session_key cid 1) = None \<and> get (lr_handles (sr_Links sample_shop)) (handleKey sid 0) = None \<and>
       address_view ?m ''jobs'' = Some a \<and> ListReady id_ranges None ''jobs'' 1 ?m = Inr (sample_letter # rest)"
    using sample_ids sample_room(1,2) sample_room(3) sample_room(4) a l(1) by blast
  ultimately show ?thesis
    unfolding offers_def m fields sample_clock_fields using wf l(2) valid_id_ranges by simp
qed

theorem client_consumes_witness:
  "\<exists>from_server c sv' nc' msg'.
    client_run (Inr \<lparr>nc_in = from_server, nc_out = [], nc_werr = None, nc_remote = ''''\<rparr>) ''jobs'' '''' ''consume'' 1 = (None, Some c) \<and>
    handle file_log_ops (\<lambda>_. sample_clock) \<lparr>nc_in = nc_out (cl_conn c), nc_out = [], nc_werr = None, nc_remote = ''''\<rparr> sample_post = (None, sv', nc') \<and>
    nc_out nc' = from_server \<and> cl_printed c = [[''consumed'', ''jobs'', ''1'', ''hi'']] \<and>
    mem_message None ''m1'' (sv_mem (sr_Delivery sv')) = Inr msg' \<and> m_State msg' = StateAcquired"
proof -
  have "dec (unat (0 + 1 :: 32 word)) = ''1''" "char_of_byte 104 = CHR ''h''" "char_of_byte 105 = CHR ''i''" by code_simp+
  then have "m_ID sample_letter = ''m1''" "dec (unat (sv_seq (sr_Delivery sample_post) + 1)) = ''1''" "string_of_bytes [104, 105] = ''hi''"
    by (simp_all add: sample_letter_def sample_message_def sample_post_def NewDeliveryService_def)
  from client_consumes [OF sample_offers, of "''''" "''''" 1 "''''", unfolded this] show ?thesis by blast
qed

end
