(* ===== verification/GrpcCheck.thy ===== *)
theory GrpcCheck
  imports Grpc
begin

text \<open>
  The gRPC client (\<open>cmd/grpc-check/main.go\<close>): it calls the health check and the depth of one address and
  prints both answers. Dialling, \<open>structpb.NewStruct\<close> and \<open>Invoke\<close> belong to the gRPC library and are
  parameters; a panic is an error here. Against the management server, \<open>Invoke\<close> is the dispatch of the
  method with that name.
\<close>

section \<open>The client\<close>

definition check_address :: "string \<Rightarrow> string" where
  "check_address v = (if v \<noteq> '''' then v else ''127.0.0.1:19096'')"

text \<open>\<open>invoke method metadata in\<close> is the call on the connection, \<open>new_struct\<close> the conversion of the fields.\<close>

definition check_call :: "(string \<Rightarrow> (string \<times> string) list \<Rightarrow> 'i \<Rightarrow> 's \<Rightarrow> ('e + 'o) \<times> 's) \<Rightarrow> ((string \<times> string) list \<Rightarrow> 'e + 'i) \<Rightarrow>
    string \<Rightarrow> (string \<times> string) list \<Rightarrow> 's \<Rightarrow> ('e + 'o) \<times> 's" where
  "check_call invoke new_struct meth fs s =
    (case new_struct fs of
       Inl e \<Rightarrow> (Inl e, s)
     | Inr inp \<Rightarrow> invoke meth [(''authorization'', ''Bearer change-me'')] inp s)"

definition grpc_check :: "(string \<Rightarrow> 'e option) \<Rightarrow> (string \<Rightarrow> (string \<times> string) list \<Rightarrow> 'i \<Rightarrow> 's \<Rightarrow> ('e + 'o) \<times> 's) \<Rightarrow>
    ((string \<times> string) list \<Rightarrow> 'e + 'i) \<Rightarrow> string \<Rightarrow> 's \<Rightarrow> ('e + 'o \<times> 'o) \<times> 's" where
  "grpc_check dial invoke new_struct v s =
    (case dial (check_address v) of
       Some e \<Rightarrow> (Inl e, s)
     | None \<Rightarrow>
       (case check_call invoke new_struct ''/broker.v1.Management/Health'' [] s of
          (Inl e, s) \<Rightarrow> (Inl e, s)
        | (Inr hp, s) \<Rightarrow>
          (case check_call invoke new_struct ''/broker.v1.Management/GetDepth'' [(''name'', ''plain.q'')] s of
             (Inl e, s) \<Rightarrow> (Inl e, s)
           | (Inr dp, s) \<Rightarrow> (Inr (hp, dp), s))))"

section \<open>Against the management server\<close>

definition grpc_methods :: "grpc_method list" where
  "grpc_methods = [MHealth, MCreateAddress, MGetDepth, MPauseAddress, MListConnections, MGetTransaction]"

definition invoke_server :: "genv \<Rightarrow> grpc_Server \<Rightarrow> grpc_error \<Rightarrow> string \<Rightarrow> (string \<times> string) list \<Rightarrow> pstruct \<Rightarrow> Runtime \<Rightarrow>
    (grpc_error + payload) \<times> Runtime" where
  "invoke_server en srv unknown name md inp rt =
    (case find (\<lambda>m. FullMethod m = name) grpc_methods of
       None \<Rightarrow> (Inl unknown, rt)
     | Some m \<Rightarrow> dispatch en srv (map snd (filter (\<lambda>kv. fst kv = ''authorization'') md)) (Inr inp) m rt)"

lemma invoke_named:
  "invoke_server en srv unknown ''/broker.v1.Management/Health'' md inp rt =
     dispatch en srv (map snd (filter (\<lambda>kv. fst kv = ''authorization'') md)) (Inr inp) MHealth rt"
  "invoke_server en srv unknown ''/broker.v1.Management/GetDepth'' md inp rt =
     dispatch en srv (map snd (filter (\<lambda>kv. fst kv = ''authorization'') md)) (Inr inp) MGetDepth rt"
  by (simp_all add: invoke_server_def grpc_methods_def FullMethod_def)

text \<open>
  The check on a running broker whose answers convert: it comes through, and changes nothing, exactly
  when the server admits everyone or its token is the one written into the client (and the context of
  the call has not ended); it prints the node and the depth of the address \<open>plain.q\<close> then, whether that
  address exists or not.
\<close>

lemma grpc_check_exact:
  assumes "\<And>a. dial a = None" "\<And>fs. new_struct fs = Inr (map (\<lambda>(k, v). (k, PString v)) fs)" "\<And>v. ge_bad en v = None"
    and "grpc_check dial (invoke_server en srv unknown) new_struct v rt = (r, rt')"
  shows "rt' = rt \<and> (\<forall>h d. r = Inr (h, d) \<longleftrightarrow> (gs_AllowAnonymous srv \<or> gs_Token srv = ''change-me'') \<and>
    h = PReady (rt_NodeID rt) \<and> (\<exists>n. Depth_op (ge_ctx en) ''plain.q'' (rt_Memory rt) = Inr n \<and> d = PDepth ''plain.q'' n))"
proof -
  have token: "TrimPrefix ''Bearer change-me'' ''Bearer '' = ''change-me''" by (simp add: TrimPrefix_def)
  have "dispatch en srv [''Bearer change-me''] (Inr inp) MHealth rt = (Inr (PReady (rt_NodeID rt)), rt)" for inp
    using health_suffix [of MHealth] assms(3) by (simp add: dispatch_def interceptor_def grpc_Health_def toStruct_def)
  moreover have "dispatch en srv [''Bearer change-me''] (Inr [(''name'', PString ''plain.q'')]) MGetDepth rt =
      (if gs_AllowAnonymous srv \<or> gs_Token srv = ''change-me'' then
         (case Depth_op (ge_ctx en) ''plain.q'' (rt_Memory rt) of Inl e \<Rightarrow> Inl (NotFound, e) | Inr n \<Rightarrow> Inr (PDepth ''plain.q'' n), rt)
       else (Inl (Unauthenticated, New ''valid bearer token required''), rt))"
    using health_suffix [of MGetDepth] token assms(3)
    by (auto simp: dispatch_def interceptor_def grpc_GetDepth_def stringField_def toStruct_def Let_def split: sum.split)
  ultimately show ?thesis
    using assms(1,2,4) by (auto simp: grpc_check_def check_call_def invoke_named split: if_splits sum.splits)
qed

end
