(* ===== verification/Spec2Isabelle.thy ===== *)
theory Spec2Isabelle
  imports Run PostgresProps ClientConsume GrpcCheck
begin

text \<open>
  A verification development for \<open>amqp-broker-core\<close>, an AMQP 1.0 message broker core in Go
  (\<open>src/internal\<close>, \<open>src/cmd\<close>).

  \<^bold>\<open>The program.\<close> A client opens a TCP connection to the AMQP server (\<open>amqp/adapter\<close>), which reads frames
  (\<open>amqp/domain\<close>, \<open>amqp/application\<close>), keeps connections, sessions and links in registries and turns
  transfers, flows and dispositions into calls of the delivery service. The delivery service
  (\<open>delivery\<close>) routes messages over addresses and bindings (\<open>address\<close>, \<open>routing\<close>), stores them in the
  memory store and their bodies in an append-only log (\<open>storage/infrastructure\<close>), hands them to
  consumers, and dead-letters what expires or overflows. Transactions (\<open>transaction\<close>) stage
  publications. The cluster service (\<open>cluster\<close>) leases shards of the address space. The runtime
  (\<open>broker\<close>) puts the components together on a data directory, from a configuration (\<open>config\<close>); a worker
  (\<open>worker\<close>) sweeps; an HTTP and a gRPC interface (\<open>platform\<close>) administer it all.

  \<^bold>\<open>The theories.\<close> Each models the files it names; an operation keeps the name of its Go function, with a
  prefix where the name is taken (\<open>mem_\<close>, \<open>tx_\<close>, \<open>conn_\<close>, \<open>http_\<close>, \<open>grpc_\<close> \<dots>), and record fields carry a
  prefix of their type.
  \<^item> \<open>Prelude\<close>: Go's basic types, errors as values, maps as association lists, map iteration orders,
    big-endian numbers, decimal and hexadecimal text. \<open>Text\<close>: \<open>strings\<close> functions.
  \<^item> \<open>Frame\<close>, \<open>Codec\<close> (\<open>amqp/domain\<close>, \<open>amqp/application\<close>): frames and their limits, performatives, the
    value decoder and encoder, reading and writing of frames, the data section. Round trips, bounds,
    no panic on any input, and the recursive equations of the decoder.
  \<^item> \<open>Connection\<close>, \<open>Registry\<close>, \<open>Session\<close>, \<open>Link\<close>: the state machines, windows and credit, and the registries.
    The interface of a registry with a secondary index is the locale \<open>registry\<close>, interpreted on both.
  \<^item> \<open>Address\<close>, \<open>AddressService\<close>, \<open>PathMatch\<close>, \<open>Routing\<close>: addresses and bindings, their administration, the
    matchers and the router, with a declarative meaning of patterns and of routes.
  \<^item> \<open>Message\<close>, \<open>Transaction\<close>: messages, consumers, transactions. \<open>Repository\<close>: the interface of the
    repositories as locales. \<open>Store\<close> (\<open>memory*.go\<close>, \<open>snapshot.go\<close>): the memory store, its
    interpretations, queues, snapshot and restore. \<open>BodyLog\<close> (\<open>filelog.go\<close>, \<open>memorylog.go\<close>): both logs
    with the locale \<open>body_log\<close>.
  \<^item> \<open>Delivery\<close>, \<open>DeliveryProps\<close>, \<open>ConsumeProps\<close>: the delivery service; publishing and the length limit;
    acquiring, settling, sweeping and replaying, and sequences of all requests.
  \<^item> \<open>TxService\<close>: staging, commit, roll-back and expiry of transactions. \<open>Cluster\<close>: leases and fencing.
  \<^item> \<open>Peer\<close> (\<open>amqp/adapter/server.go\<close>): a connection, with its handshake, one handler per performative, the
    frame loop and the clean-up. \<open>PeerProps\<close>: what every handler keeps. \<open>PeerRun\<close>: the reachable states of
    a peer and which frames crash. \<open>PeerServe\<close>: whole connections. \<open>PeerWire\<close>: what the
    handshake, transfers and flows do on the wire.
  \<^item> \<open>Config\<close>: defaults, file, environment and validation. \<open>Broker\<close> (\<open>snapshot.go\<close>, \<open>broker/runtime.go\<close>,
    \<open>worker/service.go\<close>, the settings of \<open>cmd/broker/main.go\<close>): the metadata file under failing calls, building
    and closing the runtime, restarts, sweeps.
  \<^item> \<open>Http\<close>, \<open>HttpProps\<close>, \<open>Grpc\<close>: the middleware, every handler of both interfaces, authorization, rate
    limit, safety of stored messages.
  \<^item> \<open>LogProps\<close>, \<open>System\<close>: the running broker. What the goroutines do (accepting a connection, its handshake,
    each of its frames, HTTP and gRPC calls, sweeps) are events on one state, in any order; the invariant
    of the whole and exactly which events crash it, isolation of connections, that no event loses a
    message or a body, and that the turns of a connection on its own amount to \<open>handle\<close>.
  \<^item> \<open>Run\<close> (\<open>cmd/broker/main.go\<close>, \<open>Start\<close> and \<open>Close\<close> of the servers): the process, from its configuration
    to its exit status; what is on disk then and what the next process finds.
  \<^item> \<open>Postgres\<close>, \<open>PostgresProps\<close> (\<open>postgres_message.go\<close>, \<open>postgres_address.go\<close>, \<open>migrations/001_initial.sql\<close>): the
    repositories on a database, the tables of the migration and the meaning of the statements on them, and
    the refinement of the memory store.
  \<^item> \<open>Client\<close>, \<open>ClientProps\<close>, \<open>ClientConsume\<close> (\<open>cmd/amqp-sim/main.go\<close>): the client, and the client and the server
    together, publishing and consuming. \<open>GrpcCheck\<close> (\<open>cmd/grpc-check/main.go\<close>): the gRPC client on the
    management server.
  \<^item> This theory: what switching anonymous access off in the configuration is worth on a connection.

  \<^bold>\<open>State.\<close> Every component is a record; an operation takes the state and returns it updated, with a
  result in a sum or option type, also when it fails half-way. Services that share a Go pointer share
  the record: the memory store and the log live in the delivery service, the delivery service in the
  AMQP server, the server in the runtime. Pointers into a registry are read with \<open>_Get\<close> and written back
  with \<open>_Set\<close>. A panic is an error of its own (\<open>nil_deref\<close>, an index out of range); one in the goroutine
  of a connection ends the process, with status 2. Locks make each operation of a store, a
  registry or a log atomic. The interleaving of goroutines is that of events: a frame, a request or a
  sweep is one event, so schedules that switch inside of one are not covered.

  \<^bold>\<open>What is proved.\<close> Per component: well-formedness and that every operation keeps it
  (\<open>topology_invariant\<close>, \<open>broker_invariant\<close>), the exact behaviour of the operations on
  their branches (\<open>Publish_delivers\<close>, \<open>Resolve_exact\<close>, \<open>Acquire_first\<close>, \<open>Commit_publishes\<close>,
  \<open>handshake_exact\<close>, \<open>transfer_stores\<close>, \<open>flow_transfers\<close>, \<open>postgres_queue\<close>), bounds (\<open>enforceMaxLength_bounds\<close>, \<open>rate_limit\<close>,
  \<open>Load_usable\<close>), round trips (frames, performatives, the log, restarts, addresses in PostgreSQL), refinement
  (\<open>postgres_refines_memory\<close>), and safety under any sequence of requests (\<open>acquire_unique\<close>, \<open>lease_fencing\<close>,
  \<open>peers_isolated\<close>, \<open>handle_releases\<close>).
  Across components: a message survives everything the broker does until it exits cleanly and is found
  by the next process (\<open>clean_exit_keeps_messages\<close>); a client that publishes, or consumes, and the server it
  talks to agree on a conversation at whose end the message is stored, or its body received
  (\<open>client_publishes\<close>, \<open>client_consumes\<close>: about the bytes each side reads and writes, not about progress).
  Where the code departs from its documentation the theorem states what the code does:
  \<open>Settle_never_succeeds\<close>, \<open>compaction_renumbers\<close>, \<open>process_crash_exact\<close>, \<open>login_without_credentials\<close>,
  \<open>grpc_auth_exact\<close>, \<open>idle_connection_loses_metadata\<close>, \<open>file_log_reopen\<close>.

  \<^bold>\<open>Loops.\<close> Loops over lists are structural. The value decoder is tied with fuel twice the remaining bytes
  plus one; every value consumes a byte, so the fuel is never used up and the decoder satisfies the
  recursion of the source (\<open>dec_value_recursion\<close>). The frame loop of a connection ends because every
  frame consumes input; the disposition loop because its counter, a 32-bit word, stops at its bound.

  \<^bold>\<open>Parameters.\<close> Clocks, random bytes, contexts, map orders (any permutation), the bytes of a socket and
  the error of its writes, failures of file system calls, the YAML and JSON libraries and
  \<open>time.ParseDuration\<close> are arguments; a theorem that relies on one says what it relies on. The database is
  an argument too: \<open>serves\<close> says that it gives each statement of the adapters its meaning on the tables,
  \<open>table_db\<close> is a database that does. What the operating system decides about a process (whether a listener
  opens, when the signal comes, what has stopped in time) is the record \<open>world\<close>.

  \<^bold>\<open>Not modelled.\<close> TLS and deadlines: a read that times out is a read that fails. The time between two
  ticks of the worker: a sweep may come at any moment. Memory: \<open>list32\<close> of the decoder reserves room for as
  many elements as a frame declares. The router and file server of \<open>net/http\<close> (what they answer for the
  console's files and for unknown paths is an argument), the wire formats of JSON, YAML and protobuf, the
  gRPC library with its reflection service, whose streaming methods the unary interceptor does not see:
  third-party or library code. The parsing of flags. Failing disks under the body log.
\<close>

section \<open>From the configuration to a connection\<close>

lemma Build_server:
  assumes "Build unmarshal io logerr rs ctx now settings d = Inr r"
  shows "sr_Auth (rt_AMQP r) = Some \<lparr>a_Username = '''', a_Password = '''', a_AllowAnonymous = se_AllowAnonymous settings\<rparr>"
  using assms by (auto simp: Build_def Let_def with_defaults_def split: prod.splits option.splits sum.splits)

lemma Build_frame:
  assumes "Build unmarshal io logerr rs ctx now settings d = Inr r" "512 \<le> se_MaxFrame settings"
  shows "512 \<le> sr_MaxFrame (rt_AMQP r)"
proof -
  have "se_MaxFrame settings \<noteq> 0" using assms(2) by auto
  then show ?thesis using Build_Inr [OF assms(1)] assms(2) by (auto simp: with_defaults_fields)
qed

lemma Load_anonymous: "se_AllowAnonymous (settings_of cfg) = au_AllowAnonymous (cf_Auth cfg)"
  by (simp add: settings_of_def)

lemma no_credentials:
  "(\<exists>i. Authenticate \<lparr>a_Username = '''', a_Password = '''', a_AllowAnonymous = False\<rparr> None mech resp = Inr i) \<longleftrightarrow>
     mech = ''PLAIN'' \<and> (\<exists>z. resp = z @ [0, 0] \<and> 0 \<notin> set z)"
proof -
  have "(\<exists>z. split_on 0 resp = [z, [], []]) \<longleftrightarrow> (\<exists>z. resp = z @ [0, 0] \<and> 0 \<notin> set z)"
    by (auto simp: split_on_three)
  then show ?thesis by (simp add: Authenticate_parts)
qed

text \<open>
  C21: what switching anonymous access off is worth. On a broker configured and built without anonymous
  access, a client with a working socket gets through the handshake exactly when it skips the SASL
  layer by sending the AMQP header first, or when it sends a SASL init for PLAIN with an empty user
  and an empty password (after any authorization identity) and then the AMQP header: the runtime
  builds its authenticator without credentials.
\<close>

theorem login_without_credentials:
  assumes "Load rf um pd env path = (None, cfg)" "\<not> au_AllowAnonymous (cf_Auth cfg)"
    and "Build unmarshal io logerr rs ctx now (settings_of cfg) d = Inr r"
    and "c = New_Connection cid remote (sr_MaxFrame (rt_AMQP r)) idle t" "nc_werr nc = None"
    and "sr_Auth s = sr_Auth (rt_AMQP r)"
  shows "(\<exists>q. handshake None (new_peer nc c s) = (None, q)) \<longleftrightarrow>
    (\<exists>rest. nc_in nc = AMQPHeader @ rest) \<or>
    (\<exists>rest frame ini n rest'. nc_in nc = SASLHeader @ rest \<and>
       ReadFrame rest (sr_MaxFrame (rt_AMQP r)) = Inr (frame, AMQPHeader @ rest') \<and>
       DecodePerformative (f_Body frame) = Inr (ini, n) \<and> p_Descriptor ini = DescriptorSASLInit \<and>
       Perf_String ini 0 = ''PLAIN'' \<and> (\<exists>z. Perf_Binary ini 1 = z @ [0, 0] \<and> 0 \<notin> set z))"
proof -
  let ?p = "new_peer nc c s"
  have auth: "sr_Auth s = Some \<lparr>a_Username = '''', a_Password = '''', a_AllowAnonymous = False\<rparr>"
    using Build_server [OF assms(3)] assms(2,6) by (simp add: Load_anonymous)
  have "usable cfg" using Load_cases [OF assms(1)] by (auto simp: Validate_usable)
  then have "512 \<le> se_MaxFrame (settings_of cfg)" by (simp add: usable_def settings_of_def)
  then have "512 \<le> sr_MaxFrame (rt_AMQP r)" by (rule Build_frame [OF assms(3)])
  then have g: "greeting ?p" using assms(4,5) by (simp add: greeting_def new_peer_def New_Connection_def)
  have "(\<exists>q. handshake None ?p = (None, q)) \<longleftrightarrow> (\<exists>i q. handshake None ?p = (None, q) \<and> pe_identity q = i)" by blast
  also have "\<dots> \<longleftrightarrow> (\<exists>rest. nc_in nc = AMQPHeader @ rest) \<or> (\<exists>rest i. nc_in nc = SASLHeader @ rest \<and> sasl_accepts None (set_in rest ?p) i)"
    unfolding handshake_iff [OF g] by (auto simp: new_peer_def)
  finally show ?thesis
    unfolding no_credentials [symmetric]
    by (simp add: sasl_accepts_def new_peer_def auth assms(4) New_Connection_def) blast
qed

section \<open>A broker without anonymous access\<close>

definition closed_env :: "string \<Rightarrow> string" where
  "closed_env k = (if k = ''BROKER_ALLOW_ANONYMOUS'' then ''false'' else '''')"

lemma closed_load:
  "\<exists>cfg. Load (\<lambda>_. Inl EOF) (\<lambda>_ c. (None, c)) (\<lambda>_. Inl EOF) closed_env '''' = (None, cfg) \<and> \<not> au_AllowAnonymous (cf_Auth cfg)"
proof -
  have "usable (override closed_env Default)"
    using Default_usable by (simp add: usable_def stringEnv_def intEnv_def uint32Env_def closed_env_def override_def Let_def)
  then show ?thesis
    by (simp add: Load_def read_config_def raw_duration_def Validate_usable [symmetric] Let_def)
       (simp add: Default_def override_def boolEnv_def closed_env_def ParseBool_def Let_def)
qed

lemma some_build: "\<exists>r. Build (\<lambda>_. Inl EOF) (\<lambda>_. None) None id_ranges None 1 settings empty_disk = Inr r"
  by (simp add: Build_def SnapshotFile_Load_def empty_disk_def empty_log Let_def)

theorem login_without_credentials_witness:
  "\<exists>cfg r. Load (\<lambda>_. Inl EOF) (\<lambda>_ c. (None, c)) (\<lambda>_. Inl EOF) closed_env '''' = (None, cfg) \<and> \<not> au_AllowAnonymous (cf_Auth cfg) \<and>
     Build (\<lambda>_. Inl EOF) (\<lambda>_. None) None id_ranges None 1 (settings_of cfg) empty_disk = Inr r \<and>
     (\<exists>q. handshake None (new_peer \<lparr>nc_in = AMQPHeader, nc_out = [], nc_werr = None, nc_remote = ''''\<rparr>
        (New_Connection ''conn'' '''' (sr_MaxFrame (rt_AMQP r)) 0 1) (rt_AMQP r)) = (None, q))"
proof -
  obtain cfg where l: "Load (\<lambda>_. Inl EOF) (\<lambda>_ c. (None, c)) (\<lambda>_. Inl EOF) closed_env '''' = (None, cfg)" "\<not> au_AllowAnonymous (cf_Auth cfg)"
    using closed_load by blast
  obtain r where b: "Build (\<lambda>_. Inl EOF) (\<lambda>_. None) None id_ranges None 1 (settings_of cfg) empty_disk = Inr r" using some_build by blast
  from login_without_credentials [OF l b refl, of "\<lparr>nc_in = AMQPHeader, nc_out = [], nc_werr = None, nc_remote = ''''\<rparr>"] l b
  show ?thesis by fastforce
qed

end
